(* ===== verification/Go_Prelude.thy ===== *)
theory Go_Prelude
  imports Main "HOL-Library.Word"
begin

text \<open>
  The shared base of the development: the part of the Go language and of its standard library
  that the modelled packages use, and the generic lemmas about it.

  A Go \<^verbatim>\<open>string\<close> or \<^verbatim>\<open>[]byte\<close> is a byte sequence, which is what an Isabelle \<^typ>\<open>string\<close>
  is (a list of 8-bit characters). \<open>to_lower\<close> is the ASCII path of \<^verbatim>\<open>strings.ToLower\<close>: it
  agrees with Go on every string of bytes below 128 (host names, ports and patterns are such
  strings) and leaves other bytes unchanged, where Go would also fold non-ASCII letters.
  An \<^verbatim>\<open>error\<close> result is an \<^typ>\<open>'e option\<close> (\<^term>\<open>None\<close> for \<^verbatim>\<open>nil\<close>) and a pair
  \<^verbatim>\<open>(T, error)\<close> is a sum \<^typ>\<open>'e + 'a\<close>.
\<close>

section \<open>Collections and type names\<close>

named_theorems go_defs \<open>definitions of the model that the component proofs unfold\<close>
named_theorems go_simps \<open>rewrite rules about the operations of the model\<close>

type_synonym uint16 = "16 word"
type_synonym uint32 = "32 word"
type_synonym uint64 = "64 word"
type_synonym byte = "8 word"

text \<open>The run-time panics of the language that the modelled code can raise.\<close>

datatype go_panic = IndexOutOfRange | SliceOutOfRange | MakeNegativeLen | DivideByZero | NilDereference | CloseOfClosedChannel | SendOnClosedChannel

section \<open>Package strings\<close>

text \<open>\<^verbatim>\<open>strings.Split(s, sep)\<close> with a one-byte separator.\<close>

fun split_on :: "char \<Rightarrow> string \<Rightarrow> string list" where
  "split_on c [] = [[]]"
| "split_on c (x # xs) =
     (if x = c then [] # split_on c xs
      else (case split_on c xs of [] \<Rightarrow> [[x]] | y # ys \<Rightarrow> (x # y) # ys))"

text \<open>\<^verbatim>\<open>strings.Join(ss, sep)\<close>.\<close>

fun join_with :: "string \<Rightarrow> string list \<Rightarrow> string" where
  "join_with sep [] = []"
| "join_with sep [s] = s"
| "join_with sep (s # t # ss) = s @ sep @ join_with sep (t # ss)"

definition ascii_lower :: "char \<Rightarrow> char" where
  "ascii_lower c =
     (if (65::nat) \<le> of_char c \<and> of_char c \<le> (90::nat) then char_of (of_char c + (32::nat)) else c)"

definition to_lower :: "string \<Rightarrow> string" where
  "to_lower s = map ascii_lower s"

text \<open>\<^verbatim>\<open>strings.LastIndex(s, c)\<close>, \<^term>\<open>None\<close> standing for -1.\<close>

fun last_index :: "char \<Rightarrow> string \<Rightarrow> nat option" where
  "last_index c [] = None"
| "last_index c (x # xs) =
     (case last_index c xs of Some i \<Rightarrow> Some (Suc i) | None \<Rightarrow> (if x = c then Some 0 else None))"

text \<open>\<^verbatim>\<open>strings.IndexByte(s, c)\<close>.\<close>

fun index_byte :: "char \<Rightarrow> string \<Rightarrow> nat option" where
  "index_byte c [] = None"
| "index_byte c (x # xs) = (if x = c then Some 0 else map_option Suc (index_byte c xs))"

definition contains_char :: "char \<Rightarrow> string \<Rightarrow> bool" where
  "contains_char c s = (c \<in> set s)"

definition has_prefix :: "string \<Rightarrow> string \<Rightarrow> bool" where
  "has_prefix p s = (take (length p) s = p)"

definition has_suffix :: "string \<Rightarrow> string \<Rightarrow> bool" where
  "has_suffix p s = (length p \<le> length s \<and> drop (length s - length p) s = p)"

definition trim_suffix :: "string \<Rightarrow> string \<Rightarrow> string" where
  "trim_suffix p s = (if has_suffix p s then take (length s - length p) s else s)"

definition trim_prefix :: "string \<Rightarrow> string \<Rightarrow> string" where
  "trim_prefix p s = (if has_prefix p s then drop (length p) s else s)"

text \<open>\<^verbatim>\<open>strings.Contains(s, t)\<close>.\<close>

fun contains_sub :: "string \<Rightarrow> string \<Rightarrow> bool" where
  "contains_sub t [] = (t = [])"
| "contains_sub t (x # xs) = (has_prefix t (x # xs) \<or> contains_sub t xs)"

text \<open>\<^verbatim>\<open>strings.Cut(s, c)\<close> with a one-byte separator: \<^term>\<open>None\<close> when the separator is absent.\<close>

fun cut_at :: "char \<Rightarrow> string \<Rightarrow> (string \<times> string) option" where
  "cut_at c [] = None"
| "cut_at c (x # xs) =
     (if x = c then Some ([], xs)
      else map_option (\<lambda>(a, b). (x # a, b)) (cut_at c xs))"

text \<open>The white space of ASCII text, and \<^verbatim>\<open>strings.TrimSpace\<close> on such text.\<close>

definition is_space :: "char \<Rightarrow> bool" where
  "is_space c = (c \<in> {CHR '' '', CHR 0x09, CHR 0x0A, CHR 0x0B, CHR 0x0C, CHR 0x0D})"

definition trim_space :: "string \<Rightarrow> string" where
  "trim_space s = rev (dropWhile is_space (rev (dropWhile is_space s)))"

definition newline :: char where "newline = CHR 0x0A"

text \<open>\<^verbatim>\<open>strings.SplitAfter(s, c)\<close> with a one-byte separator: every piece but the last ends with it.\<close>

definition split_after :: "char \<Rightarrow> string \<Rightarrow> string list" where
  "split_after c s = (let ps = split_on c s in map (\<lambda>p. p @ [c]) (butlast ps) @ [last ps])"

section \<open>Package strconv\<close>

definition is_digit :: "char \<Rightarrow> bool" where
  "is_digit c = ((48::nat) \<le> of_char c \<and> of_char c \<le> (57::nat))"

definition digit_val :: "char \<Rightarrow> int" where
  "digit_val c = int (of_char c) - 48"

definition digit_char :: "nat \<Rightarrow> char" where
  "digit_char n = char_of (n + 48)"

definition digits_val :: "string \<Rightarrow> int" where
  "digits_val s = foldl (\<lambda>n c. 10 * n + digit_val c) 0 s"

text \<open>
  \<^verbatim>\<open>strconv.ParseInt(s, 10, w)\<close> and, at 64 bits, \<^verbatim>\<open>strconv.Atoi\<close>: an optional sign, then at
  least one digit; \<^term>\<open>None\<close> is the syntax or the range error, whose value the callers ignore.
\<close>

definition parse_int :: "nat \<Rightarrow> string \<Rightarrow> int option" where
  "parse_int w s =
     (let (neg, ds) = (case s of
            [] \<Rightarrow> (False, [])
          | x # xs \<Rightarrow> (if x = CHR ''-'' then (True, xs)
                      else if x = CHR ''+'' then (False, xs) else (False, x # xs)))
      in if ds = [] \<or> \<not> list_all is_digit ds then None
         else if neg then (if digits_val ds \<le> 2 ^ (w - 1) then Some (- digits_val ds) else None)
         else (if digits_val ds < 2 ^ (w - 1) then Some (digits_val ds) else None))"

definition atoi :: "string \<Rightarrow> int option" where
  "atoi s = parse_int 64 s"

text \<open>
  \<^verbatim>\<open>strconv.ParseUint(s, 10, 64)\<close> as a caller that drops the error sees it: 0 after a syntax
  error and the maximal value after a range error.
\<close>

definition parse_uint64_value :: "string \<Rightarrow> uint64" where
  "parse_uint64_value s =
     (if s = [] \<or> \<not> list_all is_digit s then 0
      else if digits_val s < 2 ^ 64 then of_int (digits_val s) else - 1)"

text \<open>The decimal representation, as \<^verbatim>\<open>strconv.Itoa\<close> and the verb \<^verbatim>\<open>%d\<close> print it.\<close>

fun show_nat :: "nat \<Rightarrow> string" where
  "show_nat n = (if n < 10 then [digit_char n] else show_nat (n div 10) @ [digit_char (n mod 10)])"

declare show_nat.simps [simp del]

definition show_int :: "int \<Rightarrow> string" where
  "show_int i = (if i < 0 then CHR ''-'' # show_nat (nat (- i)) else show_nat (nat i))"

section \<open>Loops over slices\<close>

text \<open>The loop that returns the first error of a check over a slice.\<close>

fun first_error :: "('a \<Rightarrow> 'e option) \<Rightarrow> 'a list \<Rightarrow> 'e option" where
  "first_error f [] = None"
| "first_error f (x # xs) = (case f x of Some e \<Rightarrow> Some e | None \<Rightarrow> first_error f xs)"

text \<open>The loop that appends the elements not yet in a \<^verbatim>\<open>seen\<close> map.\<close>

fun dedup_onto :: "'a list \<Rightarrow> 'a list \<Rightarrow> 'a list" where
  "dedup_onto acc [] = acc"
| "dedup_onto acc (x # xs) = dedup_onto (if x \<in> set acc then acc else acc @ [x]) xs"

section \<open>Lemmas on strings\<close>

lemma split_on_nonempty [simp]: "split_on c s \<noteq> []"
  by (cases s) (auto split: list.splits)

lemma join_with_Cons: "ss \<noteq> [] \<Longrightarrow> join_with sep (s # ss) = s @ sep @ join_with sep ss"
  by (cases ss) auto

lemma join_split [simp]: "join_with [c] (split_on c s) = s"
proof (induction s)
  case (Cons x xs)
  obtain y ys where yys: "split_on c xs = y # ys" by (cases "split_on c xs") auto
  with Cons show ?case by (cases ys) auto
qed simp

lemma split_on_no_sep: "c \<notin> set s \<Longrightarrow> split_on c s = [s]"
  by (induction s) auto

lemma split_on_append_sep:
  "c \<notin> set s \<Longrightarrow> split_on c (s @ c # t) = s # split_on c t"
  by (induction s) auto

lemma split_join [simp]:
  assumes "ss \<noteq> []" and "\<And>s. s \<in> set ss \<Longrightarrow> c \<notin> set s"
  shows "split_on c (join_with [c] ss) = ss"
  using assms
proof (induction ss)
  case (Cons s ss)
  then show ?case
    by (cases ss) (auto simp: split_on_no_sep split_on_append_sep join_with_Cons)
qed simp

lemma split_on_set: "l \<in> set (split_on c s) \<Longrightarrow> c \<notin> set l"
  by (induction s arbitrary: l) (auto split: if_splits list.splits)

lemma split_on_chars: "l \<in> set (split_on c s) \<Longrightarrow> set l \<subseteq> set s"
proof (induction s arbitrary: l)
  case (Cons x xs)
  then show ?case by (fastforce split: if_splits list.splits)
qed simp

lemma split_on_eq_empty: "split_on c s = [[]] \<longleftrightarrow> s = []"
  by (cases s) (auto split: list.splits)

lemma split_on_append_sep_any: "split_on c (s @ c # t) = split_on c s @ split_on c t"
proof (induction s)
  case (Cons x xs)
  then show ?case by (cases "split_on c xs") auto
qed simp

lemma last_split_on: "c \<notin> set (last (split_on c s))"
  using split_on_set [of "last (split_on c s)" c s] by simp

lemma split_on_pieces:
  assumes "\<And>p. p \<in> set ps \<Longrightarrow> c \<notin> set p"
  shows "split_on c (concat (map (\<lambda>p. p @ [c]) ps) @ t) = ps @ split_on c t"
  using assms by (induction ps) (auto simp: split_on_append_sep)

lemma length_split_after [simp]: "length (split_after c s) = length (split_on c s)"
  by (simp add: split_after_def Let_def)

lemma length_to_lower [simp]: "length (to_lower s) = length s"
  by (simp add: to_lower_def)

lemma to_lower_Nil [simp]: "to_lower s = [] \<longleftrightarrow> s = []" "to_lower [] = []"
  by (simp_all add: to_lower_def)

lemma ascii_lower_idem [simp]: "ascii_lower (ascii_lower c) = ascii_lower c"
  by (auto simp: ascii_lower_def)

lemma to_lower_idem [simp]: "to_lower (to_lower s) = to_lower s"
  by (simp add: to_lower_def)

lemma ascii_lower_not_upper:
  "\<not> ((65::nat) \<le> of_char (ascii_lower c) \<and> of_char (ascii_lower c) \<le> (90::nat))"
  by (auto simp: ascii_lower_def)

lemma ascii_lower_eq_non_letter:
  assumes "\<not> ((65::nat) \<le> of_char d \<and> of_char d \<le> (90::nat))"
    and "\<not> ((97::nat) \<le> of_char d \<and> of_char d \<le> (122::nat))"
  shows "ascii_lower c = d \<longleftrightarrow> c = d"
  using assms by (auto simp: ascii_lower_def split: if_splits)

lemma ascii_lower_symbols [simp]:
  "ascii_lower c = CHR ''.'' \<longleftrightarrow> c = CHR ''.''"
  "ascii_lower c = CHR ''*'' \<longleftrightarrow> c = CHR ''*''"
  "ascii_lower c = CHR '':'' \<longleftrightarrow> c = CHR '':''"
  "ascii_lower c = CHR '' '' \<longleftrightarrow> c = CHR '' ''"
  by (simp_all add: ascii_lower_eq_non_letter)

lemma split_on_to_lower:
  assumes "\<And>c. ascii_lower c = d \<longleftrightarrow> c = d"
  shows "split_on d (to_lower s) = map to_lower (split_on d s)"
proof (induction s)
  case (Cons x xs)
  have "ascii_lower x = d \<longleftrightarrow> x = d" by (rule assms)
  with Cons show ?case
    by (auto simp: to_lower_def split: list.splits)
qed simp

lemma split_on_dot_to_lower [simp]:
  "split_on CHR ''.'' (to_lower s) = map to_lower (split_on CHR ''.'' s)"
  by (rule split_on_to_lower) simp

lemma last_index_None: "last_index c s = None \<longleftrightarrow> c \<notin> set s"
  by (induction s) (auto split: option.splits)

lemma last_index_Some:
  "last_index c s = Some i \<longleftrightarrow>
     i < length s \<and> s ! i = c \<and> c \<notin> set (drop (Suc i) s)"
proof (induction s arbitrary: i)
  case (Cons x xs)
  show ?case
  proof (cases i)
    case 0
    then show ?thesis
      by (cases "last_index c xs")
        (use last_index_None [of c xs] in auto)
  next
    case (Suc j)
    with Cons.IH [of j] show ?thesis by (auto simp: last_index_None split: option.splits)
  qed
qed simp

lemma last_index_append: "c \<notin> set t \<Longrightarrow> last_index c (s @ c # t) = Some (length s)"
  by (simp add: last_index_Some)

lemma last_sep_unique:
  fixes c :: char
  assumes "a @ c # p = b @ c # q" and "c \<notin> set p" and "c \<notin> set q"
  shows "a = b \<and> p = q"
proof -
  have "length a = length b"
    using assms last_index_append [of c p a] last_index_append [of c q b] by simp
  with assms(1) show ?thesis by simp
qed

lemma has_prefix_append [simp]: "has_prefix p (p @ s)"
  by (simp add: has_prefix_def)

lemma has_prefix_iff: "has_prefix p s \<longleftrightarrow> (\<exists>t. s = p @ t)"
  by (metis append_take_drop_id has_prefix_append has_prefix_def)

lemma has_suffix_iff: "has_suffix p s \<longleftrightarrow> (\<exists>t. s = t @ p)"
proof
  assume "has_suffix p s"
  then have "s = take (length s - length p) s @ p"
    by (metis append_take_drop_id has_suffix_def)
  then show "\<exists>t. s = t @ p" ..
qed (auto simp: has_suffix_def)

lemma trim_suffix_append [simp]: "trim_suffix p (s @ p) = s"
  by (simp add: trim_suffix_def has_suffix_def)

lemma contains_sub_prefix: "has_prefix t s \<Longrightarrow> contains_sub t s"
  by (cases s) (auto simp: has_prefix_def)

lemma contains_sub_append: "contains_sub t s \<Longrightarrow> contains_sub t (r @ s)"
  by (induction r) auto

lemma contains_sub_middle [simp]: "contains_sub t (r @ t @ s)"
  by (simp add: contains_sub_append contains_sub_prefix)

lemma cut_at_Some: "cut_at c s = Some (a, b) \<longleftrightarrow> s = a @ c # b \<and> c \<notin> set a"
proof (induction s arbitrary: a)
  case (Cons x xs)
  then show ?case by (cases a) auto
qed simp

lemma cut_at_None: "cut_at c s = None \<longleftrightarrow> c \<notin> set s"
  by (induction s) auto

lemma trim_space_word:
  assumes "w \<noteq> []" and "\<not> is_space (hd w)" and "\<not> is_space (last w)" and "\<forall>c\<in>set a. is_space c" and "\<forall>c\<in>set b. is_space c"
  shows "trim_space (a @ w @ b) = w"
proof -
  have drop: "dropWhile is_space (a @ v) = v" if "v \<noteq> []" "\<not> is_space (hd v)" "\<forall>c\<in>set a. is_space c" for a v
    using that by (cases v) (simp_all add: dropWhile_append2)
  have "dropWhile is_space (a @ w @ b) = w @ b" using drop [of "w @ b" a] assms by simp
  moreover have "dropWhile is_space (rev b @ rev w) = rev w"
    using drop [of "rev w" "rev b"] assms by (simp add: hd_rev)
  ultimately show ?thesis by (simp add: trim_space_def)
qed

section \<open>Lemmas on numbers\<close>

lemma is_digit_digit_char: "n < 10 \<Longrightarrow> is_digit (digit_char n)"
  by (simp add: is_digit_def digit_char_def)

lemma digit_val_digit_char: "n < 10 \<Longrightarrow> digit_val (digit_char n) = int n"
  by (simp add: digit_val_def digit_char_def)

lemma digits_val_snoc: "digits_val (s @ [c]) = 10 * digits_val s + digit_val c"
  by (simp add: digits_val_def)

lemma show_nat_digits: "list_all is_digit (show_nat n)"
proof (induction n rule: show_nat.induct)
  case (1 n)
  then show ?case
    by (subst show_nat.simps) (auto simp: is_digit_digit_char)
qed

lemma show_nat_nonempty [simp]: "show_nat n \<noteq> []"
  by (subst show_nat.simps) simp

lemma digits_val_show_nat [simp]: "digits_val (show_nat n) = int n"
proof (induction n rule: show_nat.induct)
  case (1 n)
  show ?case
  proof (cases "n < 10")
    case True
    then show ?thesis by (subst show_nat.simps) (simp add: digits_val_def digit_val_digit_char)
  next
    case False
    with 1 have "digits_val (show_nat n) = 10 * int (n div 10) + int (n mod 10)"
      by (subst show_nat.simps) (simp add: digits_val_snoc digit_val_digit_char)
    also have "\<dots> = int n" by presburger
    finally show ?thesis .
  qed
qed

lemma inj_show_nat: "inj show_nat"
  by (rule injI) (metis digits_val_show_nat of_nat_eq_iff)

lemma show_nat_eq_iff [simp]: "show_nat m = show_nat n \<longleftrightarrow> m = n"
  using inj_show_nat by (auto dest: injD)

lemma is_digit_not_sign: "is_digit c \<Longrightarrow> c \<noteq> CHR ''-'' \<and> c \<noteq> CHR ''+''"
  by (auto simp: is_digit_def)

lemma parse_int_digits:
  assumes "s \<noteq> []" and "list_all is_digit s" and "digits_val s < 2 ^ (w - 1)"
  shows "parse_int w s = Some (digits_val s)"
proof -
  obtain x xs where s: "s = x # xs" using assms(1) by (cases s) auto
  with assms(2) have "x \<noteq> CHR ''-''" "x \<noteq> CHR ''+''" by (auto dest: is_digit_not_sign)
  with assms s show ?thesis by (simp add: parse_int_def)
qed

lemma atoi_show_nat: "int n < 2 ^ 63 \<Longrightarrow> atoi (show_nat n) = Some (int n)"
  by (simp add: atoi_def parse_int_digits show_nat_digits)

section \<open>Lemmas on slices\<close>

lemma take_drop_append [simp]: "take n xs @ drop n xs @ ys = xs @ ys"
  by (metis append.assoc append_take_drop_id)

lemma first_error_None: "first_error f xs = None \<longleftrightarrow> (\<forall>x\<in>set xs. f x = None)"
  by (induction xs) (auto split: option.splits)

lemma dedup_onto_set [simp]: "set (dedup_onto acc xs) = set acc \<union> set xs"
  by (induction xs arbitrary: acc) auto

lemma dedup_onto_distinct [simp]: "distinct acc \<Longrightarrow> distinct (dedup_onto acc xs)"
  by (induction xs arbitrary: acc) auto

lemma dedup_onto_append: "dedup_onto acc (xs @ ys) = dedup_onto (dedup_onto acc xs) ys"
  by (induction xs arbitrary: acc) auto

lemma dedup_onto_prefix: "\<exists>ys. dedup_onto acc xs = acc @ ys \<and> set ys \<subseteq> set xs"
proof (induction xs arbitrary: acc)
  case (Cons x xs)
  show ?case
  proof (cases "x \<in> set acc")
    case True
    with Cons [of acc] show ?thesis by auto
  next
    case False
    from Cons [of "acc @ [x]"] obtain ys where "dedup_onto (acc @ [x]) xs = (acc @ [x]) @ ys"
      and "set ys \<subseteq> set xs" by blast
    with False show ?thesis by (intro exI [of _ "x # ys"]) auto
  qed
qed simp

lemma dedup_onto_id: "distinct (acc @ xs) \<Longrightarrow> dedup_onto acc xs = acc @ xs"
  by (induction xs arbitrary: acc) auto

end
