(* ===== verification/Allowlist.thy ===== *)
theory Allowlist
  imports Go_Prelude
begin

text \<open>
  The domain allowlists of the filtering proxy, \<^verbatim>\<open>proxy/allowlist.go\<close>: domain patterns and their
  matching, parsing and validation of \<^verbatim>\<open>domain:port\<close> and \<^verbatim>\<open>domain\<close> entries, and the two lists
  (HTTP and DNS) with their constructors, \<^verbatim>\<open>Add\<close> and \<^verbatim>\<open>Allows\<close>. A list is modelled by the
  slice its atomic pointer refers to; the compare-and-swap loop of \<^verbatim>\<open>Add\<close> under concurrent
  callers is the subject of theory \<open>Allowlist_CAS\<close>.

  The reference semantics is \<open>label_glob\<close>, the language of label patterns in which
  \<^verbatim>\<open>*\<close> stands for one label and \<^verbatim>\<open>**\<close> for one or more.
\<close>

section \<open>Domain patterns\<close>

record domainPattern =
  dp_labels :: "string list"
  dp_doubleStarIdx :: int

fun double_star_index :: "int \<Rightarrow> string list \<Rightarrow> int" where
  "double_star_index i [] = - 1"
| "double_star_index i (l # ls) = (if l = ''**'' then i else double_star_index (i + 1) ls)"

definition parseDomainPattern :: "string \<Rightarrow> domainPattern" where
  "parseDomainPattern pattern =
     (if pattern = [] then \<lparr>dp_labels = [], dp_doubleStarIdx = - 1\<rparr>
      else let labels = split_on CHR ''.'' (to_lower pattern)
           in \<lparr>dp_labels = labels, dp_doubleStarIdx = double_star_index 0 labels\<rparr>)"

definition labelMatches :: "string \<Rightarrow> string \<Rightarrow> bool" where
  "labelMatches pattern label = (if pattern = ''*'' then True else pattern = label)"

text \<open>
  The loop \<^verbatim>\<open>for i, pl := range pats\<close> that compares \<^verbatim>\<open>pl\<close> with the label at index \<^verbatim>\<open>i\<close>. Both
  callers check first that there are at least as many labels as patterns, so the last equation
  (an index out of range) is never reached.
\<close>

fun labels_match :: "string list \<Rightarrow> string list \<Rightarrow> bool" where
  "labels_match [] hs = True"
| "labels_match (p # ps) (h # hs) = (if \<not> labelMatches p h then False else labels_match ps hs)"
| "labels_match (p # ps) [] = False"

definition dp_matches :: "domainPattern \<Rightarrow> string \<Rightarrow> bool" where
  "dp_matches p host =
     (if dp_labels p = [] \<or> host = [] then False
      else let hostLabels = split_on CHR ''.'' (to_lower host) in
        if 0 \<le> dp_doubleStarIdx p then
          let prefix = take (nat (dp_doubleStarIdx p)) (dp_labels p);
              suffix = drop (nat (dp_doubleStarIdx p) + 1) (dp_labels p);
              minLabels = length prefix + length suffix + 1
          in if length hostLabels < minLabels then False
             else if \<not> labels_match prefix hostLabels then False
             else labels_match suffix (drop (length hostLabels - length suffix) hostLabels)
        else if length (dp_labels p) \<noteq> length hostLabels then False
        else labels_match (dp_labels p) hostLabels)"

definition portMatches :: "string \<Rightarrow> string \<Rightarrow> bool" where
  "portMatches pattern port = (if pattern = ''*'' then True else pattern = port)"

section \<open>Validation\<close>

datatype allow_error =
    EmptyDomain
  | EmptyLabel
  | MixedStar string
  | ManyDoubleStars
  | BareStar string
  | EmptyEntry
  | ExpectedDomainPort string
  | ColonInDomain string
  | SpaceInEntry string
  | BadPort string
  | PortInDNSEntry string
  | InvalidEntry string allow_error

text \<open>The loop over the labels of \<^verbatim>\<open>validateDomainPattern\<close>, counting the \<^verbatim>\<open>**\<close> labels.\<close>

fun check_labels :: "string list \<Rightarrow> nat \<Rightarrow> allow_error + nat" where
  "check_labels [] n = Inr n"
| "check_labels (l # ls) n =
     (if l = [] then Inl EmptyLabel
      else if l = ''**'' then check_labels ls (n + 1)
      else if l = ''*'' then check_labels ls n
      else if contains_char CHR ''*'' l then Inl (MixedStar l)
      else check_labels ls n)"

definition validateDomainPattern :: "string \<Rightarrow> allow_error option" where
  "validateDomainPattern domain =
     (if domain = [] then Some EmptyDomain
      else let labels = split_on CHR ''.'' domain in
        case check_labels labels 0 of
          Inl e \<Rightarrow> Some e
        | Inr doubleStarCount \<Rightarrow>
            (if doubleStarCount > 1 then Some ManyDoubleStars
             else if length labels = 1 \<and> (labels ! 0 = ''*'' \<or> labels ! 0 = ''**'')
             then Some (BareStar (labels ! 0))
             else None))"

definition ValidateHTTPEntry :: "string \<Rightarrow> allow_error option" where
  "ValidateHTTPEntry entry =
     (if entry = [] then Some EmptyEntry
      else case last_index CHR '':'' entry of
        None \<Rightarrow> Some (ExpectedDomainPort entry)
      | Some idx \<Rightarrow>
          (if idx = 0 \<or> idx = length entry - 1 then Some (ExpectedDomainPort entry)
           else let domain = take idx entry; port = drop (idx + 1) entry in
             if contains_char CHR '':'' domain then Some (ColonInDomain entry)
             else if contains_char CHR '' '' domain \<or> contains_char CHR '' '' port
             then Some (SpaceInEntry entry)
             else case validateDomainPattern domain of
               Some e \<Rightarrow> Some (InvalidEntry entry e)
             | None \<Rightarrow>
                 (if port \<noteq> ''*'' \<and> \<not> list_all is_digit port then Some (BadPort entry) else None)))"

definition ValidateHTTPEntries :: "string list \<Rightarrow> allow_error option" where
  "ValidateHTTPEntries entries = first_error ValidateHTTPEntry entries"

definition ValidateDNSEntry :: "string \<Rightarrow> allow_error option" where
  "ValidateDNSEntry entry =
     (if entry = [] then Some EmptyEntry
      else if contains_char CHR '':'' entry then Some (PortInDNSEntry entry)
      else if contains_char CHR '' '' entry then Some (SpaceInEntry entry)
      else case validateDomainPattern entry of
        Some e \<Rightarrow> Some (InvalidEntry entry e)
      | None \<Rightarrow> None)"

definition ValidateDNSEntries :: "string list \<Rightarrow> allow_error option" where
  "ValidateDNSEntries entries = first_error ValidateDNSEntry entries"

section \<open>The HTTP allowlist\<close>

record HTTPRule =
  hr_domain :: domainPattern
  hr_port :: string

type_synonym HTTPAllowlist = "HTTPRule list"

definition parseHTTPRule :: "string \<Rightarrow> HTTPRule" where
  "parseHTTPRule entry =
     (case last_index CHR '':'' entry of
        Some idx \<Rightarrow>
          (if idx > 0
           then \<lparr>hr_domain = parseDomainPattern (take idx entry), hr_port = drop (idx + 1) entry\<rparr>
           else \<lparr>hr_domain = parseDomainPattern entry, hr_port = []\<rparr>)
      | None \<Rightarrow> \<lparr>hr_domain = parseDomainPattern entry, hr_port = []\<rparr>)"

definition NewHTTPAllowlist :: "string list \<Rightarrow> allow_error + HTTPAllowlist" where
  "NewHTTPAllowlist entries =
     (case ValidateHTTPEntries entries of
        Some err \<Rightarrow> Inl err
      | None \<Rightarrow> Inr (map parseHTTPRule entries))"

definition HTTPAllowlist_Add :: "HTTPAllowlist \<Rightarrow> string list \<Rightarrow> allow_error + HTTPAllowlist" where
  "HTTPAllowlist_Add al entries =
     (case ValidateHTTPEntries entries of
        Some err \<Rightarrow> Inl err
      | None \<Rightarrow> Inr (al @ map parseHTTPRule entries))"

definition HTTPAllowlist_Allows :: "HTTPAllowlist \<Rightarrow> string \<Rightarrow> string \<Rightarrow> bool" where
  "HTTPAllowlist_Allows al host port =
     (if host = [] then False
      else list_ex (\<lambda>r. portMatches (hr_port r) port \<and> dp_matches (hr_domain r) host) al)"

section \<open>The DNS allowlist\<close>

record DNSRule =
  dr_domain :: domainPattern

type_synonym DNSAllowlist = "DNSRule list"

definition parseDNSRule :: "string \<Rightarrow> DNSRule" where
  "parseDNSRule entry = \<lparr>dr_domain = parseDomainPattern entry\<rparr>"

definition NewDNSAllowlist :: "string list \<Rightarrow> allow_error + DNSAllowlist" where
  "NewDNSAllowlist entries =
     (case ValidateDNSEntries entries of
        Some err \<Rightarrow> Inl err
      | None \<Rightarrow> Inr (map parseDNSRule entries))"

definition DNSAllowlist_Add :: "DNSAllowlist \<Rightarrow> string list \<Rightarrow> allow_error + DNSAllowlist" where
  "DNSAllowlist_Add al entries =
     (case ValidateDNSEntries entries of
        Some err \<Rightarrow> Inl err
      | None \<Rightarrow> Inr (al @ map parseDNSRule entries))"

definition DNSAllowlist_Allows :: "DNSAllowlist \<Rightarrow> string \<Rightarrow> bool" where
  "DNSAllowlist_Allows al host =
     (if host = [] then False else list_ex (\<lambda>r. dp_matches (dr_domain r) host) al)"

section \<open>Reference semantics\<close>

inductive label_glob :: "string list \<Rightarrow> string list \<Rightarrow> bool" where
  glob_nil: "label_glob [] []"
| glob_literal: "p \<noteq> ''*'' \<Longrightarrow> p \<noteq> ''**'' \<Longrightarrow> label_glob ps hs \<Longrightarrow> label_glob (p # ps) (p # hs)"
| glob_star: "label_glob ps hs \<Longrightarrow> label_glob (''*'' # ps) (h # hs)"
| glob_last: "label_glob ps hs \<Longrightarrow> label_glob (''**'' # ps) (h # hs)"
| glob_more: "label_glob (''**'' # ps) hs \<Longrightarrow> label_glob (''**'' # ps) (h # hs)"

inductive_simps label_glob_Nil [simp]: "label_glob [] hs"
inductive_simps label_glob_Cons: "label_glob (p # ps) hs"

text \<open>What a domain pattern admits, on names compared without regard to (ASCII) case.\<close>

definition domain_admits :: "string \<Rightarrow> string \<Rightarrow> bool" where
  "domain_admits d host \<longleftrightarrow>
     host \<noteq> [] \<and> label_glob (split_on CHR ''.'' (to_lower d)) (split_on CHR ''.'' (to_lower host))"

definition http_entry_admits :: "string \<Rightarrow> string \<times> string \<Rightarrow> bool" where
  "http_entry_admits entry hp \<longleftrightarrow>
     (\<exists>d prt. entry = d @ CHR '':'' # prt \<and> CHR '':'' \<notin> set prt
        \<and> (prt = ''*'' \<or> prt = snd hp) \<and> domain_admits d (fst hp))"

text \<open>The well-formed patterns: no empty label, stars only as whole labels, at most one \<^verbatim>\<open>**\<close>, not a bare star.\<close>

definition valid_domain :: "string \<Rightarrow> bool" where
  "valid_domain d \<longleftrightarrow>
     (\<forall>l\<in>set (split_on CHR ''.'' d). l \<noteq> [] \<and> (CHR ''*'' \<in> set l \<longrightarrow> l = ''*'' \<or> l = ''**''))
     \<and> count_list (split_on CHR ''.'' d) ''**'' \<le> 1 \<and> d \<noteq> ''*'' \<and> d \<noteq> ''**''"

definition valid_http_entry :: "string \<Rightarrow> bool" where
  "valid_http_entry entry \<longleftrightarrow>
     (\<exists>d prt. entry = d @ CHR '':'' # prt \<and> valid_domain d \<and> CHR '':'' \<notin> set d \<and> CHR '' '' \<notin> set d
        \<and> (prt = ''*'' \<or> prt \<noteq> [] \<and> list_all is_digit prt))"

text \<open>A history of \<^verbatim>\<open>Add\<close> calls, a rejected call leaving the list as it is.\<close>

fun HTTPAllowlist_adds :: "HTTPAllowlist \<Rightarrow> string list list \<Rightarrow> HTTPAllowlist" where
  "HTTPAllowlist_adds al [] = al"
| "HTTPAllowlist_adds al (es # ess) =
     HTTPAllowlist_adds (case HTTPAllowlist_Add al es of Inl _ \<Rightarrow> al | Inr al' \<Rightarrow> al') ess"

fun DNSAllowlist_adds :: "DNSAllowlist \<Rightarrow> string list list \<Rightarrow> DNSAllowlist" where
  "DNSAllowlist_adds al [] = al"
| "DNSAllowlist_adds al (es # ess) =
     DNSAllowlist_adds (case DNSAllowlist_Add al es of Inl _ \<Rightarrow> al | Inr al' \<Rightarrow> al') ess"

section \<open>Matching is the glob language\<close>

lemma labels_match_iff:
  "length ps \<le> length hs \<Longrightarrow>
     labels_match ps hs \<longleftrightarrow> (\<forall>i < length ps. ps ! i = ''*'' \<or> ps ! i = hs ! i)"
proof (induction ps hs rule: labels_match.induct)
  case (2 p ps h hs)
  then show ?case by (auto simp: labelMatches_def less_Suc_eq_0_disj)
qed auto

lemma label_glob_length: "label_glob ps hs \<Longrightarrow> length ps \<le> length hs"
  by (induction rule: label_glob.induct) auto

lemma label_glob_plain_Cons:
  assumes "p \<noteq> ''**''"
  shows "label_glob (p # ps) hs \<longleftrightarrow> (\<exists>h hs'. hs = h # hs' \<and> labelMatches p h \<and> label_glob ps hs')"
  using assms by (subst label_glob_Cons) (auto simp: labelMatches_def)

lemma label_glob_literals_append:
  "''**'' \<notin> set ps \<Longrightarrow>
     label_glob (ps @ qs) hs \<longleftrightarrow>
     length ps \<le> length hs \<and> labels_match ps hs \<and> label_glob qs (drop (length ps) hs)"
proof (induction ps arbitrary: hs)
  case (Cons p ps)
  have p: "p \<noteq> ''**''" and ps: "''**'' \<notin> set ps"
    using Cons.prems by (metis list.set_intros(1), metis list.set_intros(2))
  show ?case
    by (cases hs) (simp_all add: label_glob_plain_Cons [OF p] Cons.IH [OF ps])
qed simp

lemma label_glob_literals:
  "''**'' \<notin> set ps \<Longrightarrow> label_glob ps hs \<longleftrightarrow> length ps = length hs \<and> labels_match ps hs"
  using label_glob_literals_append [of ps "[]" hs] by auto

lemma label_glob_double_star:
  "label_glob (''**'' # ps) hs \<longleftrightarrow> (\<exists>k. 0 < k \<and> k \<le> length hs \<and> label_glob ps (drop k hs))"
proof (induction hs)
  case (Cons h hs)
  have "label_glob (''**'' # ps) (h # hs) \<longleftrightarrow> label_glob ps hs \<or> label_glob (''**'' # ps) hs"
    by (subst label_glob_Cons) auto
  also have "\<dots> \<longleftrightarrow> (\<exists>k. k \<le> length hs \<and> label_glob ps (drop k hs))"
    using Cons.IH by (metis drop0 gr0I le0)
  also have "\<dots> \<longleftrightarrow> (\<exists>k. 0 < k \<and> k \<le> length (h # hs) \<and> label_glob ps (drop k (h # hs)))"
    by (metis Suc_le_mono Suc_pred drop_Suc_Cons length_Cons zero_less_Suc)
  finally show ?case .
qed (subst label_glob_Cons, simp)

lemma label_glob_double_star_literals:
  assumes "''**'' \<notin> set qs"
  shows "label_glob (''**'' # qs) hs \<longleftrightarrow>
    length qs < length hs \<and> labels_match qs (drop (length hs - length qs) hs)"
  unfolding label_glob_double_star label_glob_literals [OF assms] length_drop
proof
  assume "\<exists>k>0. k \<le> length hs \<and> length qs = length hs - k \<and> labels_match qs (drop k hs)"
  then obtain k where k: "0 < k" "k \<le> length hs" "length qs = length hs - k"
    and m: "labels_match qs (drop k hs)" by blast
  have "k = length hs - length qs" "length qs < length hs" using k by linarith+
  with m show "length qs < length hs \<and> labels_match qs (drop (length hs - length qs) hs)" by metis
next
  assume "length qs < length hs \<and> labels_match qs (drop (length hs - length qs) hs)"
  then show "\<exists>k>0. k \<le> length hs \<and> length qs = length hs - k \<and> labels_match qs (drop k hs)"
    by (intro exI [of _ "length hs - length qs"]) simp
qed

lemma label_glob_split:
  assumes "''**'' \<notin> set ps" and "''**'' \<notin> set qs"
  shows "label_glob (ps @ ''**'' # qs) hs \<longleftrightarrow>
    length ps + length qs + 1 \<le> length hs \<and> labels_match ps hs
    \<and> labels_match qs (drop (length hs - length qs) hs)"
proof -
  let ?hs = "drop (length ps) hs"
  have "label_glob (ps @ ''**'' # qs) hs \<longleftrightarrow>
      length ps \<le> length hs \<and> labels_match ps hs
      \<and> length qs < length ?hs \<and> labels_match qs (drop (length ?hs - length qs) ?hs)"
    by (simp only: label_glob_literals_append [OF assms(1)]
        label_glob_double_star_literals [OF assms(2)])
  moreover have "length ps \<le> length hs \<and> length qs < length ?hs \<longleftrightarrow>
      length ps + length qs + 1 \<le> length hs"
    by auto
  moreover have "length qs < length ?hs \<Longrightarrow>
      drop (length ?hs - length qs) ?hs = drop (length hs - length qs) hs" by simp
  ultimately show ?thesis by metis
qed

lemma double_star_index_none: "''**'' \<notin> set ls \<Longrightarrow> double_star_index i ls = - 1"
  by (induction ls arbitrary: i) auto

lemma double_star_index_split:
  "''**'' \<notin> set ps \<Longrightarrow> double_star_index i (ps @ ''**'' # qs) = i + int (length ps)"
  by (induction ps arbitrary: i) auto

lemma to_lower_stars [simp]: "to_lower l = ''**'' \<longleftrightarrow> l = ''**''" "to_lower l = ''*'' \<longleftrightarrow> l = ''*''"
  by (auto simp: to_lower_def map_eq_Cons_conv)

lemma stars_to_lower [simp]: "''**'' = to_lower l \<longleftrightarrow> l = ''**''" "''*'' = to_lower l \<longleftrightarrow> l = ''*''"
  by (metis to_lower_stars)+

lemma double_star_in_lower [simp]: "''**'' \<in> to_lower ` A \<longleftrightarrow> ''**'' \<in> A"
  by force

lemma count_list_to_lower: "count_list (map to_lower ls) ''**'' = count_list ls ''**''"
  by (induction ls) auto

lemma dp_matches_literal_labels:
  assumes "ls \<noteq> []" and "''**'' \<notin> set ls"
  shows "dp_matches \<lparr>dp_labels = ls, dp_doubleStarIdx = double_star_index 0 ls\<rparr> host \<longleftrightarrow>
    host \<noteq> [] \<and> label_glob ls (split_on CHR ''.'' (to_lower host))"
  unfolding dp_matches_def label_glob_literals [OF assms(2)] double_star_index_none [OF assms(2)]
  using assms(1) by (simp add: Let_def)

lemma dp_matches_double_star_labels:
  assumes "''**'' \<notin> set ps" and "''**'' \<notin> set qs"
  shows "dp_matches \<lparr>dp_labels = ps @ ''**'' # qs,
                     dp_doubleStarIdx = double_star_index 0 (ps @ ''**'' # qs)\<rparr> host \<longleftrightarrow>
    host \<noteq> [] \<and> label_glob (ps @ ''**'' # qs) (split_on CHR ''.'' (to_lower host))"
  unfolding dp_matches_def label_glob_split [OF assms] double_star_index_split [OF assms(1)]
  by (simp add: Let_def not_less)

text \<open>Matching a pattern with at most one \<^verbatim>\<open>**\<close> is membership in its glob language.\<close>

lemma dp_matches_glob:
  assumes "d \<noteq> []" and "count_list (split_on CHR ''.'' d) ''**'' \<le> 1"
  shows "dp_matches (parseDomainPattern d) host \<longleftrightarrow> domain_admits d host"
proof -
  define ls where "ls = split_on CHR ''.'' (to_lower d)"
  have ne: "ls \<noteq> []" by (simp add: ls_def)
  have cnt: "count_list ls ''**'' \<le> 1"
    using assms(2) by (simp add: ls_def count_list_to_lower)
  have "dp_matches \<lparr>dp_labels = ls, dp_doubleStarIdx = double_star_index 0 ls\<rparr> host \<longleftrightarrow>
      host \<noteq> [] \<and> label_glob ls (split_on CHR ''.'' (to_lower host))"
  proof (cases "''**'' \<in> set ls")
    case True
    then obtain ps qs where ls: "ls = ps @ ''**'' # qs" and ps: "''**'' \<notin> set ps"
      by (meson split_list_first)
    with cnt have "''**'' \<notin> set qs" by (simp add: count_list_0_iff)
    with ps show ?thesis unfolding ls by (rule dp_matches_double_star_labels)
  next
    case False
    with ne show ?thesis by (rule dp_matches_literal_labels)
  qed
  then show ?thesis
    using assms(1) by (simp add: parseDomainPattern_def domain_admits_def ls_def Let_def)
qed

section \<open>Validation accepts exactly the well-formed entries\<close>

lemma check_labels_Inr:
  "check_labels ls n = Inr m \<longleftrightarrow>
     m = n + count_list ls ''**''
     \<and> (\<forall>l\<in>set ls. l \<noteq> [] \<and> (CHR ''*'' \<in> set l \<longrightarrow> l = ''*'' \<or> l = ''**''))"
  by (induction ls arbitrary: n) (auto simp: contains_char_def)

lemma split_on_singleton: "split_on c s = [l] \<longleftrightarrow> s = l \<and> c \<notin> set s"
  by (metis join_split join_with.simps(2) list.set_intros(1) split_on_no_sep split_on_set)

lemma bare_star_iff:
  assumes "''*'' = l \<or> ''**'' = l"
  shows "(length (split_on CHR ''.'' d) = 1 \<and> split_on CHR ''.'' d ! 0 = l) \<longleftrightarrow> d = l"
proof -
  have "CHR ''.'' \<notin> set l" using assms by auto
  then show ?thesis
    by (metis One_nat_def length_0_conv length_Suc_conv nth_Cons_0 split_on_singleton)
qed

lemma validateDomainPattern_None: "validateDomainPattern d = None \<longleftrightarrow> valid_domain d"
proof (cases "d = []")
  case True
  then show ?thesis by (simp add: validateDomainPattern_def valid_domain_def)
next
  case False
  have bare: "(length (split_on CHR ''.'' d) = 1 \<and>
      (split_on CHR ''.'' d ! 0 = ''*'' \<or> split_on CHR ''.'' d ! 0 = ''**'')) \<longleftrightarrow> d = ''*'' \<or> d = ''**''"
    using bare_star_iff [of "''*''" d] bare_star_iff [of "''**''" d] by blast
  show ?thesis
  proof (cases "check_labels (split_on CHR ''.'' d) 0")
    case (Inl e)
    then have "\<not> (\<forall>l\<in>set (split_on CHR ''.'' d). l \<noteq> [] \<and>
        (CHR ''*'' \<in> set l \<longrightarrow> l = ''*'' \<or> l = ''**''))"
      using check_labels_Inr [of "split_on CHR ''.'' d" 0 "count_list (split_on CHR ''.'' d) ''**''"]
      by auto
    with Inl False show ?thesis
      by (simp add: validateDomainPattern_def valid_domain_def Let_def)
  next
    case (Inr n)
    then have "n = count_list (split_on CHR ''.'' d) ''**''"
      and "\<forall>l\<in>set (split_on CHR ''.'' d). l \<noteq> [] \<and> (CHR ''*'' \<in> set l \<longrightarrow> l = ''*'' \<or> l = ''**'')"
      unfolding check_labels_Inr by (simp, blast)
    with Inr False bare show ?thesis
      by (simp only: validateDomainPattern_def valid_domain_def Let_def sum.case) auto
  qed
qed

lemma not_valid_domain_Nil [simp]: "\<not> valid_domain []"
  by (simp add: valid_domain_def)

lemma valid_domain_nonempty: "valid_domain d \<Longrightarrow> d \<noteq> []"
  by auto

lemma dp_matches_valid:
  "valid_domain d \<Longrightarrow> dp_matches (parseDomainPattern d) host \<longleftrightarrow> domain_admits d host"
  by (rule dp_matches_glob) (auto simp: valid_domain_nonempty, auto simp: valid_domain_def)

lemma last_index_decomp:
  "last_index c s = Some i \<Longrightarrow> s = take i s @ c # drop (i + 1) s \<and> c \<notin> set (drop (i + 1) s)"
  by (auto simp: last_index_Some id_take_nth_drop)

lemma digits_no_colon_space:
  "list_all is_digit s \<Longrightarrow> CHR '':'' \<notin> set s \<and> CHR '' '' \<notin> set s"
  by (auto simp: list_all_iff is_digit_def)

lemma ValidateHTTPEntry_split:
  assumes "CHR '':'' \<notin> set prt"
  shows "ValidateHTTPEntry (d @ CHR '':'' # prt) = None \<longleftrightarrow>
    prt \<noteq> [] \<and> CHR '':'' \<notin> set d \<and> CHR '' '' \<notin> set d \<and> CHR '' '' \<notin> set prt \<and> valid_domain d
    \<and> (prt = ''*'' \<or> list_all is_digit prt)"
proof (cases "d = []")
  case True
  then show ?thesis
    using assms by (simp add: ValidateHTTPEntry_def last_index_append [of _ _ "[]", simplified])
next
  case False
  then show ?thesis
    using assms
    by (auto simp: ValidateHTTPEntry_def last_index_append contains_char_def Let_def
        validateDomainPattern_None [symmetric] split: option.splits)
qed

lemma ValidateHTTPEntry_None: "ValidateHTTPEntry entry = None \<longleftrightarrow> valid_http_entry entry"
proof
  assume ok: "ValidateHTTPEntry entry = None"
  then obtain i where i: "last_index CHR '':'' entry = Some i"
    by (auto simp: ValidateHTTPEntry_def split: if_splits option.splits)
  note dec = last_index_decomp [OF i]
  have "ValidateHTTPEntry (take i entry @ CHR '':'' # drop (i + 1) entry) = None"
    using ok dec by metis
  then show "valid_http_entry entry"
    using dec unfolding ValidateHTTPEntry_split [OF conjunct2 [OF dec]] valid_http_entry_def by blast
next
  assume "valid_http_entry entry"
  then obtain d prt where *: "entry = d @ CHR '':'' # prt" "valid_domain d" "CHR '':'' \<notin> set d"
    "CHR '' '' \<notin> set d" "prt = ''*'' \<or> prt \<noteq> [] \<and> list_all is_digit prt"
    unfolding valid_http_entry_def by blast
  then have "CHR '':'' \<notin> set prt" "CHR '' '' \<notin> set prt" by (auto dest: digits_no_colon_space)
  with * show "ValidateHTTPEntry entry = None" by (auto simp: ValidateHTTPEntry_split)
qed

lemma ValidateDNSEntry_None:
  "ValidateDNSEntry entry = None \<longleftrightarrow> valid_domain entry \<and> CHR '':'' \<notin> set entry \<and> CHR '' '' \<notin> set entry"
proof (cases "validateDomainPattern entry")
  case None
  then show ?thesis
    using validateDomainPattern_None [of entry] valid_domain_nonempty [of entry]
    by (simp add: ValidateDNSEntry_def contains_char_def)
next
  case (Some e)
  then show ?thesis
    using validateDomainPattern_None [of entry] by (simp add: ValidateDNSEntry_def)
qed

section \<open>The contract of a rule list\<close>

text \<open>
  What both lists promise, from one law: a validated entry's parsed rule hits exactly the
  queries the entry admits.
\<close>

locale allow_rules =
  fixes validate :: "string \<Rightarrow> allow_error option"
    and parse :: "string \<Rightarrow> 'r"
    and hit :: "'r \<Rightarrow> 'q \<Rightarrow> bool"
    and admits :: "string \<Rightarrow> 'q \<Rightarrow> bool"
  assumes hit_admits: "validate e = None \<Longrightarrow> hit (parse e) q \<longleftrightarrow> admits e q"
begin

lemma rules_hit:
  "first_error validate es = None \<Longrightarrow>
     (\<exists>r\<in>set (map parse es). hit r q) \<longleftrightarrow> (\<exists>e\<in>set es. admits e q)"
  by (auto simp: first_error_None hit_admits)

lemma rules_hit_history:
  assumes "first_error validate es = None"
  shows "(\<exists>r\<in>set (map parse es @ concat (map (\<lambda>fs. if first_error validate fs = None then map parse fs else []) ess)).
            hit r q)
    \<longleftrightarrow> (\<exists>fs\<in>set (es # ess). first_error validate fs = None \<and> (\<exists>e\<in>set fs. admits e q))"
proof (induction ess)
  case Nil
  show ?case using assms rules_hit [OF assms] by simp
next
  case (Cons fs ess)
  show ?case
  proof (cases "first_error validate fs = None")
    case True
    have "(\<exists>r\<in>set (map parse fs). hit r q) \<longleftrightarrow> (\<exists>e\<in>set fs. admits e q)"
      by (rule rules_hit [OF True])
    with True Cons.IH show ?thesis by (simp add: bex_Un) blast
  next
    case False
    then show ?thesis using Cons.IH by (simp only: list.map concat.simps if_False append_Nil) auto
  qed
qed

end

lemma http_entry_admits_valid:
  assumes "ValidateHTTPEntry e = None"
  shows "(portMatches (hr_port (parseHTTPRule e)) (snd hp) \<and> dp_matches (hr_domain (parseHTTPRule e)) (fst hp))
    \<longleftrightarrow> http_entry_admits e hp"
proof -
  from assms obtain d prt where e: "e = d @ CHR '':'' # prt" and d: "valid_domain d" "CHR '':'' \<notin> set d"
    and prt: "prt = ''*'' \<or> prt \<noteq> [] \<and> list_all is_digit prt"
    by (auto simp: ValidateHTTPEntry_None valid_http_entry_def)
  from prt have colon: "CHR '':'' \<notin> set prt" by (auto dest: digits_no_colon_space)
  with e d have "parseHTTPRule e = \<lparr>hr_domain = parseDomainPattern d, hr_port = prt\<rparr>"
    by (simp add: parseHTTPRule_def last_index_append valid_domain_nonempty)
  moreover have "http_entry_admits e hp \<longleftrightarrow> (prt = ''*'' \<or> prt = snd hp) \<and> domain_admits d (fst hp)"
    unfolding http_entry_admits_def e using colon last_sep_unique [of d "CHR '':''" prt] by blast
  ultimately show ?thesis
    using d(1) by (simp add: dp_matches_valid portMatches_def)
qed

interpretation http_rules: allow_rules ValidateHTTPEntry parseHTTPRule
  "\<lambda>r hp. portMatches (hr_port r) (snd hp) \<and> dp_matches (hr_domain r) (fst hp)" http_entry_admits
  by unfold_locales (rule http_entry_admits_valid)

interpretation dns_rules: allow_rules ValidateDNSEntry parseDNSRule
  "\<lambda>r host. dp_matches (dr_domain r) host" domain_admits
  by unfold_locales (simp add: ValidateDNSEntry_None parseDNSRule_def dp_matches_valid)

lemma HTTPAllowlist_Allows_iff:
  "HTTPAllowlist_Allows al host port \<longleftrightarrow>
     (\<exists>r\<in>set al. portMatches (hr_port r) port \<and> dp_matches (hr_domain r) host)"
  by (auto simp: HTTPAllowlist_Allows_def list_ex_iff dp_matches_def)

lemma DNSAllowlist_Allows_iff:
  "DNSAllowlist_Allows al host \<longleftrightarrow> (\<exists>r\<in>set al. dp_matches (dr_domain r) host)"
  by (auto simp: DNSAllowlist_Allows_def list_ex_iff dp_matches_def)

lemma HTTPAllowlist_adds_eq:
  "HTTPAllowlist_adds al ess =
     al @ concat (map (\<lambda>fs. if first_error ValidateHTTPEntry fs = None then map parseHTTPRule fs else []) ess)"
  by (induction ess arbitrary: al)
    (auto simp: HTTPAllowlist_Add_def ValidateHTTPEntries_def split: option.splits)

lemma DNSAllowlist_adds_eq:
  "DNSAllowlist_adds al ess =
     al @ concat (map (\<lambda>fs. if first_error ValidateDNSEntry fs = None then map parseDNSRule fs else []) ess)"
  by (induction ess arbitrary: al)
    (auto simp: DNSAllowlist_Add_def ValidateDNSEntries_def split: option.splits)

lemma NewHTTPAllowlist_Inr:
  "NewHTTPAllowlist es = Inr al \<longleftrightarrow> ValidateHTTPEntries es = None \<and> al = map parseHTTPRule es"
  by (auto simp: NewHTTPAllowlist_def split: option.splits)

lemma NewDNSAllowlist_Inr:
  "NewDNSAllowlist es = Inr al \<longleftrightarrow> ValidateDNSEntries es = None \<and> al = map parseDNSRule es"
  by (auto simp: NewDNSAllowlist_def split: option.splits)

section \<open>Properties\<close>

text \<open>
  C3. The HTTP allowlist decides the documented pattern language. After a successful
  \<^verbatim>\<open>NewHTTPAllowlist\<close> and any history of \<^verbatim>\<open>Add\<close> calls (rejected ones included), a host and
  port are allowed exactly when some entry of an accepted batch has the port (or \<^verbatim>\<open>*\<close>) and its
  domain pattern admits the host in the glob language of labels.
\<close>

theorem http_allowlist_decides:
  assumes "NewHTTPAllowlist es = Inr al"
  shows "HTTPAllowlist_Allows (HTTPAllowlist_adds al ess) host port \<longleftrightarrow>
    (\<exists>fs\<in>set (es # ess). ValidateHTTPEntries fs = None \<and> (\<exists>e\<in>set fs. http_entry_admits e (host, port)))"
proof -
  have ok: "first_error ValidateHTTPEntry es = None" and al: "al = map parseHTTPRule es"
    using assms by (simp_all add: NewHTTPAllowlist_Inr ValidateHTTPEntries_def)
  show ?thesis
    using http_rules.rules_hit_history [OF ok, of ess "(host, port)"]
    by (simp only: HTTPAllowlist_Allows_iff HTTPAllowlist_adds_eq al ValidateHTTPEntries_def fst_conv snd_conv)
qed

theorem http_allowlist_decides_witness:
  "NewHTTPAllowlist [''*.Example.com:443''] = Inr (map parseHTTPRule [''*.Example.com:443''])
   \<and> HTTPAllowlist_Allows (HTTPAllowlist_adds (map parseHTTPRule [''*.Example.com:443''])
        [[''bad''], [''**.corp:*'']]) ''a.b.CORP'' ''8080''
   \<and> (\<exists>fs\<in>set [[''*.Example.com:443''], [''bad''], [''**.corp:*'']].
        ValidateHTTPEntries fs = None \<and> (\<exists>e\<in>set fs. http_entry_admits e (''a.b.CORP'', ''8080'')))"
proof -
  have new: "NewHTTPAllowlist [''*.Example.com:443''] = Inr (map parseHTTPRule [''*.Example.com:443''])"
    by code_simp
  have allowed: "HTTPAllowlist_Allows (HTTPAllowlist_adds (map parseHTTPRule [''*.Example.com:443''])
        [[''bad''], [''**.corp:*'']]) ''a.b.CORP'' ''8080''"
    by code_simp
  show ?thesis
    using new allowed http_allowlist_decides [OF new, of "[[''bad''], [''**.corp:*'']]" "''a.b.CORP''" "''8080''"]
    by blast
qed

text \<open>
  The DNS allowlist decides the same pattern language on bare domains: after a successful
  \<^verbatim>\<open>NewDNSAllowlist\<close> and any history of \<^verbatim>\<open>Add\<close> calls, a name is allowed exactly when some
  entry of an accepted batch admits it.
\<close>

lemma dns_allowlist_decides:
  assumes "NewDNSAllowlist es = Inr al"
  shows "DNSAllowlist_Allows (DNSAllowlist_adds al ess) host \<longleftrightarrow>
    (\<exists>fs\<in>set (es # ess). ValidateDNSEntries fs = None \<and> (\<exists>e\<in>set fs. domain_admits e host))"
proof -
  have ok: "first_error ValidateDNSEntry es = None" and al: "al = map parseDNSRule es"
    using assms by (simp_all add: NewDNSAllowlist_Inr ValidateDNSEntries_def)
  show ?thesis
    using dns_rules.rules_hit_history [OF ok, of ess host]
    by (simp only: DNSAllowlist_Allows_iff DNSAllowlist_adds_eq al ValidateDNSEntries_def)
qed

lemma dns_allowlist_decides_witness:
  "NewDNSAllowlist [''*.corp''] = Inr (map parseDNSRule [''*.corp''])
   \<and> \<not> (\<exists>fs\<in>set [[''*.corp''], [''x.y:80'']].
        ValidateDNSEntries fs = None \<and> (\<exists>e\<in>set fs. domain_admits e ''a.b.corp''))"
proof -
  have new: "NewDNSAllowlist [''*.corp''] = Inr (map parseDNSRule [''*.corp''])" by code_simp
  have "\<not> DNSAllowlist_Allows (DNSAllowlist_adds (map parseDNSRule [''*.corp'']) [[''x.y:80'']]) ''a.b.corp''"
    by code_simp
  with new show ?thesis
    using dns_allowlist_decides [OF new, of "[[''x.y:80'']]" "''a.b.corp''"] by blast
qed

text \<open>
  Validation is exact: \<^verbatim>\<open>ValidateHTTPEntry\<close> accepts an entry exactly when it is a domain, a
  colon and a port, where the port is \<^verbatim>\<open>*\<close> or digits and the domain has no empty label, no colon
  or space, stars only as whole labels, at most one \<^verbatim>\<open>**\<close>, and is not a bare star; and
  \<^verbatim>\<open>ValidateDNSEntry\<close> accepts exactly such domains.
\<close>

lemma validation_exact:
  "(ValidateHTTPEntry entry = None \<longleftrightarrow> valid_http_entry entry)
   \<and> (ValidateDNSEntry entry = None \<longleftrightarrow>
        valid_domain entry \<and> CHR '':'' \<notin> set entry \<and> CHR '' '' \<notin> set entry)"
  by (simp only: ValidateHTTPEntry_None ValidateDNSEntry_None)

lemma long_host_not_admitted:
  assumes "domain_admits d host" and "CHR ''.'' \<notin> set host"
  shows "split_on CHR ''.'' (to_lower d) = [to_lower d]"
proof -
  have "length (split_on CHR ''.'' host) = 1" using assms(2) by (simp add: split_on_no_sep)
  moreover have "length (split_on CHR ''.'' d) \<le> length (split_on CHR ''.'' host)"
    using assms(1) label_glob_length by (fastforce simp: domain_admits_def)
  ultimately have "length (split_on CHR ''.'' (to_lower d)) = 1"
    by (metis One_nat_def le_antisym length_greater_0_conv length_map less_eq_Suc_le
        split_on_dot_to_lower split_on_nonempty)
  then show ?thesis
    by (metis One_nat_def length_0_conv length_Suc_conv split_on_singleton)
qed

lemma single_label_host:
  assumes "domain_admits d host" and "valid_domain d" and "CHR ''.'' \<notin> set host"
  shows "to_lower host = to_lower d"
proof -
  have one: "split_on CHR ''.'' (to_lower d) = [to_lower d]"
    by (rule long_host_not_admitted [OF assms(1,3)])
  have ne: "to_lower d \<noteq> ''**''" "to_lower d \<noteq> ''*''" using assms(2) by (auto simp: valid_domain_def)
  have "label_glob [to_lower d] (split_on CHR ''.'' (to_lower host))"
    using assms(1) one by (simp only: domain_admits_def)
  moreover have "split_on CHR ''.'' (to_lower host) = [to_lower host]"
    using assms(3) by (simp add: split_on_no_sep)
  ultimately show ?thesis
    using ne(2) by (simp only: label_glob_plain_Cons [OF ne(1)] labelMatches_def if_False) auto
qed

text \<open>
  No wildcard opens the undotted names: whatever list \<^verbatim>\<open>NewHTTPAllowlist\<close> accepted, a host
  of one label (such as \<^verbatim>\<open>localhost\<close>) is allowed only when an entry spells it out, up to case,
  with the port or \<^verbatim>\<open>*\<close>. In particular no accepted list allows every host.
\<close>

lemma undotted_host_needs_literal_entry:
  assumes "NewHTTPAllowlist es = Inr al" and "CHR ''.'' \<notin> set host"
    and "HTTPAllowlist_Allows al host port"
  shows "\<exists>e\<in>set es. \<exists>d prt. e = d @ CHR '':'' # prt \<and> to_lower d = to_lower host \<and> (prt = ''*'' \<or> prt = port)"
proof -
  have ok: "first_error ValidateHTTPEntry es = None" and al: "al = map parseHTTPRule es"
    using assms(1) by (simp_all add: NewHTTPAllowlist_Inr ValidateHTTPEntries_def)
  obtain e where e: "e \<in> set es" and adm: "http_entry_admits e (host, port)"
    using assms(3) http_rules.rules_hit [OF ok, of "(host, port)"]
    by (auto simp: HTTPAllowlist_Allows_iff al)
  then obtain d prt where d: "e = d @ CHR '':'' # prt" "CHR '':'' \<notin> set prt"
    "prt = ''*'' \<or> prt = port" "domain_admits d host"
    by (auto simp: http_entry_admits_def)
  have "ValidateHTTPEntry (d @ CHR '':'' # prt) = None" using ok e d(1) by (simp add: first_error_None)
  then have "valid_domain d" by (simp add: ValidateHTTPEntry_split [OF d(2)])
  with d assms(2) e show ?thesis by (metis single_label_host)
qed

lemma undotted_host_needs_literal_entry_witness:
  "NewHTTPAllowlist [''LocalHost:80'', ''**.com:*''] = Inr (map parseHTTPRule [''LocalHost:80'', ''**.com:*''])
   \<and> (\<exists>e\<in>set [''LocalHost:80'', ''**.com:*'']. \<exists>d prt. e = d @ CHR '':'' # prt
        \<and> to_lower d = to_lower ''localhost'' \<and> (prt = ''*'' \<or> prt = ''80''))"
proof -
  have new: "NewHTTPAllowlist [''LocalHost:80'', ''**.com:*''] = Inr (map parseHTTPRule [''LocalHost:80'', ''**.com:*''])"
    by code_simp
  have al: "HTTPAllowlist_Allows (map parseHTTPRule [''LocalHost:80'', ''**.com:*'']) ''localhost'' ''80''"
    by code_simp
  have dot: "CHR ''.'' \<notin> set ''localhost''" by simp
  show ?thesis using new undotted_host_needs_literal_entry [OF new dot al] by blast
qed

end
