(* ===== verification/Net_Addr.thy ===== *)
theory Net_Addr
  imports Go_Prelude
begin

unbundle bit_operations_syntax

text \<open>
  The part of the standard packages \<^verbatim>\<open>net\<close> and \<^verbatim>\<open>net/netip\<close> that the proxy and the container
  code use: textual addresses and prefixes, \<^verbatim>\<open>IPNet.Contains\<close>, and \<^verbatim>\<open>host:port\<close> strings.
  A \<^verbatim>\<open>net.IP\<close> is its byte slice (4 or 16 bytes); \<^verbatim>\<open>nil\<close> results are \<^term>\<open>None\<close>.
  The lemmas characterise \<^verbatim>\<open>Contains\<close> as equality of leading bits.
\<close>

section \<open>Addresses\<close>

type_synonym IP = "byte list"

fun all_zero :: "byte list \<Rightarrow> bool" where
  "all_zero [] = True"
| "all_zero (b # bs) = (b = 0 \<and> all_zero bs)"

definition v4InV6Prefix :: "byte list" where
  "v4InV6Prefix = [0, 0, 0, 0, 0, 0, 0, 0, 0, 0, 255, 255]"

definition To4 :: "IP \<Rightarrow> IP option" where
  "To4 ip = (if length ip = 4 then Some ip
             else if length ip = 16 \<and> take 12 ip = v4InV6Prefix then Some (drop 12 ip)
             else None)"

text \<open>A field of a dotted address: digits without a superfluous leading zero, at most 255.\<close>

definition v4_field :: "string \<Rightarrow> byte option" where
  "v4_field s =
     (if s = [] \<or> \<not> list_all is_digit s then None
      else if length s > 1 \<and> hd s = CHR ''0'' then None
      else if digits_val s > 255 then None
      else Some (of_int (digits_val s)))"

definition parse_v4 :: "string \<Rightarrow> byte list option" where
  "parse_v4 s =
     (case map v4_field (split_on CHR ''.'' s) of
        [Some a, Some b, Some c, Some d] \<Rightarrow> Some [a, b, c, d]
      | _ \<Rightarrow> None)"

definition hex_digit :: "char \<Rightarrow> int option" where
  "hex_digit c =
     (let n = of_char c in
      if 48 \<le> n \<and> n \<le> (57::int) then Some (n - 48)
      else if 97 \<le> n \<and> n \<le> 102 then Some (n - 87)
      else if 65 \<le> n \<and> n \<le> 70 then Some (n - 55)
      else None)"

definition is_hex :: "char \<Rightarrow> bool" where
  "is_hex c = (hex_digit c \<noteq> None)"

definition hex_val :: "string \<Rightarrow> int" where
  "hex_val s = foldl (\<lambda>n c. 16 * n + (case hex_digit c of None \<Rightarrow> 0 | Some d \<Rightarrow> d)) 0 s"

lemma length_dropWhile_less: "takeWhile P s \<noteq> [] \<Longrightarrow> length (dropWhile P s) < length s"
  by (cases s) (auto simp: le_imp_less_Suc length_dropWhile_le split: if_splits)

text \<open>
  The field loop of \<^verbatim>\<open>netip.parseIPv6\<close>: the bytes so far, the position of the ellipsis, the rest
  of the text. A result is the bytes and the ellipsis; reading a 9th field is refused.
\<close>

function v6_fields :: "byte list \<Rightarrow> nat option \<Rightarrow> string \<Rightarrow> (byte list \<times> nat option) option" where
  "v6_fields ip ell s =
     (if 16 \<le> length ip then None
      else let f = takeWhile is_hex s; rest = dropWhile is_hex s in
        if f = [] \<or> length f > 4 then None
        else if rest \<noteq> [] \<and> hd rest = CHR ''.'' then
          (if ell = None \<and> length ip \<noteq> 12 \<or> length ip + 4 > 16 then None
           else map_option (\<lambda>v4. (ip @ v4, ell)) (parse_v4 s))
        else
          let ip' = ip @ [of_int (hex_val f div 256), of_int (hex_val f)] in
          if rest = [] then Some (ip', ell)
          else if hd rest \<noteq> CHR '':'' \<or> length rest = 1 then None
          else let s' = tl rest in
            if hd s' = CHR '':'' then
              (if ell \<noteq> None then None
               else if tl s' = [] then Some (ip', Some (length ip'))
               else v6_fields ip' (Some (length ip')) (tl s'))
            else v6_fields ip' ell s')"
  by pat_completeness auto
termination
  by (relation "measure (\<lambda>(ip, ell, s). length s)")
    (auto dest: length_dropWhile_less simp: less_imp_diff_less)

declare v6_fields.simps [simp del]

definition expand_ellipsis :: "byte list \<times> nat option \<Rightarrow> byte list option" where
  "expand_ellipsis r =
     (case r of
        (ip, None) \<Rightarrow> if length ip = 16 then Some ip else None
      | (ip, Some e) \<Rightarrow>
          if length ip < 16 then Some (take e ip @ replicate (16 - length ip) 0 @ drop e ip) else None)"

definition parse_v6 :: "string \<Rightarrow> byte list option" where
  "parse_v6 s =
     (if has_prefix ''::'' s
      then (if length s = 2 then Some (replicate 16 0)
            else Option.bind (v6_fields [] (Some 0) (drop 2 s)) expand_ellipsis)
      else Option.bind (v6_fields [] None s) expand_ellipsis)"

text \<open>
  \<^verbatim>\<open>netip.ParseAddr\<close> for its callers here, which refuse a zone: a text with a percent sign is
  therefore \<^term>\<open>None\<close>. The first dot or colon decides between the two families.
\<close>

fun addr_family :: "string \<Rightarrow> nat option" where
  "addr_family [] = None"
| "addr_family (c # cs) =
     (if c = CHR ''.'' then Some 4 else if c = CHR '':'' then Some 6
      else if c = CHR ''%'' then None else addr_family cs)"

definition ParseAddr :: "string \<Rightarrow> byte list option" where
  "ParseAddr s =
     (case addr_family s of
        None \<Rightarrow> None
      | Some f \<Rightarrow> if f = 4 then parse_v4 s
                  else if contains_char CHR ''%'' s then None else parse_v6 s)"

definition As16 :: "byte list \<Rightarrow> IP" where
  "As16 a = (if length a = 4 then v4InV6Prefix @ a else a)"

definition ParseIP :: "string \<Rightarrow> IP option" where
  "ParseIP s = map_option As16 (ParseAddr s)"

section \<open>Networks\<close>

record IPNet =
  net_IP :: IP
  net_Mask :: "byte list"

text \<open>\<^verbatim>\<open>CIDRMask(n, 8 * l)\<close>.\<close>

fun CIDRMask :: "nat \<Rightarrow> nat \<Rightarrow> byte list" where
  "CIDRMask n 0 = []"
| "CIDRMask n (Suc l) =
     (if n \<ge> 8 then 255 # CIDRMask (n - 8) l else NOT (drop_bit n 255) # CIDRMask 0 l)"

definition IP_Mask :: "IP \<Rightarrow> byte list \<Rightarrow> IP option" where
  "IP_Mask ip0 mask0 =
     (let msk = (if length mask0 = 16 \<and> length ip0 = 4 \<and> take 12 mask0 = replicate 12 255
                  then drop 12 mask0 else mask0);
          ip = (if length msk = 4 \<and> length ip0 = 16 \<and> take 12 ip0 = v4InV6Prefix
                then drop 12 ip0 else ip0)
      in if length ip \<noteq> length msk then None else Some (map2 (AND) ip msk))"

text \<open>The digits of a prefix length; \<^verbatim>\<open>dtoi\<close> refuses values from \<^verbatim>\<open>0xFFFFFF\<close> on.\<close>

definition prefix_len :: "string \<Rightarrow> nat option" where
  "prefix_len s =
     (if s = [] \<or> \<not> list_all is_digit s \<or> digits_val s \<ge> 16777215 then None else Some (nat (digits_val s)))"

definition ParseCIDR :: "string \<Rightarrow> (IP \<times> IPNet) option" where
  "ParseCIDR s =
     (case cut_at CHR ''/'' s of
        None \<Rightarrow> None
      | Some (addr, bits) \<Rightarrow>
          (case ParseAddr addr of
             None \<Rightarrow> None
           | Some a \<Rightarrow>
               (case prefix_len bits of
                  None \<Rightarrow> None
                | Some n \<Rightarrow>
                    if n > 8 * length a then None
                    else let m = CIDRMask n (length a); a16 = As16 a in
                      map_option (\<lambda>nn. (a16, \<lparr>net_IP = nn, net_Mask = m\<rparr>)) (IP_Mask a16 m))))"

definition networkNumberAndMask :: "IPNet \<Rightarrow> (IP \<times> byte list) option" where
  "networkNumberAndMask n =
     (let ip = (case To4 (net_IP n) of Some x \<Rightarrow> x | None \<Rightarrow> net_IP n) in
      if length ip \<noteq> 4 \<and> length ip \<noteq> 16 then None
      else if length (net_Mask n) = 4 then (if length ip \<noteq> 4 then None else Some (ip, net_Mask n))
      else if length (net_Mask n) = 16
      then Some (ip, if length ip = 4 then drop 12 (net_Mask n) else net_Mask n)
      else None)"

definition Contains :: "IPNet \<Rightarrow> IP \<Rightarrow> bool" where
  "Contains n ip0 =
     (let (nn, m) = (case networkNumberAndMask n of None \<Rightarrow> ([], []) | Some x \<Rightarrow> x);
          ip = (case To4 ip0 of Some x \<Rightarrow> x | None \<Rightarrow> ip0)
      in length ip = length nn \<and> list_all (\<lambda>(a, b, k). a AND k = b AND k) (zip nn (zip ip m)))"

section \<open>Printing\<close>

definition hex_char :: "nat \<Rightarrow> char" where
  "hex_char n = char_of (if n < 10 then n + 48 else n + 87)"

fun show_hex :: "nat \<Rightarrow> string" where
  "show_hex n = (if n < 16 then [hex_char n] else show_hex (n div 16) @ [hex_char (n mod 16)])"

declare show_hex.simps [simp del]

fun hex_groups :: "byte list \<Rightarrow> nat list" where
  "hex_groups (a # b # bs) = (256 * unat a + unat b) # hex_groups bs"
| "hex_groups _ = []"

text \<open>The first longest run of two or more zero groups, as start and end.\<close>

definition zero_run :: "nat list \<Rightarrow> nat \<times> nat" where
  "zero_run gs =
     foldl (\<lambda>(zs, ze) i. let j = i + length (takeWhile (\<lambda>g. g = 0) (drop i gs))
                         in if j - i \<ge> 2 \<and> j - i > ze - zs then (i, j) else (zs, ze))
       (255, 255) [0..<8]"

definition show_v6 :: "byte list \<Rightarrow> string" where
  "show_v6 ip =
     (let gs = hex_groups ip; (zs, ze) = zero_run gs in
      if zs = 255 then join_with '':'' (map show_hex gs)
      else join_with '':'' (map show_hex (take zs gs)) @ ''::'' @ join_with '':'' (map show_hex (drop ze gs)))"

text \<open>\<^verbatim>\<open>IP.String\<close> of an address of 4 or 16 bytes and of \<^verbatim>\<open>nil\<close>; a slice of another length never arises.\<close>

definition IP_String :: "IP \<Rightarrow> string" where
  "IP_String ip =
     (if ip = [] then ''<nil>''
      else case To4 ip of
        Some v4 \<Rightarrow> join_with ''.'' (map (\<lambda>b. show_nat (unat b)) v4)
      | None \<Rightarrow> show_v6 ip)"

section \<open>Host and port\<close>

text \<open>\<^verbatim>\<open>net.SplitHostPort\<close>; its error kinds are not distinguished by any caller.\<close>

definition SplitHostPort :: "string \<Rightarrow> (string \<times> string) option" where
  "SplitHostPort hostport =
     (case last_index CHR '':'' hostport of
        None \<Rightarrow> None
      | Some i \<Rightarrow>
          if hd hostport = CHR ''['' then
            (case index_byte CHR '']'' hostport of
               None \<Rightarrow> None
             | Some e \<Rightarrow>
                 if e + 1 \<noteq> i then None
                 else if contains_char CHR ''['' (drop 1 hostport) then None
                 else if contains_char CHR '']'' (drop (e + 1) hostport) then None
                 else Some (drop 1 (take e hostport), drop (i + 1) hostport))
          else if contains_char CHR '':'' (take i hostport) then None
          else if contains_char CHR ''['' hostport then None
          else if contains_char CHR '']'' hostport then None
          else Some (take i hostport, drop (i + 1) hostport))"

definition JoinHostPort :: "string \<Rightarrow> string \<Rightarrow> string" where
  "JoinHostPort host port =
     (if contains_char CHR '':'' host then ''['' @ host @ '']:'' @ port else host @ '':'' @ port)"

section \<open>A network contains the addresses that share its leading bits\<close>

definition byte_bits :: "byte \<Rightarrow> bool list" where
  "byte_bits b = map (\<lambda>i. bit b (7 - i)) [0..<8]"

definition ip_bits :: "IP \<Rightarrow> bool list" where
  "ip_bits ip = concat (map byte_bits ip)"

definition same_prefix :: "nat \<Rightarrow> IP \<Rightarrow> IP \<Rightarrow> bool" where
  "same_prefix n xs ys \<longleftrightarrow> length xs = length ys \<and> take n (ip_bits xs) = take n (ip_bits ys)"

lemma length_byte_bits [simp]: "length (byte_bits b) = 8"
  by (simp add: byte_bits_def)

lemma ip_bits_Nil [simp]: "ip_bits [] = []"
  by (simp add: ip_bits_def)

lemma ip_bits_Cons [simp]: "ip_bits (b # bs) = byte_bits b @ ip_bits bs"
  by (simp add: ip_bits_def)

lemma length_CIDRMask [simp]: "length (CIDRMask n l) = l"
  by (induction n l rule: CIDRMask.induct) auto

lemma bit_255: "bit (255 :: byte) k \<longleftrightarrow> k < 8"
proof -
  have "(255::byte) = mask 8" by (simp add: mask_eq_exp_minus_1)
  moreover have "bit (mask 8 :: byte) k \<longleftrightarrow> k < 8" by (simp only: bit_mask_iff) auto
  ultimately show ?thesis by metis
qed

lemma bit_mask_byte:
  "i < 8 \<Longrightarrow> bit (NOT (drop_bit n 255) :: byte) i \<longleftrightarrow> 8 \<le> n + i"
  using bit_255 [of "n + i"] by (auto simp: bit_not_iff bit_drop_bit_eq)

lemma masked_byte_eq:
  fixes a b :: byte
  assumes "n \<le> 8"
  shows "a AND NOT (drop_bit n 255) = b AND NOT (drop_bit n 255) \<longleftrightarrow>
    take n (byte_bits a) = take n (byte_bits b)" (is "?l \<longleftrightarrow> ?r")
proof -
  have "?l \<longleftrightarrow> (\<forall>i<8. 8 \<le> n + i \<longrightarrow> (bit a i \<longleftrightarrow> bit b i))"
    using assms by (auto simp: bit_eq_iff bit_and_iff bit_mask_byte dest: bit_imp_le_length)
  also have "\<dots> \<longleftrightarrow> (\<forall>j<n. bit a (7 - j) \<longleftrightarrow> bit b (7 - j))"
  proof
    assume *: "\<forall>i<8. 8 \<le> n + i \<longrightarrow> bit a i = bit b i"
    show "\<forall>j<n. bit a (7 - j) = bit b (7 - j)"
      using * assms by auto
  next
    assume *: "\<forall>j<n. bit a (7 - j) = bit b (7 - j)"
    show "\<forall>i<8. 8 \<le> n + i \<longrightarrow> bit a i = bit b i"
    proof (intro allI impI)
      fix i :: nat assume "i < 8" "8 \<le> n + i"
      then have "7 - i < n" "7 - (7 - i) = i" by auto
      with * show "bit a i = bit b i" by metis
    qed
  qed
  also have "\<dots> \<longleftrightarrow> ?r"
    using assms by (auto simp: byte_bits_def take_map list_eq_iff_nth_eq)
  finally show ?thesis .
qed

lemma mask_byte_full: "(255 :: byte) = NOT (drop_bit 8 255)"
  by simp

lemma take_byte_bits_append:
  "take n (byte_bits a @ xs) = take n (byte_bits b @ ys) \<longleftrightarrow>
     take n (byte_bits a) = take n (byte_bits b) \<and> take (n - 8) xs = take (n - 8) ys"
  by (simp add: append_eq_append_conv)

lemma masked_prefix:
  "length xs = length ys \<Longrightarrow>
     list_all (\<lambda>(a, b, k). a AND k = b AND k)
       (zip (map2 (AND) xs (CIDRMask n (length xs))) (zip ys (CIDRMask n (length xs))))
     \<longleftrightarrow> take n (ip_bits xs) = take n (ip_bits ys)"
proof (induction xs ys arbitrary: n rule: list_induct2)
  case (Cons x xs y ys)
  show ?case
  proof (cases "8 \<le> n")
    case True
    have "x AND 255 = y AND 255 \<longleftrightarrow> byte_bits x = byte_bits y"
      using masked_byte_eq [of 8 x y] unfolding mask_byte_full [symmetric] by simp
    with True Cons.IH [of "n - 8"] show ?thesis
      by (simp add: take_byte_bits_append and.assoc)
  next
    case False
    then show ?thesis
      using masked_byte_eq [of n x y] Cons.IH [of 0]
      by (simp add: take_byte_bits_append and.assoc)
  qed
qed simp

lemma CIDRMask_nth:
  "i < l \<Longrightarrow> CIDRMask n l ! i = (if 8 * i + 8 \<le> n then 255 else NOT (drop_bit (n - 8 * i) 255))"
proof (induction n l arbitrary: i rule: CIDRMask.induct)
  case (2 n l)
  show ?case
  proof (cases i)
    case 0
    then show ?thesis by simp
  next
    case (Suc j)
    with 2 show ?thesis by (cases "8 \<le> n") (auto simp: diff_diff_add)
  qed
qed simp

text \<open>The addresses of a prefix; a prefix written in IPv6 form may denote mapped IPv4 addresses.\<close>

definition prefix_covers :: "byte list \<Rightarrow> nat \<Rightarrow> IP \<Rightarrow> bool" where
  "prefix_covers a n ip \<longleftrightarrow>
     (if length a = 4 then \<exists>x. To4 ip = Some x \<and> same_prefix n a x
      else if To4 a \<noteq> None \<and> 96 \<le> n then \<exists>x. To4 ip = Some x \<and> same_prefix (n - 96) (drop 12 a) x
      else To4 ip = None \<and> same_prefix n a ip)"

definition cidr_covers :: "string \<Rightarrow> IP \<Rightarrow> bool" where
  "cidr_covers s ip \<longleftrightarrow>
     (\<exists>addr bits a n. s = addr @ CHR ''/'' # bits \<and> CHR ''/'' \<notin> set addr
        \<and> ParseAddr addr = Some a \<and> prefix_len bits = Some n \<and> n \<le> 8 * length a
        \<and> prefix_covers a n ip)"

lemma parse_v4_length: "parse_v4 s = Some a \<Longrightarrow> length a = 4"
  by (auto simp: parse_v4_def split: list.splits option.splits)

lemma parse_v6_length: "parse_v6 s = Some a \<Longrightarrow> length a = 16"
proof -
  assume "parse_v6 s = Some a"
  moreover have "length a = 16" if "expand_ellipsis r = Some a" for r
    using that by (auto simp: expand_ellipsis_def split: prod.splits option.splits if_splits)
  ultimately show ?thesis by (auto simp: parse_v6_def bind_eq_Some_conv split: if_splits)
qed

lemma ParseAddr_length: "ParseAddr s = Some a \<Longrightarrow> length a = 4 \<or> length a = 16"
  by (auto simp: ParseAddr_def parse_v4_length parse_v6_length split: option.splits if_splits)

lemma To4_length: "To4 ip = Some x \<Longrightarrow> length x = 4"
  by (auto simp: To4_def split: if_splits)

lemma To4_4 [simp]: "length ip = 4 \<Longrightarrow> To4 ip = Some ip"
  by (simp add: To4_def)

lemma Contains_masked:
  assumes "length nn = length m" and "nn = map2 (AND) a m" and "m = CIDRMask n (length a)"
  shows "(length ip = length nn \<and> list_all (\<lambda>(a, b, k). a AND k = b AND k) (zip nn (zip ip m)))
    \<longleftrightarrow> same_prefix n a ip"
  using masked_prefix [of a ip n] assms by (auto simp: same_prefix_def)

lemma CIDRMask_drop: "8 * k \<le> n \<Longrightarrow> drop k (CIDRMask n (k + l)) = CIDRMask (n - 8 * k) l"
  by (induction k arbitrary: n) (auto simp: diff_diff_add)

lemma and_255 [simp]: "(x :: byte) AND 255 = x"
  using bit_255 by (auto simp: bit_eq_iff bit_and_iff dest: bit_imp_le_length)

lemma masked_mapped:
  assumes "length a = 16"
  shows "take 12 (map2 (AND) a (CIDRMask n 16)) = v4InV6Prefix \<longleftrightarrow> take 12 a = v4InV6Prefix \<and> 96 \<le> n"
    (is "?l \<longleftrightarrow> ?r")
proof (cases "96 \<le> n")
  case True
  have "take 12 (map2 (AND) a (CIDRMask n 16)) = take 12 a"
    by (rule nth_equalityI) (use assms True in \<open>auto simp: CIDRMask_nth\<close>)
  with True show ?thesis by simp
next
  case False
  have "take 12 (map2 (AND) a (CIDRMask n 16)) ! 11 = a ! 11 AND NOT (drop_bit (n - 88) 255)"
    using assms False by (simp add: CIDRMask_nth)
  moreover have "\<not> bit (a ! 11 AND NOT (drop_bit (n - 88) 255)) 0"
  proof -
    have "\<not> 8 \<le> n - 88 + 0" using False by linarith
    then have "\<not> bit (NOT (drop_bit (n - 88) 255) :: byte) 0" using bit_mask_byte [of 0 "n - 88"] by simp
    then show ?thesis by (simp only: bit_and_iff) simp
  qed
  moreover have "bit (v4InV6Prefix ! 11) 0" by (simp add: v4InV6Prefix_def bit_255)
  ultimately have "\<not> ?l" by metis
  with False show ?thesis by blast
qed

lemma Contains_v4:
  assumes "length a = 4"
  shows "Contains \<lparr>net_IP = map2 (AND) a (CIDRMask n 4), net_Mask = CIDRMask n 4\<rparr> ip
    \<longleftrightarrow> prefix_covers a n ip"
proof -
  let ?nn = "map2 (AND) a (CIDRMask n 4)"
  have nn: "length ?nn = 4" using assms by simp
  have net: "networkNumberAndMask \<lparr>net_IP = ?nn, net_Mask = CIDRMask n 4\<rparr> = Some (?nn, CIDRMask n 4)"
    using nn by (simp add: networkNumberAndMask_def)
  have cm: "(length x = length ?nn \<and> list_all (\<lambda>(a, b, k). a AND k = b AND k) (zip ?nn (zip x (CIDRMask n 4))))
      \<longleftrightarrow> same_prefix n a x" for x
    by (rule Contains_masked) (use assms in simp_all)
  show ?thesis
  proof (cases "To4 ip")
    case None
    then have "length ip \<noteq> 4" by auto
    with None show ?thesis using assms nn
      by (simp only: Contains_def net prefix_covers_def) (simp add: Let_def)
  next
    case (Some x)
    then show ?thesis using assms
      by (simp only: Contains_def net prefix_covers_def option.case prod.case Let_def cm) simp
  qed
qed

lemma Contains_v6:
  assumes "length a = 16"
  shows "Contains \<lparr>net_IP = map2 (AND) a (CIDRMask n 16), net_Mask = CIDRMask n 16\<rparr> ip
    \<longleftrightarrow> prefix_covers a n ip"
proof -
  let ?nn = "map2 (AND) a (CIDRMask n 16)"
  have nn: "length ?nn = 16" using assms by simp
  show ?thesis
  proof (cases "take 12 a = v4InV6Prefix \<and> 96 \<le> n")
    case True
    have tail: "drop 12 (CIDRMask n 16) = CIDRMask (n - 96) 4"
      using CIDRMask_drop [of 12 n 4] True by simp
    then have dnn: "drop 12 ?nn = map2 (AND) (drop 12 a) (CIDRMask (n - 96) 4)"
      by (simp only: drop_map drop_zip)
    have "To4 ?nn = Some (drop 12 ?nn)" using nn masked_mapped [OF assms, of n] True by (simp add: To4_def)
    then have "Contains \<lparr>net_IP = ?nn, net_Mask = CIDRMask n 16\<rparr> ip
        \<longleftrightarrow> Contains \<lparr>net_IP = drop 12 ?nn, net_Mask = CIDRMask (n - 96) 4\<rparr> ip"
      using nn tail by (simp add: Contains_def networkNumberAndMask_def)
    also have "\<dots> \<longleftrightarrow> prefix_covers (drop 12 a) (n - 96) ip"
      unfolding dnn by (rule Contains_v4) (use assms in simp)
    also have "\<dots> \<longleftrightarrow> prefix_covers a n ip"
      using True assms by (simp add: prefix_covers_def To4_def)
    finally show ?thesis .
  next
    case False
    have "To4 ?nn = None" using nn masked_mapped [OF assms, of n] False by (simp add: To4_def)
    then have net: "networkNumberAndMask \<lparr>net_IP = ?nn, net_Mask = CIDRMask n 16\<rparr> = Some (?nn, CIDRMask n 16)"
      using nn by (simp add: networkNumberAndMask_def)
    have cm: "(length x = length ?nn \<and> list_all (\<lambda>(a, b, k). a AND k = b AND k) (zip ?nn (zip x (CIDRMask n 16))))
      \<longleftrightarrow> same_prefix n a x" for x
      by (rule Contains_masked) (use assms in simp_all)
    have pc: "prefix_covers a n ip \<longleftrightarrow> To4 ip = None \<and> same_prefix n a ip"
      using False assms by (auto simp: prefix_covers_def To4_def)
    show ?thesis
    proof (cases "To4 ip")
      case None
      then show ?thesis by (simp only: Contains_def net option.case prod.case Let_def cm pc) simp
    next
      case (Some x)
      then have "length x \<noteq> length ?nn" using To4_length [OF Some] nn by simp
      with Some show ?thesis by (simp only: Contains_def net option.case prod.case Let_def pc) simp
    qed
  qed
qed

lemma IP_Mask_As16:
  assumes "length a = 4 \<or> length a = 16"
  shows "IP_Mask (As16 a) (CIDRMask n (length a)) = Some (map2 (AND) a (CIDRMask n (length a)))"
  using assms by (auto simp: IP_Mask_def As16_def v4InV6Prefix_def)

lemma ParseCIDR_Contains:
  "(\<exists>ip' net. ParseCIDR s = Some (ip', net) \<and> Contains net ip) \<longleftrightarrow> cidr_covers s ip"
proof (cases "cut_at CHR ''/'' s")
  case None
  then have "ParseCIDR s = None" and "CHR ''/'' \<notin> set s" by (simp_all add: ParseCIDR_def) (simp add: cut_at_None)
  then show ?thesis by (auto simp: cidr_covers_def)
next
  case (Some p)
  obtain addr bits where p: "p = (addr, bits)" by (cases p)
  with Some have s: "s = addr @ CHR ''/'' # bits" and na: "CHR ''/'' \<notin> set addr" by (auto simp: cut_at_Some)
  have uniq: "addr' = addr \<and> bits' = bits" if "s = addr' @ CHR ''/'' # bits'" "CHR ''/'' \<notin> set addr'" for addr' bits'
    using that Some p by (metis cut_at_Some option.inject prod.inject)
  have cov: "cidr_covers s ip \<longleftrightarrow> (\<exists>a n. ParseAddr addr = Some a \<and> prefix_len bits = Some n \<and> n \<le> 8 * length a
      \<and> prefix_covers a n ip)"
    unfolding cidr_covers_def using uniq s na by metis
  show ?thesis
  proof (cases "\<exists>a n. ParseAddr addr = Some a \<and> prefix_len bits = Some n \<and> n \<le> 8 * length a")
    case True
    then obtain a n where an: "ParseAddr addr = Some a" "prefix_len bits = Some n" "n \<le> 8 * length a" by blast
    then have len: "length a = 4 \<or> length a = 16" by (simp add: ParseAddr_length)
    then have "ParseCIDR s = Some (As16 a, \<lparr>net_IP = map2 (AND) a (CIDRMask n (length a)), net_Mask = CIDRMask n (length a)\<rparr>)"
      using Some p an by (simp add: ParseCIDR_def IP_Mask_As16 Let_def)
    moreover have "Contains \<lparr>net_IP = map2 (AND) a (CIDRMask n (length a)), net_Mask = CIDRMask n (length a)\<rparr> ip
        \<longleftrightarrow> prefix_covers a n ip"
      using len Contains_v4 [of a n ip] Contains_v6 [of a n ip] by (elim disjE) (simp_all only:)
    ultimately show ?thesis using an cov by simp
  next
    case False
    then have "ParseCIDR s = None" using Some p by (auto simp: ParseCIDR_def split: option.splits)
    with False cov show ?thesis by auto
  qed
qed

end
