(* ===== verification/CIDR.thy ===== *)
theory CIDR
  imports Net_Addr
begin

unbundle bit_operations_syntax

text \<open>
  The address filter of the proxy, \<^verbatim>\<open>proxy/cidr.go\<close>: the default blocked ranges, the ranges of
  the configuration, and \<^verbatim>\<open>IsBlocked\<close>, in which an allowed range overrides a blocked one. The
  lemmas say which addresses are blocked, first by leading bits and then, for the default
  ranges, by the values of the bytes.
\<close>

section \<open>Model\<close>

definition defaultBlockedCIDRs :: "string list" where
  "defaultBlockedCIDRs =
     [''10.0.0.0/8'', ''172.16.0.0/12'', ''192.168.0.0/16'', ''127.0.0.0/8'', ''169.254.0.0/16'',
      ''::1/128'', ''fc00::/7'', ''fe80::/10'']"

record CIDRBlocker =
  cb_blockNets :: "IPNet list"
  cb_allowNets :: "IPNet list"

fun parseCIDRs :: "string list \<Rightarrow> IPNet list" where
  "parseCIDRs [] = []"
| "parseCIDRs (cidr # cidrs) =
     (case ParseCIDR cidr of None \<Rightarrow> parseCIDRs cidrs | Some (_, ipNet) \<Rightarrow> ipNet # parseCIDRs cidrs)"

definition NewCIDRBlocker :: "string list \<Rightarrow> string list \<Rightarrow> CIDRBlocker" where
  "NewCIDRBlocker block allow =
     (let blocked = defaultBlockedCIDRs @ block
      in \<lparr>cb_blockNets = parseCIDRs blocked, cb_allowNets = parseCIDRs allow\<rparr>)"

definition IsAllowed :: "CIDRBlocker \<Rightarrow> IP \<Rightarrow> bool" where
  "IsAllowed b ip = list_ex (\<lambda>n. Contains n ip) (cb_allowNets b)"

definition IsBlocked :: "CIDRBlocker \<Rightarrow> IP \<Rightarrow> bool" where
  "IsBlocked b ip =
     (if IsAllowed b ip then False else list_ex (\<lambda>n. Contains n ip) (cb_blockNets b))"

section \<open>Reference: the private addresses\<close>

definition private_v4 :: "byte \<Rightarrow> byte \<Rightarrow> bool" where
  "private_v4 a b \<longleftrightarrow>
     a = 10 \<or> a = 127 \<or> (a = 172 \<and> 16 \<le> b \<and> b \<le> 31) \<or> (a = 192 \<and> b = 168) \<or> (a = 169 \<and> b = 254)"

definition loopback_v6 :: IP where
  "loopback_v6 = replicate 15 0 @ [1]"

definition private_v6 :: "IP \<Rightarrow> bool" where
  "private_v6 ip \<longleftrightarrow>
     length ip = 16 \<and>
     (ip = loopback_v6 \<or> ip ! 0 = 252 \<or> ip ! 0 = 253 \<or> ip ! 0 = 254 \<and> 128 \<le> ip ! 1 \<and> ip ! 1 \<le> 191)"

text \<open>IPv4 addresses count in their 4-byte and in their mapped 16-byte form.\<close>

definition private_ip :: "IP \<Rightarrow> bool" where
  "private_ip ip \<longleftrightarrow> (case To4 ip of Some v4 \<Rightarrow> private_v4 (v4 ! 0) (v4 ! 1) | None \<Rightarrow> private_v6 ip)"

section \<open>Lemmas\<close>

lemma parseCIDRs_covers:
  "(\<exists>n\<in>set (parseCIDRs cs). Contains n ip) \<longleftrightarrow> (\<exists>c\<in>set cs. cidr_covers c ip)"
proof (induction cs)
  case (Cons c cs)
  then show ?case
    by (cases "ParseCIDR c") (auto simp: ParseCIDR_Contains [symmetric])
qed simp

lemma NewCIDRBlocker_IsAllowed:
  "IsAllowed (NewCIDRBlocker block allow) ip \<longleftrightarrow> (\<exists>c\<in>set allow. cidr_covers c ip)"
  by (simp add: IsAllowed_def NewCIDRBlocker_def Let_def list_ex_iff parseCIDRs_covers)

lemma NewCIDRBlocker_IsBlocked:
  "IsBlocked (NewCIDRBlocker block allow) ip \<longleftrightarrow>
     \<not> (\<exists>c\<in>set allow. cidr_covers c ip) \<and> (\<exists>c\<in>set (defaultBlockedCIDRs @ block). cidr_covers c ip)"
  unfolding IsBlocked_def NewCIDRBlocker_IsAllowed
  by (simp only: NewCIDRBlocker_def Let_def CIDRBlocker.simps list_ex_iff parseCIDRs_covers) simp

text \<open>The default ranges, parsed.\<close>

lemma default_nets:
  "parseCIDRs defaultBlockedCIDRs =
     [\<lparr>net_IP = [10, 0, 0, 0], net_Mask = [255, 0, 0, 0]\<rparr>,
      \<lparr>net_IP = [172, 16, 0, 0], net_Mask = [255, 240, 0, 0]\<rparr>,
      \<lparr>net_IP = [192, 168, 0, 0], net_Mask = [255, 255, 0, 0]\<rparr>,
      \<lparr>net_IP = [127, 0, 0, 0], net_Mask = [255, 0, 0, 0]\<rparr>,
      \<lparr>net_IP = [169, 254, 0, 0], net_Mask = [255, 255, 0, 0]\<rparr>,
      \<lparr>net_IP = loopback_v6, net_Mask = replicate 16 255\<rparr>,
      \<lparr>net_IP = 252 # replicate 15 0, net_Mask = 254 # replicate 15 0\<rparr>,
      \<lparr>net_IP = 254 # 128 # replicate 14 0, net_Mask = 255 # 192 # replicate 14 0\<rparr>]"
  by code_simp

lemma byte_cases:
  assumes "list_all (\<lambda>i. P (of_int i :: byte)) [0..255]"
  shows "P x"
proof -
  have "uint x \<in> set [0..255]" using uint_lt2p [of x] by simp
  with assms have "P (of_int (uint x))" by (simp only: list_all_iff)
  then show ?thesis by simp
qed

lemma byte_12: "(16 :: byte) = x AND 240 \<longleftrightarrow> 16 \<le> x \<and> x \<le> 31"
  by (rule byte_cases [of "\<lambda>x. (16 :: byte) = x AND 240 \<longleftrightarrow> 16 \<le> x \<and> x \<le> 31"]) code_simp

lemma byte_7: "(252 :: byte) = x AND 254 \<longleftrightarrow> x = 252 \<or> x = 253"
  by (rule byte_cases [of "\<lambda>x. (252 :: byte) = x AND 254 \<longleftrightarrow> x = 252 \<or> x = 253"]) code_simp

lemma byte_10: "(128 :: byte) = x AND 192 \<longleftrightarrow> 128 \<le> x \<and> x \<le> 191"
  by (rule byte_cases [of "\<lambda>x. (128 :: byte) = x AND 192 \<longleftrightarrow> 128 \<le> x \<and> x \<le> 191"]) code_simp

lemma default_net_numbers:
  "map networkNumberAndMask (parseCIDRs defaultBlockedCIDRs) =
     [Some ([10, 0, 0, 0], [255, 0, 0, 0]), Some ([172, 16, 0, 0], [255, 240, 0, 0]),
      Some ([192, 168, 0, 0], [255, 255, 0, 0]), Some ([127, 0, 0, 0], [255, 0, 0, 0]),
      Some ([169, 254, 0, 0], [255, 255, 0, 0]), Some (loopback_v6, replicate 16 255),
      Some (252 # replicate 15 0, 254 # replicate 15 0),
      Some (254 # 128 # replicate 14 0, 255 # 192 # replicate 14 0)]"
  unfolding default_nets by code_simp

lemma Contains_number:
  "networkNumberAndMask n = Some (nn, m) \<Longrightarrow>
     Contains n ip \<longleftrightarrow> (let x = (case To4 ip of Some x \<Rightarrow> x | None \<Rightarrow> ip) in
       length x = length nn \<and> list_all (\<lambda>(a, b, k). a AND k = b AND k) (zip nn (zip x m)))"
  by (simp add: Contains_def Let_def)

lemma list_ex_numbers:
  assumes "map networkNumberAndMask ns = map Some ps"
  shows "(\<exists>n\<in>set ns. Contains n ip) \<longleftrightarrow>
    list_ex (\<lambda>(nn, m). let x = (case To4 ip of Some x \<Rightarrow> x | None \<Rightarrow> ip) in
       length x = length nn \<and> list_all (\<lambda>(a, b, k). a AND k = b AND k) (zip nn (zip x m))) ps"
  using assms
proof (induction ns arbitrary: ps)
  case (Cons n ns)
  then obtain nn m ps' where "ps = (nn, m) # ps'" "networkNumberAndMask n = Some (nn, m)"
    "map networkNumberAndMask ns = map Some ps'" by auto
  then show ?case using Cons.IH [of ps'] by (simp add: Contains_number)
qed simp

lemma default_covers: "(\<exists>n\<in>set (parseCIDRs defaultBlockedCIDRs). Contains n ip) \<longleftrightarrow> 
    list_ex (\<lambda>(nn, m). let x = (case To4 ip of Some x \<Rightarrow> x | None \<Rightarrow> ip) in
       length x = length nn \<and> list_all (\<lambda>(a, b, k). a AND k = b AND k) (zip nn (zip x m)))
     [([10, 0, 0, 0], [255, 0, 0, 0]), ([172, 16, 0, 0], [255, 240, 0, 0]),
      ([192, 168, 0, 0], [255, 255, 0, 0]), ([127, 0, 0, 0], [255, 0, 0, 0]),
      ([169, 254, 0, 0], [255, 255, 0, 0]), (loopback_v6, replicate 16 255),
      (252 # replicate 15 0, 254 # replicate 15 0),
      (254 # 128 # replicate 14 0, 255 # 192 # replicate 14 0)]"
  by (rule list_ex_numbers) (simp only: default_net_numbers list.map)

lemma length_16_split:
  "length (ip :: 'a list) = 16 \<Longrightarrow> \<exists>a b c d e f g h i j k l m n p q. ip = [a, b, c, d, e, f, g, h, i, j, k, l, m, n, p, q]"
  by (simp add: numeral_eq_Suc length_Suc_conv) blast

lemma length_4_split: "length (ip :: 'a list) = 4 \<Longrightarrow> \<exists>a b c d. ip = [a, b, c, d]"
  by (auto simp: numeral_eq_Suc length_Suc_conv)

lemma zeros: "replicate 14 (x::byte) = [x,x,x,x,x,x,x,x,x,x,x,x,x,x]" "replicate 15 x = [x,x,x,x,x,x,x,x,x,x,x,x,x,x,x]"
 "replicate 16 x = [x,x,x,x,x,x,x,x,x,x,x,x,x,x,x,x]"
  by (simp_all add: numeral_eq_Suc)

lemma default_private_v4:
  assumes "To4 ip = Some [a, b, c, d]"
  shows "(\<exists>n\<in>set (parseCIDRs defaultBlockedCIDRs). Contains n ip) \<longleftrightarrow> private_ip ip"
  unfolding default_covers assms option.case Let_def prod.case private_ip_def private_v4_def
  by (simp add: loopback_v6_def byte_12) auto

lemma default_private_v6:
  assumes "To4 [a, b, c, d, e, f, g, h, i, j, k, l, m, n, p, q] = None"
  shows "(\<exists>t\<in>set (parseCIDRs defaultBlockedCIDRs). Contains t [a, b, c, d, e, f, g, h, i, j, k, l, m, n, p, q])
    \<longleftrightarrow> private_v6 [a, b, c, d, e, f, g, h, i, j, k, l, m, n, p, q]"
  unfolding default_covers assms option.case Let_def prod.case private_v6_def zeros loopback_v6_def
  by (simp add: byte_7 byte_10)

lemma default_private:
  "(\<exists>n\<in>set (parseCIDRs defaultBlockedCIDRs). Contains n ip) \<longleftrightarrow> private_ip ip"
proof (cases "To4 ip")
  case (Some v4)
  then show ?thesis using length_4_split [OF To4_length [OF Some]] default_private_v4 by metis
next
  case None
  show ?thesis
  proof (cases "length ip = 16")
    case True
    obtain a b c d e f g h i j k l m n p q
      where ip: "ip = [a, b, c, d, e, f, g, h, i, j, k, l, m, n, p, q]"
      using length_16_split [OF True] by (elim exE) (rule that)
    show ?thesis
      using default_private_v6 [OF None [unfolded ip]] None by (simp only: ip private_ip_def option.case)
  next
    case False
    moreover have "length ip \<noteq> 4" using None by auto
    ultimately show ?thesis
      unfolding default_covers by (simp add: private_ip_def None private_v6_def loopback_v6_def)
  qed
qed

section \<open>Properties\<close>

text \<open>
  C4. What the address filter blocks: whatever ranges the configuration gives, an address is
  blocked exactly when no allowed range covers it and it is a private, loopback or link-local
  address (of either family, IPv4 also in its mapped 16-byte form) or a blocked range covers it;
  a range covers the addresses that share its leading bits, and an unparsable range covers none.
\<close>

theorem cidr_blocker_decides:
  "IsBlocked (NewCIDRBlocker block allow) ip \<longleftrightarrow>
     \<not> (\<exists>c\<in>set allow. cidr_covers c ip) \<and> (private_ip ip \<or> (\<exists>c\<in>set block. cidr_covers c ip))"
  unfolding NewCIDRBlocker_IsBlocked default_private [symmetric] parseCIDRs_covers by auto

end
