(* ===== verification/Log_Buffer.thy ===== *)
theory Log_Buffer
  imports Go_Prelude
begin

text \<open>
  The request log of the proxy, \<^verbatim>\<open>proxy/log.go\<close>: a ring buffer of the last \<^verbatim>\<open>cap\<close> entries with
  64-bit identifiers and per-domain counters. Every method holds the mutex for its whole body,
  so a history of calls is a sequence. The reference is the list of all entries ever added;
  \<open>log_rep\<close> relates a buffer to that list, and the locale \<open>log_sink\<close> is the contract the request
  handlers rely on.
\<close>

section \<open>Model\<close>

type_synonym Action = string

definition ActionAllow :: Action where "ActionAllow = ''allow''"
definition ActionBlock :: Action where "ActionBlock = ''block''"

type_synonym Source = string

definition SourceProxy :: Source where "SourceProxy = ''proxy''"
definition SourceDNS :: Source where "SourceDNS = ''dns''"

record LogEntry =
  le_ID :: uint64
  le_Time :: int
  le_Domain :: string
  le_Port :: string
  le_Action :: Action
  le_Source :: Source
  le_Reason :: string

definition zero_LogEntry :: LogEntry where
  "zero_LogEntry = \<lparr>le_ID = 0, le_Time = 0, le_Domain = [], le_Port = [], le_Action = [],
     le_Source = [], le_Reason = []\<rparr>"

record DomainStats =
  ds_Allowed :: "64 word"
  ds_Blocked :: "64 word"

record LogBuffer =
  lb_entries :: "LogEntry list"
  lb_cap :: int
  lb_pos :: int
  lb_full :: bool
  lb_nextID :: uint64
  lb_stats :: "string \<rightharpoonup> DomainStats"

text \<open>\<^verbatim>\<open>make\<close> with a negative length panics.\<close>

definition NewLogBuffer :: "int \<Rightarrow> go_panic + LogBuffer" where
  "NewLogBuffer capacity =
     (if capacity < 0 then Inl MakeNegativeLen
      else Inr \<lparr>lb_entries = replicate (nat capacity) zero_LogEntry, lb_cap = capacity, lb_pos = 0,
                lb_full = False, lb_nextID = 1, lb_stats = Map.empty\<rparr>)"

definition count_action :: "Action \<Rightarrow> DomainStats \<Rightarrow> DomainStats" where
  "count_action action s =
     (if action = ActionAllow then s\<lparr>ds_Allowed := ds_Allowed s + 1\<rparr>
      else if action = ActionBlock then s\<lparr>ds_Blocked := ds_Blocked s + 1\<rparr>
      else s)"

text \<open>\<^verbatim>\<open>b.entries[b.pos]\<close> panics on a buffer of capacity 0.\<close>

definition LogBuffer_Add :: "LogBuffer \<Rightarrow> LogEntry \<Rightarrow> go_panic + LogBuffer" where
  "LogBuffer_Add b entry0 =
     (let entry = entry0\<lparr>le_ID := lb_nextID b\<rparr> in
      if \<not> (0 \<le> lb_pos b \<and> lb_pos b < int (length (lb_entries b))) then Inl IndexOutOfRange
      else
        let pos = (lb_pos b + 1) mod lb_cap b;
            full = (if pos = 0 \<and> \<not> lb_full b then True else lb_full b);
            s = (case lb_stats b (le_Domain entry) of
                   None \<Rightarrow> \<lparr>ds_Allowed = 0, ds_Blocked = 0\<rparr> | Some s \<Rightarrow> s)
        in Inr (b\<lparr>lb_nextID := lb_nextID b + 1,
                  lb_entries := (lb_entries b)[nat (lb_pos b) := entry],
                  lb_pos := pos,
                  lb_full := full,
                  lb_stats := (lb_stats b)(le_Domain entry \<mapsto> count_action (le_Action entry) s)\<rparr>))"

definition entriesLocked :: "LogBuffer \<Rightarrow> LogEntry list" where
  "entriesLocked b =
     (if \<not> lb_full b then take (nat (lb_pos b)) (lb_entries b)
      else drop (nat (lb_pos b)) (lb_entries b) @ take (nat (lb_pos b)) (lb_entries b))"

definition Entries :: "LogBuffer \<Rightarrow> LogEntry list" where
  "Entries b = entriesLocked b"

text \<open>The linear scan for the first entry with a larger identifier, -1 when there is none.\<close>

fun scan_after :: "uint64 \<Rightarrow> int \<Rightarrow> LogEntry list \<Rightarrow> int" where
  "scan_after afterID i [] = - 1"
| "scan_after afterID i (e # es) = (if le_ID e > afterID then i else scan_after afterID (i + 1) es)"

definition EntriesAfter :: "LogBuffer \<Rightarrow> uint64 \<Rightarrow> LogEntry list" where
  "EntriesAfter b afterID =
     (let all = entriesLocked b in
      if afterID = 0 then (if length all > 25 then drop (length all - 25) all else all)
      else let start = scan_after afterID 0 all in
        if start = - 1 then [] else drop (nat start) all)"

definition Stats :: "LogBuffer \<Rightarrow> (string \<rightharpoonup> DomainStats)" where
  "Stats b = lb_stats b"

text \<open>A history of \<^verbatim>\<open>Add\<close> calls.\<close>

fun LogBuffer_adds :: "LogBuffer \<Rightarrow> LogEntry list \<Rightarrow> go_panic + LogBuffer" where
  "LogBuffer_adds b [] = Inr b"
| "LogBuffer_adds b (e # es) =
     (case LogBuffer_Add b e of Inl p \<Rightarrow> Inl p | Inr b' \<Rightarrow> LogBuffer_adds b' es)"

section \<open>Reference: the list of all entries\<close>

definition stamped :: "LogEntry list \<Rightarrow> LogEntry list" where
  "stamped es = map (\<lambda>i. (es ! i)\<lparr>le_ID := of_nat (i + 1)\<rparr>) [0..<length es]"

definition domain_stats :: "LogEntry list \<Rightarrow> string \<Rightarrow> DomainStats" where
  "domain_stats es d =
     \<lparr>ds_Allowed = of_nat (length (filter (\<lambda>e. le_Domain e = d \<and> le_Action e = ActionAllow) es)),
      ds_Blocked = of_nat (length (filter (\<lambda>e. le_Domain e = d \<and> le_Action e = ActionBlock) es))\<rparr>"

definition ring_holds :: "LogEntry list \<Rightarrow> nat \<Rightarrow> LogEntry list \<Rightarrow> bool" where
  "ring_holds ring n h \<longleftrightarrow>
     length ring = n \<and> (\<forall>j < length h. length h \<le> j + n \<longrightarrow> ring ! (j mod n) = h ! j)"

text \<open>The buffer \<open>b\<close> holds the history \<open>es\<close> (identifiers not yet assigned).\<close>

definition log_rep :: "LogBuffer \<Rightarrow> LogEntry list \<Rightarrow> bool" where
  "log_rep b es \<longleftrightarrow>
     0 < lb_cap b \<and> ring_holds (lb_entries b) (nat (lb_cap b)) (stamped es)
     \<and> lb_pos b = int (length es) mod lb_cap b
     \<and> (lb_full b \<longleftrightarrow> lb_cap b \<le> int (length es))
     \<and> lb_nextID b = of_nat (length es + 1)
     \<and> lb_stats b = (\<lambda>d. if d \<in> le_Domain ` set es then Some (domain_stats es d) else None)"

section \<open>The ring\<close>

lemma ring_holds_snoc:
  assumes "ring_holds ring n h" and "0 < n"
  shows "ring_holds (ring[length h mod n := e]) n (h @ [e])"
  unfolding ring_holds_def
proof (intro conjI allI impI)
  show "length (ring[length h mod n := e]) = n" using assms(1) by (simp add: ring_holds_def)
next
  fix j assume j: "j < length (h @ [e])" "length (h @ [e]) \<le> j + n"
  show "ring[length h mod n := e] ! (j mod n) = (h @ [e]) ! j"
  proof (cases "j = length h")
    case True
    then show ?thesis using assms by (simp add: ring_holds_def)
  next
    case False
    with j have "j < length h" "length h < j + n" by auto
    then have "\<not> n dvd length h - j" by (intro nat_dvd_not_less) auto
    with \<open>j < length h\<close> have "j mod n \<noteq> length h mod n"
      using mod_eq_dvd_iff_nat [of j "length h" n] by auto
    with \<open>j < length h\<close> j assms(1) show ?thesis by (simp add: ring_holds_def nth_append)
  qed
qed

lemma ring_partial:
  assumes "ring_holds ring n h" and "length h < n"
  shows "take (length h mod n) ring = h"
  using assms by (intro nth_equalityI) (auto simp: ring_holds_def)

lemma ring_full:
  assumes "ring_holds ring n h" and "0 < n" and "n \<le> length h"
  shows "drop (length h mod n) ring @ take (length h mod n) ring = drop (length h - n) h"
proof -
  have len: "length ring = n" using assms by (simp add: ring_holds_def)
  have "drop (length h mod n) ring @ take (length h mod n) ring = rotate (length h) ring"
    by (simp add: rotate_drop_take len)
  also have "\<dots> = drop (length h - n) h"
  proof (rule nth_equalityI)
    show "length (rotate (length h) ring) = length (drop (length h - n) h)"
      using len assms(3) by simp
    fix i assume "i < length (rotate (length h) ring)"
    then have i: "i < n" using len by simp
    have "rotate (length h) ring ! i = ring ! ((length h - n + i + n) mod n)"
      using i len assms(3) by (simp add: nth_rotate)
    also have "(length h - n + i + n) mod n = (length h - n + i) mod n" by (rule mod_add_self2)
    also have "ring ! \<dots> = h ! (length h - n + i)"
      using assms i by (simp add: ring_holds_def)
    finally show "rotate (length h) ring ! i = drop (length h - n) h ! i"
      using i assms(3) by simp
  qed
  finally show ?thesis .
qed

section \<open>The buffer refines the list\<close>

lemma stamped_snoc: "stamped (es @ [e]) = stamped es @ [e\<lparr>le_ID := of_nat (length es + 1)\<rparr>]"
  by (auto simp: stamped_def nth_append intro!: nth_equalityI)

lemma length_stamped [simp]: "length (stamped es) = length es"
  by (simp add: stamped_def)

lemma stamped_nth: "i < length es \<Longrightarrow> stamped es ! i = (es ! i)\<lparr>le_ID := of_nat (i + 1)\<rparr>"
  by (simp add: stamped_def)

lemma NewLogBuffer_rep: "0 < capacity \<Longrightarrow> \<exists>b. NewLogBuffer capacity = Inr b \<and> lb_cap b = capacity \<and> log_rep b []"
  by (auto simp: NewLogBuffer_def log_rep_def ring_holds_def stamped_def)

lemma domain_stats_snoc:
  "domain_stats (es @ [e]) d =
     (if d = le_Domain e then count_action (le_Action e) (domain_stats es d) else domain_stats es d)"
  by (auto simp: domain_stats_def count_action_def ActionAllow_def ActionBlock_def)

lemma domain_stats_absent:
  "d \<notin> le_Domain ` set es \<Longrightarrow> domain_stats es d = \<lparr>ds_Allowed = 0, ds_Blocked = 0\<rparr>"
proof -
  assume "d \<notin> le_Domain ` set es"
  then have "filter (\<lambda>e. le_Domain e = d \<and> P e) es = []" for P by (auto simp: filter_empty_conv)
  then show ?thesis by (simp add: domain_stats_def)
qed

lemma stats_step:
  assumes "m = (\<lambda>d. if d \<in> le_Domain ` set es then Some (domain_stats es d) else None)"
  shows "m(le_Domain e \<mapsto> count_action (le_Action e)
      (case m (le_Domain e) of None \<Rightarrow> \<lparr>ds_Allowed = 0, ds_Blocked = 0\<rparr> | Some s \<Rightarrow> s))
    = (\<lambda>d. if d \<in> le_Domain ` set (es @ [e]) then Some (domain_stats (es @ [e]) d) else None)"
  using assms by (auto simp: domain_stats_snoc domain_stats_absent fun_eq_iff)

lemma full_step:
  fixes c :: int
  assumes "0 < c"
  shows "(if (int n + 1) mod c = 0 \<and> \<not> c \<le> int n then True else c \<le> int n) \<longleftrightarrow> c \<le> int n + 1"
proof (cases "int n + 1 < c")
  case True
  then have "(int n + 1) mod c = int n + 1" by simp
  with True show ?thesis by auto
next
  case False
  then consider "c = int n + 1" | "c \<le> int n" by linarith
  then show ?thesis by cases auto
qed

lemma LogBuffer_Add_rep:
  assumes "log_rep b es"
  shows "\<exists>b'. LogBuffer_Add b e = Inr b' \<and> lb_cap b' = lb_cap b \<and> log_rep b' (es @ [e])"
proof -
  let ?n = "nat (lb_cap b)"
  have c: "0 < lb_cap b" and ring: "ring_holds (lb_entries b) ?n (stamped es)"
    and pos: "lb_pos b = int (length es) mod lb_cap b"
    and full: "lb_full b \<longleftrightarrow> lb_cap b \<le> int (length es)"
    and nid: "lb_nextID b = of_nat (length es + 1)"
    and st: "lb_stats b = (\<lambda>d. if d \<in> le_Domain ` set es then Some (domain_stats es d) else None)"
    using assms by (auto simp: log_rep_def)
  have len: "length (lb_entries b) = ?n" using ring by (simp add: ring_holds_def)
  have posn: "nat (lb_pos b) = length es mod ?n"
    using c by (simp add: pos nat_mod_distrib)
  have inr: "0 \<le> lb_pos b \<and> lb_pos b < int (length (lb_entries b))"
    using c len by (simp add: pos)
  have ring': "ring_holds ((lb_entries b)[nat (lb_pos b) := e\<lparr>le_ID := lb_nextID b\<rparr>]) ?n (stamped (es @ [e]))"
    using ring_holds_snoc [OF ring] c by (simp add: stamped_snoc posn nid)
  have pos': "(lb_pos b + 1) mod lb_cap b = int (length (es @ [e])) mod lb_cap b"
    by (simp add: pos mod_simps add.commute)
  have full': "(if (lb_pos b + 1) mod lb_cap b = 0 \<and> \<not> lb_full b then True else lb_full b)
      \<longleftrightarrow> lb_cap b \<le> int (length (es @ [e]))"
    using full_step [OF c, of "length es"] by (simp only: pos' full) (simp add: add.commute)
  show ?thesis
    unfolding LogBuffer_Add_def Let_def log_rep_def
    using c ring' pos' full' stats_step [OF st, of e] inr
    by (simp add: nid)
qed

lemma entriesLocked_rep:
  assumes "log_rep b es"
  shows "entriesLocked b = drop (length es - nat (lb_cap b)) (stamped es)"
proof -
  let ?n = "nat (lb_cap b)"
  have c: "0 < lb_cap b" and ring: "ring_holds (lb_entries b) ?n (stamped es)"
    and full: "lb_full b \<longleftrightarrow> ?n \<le> length es"
    using assms by (auto simp: log_rep_def)
  have posn: "nat (lb_pos b) = length (stamped es) mod ?n"
    using assms c by (simp add: log_rep_def nat_mod_distrib)
  show ?thesis
  proof (cases "?n \<le> length es")
    case True
    then show ?thesis
      using ring_full [OF ring] c full by (simp add: entriesLocked_def posn)
  next
    case False
    then show ?thesis
      using ring_partial [OF ring] full by (simp add: entriesLocked_def posn)
  qed
qed

lemma LogBuffer_adds_rep:
  "log_rep b hs \<Longrightarrow> \<exists>b'. LogBuffer_adds b es = Inr b' \<and> lb_cap b' = lb_cap b \<and> log_rep b' (hs @ es)"
proof (induction es arbitrary: b hs)
  case (Cons e es)
  obtain b1 where b1: "LogBuffer_Add b e = Inr b1" "lb_cap b1 = lb_cap b" "log_rep b1 (hs @ [e])"
    using LogBuffer_Add_rep [OF Cons.prems] by blast
  then show ?case using Cons.IH [OF b1(3)] by simp
qed simp

lemma new_buffer_history:
  assumes "NewLogBuffer capacity = Inr b0" and "0 < capacity"
  shows "\<exists>b. LogBuffer_adds b0 es = Inr b \<and> lb_cap b = capacity \<and> log_rep b es"
proof -
  have "log_rep b0 []" "lb_cap b0 = capacity" using NewLogBuffer_rep [OF assms(2)] assms(1) by auto
  then show ?thesis using LogBuffer_adds_rep [of b0 "[]" es] by simp
qed

section \<open>Reading after an identifier\<close>

lemma scan_after_split:
  assumes "\<forall>x\<in>set xs. \<not> le_ID x > k"
  shows "scan_after k i (xs @ ys) =
    (if ys = [] then - 1 else if le_ID (hd ys) > k then i + int (length xs) else scan_after k (i + int (length xs)) ys)"
  using assms by (induction xs arbitrary: i) (auto simp: neq_Nil_conv)

lemma stamped_ids:
  assumes "i < length es" and "length es < 2 ^ 64" and "k \<le> length es"
  shows "le_ID (stamped es ! i) > of_nat k \<longleftrightarrow> k \<le> i"
proof -
  have small: "unat (of_nat m :: 64 word) = m" if "m \<le> length es" for m
    using assms(2) that by (simp add: unat_of_nat take_bit_eq_mod)
  have "unat (of_nat (i + 1) :: 64 word) = i + 1" "unat (of_nat k :: 64 word) = k"
    by (rule small, use assms in simp)+
  then show ?thesis using assms(1) by (simp only: stamped_nth word_less_nat_alt) auto
qed

lemma EntriesAfter_rep:
  assumes rep: "log_rep b es" and "length es < 2 ^ 64" and "0 < n" and "n \<le> length es"
  shows "EntriesAfter b (of_nat n) = drop (max n (length es - nat (lb_cap b))) (stamped es)"
proof -
  define m where "m = length es - nat (lb_cap b)"
  define xs where "xs = take (n - m) (drop m (stamped es))"
  define ys where "ys = drop (max n m) (stamped es)"
  have all: "entriesLocked b = xs @ ys"
  proof -
    have "ys = drop (n - m) (drop m (stamped es))" by (simp add: ys_def max_def)
    then show ?thesis unfolding entriesLocked_rep [OF rep] m_def [symmetric] xs_def
      by (simp only: append_take_drop_id)
  qed
  have small: "\<not> le_ID x > of_nat n" if "x \<in> set xs" for x
  proof -
    from that obtain i where "i < n - m" "m + i < length es" "x = stamped es ! (m + i)"
      by (auto simp: xs_def in_set_conv_nth)
    then show ?thesis using stamped_ids [of "m + i" es n] assms by simp
  qed
  have big: "le_ID (hd ys) > of_nat n" if "ys \<noteq> []"
  proof -
    from that have "\<not> length (stamped es) \<le> max n m" by (simp only: ys_def drop_eq_Nil) simp
    then have len: "max n m < length es" by (simp only: not_le length_stamped)
    then have "hd ys = stamped es ! max n m" by (simp only: ys_def hd_drop_conv_nth length_stamped)
    with len stamped_ids [of "max n m" es n] assms show ?thesis by simp
  qed
  have "(of_nat n :: uint64) \<noteq> 0"
    using assms by (simp add: word_unat_eq_iff unat_of_nat take_bit_eq_mod)
  then show ?thesis
    using scan_after_split [of xs "of_nat n" 0 ys] small big
    by (simp add: EntriesAfter_def all Let_def ys_def [symmetric] m_def [symmetric])
qed

lemma EntriesAfter_zero_rep:
  assumes "log_rep b es"
  shows "EntriesAfter b 0 = drop (max (length es - 25) (length es - nat (lb_cap b))) (stamped es)"
  by (auto simp: EntriesAfter_def entriesLocked_rep [OF assms] Let_def max_def)

section \<open>The contract of a log\<close>

text \<open>
  What a request handler relies on: adding never fails on a log that represents a history, and
  appends to it.
\<close>

locale log_sink =
  fixes rep :: "'l \<Rightarrow> 'e list \<Rightarrow> bool"
    and add :: "'l \<Rightarrow> 'e \<Rightarrow> go_panic + 'l"
  assumes add_rep: "rep l h \<Longrightarrow> \<exists>l'. add l e = Inr l' \<and> rep l' (h @ [e])"
begin

lemma add_total: "rep l h \<Longrightarrow> add l e \<noteq> Inl p"
  by (metis Inl_Inr_False add_rep)

lemma add_Inr: "rep l h \<Longrightarrow> add l e = Inr l' \<Longrightarrow> rep l' (h @ [e])"
  by (metis add_rep sum.inject(2))

end

interpretation ring_log: log_sink log_rep LogBuffer_Add
  by unfold_locales (use LogBuffer_Add_rep in blast)

section \<open>Properties\<close>

text \<open>
  C14. A buffer of positive capacity never panics and keeps the last \<^verbatim>\<open>cap\<close> entries: after any
  sequence of \<^verbatim>\<open>Add\<close> calls \<^verbatim>\<open>Entries\<close> is, oldest first, the tail of the sequence with the
  entries numbered from 1, and \<^verbatim>\<open>Stats\<close> counts the allowed and blocked entries of each domain
  over the whole sequence, evicted entries included.
\<close>

theorem log_buffer_refines_history:
  assumes "NewLogBuffer capacity = Inr b0" and "0 < capacity"
  shows "\<exists>b. LogBuffer_adds b0 es = Inr b
    \<and> Entries b = drop (length es - nat capacity) (stamped es)
    \<and> Stats b = (\<lambda>d. if d \<in> le_Domain ` set es then Some (domain_stats es d) else None)"
proof -
  obtain b where b: "LogBuffer_adds b0 es = Inr b" "lb_cap b = capacity" "log_rep b es"
    using new_buffer_history [OF assms] by blast
  have "Entries b = drop (length es - nat capacity) (stamped es)"
    using entriesLocked_rep [OF b(3)] b(2) by (simp add: Entries_def)
  moreover have "Stats b = (\<lambda>d. if d \<in> le_Domain ` set es then Some (domain_stats es d) else None)"
    using b(3) by (simp add: log_rep_def Stats_def)
  ultimately show ?thesis using b(1) by blast
qed

theorem log_buffer_refines_history_witness:
  "\<exists>b0 b. NewLogBuffer 2 = Inr b0
    \<and> LogBuffer_adds b0 [zero_LogEntry, zero_LogEntry\<lparr>le_Domain := ''a''\<rparr>, zero_LogEntry] = Inr b
    \<and> map le_ID (Entries b) = [2, 3]"
proof -
  obtain b0 where b0: "NewLogBuffer 2 = Inr b0" by (simp add: NewLogBuffer_def)
  show ?thesis
    using b0 log_buffer_refines_history [OF b0, of "[zero_LogEntry, zero_LogEntry\<lparr>le_Domain := ''a''\<rparr>, zero_LogEntry]"]
    by (auto simp: stamped_def)
qed

text \<open>
  Polling is gap-free. When a client has seen the first \<open>n\<close> entries (the last identifier it
  saw is \<open>n\<close>), \<^verbatim>\<open>EntriesAfter\<close> returns exactly the entries added since, without loss or
  repetition, except those the ring has evicted; when it has seen none (\<^verbatim>\<open>afterID\<close> is 0) it
  gets the last 25. The bound is that fewer than \<^verbatim>\<open>2^64\<close> entries were logged.
\<close>

lemma log_poll_complete:
  assumes "NewLogBuffer capacity = Inr b0" and "0 < capacity"
    and "LogBuffer_adds b0 es = Inr b" and "length es < 2 ^ 64" and "n \<le> length es"
  shows "EntriesAfter b (of_nat n) =
    (if n = 0 then drop (max (length es - 25) (length es - nat capacity)) (stamped es)
     else drop (max n (length es - nat capacity)) (stamped es))"
proof -
  have b: "lb_cap b = capacity" "log_rep b es"
    using new_buffer_history [OF assms(1,2), of es] assms(3) by auto
  show ?thesis
    using EntriesAfter_zero_rep [OF b(2)] EntriesAfter_rep [OF b(2), of n] assms(4,5) b(1) by auto
qed

lemma log_poll_complete_witness:
  "\<exists>b0 b. NewLogBuffer 2 = Inr b0
    \<and> LogBuffer_adds b0 ([zero_LogEntry, zero_LogEntry, zero_LogEntry, zero_LogEntry, zero_LogEntry]) = Inr b
    \<and> map le_ID (EntriesAfter b (of_nat 4)) = [5] \<and> map le_ID (EntriesAfter b (of_nat 1)) = [4, 5]"
proof -
  let ?es = "[zero_LogEntry, zero_LogEntry, zero_LogEntry, zero_LogEntry, zero_LogEntry]"
  obtain b0 where b0: "NewLogBuffer 2 = Inr b0" by (simp add: NewLogBuffer_def)
  then obtain b where b: "LogBuffer_adds b0 ?es = Inr b"
    using new_buffer_history [OF b0, of ?es] by auto
  have "map le_ID (EntriesAfter b (of_nat 4)) = [5]" "map le_ID (EntriesAfter b (of_nat 1)) = [4, 5]"
    using log_poll_complete [OF b0 _ b, of 4] log_poll_complete [OF b0 _ b, of 1]
    by (simp_all add: stamped_def)
  with b0 b show ?thesis by (intro exI [of _ b0] exI [of _ b] conjI)
qed

end
