(* ===== verification/HTTP_Proxy.thy ===== *)
theory HTTP_Proxy
  imports Allowlist CIDR Log_Buffer
begin

text \<open>
  The filtering HTTP and HTTPS proxy, \<^verbatim>\<open>proxy/http.go\<close>: the decision \<^verbatim>\<open>checkRequest\<close> with its
  name resolution and log entry, the \<^verbatim>\<open>CONNECT\<close> and plain-request handlers registered with
  goproxy, and the rewriting of \<^verbatim>\<open>host.vibepit\<close>.

  What the code obtains from outside is a parameter: \<open>lookup\<close> is \<^verbatim>\<open>resolver.LookupIPAddr\<close> (the
  error, if any, and the addresses, which may both be present) and \<open>now\<close> the clock. The goproxy
  library is not modelled: a handler's result is the value it returns to goproxy. The text of a
  refusal is the datatype \<open>deny_msg\<close> that names its three variants.
\<close>

section \<open>Model\<close>

type_synonym lookup_fn = "string \<Rightarrow> string option \<times> IP list"

record HTTPProxy =
  hp_allowlist :: HTTPAllowlist
  hp_cidr :: CIDRBlocker
  hp_log :: LogBuffer
  hp_hostGateway :: string
  hp_allowHostPorts :: "int \<rightharpoonup> bool"

record filterResult =
  fr_action :: Action
  fr_reason :: string
  fr_rewrite :: string

definition NewHTTPProxy :: "HTTPAllowlist \<Rightarrow> CIDRBlocker \<Rightarrow> LogBuffer \<Rightarrow> HTTPProxy" where
  "NewHTTPProxy allowlist cidr log =
     \<lparr>hp_allowlist = allowlist, hp_cidr = cidr, hp_log = log, hp_hostGateway = [],
      hp_allowHostPorts = Map.empty\<rparr>"

definition logEntry ::
    "int \<Rightarrow> HTTPProxy \<Rightarrow> string \<Rightarrow> string \<Rightarrow> Action \<Rightarrow> string \<Rightarrow> go_panic + HTTPProxy" where
  "logEntry now p hostname port action reason =
     map_sum id (\<lambda>log. p\<lparr>hp_log := log\<rparr>)
       (LogBuffer_Add (hp_log p)
          \<lparr>le_ID = 0, le_Time = now, le_Domain = hostname, le_Port = port, le_Action = action,
           le_Source = SourceProxy, le_Reason = reason\<rparr>)"

text \<open>The loop over the resolved addresses.\<close>

fun first_blocked :: "CIDRBlocker \<Rightarrow> IP list \<Rightarrow> bool \<times> IP option" where
  "first_blocked cidr [] = (False, None)"
| "first_blocked cidr (ip # ips) = (if IsBlocked cidr ip then (True, Some ip) else first_blocked cidr ips)"

definition resolveAndCheckCIDR :: "lookup_fn \<Rightarrow> HTTPProxy \<Rightarrow> string \<Rightarrow> bool \<times> IP option" where
  "resolveAndCheckCIDR lookup p hostname =
     (case ParseIP hostname of
        Some ip \<Rightarrow> if IsBlocked (hp_cidr p) ip then (True, Some ip) else (False, None)
      | None \<Rightarrow>
          let (err, addrs) = lookup hostname in
          if err \<noteq> None \<and> length addrs = 0 then (True, None)
          else first_blocked (hp_cidr p) addrs)"

definition isHostPortAllowed :: "HTTPProxy \<Rightarrow> string \<Rightarrow> bool" where
  "isHostPortAllowed p port =
     (case atoi port of
        None \<Rightarrow> False
      | Some portNum \<Rightarrow> (case hp_allowHostPorts p portNum of None \<Rightarrow> False | Some b \<Rightarrow> b))"

definition checkRequest ::
    "lookup_fn \<Rightarrow> int \<Rightarrow> HTTPProxy \<Rightarrow> string \<Rightarrow> string \<Rightarrow> go_panic + (filterResult \<times> HTTPProxy)" where
  "checkRequest lookup now p hostname port =
     (if hostname = ''host.vibepit'' \<and> hp_hostGateway p \<noteq> [] then
        (if \<not> isHostPortAllowed p port \<and> \<not> HTTPAllowlist_Allows (hp_allowlist p) hostname port then
           map_sum id (Pair \<lparr>fr_action = ActionBlock, fr_reason = ''domain not in allowlist'', fr_rewrite = []\<rparr>)
             (logEntry now p hostname port ActionBlock ''domain not in allowlist'')
         else
           map_sum id (Pair \<lparr>fr_action = ActionAllow, fr_reason = [], fr_rewrite = JoinHostPort (hp_hostGateway p) port\<rparr>)
             (logEntry now p hostname port ActionAllow ''host.vibepit''))
      else if \<not> HTTPAllowlist_Allows (hp_allowlist p) hostname port then
        map_sum id (Pair \<lparr>fr_action = ActionBlock, fr_reason = ''domain not in allowlist'', fr_rewrite = []\<rparr>)
          (logEntry now p hostname port ActionBlock ''domain not in allowlist'')
      else
        (case resolveAndCheckCIDR lookup p hostname of
           (True, ip) \<Rightarrow>
             let reason = (case ip of
                   Some ip' \<Rightarrow> ''resolved IP '' @ IP_String ip' @ '' is in blocked CIDR range''
                 | None \<Rightarrow> ''DNS resolution failed during CIDR check'')
             in map_sum id (Pair \<lparr>fr_action = ActionBlock, fr_reason = reason, fr_rewrite = []\<rparr>)
                  (logEntry now p hostname port ActionBlock reason)
         | (False, _) \<Rightarrow>
             map_sum id (Pair \<lparr>fr_action = ActionAllow, fr_reason = [], fr_rewrite = []\<rparr>)
               (logEntry now p hostname port ActionAllow [])))"

definition splitHostPort :: "string \<Rightarrow> string \<Rightarrow> string \<times> string" where
  "splitHostPort hostport defaultPort =
     (case SplitHostPort hostport of
        None \<Rightarrow> (to_lower hostport, defaultPort)
      | Some (host, port) \<Rightarrow> (to_lower host, port))"

definition SetHostVibepit :: "HTTPProxy \<Rightarrow> string \<Rightarrow> int list \<Rightarrow> HTTPProxy" where
  "SetHostVibepit p gateway allowedPorts =
     p\<lparr>hp_hostGateway := (case SplitHostPort gateway of Some (host, _) \<Rightarrow> host | None \<Rightarrow> gateway),
       hp_allowHostPorts := foldl (\<lambda>m port. m(port \<mapsto> True)) Map.empty allowedPorts\<rparr>"

datatype connect_verdict = RejectConnect | OkConnect

definition handleConnect ::
    "lookup_fn \<Rightarrow> int \<Rightarrow> HTTPProxy \<Rightarrow> string \<Rightarrow> go_panic + ((connect_verdict \<times> string) \<times> HTTPProxy)" where
  "handleConnect lookup now p host =
     (let (hostname, port) = splitHostPort host ''443'' in
      map_sum id (\<lambda>(result, p').
          (if fr_action result = ActionBlock then (RejectConnect, host)
           else if fr_rewrite result \<noteq> [] then (OkConnect, fr_rewrite result)
           else (OkConnect, host), p'))
        (checkRequest lookup now p hostname port))"

record Request =
  rq_Host :: string
  rq_URL_Host :: string

datatype deny_msg = NotInAllowlist string | ResolvesToBlockedIP string | NotResolvedSafely string

record Response =
  rs_Status :: nat
  rs_Body :: deny_msg

definition handleRequest ::
    "lookup_fn \<Rightarrow> int \<Rightarrow> HTTPProxy \<Rightarrow> Request \<Rightarrow> go_panic + ((Request \<times> Response option) \<times> HTTPProxy)" where
  "handleRequest lookup now p req =
     (let (hostname, port) = splitHostPort (rq_Host req) ''80'' in
      map_sum id (\<lambda>(result, p').
          (if fr_action result = ActionBlock then
             (req, Some \<lparr>rs_Status = 403,
                rs_Body = (if contains_sub ''blocked CIDR'' (fr_reason result) then ResolvesToBlockedIP hostname
                           else if contains_sub ''resolution failed'' (fr_reason result) then NotResolvedSafely hostname
                           else NotInAllowlist hostname)\<rparr>)
           else if fr_rewrite result \<noteq> [] then
             (req\<lparr>rq_URL_Host := fr_rewrite result, rq_Host := fr_rewrite result\<rparr>, None)
           else (req, None), p'))
        (checkRequest lookup now p hostname port))"

section \<open>What a request needs\<close>

definition resolves_safely :: "lookup_fn \<Rightarrow> CIDRBlocker \<Rightarrow> string \<Rightarrow> bool" where
  "resolves_safely lookup cidr hostname \<longleftrightarrow>
     (case ParseIP hostname of
        Some ip \<Rightarrow> \<not> IsBlocked cidr ip
      | None \<Rightarrow> (fst (lookup hostname) = None \<or> snd (lookup hostname) \<noteq> [])
                \<and> (\<forall>ip\<in>set (snd (lookup hostname)). \<not> IsBlocked cidr ip))"

text \<open>A request to the host machine under its reserved name.\<close>

definition to_host :: "HTTPProxy \<Rightarrow> string \<Rightarrow> bool" where
  "to_host p hostname \<longleftrightarrow> hostname = ''host.vibepit'' \<and> hp_hostGateway p \<noteq> []"

definition admitted :: "lookup_fn \<Rightarrow> HTTPProxy \<Rightarrow> string \<Rightarrow> string \<Rightarrow> bool" where
  "admitted lookup p hostname port \<longleftrightarrow>
     (if to_host p hostname
      then isHostPortAllowed p port \<or> HTTPAllowlist_Allows (hp_allowlist p) hostname port
      else HTTPAllowlist_Allows (hp_allowlist p) hostname port
           \<and> resolves_safely lookup (hp_cidr p) hostname)"

definition log_only :: "HTTPProxy \<Rightarrow> HTTPProxy \<Rightarrow> bool" where
  "log_only p p' \<longleftrightarrow> p' = p\<lparr>hp_log := hp_log p'\<rparr>"

section \<open>Lemmas\<close>

lemma first_blocked_False:
  "fst (first_blocked cidr ips) \<longleftrightarrow> (\<exists>ip\<in>set ips. IsBlocked cidr ip)"
  by (induction ips) auto

lemma resolveAndCheckCIDR_blocked:
  "fst (resolveAndCheckCIDR lookup p hostname) \<longleftrightarrow> \<not> resolves_safely lookup (hp_cidr p) hostname"
  by (auto simp: resolveAndCheckCIDR_def resolves_safely_def first_blocked_False
      split: option.splits prod.splits)

lemma logEntry_ok:
  assumes "log_rep (hp_log p) h"
  shows "\<exists>p'. logEntry now p hostname port action reason = Inr p' \<and> log_only p p'
    \<and> log_rep (hp_log p') (h @ [\<lparr>le_ID = 0, le_Time = now, le_Domain = hostname, le_Port = port,
         le_Action = action, le_Source = SourceProxy, le_Reason = reason\<rparr>])"
proof -
  obtain l where "LogBuffer_Add (hp_log p) \<lparr>le_ID = 0, le_Time = now, le_Domain = hostname, le_Port = port,
         le_Action = action, le_Source = SourceProxy, le_Reason = reason\<rparr> = Inr l"
    and "log_rep l (h @ [\<lparr>le_ID = 0, le_Time = now, le_Domain = hostname, le_Port = port,
         le_Action = action, le_Source = SourceProxy, le_Reason = reason\<rparr>])"
    using ring_log.add_rep [OF assms] by blast
  then show ?thesis by (intro exI [of _ "p\<lparr>hp_log := l\<rparr>"]) (simp add: logEntry_def log_only_def)
qed

lemma actions_differ [simp]: "ActionAllow \<noteq> ActionBlock" "ActionBlock \<noteq> ActionAllow"
  by (simp_all add: ActionAllow_def ActionBlock_def)

text \<open>The reason a refusal gives.\<close>

definition block_reason :: "lookup_fn \<Rightarrow> HTTPProxy \<Rightarrow> string \<Rightarrow> string \<Rightarrow> string" where
  "block_reason lookup p hostname port =
     (if \<not> HTTPAllowlist_Allows (hp_allowlist p) hostname port then ''domain not in allowlist''
      else case snd (resolveAndCheckCIDR lookup p hostname) of
        Some ip \<Rightarrow> ''resolved IP '' @ IP_String ip @ '' is in blocked CIDR range''
      | None \<Rightarrow> ''DNS resolution failed during CIDR check'')"

lemma checkRequest_cases:
  obtains r reason where
    "checkRequest lookup now p hostname port =
       map_sum id (Pair r) (logEntry now p hostname port (fr_action r) reason)"
    and "fr_action r = (if admitted lookup p hostname port then ActionAllow else ActionBlock)"
    and "fr_rewrite r = (if admitted lookup p hostname port \<and> to_host p hostname
                         then JoinHostPort (hp_hostGateway p) port else [])"
    and "fr_reason r = (if admitted lookup p hostname port then []
                        else block_reason lookup p hostname port)"
proof (cases "to_host p hostname")
  case True
  then have h: "hostname = ''host.vibepit''" "hp_hostGateway p \<noteq> []" by (auto simp: to_host_def)
  show ?thesis
  proof (cases "isHostPortAllowed p port \<or> HTTPAllowlist_Allows (hp_allowlist p) hostname port")
    case allowed: True
    show ?thesis
      by (rule that [of "\<lparr>fr_action = ActionAllow, fr_reason = [], fr_rewrite = JoinHostPort (hp_hostGateway p) port\<rparr>"
            "''host.vibepit''"])
        (use h allowed True in \<open>auto simp: checkRequest_def admitted_def\<close>)
  next
    case False
    show ?thesis
      by (rule that [of "\<lparr>fr_action = ActionBlock, fr_reason = ''domain not in allowlist'', fr_rewrite = []\<rparr>"
            "''domain not in allowlist''"])
        (use h False True in \<open>simp_all add: checkRequest_def admitted_def block_reason_def\<close>)
  qed
next
  case False
  then have h: "\<not> (hostname = ''host.vibepit'' \<and> hp_hostGateway p \<noteq> [])" by (auto simp: to_host_def)
  note blk = resolveAndCheckCIDR_blocked [of lookup p hostname]
  show ?thesis
  proof (cases "HTTPAllowlist_Allows (hp_allowlist p) hostname port")
    case allowed: True
    obtain b ip where res: "resolveAndCheckCIDR lookup p hostname = (b, ip)" by fastforce
    show ?thesis
    proof (cases b)
      case True
      show ?thesis
        by (rule that [of "\<lparr>fr_action = ActionBlock, fr_reason = block_reason lookup p hostname port, fr_rewrite = []\<rparr>"
            "block_reason lookup p hostname port"])
          (use h True False allowed res blk in \<open>simp_all only: checkRequest_def admitted_def block_reason_def, simp_all add: Let_def\<close>)
    next
      case b: False
      show ?thesis
        by (rule that [of "\<lparr>fr_action = ActionAllow, fr_reason = [], fr_rewrite = []\<rparr>" "[]"])
          (use h b False allowed res blk in \<open>simp_all only: checkRequest_def admitted_def block_reason_def, simp_all add: Let_def\<close>)
    qed
  next
    case denied: False
    show ?thesis
      by (rule that [of "\<lparr>fr_action = ActionBlock, fr_reason = ''domain not in allowlist'', fr_rewrite = []\<rparr>"
            "''domain not in allowlist''"])
        (use h False denied in \<open>simp_all only: checkRequest_def admitted_def block_reason_def, simp_all\<close>)
  qed
qed

text \<open>The log entry of a decision.\<close>

definition decision_entry :: "string \<Rightarrow> string \<Rightarrow> bool \<Rightarrow> LogEntry \<Rightarrow> bool" where
  "decision_entry hostname port ok e \<longleftrightarrow>
     le_Domain e = hostname \<and> le_Port e = port \<and> le_Source e = SourceProxy
     \<and> le_Action e = (if ok then ActionAllow else ActionBlock)"

lemma checkRequest_ok:
  assumes "log_rep (hp_log p) h"
  obtains r p' e where "checkRequest lookup now p hostname port = Inr (r, p')"
    and "log_only p p'" and "log_rep (hp_log p') (h @ [e])"
    and "decision_entry hostname port (admitted lookup p hostname port) e"
    and "fr_action r = (if admitted lookup p hostname port then ActionAllow else ActionBlock)"
    and "fr_rewrite r = (if admitted lookup p hostname port \<and> to_host p hostname
                         then JoinHostPort (hp_hostGateway p) port else [])"
    and "fr_reason r = (if admitted lookup p hostname port then []
                        else block_reason lookup p hostname port)"
proof -
  obtain r reason where r: "checkRequest lookup now p hostname port =
       map_sum id (Pair r) (logEntry now p hostname port (fr_action r) reason)"
    and act: "fr_action r = (if admitted lookup p hostname port then ActionAllow else ActionBlock)"
    and rest: "fr_rewrite r = (if admitted lookup p hostname port \<and> to_host p hostname
                         then JoinHostPort (hp_hostGateway p) port else [])"
      "fr_reason r = (if admitted lookup p hostname port then [] else block_reason lookup p hostname port)"
    by (rule checkRequest_cases)
  obtain p' where p': "logEntry now p hostname port (fr_action r) reason = Inr p'" "log_only p p'"
    "log_rep (hp_log p') (h @ [\<lparr>le_ID = 0, le_Time = now, le_Domain = hostname, le_Port = port,
         le_Action = fr_action r, le_Source = SourceProxy, le_Reason = reason\<rparr>])"
    using logEntry_ok [OF assms] by blast
  show ?thesis
    by (rule that [OF _ p'(2,3) _ act rest]) (use r p'(1) act in \<open>simp_all add: decision_entry_def\<close>)
qed

lemma JoinHostPort_nonempty [simp]: "JoinHostPort host port \<noteq> []"
  by (simp add: JoinHostPort_def)

lemma deny_body:
  "(if contains_sub ''blocked CIDR'' (block_reason lookup p hostname port) then ResolvesToBlockedIP hostname
    else if contains_sub ''resolution failed'' (block_reason lookup p hostname port) then NotResolvedSafely hostname
    else NotInAllowlist hostname)
   = (if \<not> HTTPAllowlist_Allows (hp_allowlist p) hostname port then NotInAllowlist hostname
      else if snd (resolveAndCheckCIDR lookup p hostname) = None then NotResolvedSafely hostname
      else ResolvesToBlockedIP hostname)"
proof -
  have texts: "\<not> contains_sub ''blocked CIDR'' ''domain not in allowlist''"
    "\<not> contains_sub ''resolution failed'' ''domain not in allowlist''"
    "\<not> contains_sub ''blocked CIDR'' ''DNS resolution failed during CIDR check''"
    "contains_sub ''resolution failed'' ''DNS resolution failed during CIDR check''"
    by code_simp+
  have "contains_sub ''blocked CIDR'' (''resolved IP '' @ IP_String ip @ '' is in blocked CIDR range'')" for ip
    using contains_sub_middle [of "''blocked CIDR''" "''resolved IP '' @ IP_String ip @ '' is in ''" "'' range''"]
    by simp
  then show ?thesis
    using texts by (cases "snd (resolveAndCheckCIDR lookup p hostname)") (simp_all only: block_reason_def if_True if_False option.case refl simp_thms, simp_all)
qed

section \<open>Properties\<close>

text \<open>
  C2. The CONNECT handler admits exactly what the policy admits, and fails closed. With
  \<^verbatim>\<open>splitHostPort\<close> reading host and port, the tunnel is accepted exactly when the allowlist has
  the pair and every address the name stands for passes the address filter (an address literal
  itself, or every address of the lookup, which must not be a failed empty one); the host then
  dialled is the one asked for. For \<^verbatim>\<open>host.vibepit\<close> with a configured gateway the port must be
  an allowed host port or in the allowlist, and the gateway is dialled. The handler never panics,
  changes nothing but the log, and adds one entry with the decision.
\<close>

theorem connect_handler_decides:
  assumes "log_rep (hp_log p) h" and "splitHostPort host ''443'' = (hostname, port)"
  shows "\<exists>p' e. handleConnect lookup now p host =
      Inr (if admitted lookup p hostname port
           then (OkConnect, if to_host p hostname then JoinHostPort (hp_hostGateway p) port else host)
           else (RejectConnect, host), p')
    \<and> log_only p p' \<and> log_rep (hp_log p') (h @ [e])
    \<and> decision_entry hostname port (admitted lookup p hostname port) e"
proof -
  obtain r p' e where r: "checkRequest lookup now p hostname port = Inr (r, p')"
    and p': "log_only p p'" "log_rep (hp_log p') (h @ [e])"
      "decision_entry hostname port (admitted lookup p hostname port) e"
    and fr: "fr_action r = (if admitted lookup p hostname port then ActionAllow else ActionBlock)"
      "fr_rewrite r = (if admitted lookup p hostname port \<and> to_host p hostname
                         then JoinHostPort (hp_hostGateway p) port else [])"
    by (rule checkRequest_ok [OF assms(1)])
  have "handleConnect lookup now p host =
      Inr (if admitted lookup p hostname port
           then (OkConnect, if to_host p hostname then JoinHostPort (hp_hostGateway p) port else host)
           else (RejectConnect, host), p')"
    using r fr by (simp add: handleConnect_def assms(2))
  with p' show ?thesis by blast
qed

theorem connect_handler_decides_witness:
  "\<exists>b0. NewLogBuffer 4 = Inr b0
   \<and> (\<exists>p'. handleConnect (\<lambda>_. (None, [[93, 184, 216, 34]])) 0
         (NewHTTPProxy (map parseHTTPRule [''a.com:443'']) (NewCIDRBlocker [] []) b0) ''A.com''
       = Inr ((OkConnect, ''A.com''), p'))
   \<and> (\<exists>p'. handleConnect (\<lambda>_. (None, [[93, 184, 216, 34], [10, 0, 0, 1]])) 0
         (NewHTTPProxy (map parseHTTPRule [''a.com:443'']) (NewCIDRBlocker [] []) b0) ''A.com''
       = Inr ((RejectConnect, ''A.com''), p'))"
proof -
  obtain b0 where b0: "NewLogBuffer 4 = Inr b0" "log_rep b0 []" using NewLogBuffer_rep [of 4] by auto
  let ?p = "NewHTTPProxy (map parseHTTPRule [''a.com:443'']) (NewCIDRBlocker [] []) b0"
  have log: "log_rep (hp_log ?p) []" using b0(2) by (simp add: NewHTTPProxy_def)
  have hp: "splitHostPort ''A.com'' ''443'' = (''a.com'', ''443'')" by code_simp
  have al: "HTTPAllowlist_Allows (map parseHTTPRule [''a.com:443'']) ''a.com'' ''443''" by code_simp
  have safe: "resolves_safely (\<lambda>_. (None, [[93, 184, 216, 34]])) (NewCIDRBlocker [] []) ''a.com''"
    "\<not> resolves_safely (\<lambda>_. (None, [[93, 184, 216, 34], [10, 0, 0, 1]])) (NewCIDRBlocker [] []) ''a.com''"
    by code_simp+
  have host: "\<not> to_host ?p ''a.com''" by (simp add: to_host_def NewHTTPProxy_def)
  have adm: "admitted lookup ?p ''a.com'' ''443'' \<longleftrightarrow> resolves_safely lookup (NewCIDRBlocker [] []) ''a.com''" for lookup
    using host al by (simp add: admitted_def NewHTTPProxy_def)
  show ?thesis
    using b0(1) connect_handler_decides [OF log hp, of "\<lambda>_. (None, [[93, 184, 216, 34]])" 0]
      connect_handler_decides [OF log hp, of "\<lambda>_. (None, [[93, 184, 216, 34], [10, 0, 0, 1]])" 0]
    unfolding adm using safe host by auto
qed

text \<open>
  The handler of plain requests decides by the same policy. An admitted request passes
  unchanged (to the gateway, in URL and Host, for \<^verbatim>\<open>host.vibepit\<close>) and gets no response from
  the handler; a refused one is answered with status 403 and the text that fits the cause: not in
  the allowlist, resolves to a blocked address, or could not be resolved.
\<close>

lemma request_handler_decides:
  assumes "log_rep (hp_log p) h" and "splitHostPort (rq_Host req) ''80'' = (hostname, port)"
  shows "\<exists>p' e. handleRequest lookup now p req =
      Inr (if admitted lookup p hostname port
           then (if to_host p hostname
                 then req\<lparr>rq_URL_Host := JoinHostPort (hp_hostGateway p) port, rq_Host := JoinHostPort (hp_hostGateway p) port\<rparr>
                 else req, None)
           else (req, Some \<lparr>rs_Status = 403, rs_Body =
             (if \<not> HTTPAllowlist_Allows (hp_allowlist p) hostname port then NotInAllowlist hostname
              else if snd (resolveAndCheckCIDR lookup p hostname) = None then NotResolvedSafely hostname
              else ResolvesToBlockedIP hostname)\<rparr>), p')
    \<and> log_only p p' \<and> log_rep (hp_log p') (h @ [e])
    \<and> decision_entry hostname port (admitted lookup p hostname port) e"
proof -
  obtain r p' e where r: "checkRequest lookup now p hostname port = Inr (r, p')"
    and p': "log_only p p'" "log_rep (hp_log p') (h @ [e])"
      "decision_entry hostname port (admitted lookup p hostname port) e"
    and fr: "fr_action r = (if admitted lookup p hostname port then ActionAllow else ActionBlock)"
      "fr_rewrite r = (if admitted lookup p hostname port \<and> to_host p hostname
                         then JoinHostPort (hp_hostGateway p) port else [])"
      "fr_reason r = (if admitted lookup p hostname port then [] else block_reason lookup p hostname port)"
    by (rule checkRequest_ok [OF assms(1)])
  show ?thesis
  proof (intro exI conjI)
    show "handleRequest lookup now p req =
      Inr (if admitted lookup p hostname port
           then (if to_host p hostname
                 then req\<lparr>rq_URL_Host := JoinHostPort (hp_hostGateway p) port, rq_Host := JoinHostPort (hp_hostGateway p) port\<rparr>
                 else req, None)
           else (req, Some \<lparr>rs_Status = 403, rs_Body =
             (if \<not> HTTPAllowlist_Allows (hp_allowlist p) hostname port then NotInAllowlist hostname
              else if snd (resolveAndCheckCIDR lookup p hostname) = None then NotResolvedSafely hostname
              else ResolvesToBlockedIP hostname)\<rparr>), p')"
      using r fr deny_body [of lookup p hostname port, symmetric]
      by (cases "admitted lookup p hostname port") (simp_all only: handleRequest_def assms(2), simp_all)
  qed (fact p')+
qed

lemma request_handler_decides_witness:
  "\<exists>b0. NewLogBuffer 4 = Inr b0
   \<and> (\<exists>p'. handleRequest (\<lambda>_. (Some ''SERVFAIL'', [])) 0
         (NewHTTPProxy (map parseHTTPRule [''a.com:80'']) (NewCIDRBlocker [] []) b0)
         \<lparr>rq_Host = ''a.com'', rq_URL_Host = ''a.com''\<rparr>
       = Inr ((\<lparr>rq_Host = ''a.com'', rq_URL_Host = ''a.com''\<rparr>,
               Some \<lparr>rs_Status = 403, rs_Body = NotResolvedSafely ''a.com''\<rparr>), p'))"
proof -
  obtain b0 where b0: "NewLogBuffer 4 = Inr b0" "log_rep b0 []" using NewLogBuffer_rep [of 4] by auto
  let ?p = "NewHTTPProxy (map parseHTTPRule [''a.com:80'']) (NewCIDRBlocker [] []) b0"
  let ?l = "\<lambda>_. (Some ''SERVFAIL'', [])" and ?r = "\<lparr>rq_Host = ''a.com'', rq_URL_Host = ''a.com''\<rparr>"
  have log: "log_rep (hp_log ?p) []" using b0(2) by (simp add: NewHTTPProxy_def)
  have hp: "splitHostPort (rq_Host ?r) ''80'' = (''a.com'', ''80'')" by code_simp
  have al: "HTTPAllowlist_Allows (hp_allowlist ?p) ''a.com'' ''80''"
    unfolding NewHTTPProxy_def HTTPProxy.simps by code_simp
  have res: "resolveAndCheckCIDR ?l ?p ''a.com'' = (True, None)"
  proof -
    have "ParseIP ''a.com'' = None" by code_simp
    then show ?thesis by (simp add: resolveAndCheckCIDR_def)
  qed
  then have "\<not> admitted ?l ?p ''a.com'' ''80''"
    using resolveAndCheckCIDR_blocked [of ?l ?p "''a.com''"] by (simp add: admitted_def to_host_def)
  then show ?thesis
    using b0(1) al res request_handler_decides [OF log hp, of ?l 0] by auto
qed

end
