(* ===== verification/DNS_Server.thy ===== *)
theory DNS_Server
  imports Allowlist CIDR Log_Buffer
begin

text \<open>
  The filtering DNS server, \<^verbatim>\<open>proxy/dns.go\<close>: the query handler with its synthetic answer for
  \<^verbatim>\<open>host.vibepit\<close>, the allowlist check, the forwarding to the upstream resolver and the check of
  the answer's addresses. A run of the handler writes exactly one message.

  The library \<^verbatim>\<open>github.com/miekg/dns\<close> is a parameter: the record \<open>mdns\<close> has its
  \<^verbatim>\<open>Msg.SetReply\<close>, \<^verbatim>\<open>Msg.SetRcode\<close> and \<^verbatim>\<open>Client.Exchange\<close>, and \<open>fills_header_only\<close> states
  what the code relies on: the two setters change the header and the question, not the answer
  section of the message they are called on.
\<close>

section \<open>Messages\<close>

record Question =
  q_Name :: string
  q_Qtype :: nat

record RR_Header =
  rh_Name :: string
  rh_Rrtype :: nat
  rh_Class :: nat
  rh_Ttl :: nat

datatype RR = RR_A RR_Header IP | RR_AAAA RR_Header IP | RR_Other RR_Header

record Msg =
  m_Rcode :: nat
  m_Question :: "Question list"
  m_Answer :: "RR list"

definition new_Msg :: Msg where
  "new_Msg = \<lparr>m_Rcode = 0, m_Question = [], m_Answer = []\<rparr>"

definition TypeA :: nat where "TypeA = 1"
definition ClassINET :: nat where "ClassINET = 1"
definition RcodeServerFailure :: nat where "RcodeServerFailure = 2"
definition RcodeNameError :: nat where "RcodeNameError = 3"

record mdns =
  md_SetReply :: "Msg \<Rightarrow> Msg \<Rightarrow> Msg"
  md_SetRcode :: "Msg \<Rightarrow> Msg \<Rightarrow> nat \<Rightarrow> Msg"
  md_Exchange :: "Msg \<Rightarrow> string \<Rightarrow> string + Msg"

definition fills_header_only :: "mdns \<Rightarrow> bool" where
  "fills_header_only lib \<longleftrightarrow>
     (\<forall>m r. m_Answer (md_SetReply lib m r) = m_Answer m)
     \<and> (\<forall>m r c. m_Answer (md_SetRcode lib m r c) = m_Answer m \<and> m_Rcode (md_SetRcode lib m r c) = c)"

section \<open>Model\<close>

record DNSServer =
  dn_allowlist :: DNSAllowlist
  dn_cidr :: CIDRBlocker
  dn_log :: LogBuffer
  dn_upstream :: string
  dn_proxyIP :: "IP option"

definition NewDNSServer :: "DNSAllowlist \<Rightarrow> CIDRBlocker \<Rightarrow> LogBuffer \<Rightarrow> string \<Rightarrow> DNSServer" where
  "NewDNSServer allowlist cidr log upstream =
     \<lparr>dn_allowlist = allowlist, dn_cidr = cidr, dn_log = log, dn_upstream = upstream, dn_proxyIP = None\<rparr>"

definition SetProxyIP :: "DNSServer \<Rightarrow> IP \<Rightarrow> DNSServer" where
  "SetProxyIP s ip = s\<lparr>dn_proxyIP := Some ip\<rparr>"

definition handleFailed :: "mdns \<Rightarrow> Msg \<Rightarrow> Msg" where
  "handleFailed lib r = md_SetRcode lib new_Msg r RcodeServerFailure"

fun hasBlockedIP_answers :: "CIDRBlocker \<Rightarrow> RR list \<Rightarrow> bool" where
  "hasBlockedIP_answers cidr [] = False"
| "hasBlockedIP_answers cidr (rr # rrs) =
     (case rr of
        RR_A _ ip \<Rightarrow> if IsBlocked cidr ip then True else hasBlockedIP_answers cidr rrs
      | RR_AAAA _ ip \<Rightarrow> if IsBlocked cidr ip then True else hasBlockedIP_answers cidr rrs
      | RR_Other _ \<Rightarrow> hasBlockedIP_answers cidr rrs)"

definition hasBlockedIP :: "DNSServer \<Rightarrow> Msg \<Rightarrow> bool" where
  "hasBlockedIP s msg = hasBlockedIP_answers (dn_cidr s) (m_Answer msg)"

definition dns_log :: "int \<Rightarrow> DNSServer \<Rightarrow> string \<Rightarrow> Action \<Rightarrow> string \<Rightarrow> go_panic + DNSServer" where
  "dns_log now s domain action reason =
     map_sum id (\<lambda>log. s\<lparr>dn_log := log\<rparr>)
       (LogBuffer_Add (dn_log s)
          \<lparr>le_ID = 0, le_Time = now, le_Domain = domain, le_Port = [], le_Action = action,
           le_Source = SourceDNS, le_Reason = reason\<rparr>)"

definition query_domain :: "Question \<Rightarrow> string" where
  "query_domain q = trim_suffix ''.'' (to_lower (q_Name q))"

text \<open>The handler: the message written and the server after it.\<close>

definition handler :: "mdns \<Rightarrow> int \<Rightarrow> DNSServer \<Rightarrow> Msg \<Rightarrow> go_panic + (Msg \<times> DNSServer)" where
  "handler lib now s r =
     (case m_Question r of
        [] \<Rightarrow> Inr (handleFailed lib r, s)
      | q # _ \<Rightarrow>
          let domain = query_domain q in
          (case (domain = ''host.vibepit'' \<and> q_Qtype q = TypeA, dn_proxyIP s) of
             (True, Some proxyIP) \<Rightarrow>
               (let m = md_SetReply lib new_Msg r;
                    m' = m\<lparr>m_Answer := m_Answer m @
                       [RR_A \<lparr>rh_Name = q_Name q, rh_Rrtype = TypeA, rh_Class = ClassINET, rh_Ttl = 60\<rparr> proxyIP]\<rparr>
                in map_sum id (Pair m') (dns_log now s domain ActionAllow []))
           | _ \<Rightarrow>
               if \<not> DNSAllowlist_Allows (dn_allowlist s) domain then
                 map_sum id (Pair (md_SetRcode lib new_Msg r RcodeNameError))
                   (dns_log now s domain ActionBlock ''domain not in allowlist'')
               else
                 (case md_Exchange lib r (dn_upstream s) of
                    Inl err \<Rightarrow> Inr (handleFailed lib r, s)
                  | Inr resp \<Rightarrow>
                      if hasBlockedIP s resp then
                        map_sum id (Pair (md_SetRcode lib new_Msg r RcodeNameError))
                          (dns_log now s domain ActionBlock ''resolved IP in blocked CIDR range'')
                      else map_sum id (Pair resp) (dns_log now s domain ActionAllow []))))"

section \<open>Reference\<close>

fun answer_ips :: "RR list \<Rightarrow> IP list" where
  "answer_ips [] = []"
| "answer_ips (RR_A _ ip # rrs) = ip # answer_ips rrs"
| "answer_ips (RR_AAAA _ ip # rrs) = ip # answer_ips rrs"
| "answer_ips (RR_Other _ # rrs) = answer_ips rrs"

datatype dns_verdict =
    NoQuestion
  | HostAddress IP
  | NameDenied
  | UpstreamFailed
  | AddressDenied
  | Forwarded Msg

definition dns_policy :: "mdns \<Rightarrow> DNSServer \<Rightarrow> Msg \<Rightarrow> dns_verdict" where
  "dns_policy lib s r =
     (if m_Question r = [] then NoQuestion
      else let q = hd (m_Question r); domain = query_domain q in
        if domain = ''host.vibepit'' \<and> q_Qtype q = TypeA \<and> dn_proxyIP s \<noteq> None
        then HostAddress (the (dn_proxyIP s))
        else if \<not> DNSAllowlist_Allows (dn_allowlist s) domain then NameDenied
        else case md_Exchange lib r (dn_upstream s) of
            Inl _ \<Rightarrow> UpstreamFailed
          | Inr resp \<Rightarrow> if \<exists>ip\<in>set (answer_ips (m_Answer resp)). IsBlocked (dn_cidr s) ip
                        then AddressDenied else Forwarded resp)"

definition verdict_action :: "dns_verdict \<Rightarrow> Action option" where
  "verdict_action v =
     (case v of NoQuestion \<Rightarrow> None | UpstreamFailed \<Rightarrow> None | NameDenied \<Rightarrow> Some ActionBlock
      | AddressDenied \<Rightarrow> Some ActionBlock | HostAddress _ \<Rightarrow> Some ActionAllow | Forwarded _ \<Rightarrow> Some ActionAllow)"

definition answers_verdict :: "Msg \<Rightarrow> dns_verdict \<Rightarrow> bool" where
  "answers_verdict m v \<longleftrightarrow>
     (case v of
        NoQuestion \<Rightarrow> m_Rcode m = RcodeServerFailure \<and> m_Answer m = []
      | UpstreamFailed \<Rightarrow> m_Rcode m = RcodeServerFailure \<and> m_Answer m = []
      | NameDenied \<Rightarrow> m_Rcode m = RcodeNameError \<and> m_Answer m = []
      | AddressDenied \<Rightarrow> m_Rcode m = RcodeNameError \<and> m_Answer m = []
      | HostAddress ip \<Rightarrow> answer_ips (m_Answer m) = [ip]
      | Forwarded resp \<Rightarrow> m = resp)"

section \<open>Lemmas\<close>

lemma hasBlockedIP_answers_iff:
  "hasBlockedIP_answers cidr rrs \<longleftrightarrow> (\<exists>ip\<in>set (answer_ips rrs). IsBlocked cidr ip)"
  by (induction rrs rule: answer_ips.induct) auto

lemma dns_log_ok:
  assumes "log_rep (dn_log s) h"
  obtains s' e where "dns_log now s domain action reason = Inr s'" and "s' = s\<lparr>dn_log := dn_log s'\<rparr>"
    and "log_rep (dn_log s') (h @ [e])" and "le_Domain e = domain" and "le_Action e = action"
    and "le_Source e = SourceDNS"
proof -
  let ?e = "\<lparr>le_ID = 0, le_Time = now, le_Domain = domain, le_Port = [], le_Action = action,
           le_Source = SourceDNS, le_Reason = reason\<rparr>"
  obtain l where l: "LogBuffer_Add (dn_log s) ?e = Inr l" "log_rep l (h @ [?e])"
    using ring_log.add_rep [OF assms] by blast
  show ?thesis by (rule that [of "s\<lparr>dn_log := l\<rparr>" ?e]) (use l in \<open>simp_all add: dns_log_def\<close>)
qed

lemma handler_cases:
  assumes "fills_header_only lib"
  obtains m reason where "answers_verdict m (dns_policy lib s r)"
    and "handler lib now s r =
      (case verdict_action (dns_policy lib s r) of
         None \<Rightarrow> Inr (m, s)
       | Some a \<Rightarrow> map_sum id (Pair m) (dns_log now s (query_domain (hd (m_Question r))) a reason))"
proof (cases "m_Question r")
  case Nil
  show ?thesis
    by (rule that [of "handleFailed lib r"])
      (use assms Nil in \<open>simp_all add: dns_policy_def answers_verdict_def handleFailed_def handler_def
         verdict_action_def fills_header_only_def new_Msg_def\<close>)
next
  case (Cons q qs)
  let ?d = "query_domain q"
  have setters: "m_Answer (md_SetReply lib new_Msg r) = []" "m_Answer (md_SetRcode lib new_Msg r c) = []"
    "m_Rcode (md_SetRcode lib new_Msg r c) = c" for c
    using assms by (simp_all add: fills_header_only_def new_Msg_def)
  note defs = answers_verdict_def handleFailed_def handler_def verdict_action_def
    hasBlockedIP_def hasBlockedIP_answers_iff Let_def
  show ?thesis
  proof (cases "?d = ''host.vibepit'' \<and> q_Qtype q = TypeA \<and> dn_proxyIP s \<noteq> None")
    case True
    then obtain ip where ip: "dn_proxyIP s = Some ip" by blast
    let ?m = "(md_SetReply lib new_Msg r)\<lparr>m_Answer :=
        [RR_A \<lparr>rh_Name = q_Name q, rh_Rrtype = TypeA, rh_Class = ClassINET, rh_Ttl = 60\<rparr> ip]\<rparr>"
    show ?thesis
      by (rule that [of ?m "[]"]) (use True ip Cons setters in \<open>simp_all add: defs dns_policy_def\<close>)
  next
    case nohost: False
    then have nohost': "(case (?d = ''host.vibepit'' \<and> q_Qtype q = TypeA, dn_proxyIP s) of
        (True, Some x) \<Rightarrow> f x | _ \<Rightarrow> y) = y" for f :: "IP \<Rightarrow> go_panic + Msg \<times> DNSServer" and y
      by (auto split: option.splits bool.splits)
    have pol: "dns_policy lib s r =
        (if \<not> DNSAllowlist_Allows (dn_allowlist s) ?d then NameDenied
         else case md_Exchange lib r (dn_upstream s) of
            Inl _ \<Rightarrow> UpstreamFailed
          | Inr resp \<Rightarrow> if \<exists>ip\<in>set (answer_ips (m_Answer resp)). IsBlocked (dn_cidr s) ip
                        then AddressDenied else Forwarded resp)"
      by (simp only: dns_policy_def Cons list.sel nohost if_False list.distinct Let_def)
    show ?thesis
    proof (cases "DNSAllowlist_Allows (dn_allowlist s) ?d")
      case False
      show ?thesis
        by (rule that [of "md_SetRcode lib new_Msg r RcodeNameError" "''domain not in allowlist''"])
          (use nohost' False Cons setters in \<open>simp_all add: defs pol\<close>)
    next
      case allowed: True
      show ?thesis
      proof (cases "md_Exchange lib r (dn_upstream s)")
        case (Inl err)
        show ?thesis
          by (rule that [of "handleFailed lib r" "[]"])
            (use nohost' allowed Inl Cons setters in \<open>simp_all add: defs pol\<close>)
      next
        case (Inr resp)
        show ?thesis
        proof (cases "\<exists>ip\<in>set (answer_ips (m_Answer resp)). IsBlocked (dn_cidr s) ip")
          case True
          show ?thesis
            by (rule that [of "md_SetRcode lib new_Msg r RcodeNameError" "''resolved IP in blocked CIDR range''"])
              (use nohost' allowed Inr True Cons setters in \<open>simp_all add: defs pol\<close>)
        next
          case False
          show ?thesis
            by (rule that [of resp "[]"])
              (use nohost' allowed Inr False Cons in \<open>simp_all add: defs pol\<close>)
        qed
      qed
    qed
  qed
qed

section \<open>Properties\<close>

text \<open>
  C13. The DNS handler follows the policy: it never panics and writes exactly one message, a
  server failure for a query without question or when the upstream fails, the proxy's address
  for \<^verbatim>\<open>host.vibepit\<close>, a name error with an empty answer for a name that is not in the allowlist
  (whatever the upstream would say) or whose answer has a blocked address, and otherwise the
  upstream's message unchanged. Only the log changes, and it gets one entry with the verdict,
  or none for the two failures.
\<close>

theorem dns_handler_follows_policy:
  assumes "log_rep (dn_log s) h" and "fills_header_only lib"
  shows "\<exists>m s'. handler lib now s r = Inr (m, s') \<and> answers_verdict m (dns_policy lib s r)
    \<and> s' = s\<lparr>dn_log := dn_log s'\<rparr>
    \<and> (case verdict_action (dns_policy lib s r) of
         None \<Rightarrow> log_rep (dn_log s') h
       | Some a \<Rightarrow> \<exists>e. log_rep (dn_log s') (h @ [e]) \<and> le_Action e = a \<and> le_Source e = SourceDNS
                     \<and> le_Domain e = query_domain (hd (m_Question r)))"
proof -
  obtain m reason where m: "answers_verdict m (dns_policy lib s r)"
    and hd: "handler lib now s r =
      (case verdict_action (dns_policy lib s r) of
         None \<Rightarrow> Inr (m, s)
       | Some a \<Rightarrow> map_sum id (Pair m) (dns_log now s (query_domain (hd (m_Question r))) a reason))"
    by (rule handler_cases [OF assms(2)])
  show ?thesis
  proof (cases "verdict_action (dns_policy lib s r)")
    case None
    with m hd assms(1) show ?thesis by simp
  next
    case (Some a)
    obtain s' e where "dns_log now s (query_domain (hd (m_Question r))) a reason = Inr s'"
      "s' = s\<lparr>dn_log := dn_log s'\<rparr>" "log_rep (dn_log s') (h @ [e])"
      "le_Domain e = query_domain (hd (m_Question r))" "le_Action e = a" "le_Source e = SourceDNS"
      by (rule dns_log_ok [OF assms(1)])
    with m hd Some show ?thesis by (intro exI [of _ m] exI [of _ s']) auto
  qed
qed

theorem dns_handler_follows_policy_witness:
  "\<exists>b0 m s' e. NewLogBuffer 4 = Inr b0
    \<and> handler \<lparr>md_SetReply = (\<lambda>m r. m), md_SetRcode = (\<lambda>m r c. m\<lparr>m_Rcode := c\<rparr>),
          md_Exchange = (\<lambda>r u. Inr (r\<lparr>m_Answer := [RR_A \<lparr>rh_Name = [], rh_Rrtype = 1, rh_Class = 1, rh_Ttl = 9\<rparr> [10, 0, 0, 1]]\<rparr>))\<rparr>
        0 (NewDNSServer [parseDNSRule ''a.com''] (NewCIDRBlocker [] []) b0 ''9.9.9.9:53'')
        \<lparr>m_Rcode = 0, m_Question = [\<lparr>q_Name = ''A.com.'', q_Qtype = 1\<rparr>], m_Answer = []\<rparr> = Inr (m, s')
    \<and> m_Rcode m = RcodeNameError \<and> m_Answer m = []
    \<and> log_rep (dn_log s') [e] \<and> le_Action e = ActionBlock"
proof -
  obtain b0 where b0: "NewLogBuffer 4 = Inr b0" "log_rep b0 []" using NewLogBuffer_rep [of 4] by auto
  let ?s = "NewDNSServer [parseDNSRule ''a.com''] (NewCIDRBlocker [] []) b0 ''9.9.9.9:53''"
  let ?lib = "\<lparr>md_SetReply = (\<lambda>m r. m), md_SetRcode = (\<lambda>m r c. m\<lparr>m_Rcode := c\<rparr>),
      md_Exchange = (\<lambda>r u. Inr (r\<lparr>m_Answer := [RR_A \<lparr>rh_Name = [], rh_Rrtype = 1, rh_Class = 1, rh_Ttl = 9\<rparr> [10, 0, 0, 1]]\<rparr>))\<rparr>"
  let ?r = "\<lparr>m_Rcode = 0, m_Question = [\<lparr>q_Name = ''A.com.'', q_Qtype = 1\<rparr>], m_Answer = []\<rparr>"
  have log: "log_rep (dn_log ?s) []" using b0(2) by (simp add: NewDNSServer_def)
  have lib: "fills_header_only ?lib" by (simp add: fills_header_only_def)
  have dom: "query_domain \<lparr>q_Name = ''A.com.'', q_Qtype = Suc 0\<rparr> = ''a.com''" by code_simp
  have al: "DNSAllowlist_Allows [parseDNSRule ''a.com''] ''a.com''" by code_simp
  have blk: "IsBlocked (NewCIDRBlocker [] []) [10, 0, 0, 1]" by code_simp
  have pol: "dns_policy ?lib ?s ?r = AddressDenied"
    using al blk by (simp add: dns_policy_def dom NewDNSServer_def Let_def)
  show ?thesis
    using b0(1) dns_handler_follows_policy [OF log lib, of 0 ?r] unfolding pol
    by (auto simp: verdict_action_def answers_verdict_def)
qed

end
