(* ===== verification/Proxy_Server.thy ===== *)
theory Proxy_Server
  imports HTTP_Proxy DNS_Server
begin

text \<open>
  The proxy process: the control API of \<^verbatim>\<open>proxy/api.go\<close> and the server of \<^verbatim>\<open>proxy/server.go\<close>
  that wires allowlists, address filter, log, HTTP proxy, DNS server and control API together.

  In the program the three services share the two allowlists and the log through pointers. Here
  the shared cells are one record \<open>proxy_state\<close>; a service's own record is assembled from the
  cells, its handler runs, and the changed cells are written back. Requests of the three
  services are the events of a history, handled one after the other: a handler reads each
  allowlist once and holds the log's mutex for its one entry.

  Reading the configuration file and JSON are parameters: \<open>readFile\<close> and \<open>unmarshal\<close> for the
  server, and the decoded body of an API request (\<^term>\<open>None\<close> for invalid JSON).
\<close>

section \<open>Server configuration\<close>

definition DefaultUpstreamDNS :: string where "DefaultUpstreamDNS = ''9.9.9.9:53''"
definition DefaultDNSPort :: int where "DefaultDNSPort = 53"
definition LogBufferCapacity :: int where "LogBufferCapacity = 10000"
definition SSHForwardPort :: int where "SSHForwardPort = 2222"

record ProxyConfig =
  pc_AllowHTTP :: "string list"
  pc_AllowDNS :: "string list"
  pc_BlockCIDR :: "string list"
  pc_AllowCIDR :: "string list"
  pc_UpstreamDNS :: string
  pc_AllowHostPorts :: "int list"
  pc_ProxyIP :: string
  pc_HostGateway :: string
  pc_ProxyPort :: int
  pc_ControlAPIPort :: int
  pc_DNSPort :: int
  pc_SSHForwardAddr :: string

datatype server_error = ReadConfig string | ParseConfig string | AllowHTTPError allow_error
  | AllowDNSError allow_error | ServerPanic go_panic

definition NewServer ::
    "(string \<Rightarrow> string + string) \<Rightarrow> (string \<Rightarrow> string + ProxyConfig) \<Rightarrow> string \<Rightarrow> server_error + ProxyConfig" where
  "NewServer readFile unmarshal configPath =
     (case readFile configPath of
        Inl err \<Rightarrow> Inl (ReadConfig err)
      | Inr data \<Rightarrow>
          (case unmarshal data of
             Inl err \<Rightarrow> Inl (ParseConfig err)
           | Inr cfg \<Rightarrow>
               Inr (if pc_UpstreamDNS cfg = [] then cfg\<lparr>pc_UpstreamDNS := DefaultUpstreamDNS\<rparr> else cfg)))"

definition dnsPort :: "ProxyConfig \<Rightarrow> int" where
  "dnsPort cfg = (if pc_DNSPort cfg > 0 then pc_DNSPort cfg else DefaultDNSPort)"

section \<open>The running process\<close>

record proxy_state =
  ps_http :: HTTPAllowlist
  ps_dns :: DNSAllowlist
  ps_cidr :: CIDRBlocker
  ps_log :: LogBuffer
  ps_hostGateway :: string
  ps_allowHostPorts :: "int \<rightharpoonup> bool"
  ps_upstream :: string
  ps_proxyIP :: "IP option"
  ps_config :: ProxyConfig

definition http_view :: "proxy_state \<Rightarrow> HTTPProxy" where
  "http_view st =
     \<lparr>hp_allowlist = ps_http st, hp_cidr = ps_cidr st, hp_log = ps_log st,
      hp_hostGateway = ps_hostGateway st, hp_allowHostPorts = ps_allowHostPorts st\<rparr>"

definition dns_view :: "proxy_state \<Rightarrow> DNSServer" where
  "dns_view st =
     \<lparr>dn_allowlist = ps_dns st, dn_cidr = ps_cidr st, dn_log = ps_log st, dn_upstream = ps_upstream st,
      dn_proxyIP = ps_proxyIP st\<rparr>"

datatype service = HTTPService string | DNSService string | ControlService string | SSHForwarder string string

text \<open>
  The first part of \<^verbatim>\<open>Run\<close>, up to the start of the services: the state of the process, the
  services to start with their addresses, and the capacity of the error channel.
\<close>

definition colon_port :: "int \<Rightarrow> string" where
  "colon_port n = '':'' @ show_int n"

definition Run :: "ProxyConfig \<Rightarrow> server_error + (proxy_state \<times> service list \<times> nat)" where
  "Run cfg =
     (case NewHTTPAllowlist (pc_AllowHTTP cfg) of
        Inl err \<Rightarrow> Inl (AllowHTTPError err)
      | Inr allowlist \<Rightarrow>
     (case NewDNSAllowlist (pc_AllowDNS cfg) of
        Inl err \<Rightarrow> Inl (AllowDNSError err)
      | Inr dnsAllowlist \<Rightarrow>
     (case NewLogBuffer LogBufferCapacity of
        Inl p \<Rightarrow> Inl (ServerPanic p)
      | Inr log \<Rightarrow>
         let cidr = NewCIDRBlocker (pc_BlockCIDR cfg) (pc_AllowCIDR cfg);
             httpProxy = NewHTTPProxy allowlist cidr log;
             dnsServer = NewDNSServer dnsAllowlist cidr log (pc_UpstreamDNS cfg);
             dnsServer = (case ParseIP (pc_ProxyIP cfg) of
                            Some proxyIP \<Rightarrow> SetProxyIP dnsServer proxyIP | None \<Rightarrow> dnsServer);
             httpProxy = (if pc_HostGateway cfg \<noteq> []
                          then SetHostVibepit httpProxy (pc_HostGateway cfg) (pc_AllowHostPorts cfg)
                          else httpProxy);
             services = (if pc_SSHForwardAddr cfg \<noteq> [] then 4 else 3)
         in Inr (\<lparr>ps_http = allowlist, ps_dns = dnsAllowlist, ps_cidr = cidr, ps_log = log,
                  ps_hostGateway = hp_hostGateway httpProxy,
                  ps_allowHostPorts = hp_allowHostPorts httpProxy,
                  ps_upstream = dn_upstream dnsServer, ps_proxyIP = dn_proxyIP dnsServer,
                  ps_config = cfg\<rparr>,
                 [HTTPService (colon_port (pc_ProxyPort cfg)), DNSService (colon_port (dnsPort cfg)),
                  ControlService (colon_port (pc_ControlAPIPort cfg))]
                 @ (if pc_SSHForwardAddr cfg \<noteq> []
                    then [SSHForwarder (colon_port SSHForwardPort) (pc_SSHForwardAddr cfg)] else []),
                 services))))"

section \<open>The control API\<close>

record api_request =
  ar_Method :: string
  ar_Path :: string
  ar_After :: string
  ar_Entries :: "string list option"

datatype api_error = InvalidJSON | EntriesRequired | Rejected allow_error

datatype api_response =
    LogsResponse "LogEntry list"
  | StatsResponse "string \<rightharpoonup> DomainStats"
  | ConfigResponse ProxyConfig
  | Added "string list"
  | BadRequest api_error
  | NotFound
  | MethodNotAllowed

definition handleLogs :: "proxy_state \<Rightarrow> api_request \<Rightarrow> api_response" where
  "handleLogs st r =
     (let afterID = (if ar_After r \<noteq> [] then parse_uint64_value (ar_After r) else 0)
      in LogsResponse (EntriesAfter (ps_log st) afterID))"

definition handleStats :: "proxy_state \<Rightarrow> api_response" where
  "handleStats st = StatsResponse (Stats (ps_log st))"

definition handleConfig :: "proxy_state \<Rightarrow> api_response" where
  "handleConfig st = ConfigResponse (ps_config st)"

definition decodeAllowRequest :: "api_request \<Rightarrow> api_error + string list" where
  "decodeAllowRequest r =
     (case ar_Entries r of
        None \<Rightarrow> Inl InvalidJSON
      | Some entries \<Rightarrow> if length entries = 0 then Inl EntriesRequired else Inr entries)"

definition handleAllowHTTP :: "proxy_state \<Rightarrow> api_request \<Rightarrow> api_response \<times> proxy_state" where
  "handleAllowHTTP st r =
     (case decodeAllowRequest r of
        Inl err \<Rightarrow> (BadRequest err, st)
      | Inr entries \<Rightarrow>
          (case HTTPAllowlist_Add (ps_http st) entries of
             Inl err \<Rightarrow> (BadRequest (Rejected err), st)
           | Inr al \<Rightarrow> (Added entries, st\<lparr>ps_http := al\<rparr>)))"

definition handleAllowDNS :: "proxy_state \<Rightarrow> api_request \<Rightarrow> api_response \<times> proxy_state" where
  "handleAllowDNS st r =
     (case decodeAllowRequest r of
        Inl err \<Rightarrow> (BadRequest err, st)
      | Inr entries \<Rightarrow>
          (case DNSAllowlist_Add (ps_dns st) entries of
             Inl err \<Rightarrow> (BadRequest (Rejected err), st)
           | Inr al \<Rightarrow> (Added entries, st\<lparr>ps_dns := al\<rparr>)))"

text \<open>The routes registered by \<^verbatim>\<open>NewControlAPI\<close>; the mux serves \<^verbatim>\<open>HEAD\<close> by a \<^verbatim>\<open>GET\<close> route.\<close>

definition ServeHTTP :: "proxy_state \<Rightarrow> api_request \<Rightarrow> api_response \<times> proxy_state" where
  "ServeHTTP st r =
     (let get = ar_Method r = ''GET'' \<or> ar_Method r = ''HEAD''; post = ar_Method r = ''POST'' in
      if ar_Path r = ''/logs'' then (if get then (handleLogs st r, st) else (MethodNotAllowed, st))
      else if ar_Path r = ''/stats'' then (if get then (handleStats st, st) else (MethodNotAllowed, st))
      else if ar_Path r = ''/config'' then (if get then (handleConfig st, st) else (MethodNotAllowed, st))
      else if ar_Path r = ''/allow-http'' then (if post then handleAllowHTTP st r else (MethodNotAllowed, st))
      else if ar_Path r = ''/allow-dns'' then (if post then handleAllowDNS st r else (MethodNotAllowed, st))
      else (NotFound, st))"

section \<open>Histories of requests\<close>

datatype event =
    ConnectEvent lookup_fn int string
  | RequestEvent lookup_fn int Request
  | QueryEvent mdns int Msg
  | ControlEvent api_request

datatype outcome =
    ConnectOutcome "connect_verdict \<times> string"
  | RequestOutcome "Request \<times> Response option"
  | QueryOutcome Msg
  | ControlOutcome api_response

definition serve :: "proxy_state \<Rightarrow> event \<Rightarrow> go_panic + (outcome \<times> proxy_state)" where
  "serve st ev =
     (case ev of
        ConnectEvent lookup now host \<Rightarrow>
          map_sum id (\<lambda>(r, p). (ConnectOutcome r, st\<lparr>ps_log := hp_log p\<rparr>))
            (handleConnect lookup now (http_view st) host)
      | RequestEvent lookup now req \<Rightarrow>
          map_sum id (\<lambda>(r, p). (RequestOutcome r, st\<lparr>ps_log := hp_log p\<rparr>))
            (handleRequest lookup now (http_view st) req)
      | QueryEvent lib now msg \<Rightarrow>
          map_sum id (\<lambda>(m, s). (QueryOutcome m, st\<lparr>ps_log := dn_log s\<rparr>))
            (handler lib now (dns_view st) msg)
      | ControlEvent r \<Rightarrow> (case ServeHTTP st r of (resp, st') \<Rightarrow> Inr (ControlOutcome resp, st')))"

fun serve_all :: "proxy_state \<Rightarrow> event list \<Rightarrow> go_panic + (outcome list \<times> proxy_state)" where
  "serve_all st [] = Inr ([], st)"
| "serve_all st (ev # evs) =
     (case serve st ev of
        Inl p \<Rightarrow> Inl p
      | Inr (o1, st') \<Rightarrow> map_sum id (\<lambda>(os, st''). (o1 # os, st'')) (serve_all st' evs))"

section \<open>Reference: the policy of a history\<close>

text \<open>The batches of entries that a history posted to the two allow routes.\<close>

fun http_batches :: "event list \<Rightarrow> string list list" where
  "http_batches [] = []"
| "http_batches (ControlEvent r # evs) =
     (if ar_Path r = ''/allow-http'' \<and> ar_Method r = ''POST''
      then (case ar_Entries r of Some es \<Rightarrow> es # http_batches evs | None \<Rightarrow> http_batches evs)
      else http_batches evs)"
| "http_batches (_ # evs) = http_batches evs"

fun dns_batches :: "event list \<Rightarrow> string list list" where
  "dns_batches [] = []"
| "dns_batches (ControlEvent r # evs) =
     (if ar_Path r = ''/allow-dns'' \<and> ar_Method r = ''POST''
      then (case ar_Entries r of Some es \<Rightarrow> es # dns_batches evs | None \<Rightarrow> dns_batches evs)
      else dns_batches evs)"
| "dns_batches (_ # evs) = dns_batches evs"

definition addr_ok :: "ProxyConfig \<Rightarrow> IP \<Rightarrow> bool" where
  "addr_ok cfg ip \<longleftrightarrow>
     (\<exists>c\<in>set (pc_AllowCIDR cfg). cidr_covers c ip)
     \<or> \<not> private_ip ip \<and> \<not> (\<exists>c\<in>set (pc_BlockCIDR cfg). cidr_covers c ip)"

definition entry_allows :: "ProxyConfig \<Rightarrow> event list \<Rightarrow> string \<times> string \<Rightarrow> bool" where
  "entry_allows cfg evs hp \<longleftrightarrow>
     (\<exists>fs\<in>set (pc_AllowHTTP cfg # http_batches evs).
        ValidateHTTPEntries fs = None \<and> (\<exists>e\<in>set fs. http_entry_admits e hp))"

definition name_allows :: "ProxyConfig \<Rightarrow> event list \<Rightarrow> string \<Rightarrow> bool" where
  "name_allows cfg evs name \<longleftrightarrow>
     (\<exists>fs\<in>set (pc_AllowDNS cfg # dns_batches evs).
        ValidateDNSEntries fs = None \<and> (\<exists>e\<in>set fs. domain_admits e name))"

text \<open>The cells that no request changes.\<close>

definition same_settings :: "proxy_state \<Rightarrow> proxy_state \<Rightarrow> bool" where
  "same_settings st st' \<longleftrightarrow>
     ps_cidr st' = ps_cidr st \<and> ps_hostGateway st' = ps_hostGateway st
     \<and> ps_allowHostPorts st' = ps_allowHostPorts st \<and> ps_upstream st' = ps_upstream st
     \<and> ps_proxyIP st' = ps_proxyIP st \<and> ps_config st' = ps_config st"

definition proxy_inv :: "proxy_state \<Rightarrow> event list \<Rightarrow> proxy_state \<Rightarrow> bool" where
  "proxy_inv st0 evs st \<longleftrightarrow>
     ps_http st = HTTPAllowlist_adds (ps_http st0) (http_batches evs)
     \<and> ps_dns st = DNSAllowlist_adds (ps_dns st0) (dns_batches evs)
     \<and> same_settings st0 st \<and> (\<exists>h. log_rep (ps_log st) h)"

section \<open>The invariant of a history\<close>

lemma HTTPAllowlist_adds_append:
  "HTTPAllowlist_adds al (ess @ fss) = HTTPAllowlist_adds (HTTPAllowlist_adds al ess) fss"
  by (simp add: HTTPAllowlist_adds_eq)

lemma DNSAllowlist_adds_append:
  "DNSAllowlist_adds al (ess @ fss) = DNSAllowlist_adds (DNSAllowlist_adds al ess) fss"
  by (simp add: DNSAllowlist_adds_eq)

lemma http_batches_append: "http_batches (evs @ evs') = http_batches evs @ http_batches evs'"
  by (induction evs rule: http_batches.induct) (auto split: option.splits)

lemma dns_batches_append: "dns_batches (evs @ evs') = dns_batches evs @ dns_batches evs'"
  by (induction evs rule: dns_batches.induct) (auto split: option.splits)

lemma HTTPAllowlist_adds_empty_batch: "HTTPAllowlist_adds al [[]] = al"
  by (simp add: HTTPAllowlist_adds_eq)

lemma DNSAllowlist_adds_empty_batch: "DNSAllowlist_adds al [[]] = al"
  by (simp add: DNSAllowlist_adds_eq)

lemma handler_total:
  assumes "log_rep (dn_log s) h"
  obtains m s' h' where "handler lib now s r = Inr (m, s')" and "log_rep (dn_log s') h'"
proof -
  define R :: "go_panic + Msg \<times> DNSServer \<Rightarrow> bool"
    where "R x \<longleftrightarrow> (\<exists>m s' h'. x = Inr (m, s') \<and> log_rep (dn_log s') h')" for x
  have logged: "R (map_sum id (Pair m) (dns_log now s d a rs))" for m d a rs
    by (rule dns_log_ok [OF assms, of now d a rs]) (auto simp: R_def)
  have quiet: "R (Inr (m, s))" for m using assms by (auto simp: R_def)
  have "R (handler lib now s r)"
    by (simp add: handler_def Let_def logged quiet split: list.splits option.splits bool.splits sum.splits)
  then show ?thesis using that by (auto simp: R_def)
qed

lemma ServeHTTP_effect:
  assumes "ServeHTTP st r = (resp, st')"
  shows "ps_http st' = HTTPAllowlist_adds (ps_http st) (http_batches [ControlEvent r])"
    and "ps_dns st' = DNSAllowlist_adds (ps_dns st) (dns_batches [ControlEvent r])"
    and "same_settings st st'" and "ps_log st' = ps_log st"
proof -
  note defs = ServeHTTP_def handleAllowHTTP_def handleAllowDNS_def decodeAllowRequest_def same_settings_def Let_def
  show "ps_http st' = HTTPAllowlist_adds (ps_http st) (http_batches [ControlEvent r])"
    using assms by (auto simp: defs HTTPAllowlist_Add_def ValidateHTTPEntries_def split: if_splits option.splits sum.splits)
  show "ps_dns st' = DNSAllowlist_adds (ps_dns st) (dns_batches [ControlEvent r])"
    using assms by (auto simp: defs DNSAllowlist_Add_def ValidateDNSEntries_def split: if_splits option.splits sum.splits)
  show "same_settings st st'" "ps_log st' = ps_log st"
    using assms by (auto simp: defs split: if_splits option.splits sum.splits)
qed

lemma proxy_inv_logged:
  assumes "proxy_inv st0 evs st" and "log_rep l h" and "http_batches [ev] = []" and "dns_batches [ev] = []"
  shows "proxy_inv st0 (evs @ [ev]) (st\<lparr>ps_log := l\<rparr>)"
  using assms by (auto simp: proxy_inv_def http_batches_append dns_batches_append same_settings_def)

lemma serve_step:
  assumes inv: "proxy_inv st0 evs st"
  obtains o1 st' where "serve st ev = Inr (o1, st')" and "proxy_inv st0 (evs @ [ev]) st'"
proof -
  from inv obtain h where log: "log_rep (ps_log st) h" by (auto simp: proxy_inv_def)
  then have hlog: "log_rep (hp_log (http_view st)) h" and dlog: "log_rep (dn_log (dns_view st)) h"
    by (simp_all add: http_view_def dns_view_def)
  show ?thesis
  proof (cases ev)
    case (ConnectEvent lookup now host)
    obtain hostname port where hp: "splitHostPort host ''443'' = (hostname, port)" by fastforce
    obtain r p' e where "checkRequest lookup now (http_view st) hostname port = Inr (r, p')"
      "log_rep (hp_log p') (h @ [e])" by (rule checkRequest_ok [OF hlog])
    then show ?thesis
      using that proxy_inv_logged [OF inv] by (simp add: ConnectEvent serve_def handleConnect_def hp)
  next
    case (RequestEvent lookup now req)
    obtain hostname port where hp: "splitHostPort (rq_Host req) ''80'' = (hostname, port)" by fastforce
    obtain r p' e where "checkRequest lookup now (http_view st) hostname port = Inr (r, p')"
      "log_rep (hp_log p') (h @ [e])" by (rule checkRequest_ok [OF hlog])
    then show ?thesis
      using that proxy_inv_logged [OF inv] by (simp add: RequestEvent serve_def handleRequest_def hp)
  next
    case (QueryEvent lib now msg)
    obtain m s' h' where "handler lib now (dns_view st) msg = Inr (m, s')" "log_rep (dn_log s') h'"
      by (rule handler_total [OF dlog])
    then show ?thesis
      using that proxy_inv_logged [OF inv] by (simp add: QueryEvent serve_def)
  next
    case (ControlEvent r)
    obtain resp st' where *: "ServeHTTP st r = (resp, st')" by fastforce
    note eff = ServeHTTP_effect [OF *]
    have "proxy_inv st0 (evs @ [ControlEvent r]) st'"
      using inv eff by (simp only: proxy_inv_def http_batches_append dns_batches_append
          HTTPAllowlist_adds_append DNSAllowlist_adds_append) (auto simp: same_settings_def)
    with * that show ?thesis by (simp add: ControlEvent serve_def)
  qed
qed

lemma serve_all_inv:
  "proxy_inv st0 evs st \<Longrightarrow>
     \<exists>os st'. serve_all st evs' = Inr (os, st') \<and> length os = length evs' \<and> proxy_inv st0 (evs @ evs') st'"
proof (induction evs' arbitrary: evs st)
  case (Cons ev evs')
  obtain o1 st1 where o1: "serve st ev = Inr (o1, st1)" "proxy_inv st0 (evs @ [ev]) st1"
    by (rule serve_step [OF Cons.prems])
  from Cons.IH [OF o1(2)] obtain os st' where "serve_all st1 evs' = Inr (os, st')"
    "length os = length evs'" "proxy_inv st0 ((evs @ [ev]) @ evs') st'" by blast
  with o1(1) show ?case by simp
qed simp

section \<open>From the configuration to a decision\<close>

lemma Run_Inr:
  assumes "Run cfg = Inr (st0, svcs, cap)"
  shows "NewHTTPAllowlist (pc_AllowHTTP cfg) = Inr (ps_http st0)"
    and "NewDNSAllowlist (pc_AllowDNS cfg) = Inr (ps_dns st0)"
    and "ps_cidr st0 = NewCIDRBlocker (pc_BlockCIDR cfg) (pc_AllowCIDR cfg)"
    and "ps_proxyIP st0 = ParseIP (pc_ProxyIP cfg)"
    and "ps_upstream st0 = pc_UpstreamDNS cfg"
    and "log_rep (ps_log st0) []"
  using assms NewLogBuffer_rep [of LogBufferCapacity]
  by (auto simp: Run_def Let_def NewDNSServer_def SetProxyIP_def LogBufferCapacity_def
      split: sum.splits option.splits if_splits)

lemma Run_gateway:
  assumes "Run cfg = Inr (st0, svcs, cap)"
  shows "pc_HostGateway cfg = [] \<Longrightarrow> ps_hostGateway st0 = []"
    and "pc_HostGateway cfg \<noteq> [] \<Longrightarrow> ps_hostGateway st0 =
      (case SplitHostPort (pc_HostGateway cfg) of Some (host, _) \<Rightarrow> host | None \<Rightarrow> pc_HostGateway cfg)"
    and "ps_allowHostPorts st0 n = Some b \<Longrightarrow> b \<and> n \<in> set (pc_AllowHostPorts cfg)"
proof -
  have ports: "foldl (\<lambda>m port. m(port \<mapsto> True)) m0 ports n = Some b \<Longrightarrow> (b \<and> n \<in> set ports) \<or> m0 n = Some b"
    for m0 :: "int \<rightharpoonup> bool" and ports
    by (induction ports arbitrary: m0) (fastforce split: if_splits)+
  show "pc_HostGateway cfg = [] \<Longrightarrow> ps_hostGateway st0 = []"
    "pc_HostGateway cfg \<noteq> [] \<Longrightarrow> ps_hostGateway st0 =
      (case SplitHostPort (pc_HostGateway cfg) of Some (host, _) \<Rightarrow> host | None \<Rightarrow> pc_HostGateway cfg)"
    using assms by (auto simp: Run_def Let_def SetHostVibepit_def NewHTTPProxy_def split: sum.splits)
  show "ps_allowHostPorts st0 n = Some b \<Longrightarrow> b \<and> n \<in> set (pc_AllowHostPorts cfg)"
    using assms ports [of Map.empty "pc_AllowHostPorts cfg"]
    by (auto simp: Run_def Let_def SetHostVibepit_def NewHTTPProxy_def split: sum.splits if_splits)
qed

lemma Run_inv: "Run cfg = Inr (st0, svcs, cap) \<Longrightarrow> proxy_inv st0 [] st0"
  by (simp add: proxy_inv_def same_settings_def) (blast dest: Run_Inr(6))

lemma history_inv:
  assumes "Run cfg = Inr (st0, svcs, cap)" and "serve_all st0 evs = Inr (os, st)"
  shows "proxy_inv st0 evs st"
  using serve_all_inv [OF Run_inv [OF assms(1)], of evs] assms(2) by auto

lemma history_http_allows:
  assumes "Run cfg = Inr (st0, svcs, cap)" and "proxy_inv st0 evs st"
  shows "HTTPAllowlist_Allows (ps_http st) host port \<longleftrightarrow> entry_allows cfg evs (host, port)"
proof -
  note new = Run_Inr(1) [OF assms(1)]
  have ok: "first_error ValidateHTTPEntry (pc_AllowHTTP cfg) = None"
    and al: "ps_http st0 = map parseHTTPRule (pc_AllowHTTP cfg)"
    using new by (simp_all add: NewHTTPAllowlist_Inr ValidateHTTPEntries_def)
  have st: "ps_http st = HTTPAllowlist_adds (ps_http st0) (http_batches evs)"
    using assms(2) by (simp add: proxy_inv_def)
  show ?thesis
    unfolding entry_allows_def st
    using http_rules.rules_hit_history [OF ok, of "http_batches evs" "(host, port)"]
    by (simp only: HTTPAllowlist_Allows_iff HTTPAllowlist_adds_eq al ValidateHTTPEntries_def fst_conv snd_conv)
qed

lemma history_dns_allows:
  assumes "Run cfg = Inr (st0, svcs, cap)" and "proxy_inv st0 evs st"
  shows "DNSAllowlist_Allows (ps_dns st) name \<longleftrightarrow> name_allows cfg evs name"
proof -
  note new = Run_Inr(2) [OF assms(1)]
  have ok: "first_error ValidateDNSEntry (pc_AllowDNS cfg) = None"
    and al: "ps_dns st0 = map parseDNSRule (pc_AllowDNS cfg)"
    using new by (simp_all add: NewDNSAllowlist_Inr ValidateDNSEntries_def)
  have st: "ps_dns st = DNSAllowlist_adds (ps_dns st0) (dns_batches evs)"
    using assms(2) by (simp add: proxy_inv_def)
  show ?thesis
    unfolding name_allows_def st
    using dns_rules.rules_hit_history [OF ok, of "dns_batches evs" name]
    by (simp only: DNSAllowlist_Allows_iff DNSAllowlist_adds_eq al ValidateDNSEntries_def)
qed

lemma history_blocked:
  assumes "Run cfg = Inr (st0, svcs, cap)" and "proxy_inv st0 evs st"
  shows "IsBlocked (ps_cidr st) ip \<longleftrightarrow> \<not> addr_ok cfg ip"
proof -
  have "ps_cidr st = NewCIDRBlocker (pc_BlockCIDR cfg) (pc_AllowCIDR cfg)"
    using assms(2) Run_Inr(3) [OF assms(1)] by (simp add: proxy_inv_def same_settings_def)
  then show ?thesis
    unfolding addr_ok_def
    by (simp only: NewCIDRBlocker_IsBlocked default_private [symmetric] parseCIDRs_covers) auto
qed

lemma history_host_port:
  assumes "Run cfg = Inr (st0, svcs, cap)" and "proxy_inv st0 evs st"
    and "isHostPortAllowed (http_view st) port"
  shows "\<exists>n\<in>set (pc_AllowHostPorts cfg). atoi port = Some n"
  using assms(2,3) Run_gateway(3) [OF assms(1)]
  by (auto simp: isHostPortAllowed_def http_view_def proxy_inv_def same_settings_def
      split: option.splits)

section \<open>Properties\<close>

text \<open>
  C1. The proxy process is a sandbox boundary. Start it with any configuration that \<^verbatim>\<open>Run\<close>
  accepts and let it serve any history of tunnels, plain requests, DNS queries and control
  calls. When it then accepts a tunnel, either the target is the host machine under its reserved
  name (the gateway is dialled, and the port is a configured host port or an allowlist entry
  admits it), or an entry of the configuration or of an accepted control call admits the host and
  port, and every address that the name stands for is outside the private ranges and the
  configured blocked ranges, or inside a configured allowed range.
\<close>

theorem tunnel_only_by_policy:
  assumes "Run cfg = Inr (st0, svcs, cap)" and "serve_all st0 evs = Inr (os, st)"
    and "serve st (ConnectEvent lookup now host) = Inr (ConnectOutcome (OkConnect, dst), st')"
    and "splitHostPort host ''443'' = (hostname, port)"
  shows "(hostname = ''host.vibepit'' \<and> pc_HostGateway cfg \<noteq> [] \<and> dst = JoinHostPort (ps_hostGateway st0) port
        \<and> ((\<exists>n\<in>set (pc_AllowHostPorts cfg). atoi port = Some n) \<or> entry_allows cfg evs (hostname, port)))
     \<or> (dst = host \<and> entry_allows cfg evs (hostname, port)
        \<and> (\<forall>ip\<in>set (case ParseIP hostname of Some ip \<Rightarrow> [ip] | None \<Rightarrow> snd (lookup hostname)). addr_ok cfg ip))"
proof -
  have inv: "proxy_inv st0 evs st" by (rule history_inv [OF assms(1,2)])
  then obtain h where log: "log_rep (hp_log (http_view st)) h" by (auto simp: proxy_inv_def http_view_def)
  obtain r p' e where chk: "checkRequest lookup now (http_view st) hostname port = Inr (r, p')"
    and fr: "fr_action r = (if admitted lookup (http_view st) hostname port then ActionAllow else ActionBlock)"
      "fr_rewrite r = (if admitted lookup (http_view st) hostname port \<and> to_host (http_view st) hostname
                         then JoinHostPort (hp_hostGateway (http_view st)) port else [])"
    by (rule checkRequest_ok [OF log])
  have adm: "admitted lookup (http_view st) hostname port"
    and dst: "dst = (if to_host (http_view st) hostname then JoinHostPort (hp_hostGateway (http_view st)) port else host)"
    using assms(3) chk fr by (auto simp: serve_def handleConnect_def assms(4) split: if_splits)
  have gw: "ps_hostGateway st = ps_hostGateway st0" using inv by (simp add: proxy_inv_def same_settings_def)
  show ?thesis
  proof (cases "to_host (http_view st) hostname")
    case True
    then have "pc_HostGateway cfg \<noteq> []"
      using Run_gateway(1) [OF assms(1)] gw by (auto simp: to_host_def http_view_def)
    moreover have "(\<exists>n\<in>set (pc_AllowHostPorts cfg). atoi port = Some n) \<or> entry_allows cfg evs (hostname, port)"
      using adm True history_host_port [OF assms(1) inv] history_http_allows [OF assms(1) inv, of hostname port]
      by (auto simp: admitted_def http_view_def)
    ultimately show ?thesis using True dst gw by (auto simp: to_host_def http_view_def)
  next
    case False
    with adm have al: "HTTPAllowlist_Allows (ps_http st) hostname port"
      and safe: "resolves_safely lookup (ps_cidr st) hostname" by (auto simp: admitted_def http_view_def)
    then have "\<forall>ip\<in>set (case ParseIP hostname of Some ip \<Rightarrow> [ip] | None \<Rightarrow> snd (lookup hostname)). addr_ok cfg ip"
      using history_blocked [OF assms(1) inv] by (auto simp: resolves_safely_def split: option.splits)
    with al dst False show ?thesis using history_http_allows [OF assms(1) inv, of hostname port] by simp
  qed
qed

definition example_config :: ProxyConfig where
  "example_config =
     \<lparr>pc_AllowHTTP = [''**.example.com:443''], pc_AllowDNS = [''example.com''], pc_BlockCIDR = [], pc_AllowCIDR = [],
      pc_UpstreamDNS = ''9.9.9.9:53'', pc_AllowHostPorts = [8080], pc_ProxyIP = ''10.1.0.2'',
      pc_HostGateway = ''192.168.65.1'', pc_ProxyPort = 3128, pc_ControlAPIPort = 3129, pc_DNSPort = 0,
      pc_SSHForwardAddr = []\<rparr>"

lemma example_runs: "\<exists>st0 svcs cap. Run example_config = Inr (st0, svcs, cap)"
proof -
  have "ValidateHTTPEntries [''**.example.com:443''] = None" "ValidateDNSEntries [''example.com''] = None"
    by code_simp+
  then show ?thesis
    using NewLogBuffer_rep [of LogBufferCapacity]
    by (auto simp: Run_def example_config_def NewHTTPAllowlist_def NewDNSAllowlist_def LogBufferCapacity_def Let_def)
qed

theorem tunnel_only_by_policy_witness:
  "\<exists>st0 svcs cap os st st'. Run example_config = Inr (st0, svcs, cap)
    \<and> serve_all st0 [ControlEvent \<lparr>ar_Method = ''POST'', ar_Path = ''/allow-http'', ar_After = [], ar_Entries = Some [''a.org:443'']\<rparr>]
        = Inr (os, st)
    \<and> serve st (ConnectEvent (\<lambda>_. (None, [[93, 184, 216, 34]])) 0 ''a.org:443'')
        = Inr (ConnectOutcome (OkConnect, ''a.org:443''), st')
    \<and> entry_allows example_config
        [ControlEvent \<lparr>ar_Method = ''POST'', ar_Path = ''/allow-http'', ar_After = [], ar_Entries = Some [''a.org:443'']\<rparr>]
        (''a.org'', ''443'')
    \<and> addr_ok example_config [93, 184, 216, 34]"
proof -
  let ?ev = "ControlEvent \<lparr>ar_Method = ''POST'', ar_Path = ''/allow-http'', ar_After = [], ar_Entries = Some [''a.org:443'']\<rparr>"
  let ?l = "\<lambda>_ :: string. (None :: string option, [[93, 184, 216, 34]] :: IP list)"
  obtain st0 svcs cap where run: "Run example_config = Inr (st0, svcs, cap)" using example_runs by blast
  obtain os st where st: "serve_all st0 [?ev] = Inr (os, st)" "proxy_inv st0 [?ev] st"
    using serve_all_inv [OF Run_inv [OF run], of "[?ev]"] by auto
  obtain h where log: "log_rep (hp_log (http_view st)) h" using st(2) by (auto simp: proxy_inv_def http_view_def)
  have hp: "splitHostPort ''a.org:443'' ''443'' = (''a.org'', ''443'')" by code_simp
  have cidr: "ps_cidr st = NewCIDRBlocker [] []" and al: "ps_http st = map parseHTTPRule [''**.example.com:443'', ''a.org:443'']"
  proof -
    have "ps_http st0 = map parseHTTPRule [''**.example.com:443'']"
      using Run_Inr(1) [OF run] by (simp add: NewHTTPAllowlist_Inr example_config_def)
    moreover have "ValidateHTTPEntries [''a.org:443''] = None" by code_simp
    ultimately show "ps_http st = map parseHTTPRule [''**.example.com:443'', ''a.org:443'']"
      using st(2) by (simp add: proxy_inv_def HTTPAllowlist_Add_def)
    show "ps_cidr st = NewCIDRBlocker [] []"
      using st(2) Run_Inr(3) [OF run] by (simp add: proxy_inv_def same_settings_def example_config_def)
  qed
  have "resolves_safely ?l (NewCIDRBlocker [] []) ''a.org''"
    "HTTPAllowlist_Allows (map parseHTTPRule [''**.example.com:443'', ''a.org:443'']) ''a.org'' ''443''" by code_simp+
  then have adm: "admitted ?l (http_view st) ''a.org'' ''443''" "\<not> to_host (http_view st) ''a.org''"
    using cidr al by (simp_all add: admitted_def to_host_def http_view_def)
  obtain r p' e where "checkRequest ?l 0 (http_view st) ''a.org'' ''443'' = Inr (r, p')"
    "fr_action r = (if admitted ?l (http_view st) ''a.org'' ''443'' then ActionAllow else ActionBlock)"
    "fr_rewrite r = (if admitted ?l (http_view st) ''a.org'' ''443'' \<and> to_host (http_view st) ''a.org''
         then JoinHostPort (hp_hostGateway (http_view st)) ''443'' else [])"
    by (rule checkRequest_ok [OF log])
  then have sv: "serve st (ConnectEvent ?l 0 ''a.org:443'') = Inr (ConnectOutcome (OkConnect, ''a.org:443''), st\<lparr>ps_log := hp_log p'\<rparr>)"
    using adm by (simp add: serve_def handleConnect_def hp)
  have "ParseIP ''a.org'' = None" by code_simp
  then have "entry_allows example_config [?ev] (''a.org'', ''443'') \<and> addr_ok example_config [93, 184, 216, 34]"
    using tunnel_only_by_policy [OF run st(1) sv hp] by simp
  with run st(1) sv show ?thesis by blast
qed

text \<open>
  C5. The same boundary for names: after any history, an address in the answer section of a
  message that the DNS server writes is the configured proxy address, given for
  \<^verbatim>\<open>host.vibepit\<close>, or the queried name is admitted by a DNS entry of the configuration or of an
  accepted control call and the address passes the address filter.
\<close>

theorem dns_answers_only_by_policy:
  assumes "Run cfg = Inr (st0, svcs, cap)" and "serve_all st0 evs = Inr (os, st)"
    and "fills_header_only lib" and "m_Question r = q # qs"
    and "serve st (QueryEvent lib now r) = Inr (QueryOutcome m, st')"
    and "ip \<in> set (answer_ips (m_Answer m))"
  shows "(query_domain q = ''host.vibepit'' \<and> ParseIP (pc_ProxyIP cfg) = Some ip)
     \<or> (name_allows cfg evs (query_domain q) \<and> addr_ok cfg ip)"
proof -
  have inv: "proxy_inv st0 evs st" by (rule history_inv [OF assms(1,2)])
  have px: "ps_proxyIP st = ParseIP (pc_ProxyIP cfg)"
    using inv Run_Inr(4) [OF assms(1)] by (simp add: proxy_inv_def same_settings_def)
  from inv obtain h where log: "log_rep (dn_log (dns_view st)) h" by (auto simp: proxy_inv_def dns_view_def)
  have "answers_verdict m (dns_policy lib (dns_view st) r)"
  proof (rule handler_cases [OF assms(3), of "dns_view st" r now])
    fix m' reason
    assume m': "answers_verdict m' (dns_policy lib (dns_view st) r)"
      and hd: "handler lib now (dns_view st) r =
      (case verdict_action (dns_policy lib (dns_view st) r) of None \<Rightarrow> Inr (m', dns_view st)
       | Some a \<Rightarrow> map_sum id (Pair m') (dns_log now (dns_view st) (query_domain (hd (m_Question r))) a reason))"
    obtain s2 where "handler lib now (dns_view st) r = Inr (m, s2)"
      using assms(5) by (cases "handler lib now (dns_view st) r") (auto simp: serve_def)
    with hd have "m = m'"
      by (cases "dns_log now (dns_view st) (query_domain (hd (m_Question r))) (the (verdict_action (dns_policy lib (dns_view st) r))) reason")
        (auto split: option.splits)
    with m' show ?thesis by simp
  qed
  moreover have "query_domain q = ''host.vibepit'' \<and> dn_proxyIP (dns_view st) = Some ip'
      \<or> dns_policy lib (dns_view st) r \<noteq> HostAddress ip'" for ip'
    by (auto simp: dns_policy_def assms(4) Let_def split: sum.splits if_splits)
  moreover have "name_allows cfg evs (query_domain q) \<and> (\<forall>ip\<in>set (answer_ips (m_Answer resp)). addr_ok cfg ip)
      \<or> dns_policy lib (dns_view st) r \<noteq> Forwarded resp" for resp
    using history_dns_allows [OF assms(1) inv] history_blocked [OF assms(1) inv]
    by (auto simp: dns_policy_def assms(4) Let_def dns_view_def split: sum.splits if_splits)
  ultimately show ?thesis
    using assms(6) px by (cases "dns_policy lib (dns_view st) r") (fastforce simp: answers_verdict_def dns_view_def)+
qed

theorem dns_answers_only_by_policy_witness:
  "\<exists>st0 svcs cap st'. Run example_config = Inr (st0, svcs, cap)
    \<and> (\<exists>m. serve st0 (QueryEvent \<lparr>md_SetReply = (\<lambda>m r. m), md_SetRcode = (\<lambda>m r c. m\<lparr>m_Rcode := c\<rparr>), md_Exchange = (\<lambda>r u. Inl [])\<rparr>
          0 \<lparr>m_Rcode = 0, m_Question = [\<lparr>q_Name = ''host.vibepit.'', q_Qtype = TypeA\<rparr>], m_Answer = []\<rparr>)
         = Inr (QueryOutcome m, st') \<and> answer_ips (m_Answer m) \<noteq> []
         \<and> (\<forall>ip\<in>set (answer_ips (m_Answer m)). ParseIP ''10.1.0.2'' = Some ip
              \<or> name_allows example_config [] ''host.vibepit'' \<and> addr_ok example_config ip))"
proof -
  let ?lib = "\<lparr>md_SetReply = (\<lambda>m r. m), md_SetRcode = (\<lambda>m r c. m\<lparr>m_Rcode := c\<rparr>), md_Exchange = (\<lambda>r u. Inl [])\<rparr>"
  let ?q = "\<lparr>q_Name = ''host.vibepit.'', q_Qtype = TypeA\<rparr>"
  let ?r = "\<lparr>m_Rcode = 0, m_Question = [?q], m_Answer = []\<rparr>"
  obtain st0 svcs cap where run: "Run example_config = Inr (st0, svcs, cap)" using example_runs by blast
  have lib: "fills_header_only ?lib" by (simp add: fills_header_only_def)
  have ip: "ParseIP ''10.1.0.2'' \<noteq> None" by code_simp
  have qd: "query_domain ?q = ''host.vibepit''" by code_simp
  have px: "dn_proxyIP (dns_view st0) = ParseIP ''10.1.0.2''"
    using Run_Inr(4) [OF run] by (simp add: dns_view_def example_config_def)
  have pol: "dns_policy ?lib (dns_view st0) ?r = HostAddress (the (ParseIP ''10.1.0.2''))"
    using px ip by (simp add: dns_policy_def qd)
  have log: "log_rep (dn_log (dns_view st0)) []" using Run_Inr(6) [OF run] by (simp add: dns_view_def)
  obtain m s' where "handler ?lib 0 (dns_view st0) ?r = Inr (m, s')" by (rule handler_total [OF log])
  then have sv: "serve st0 (QueryEvent ?lib 0 ?r) = Inr (QueryOutcome m, st0\<lparr>ps_log := dn_log s'\<rparr>)"
    by (simp add: serve_def)
  have all: "serve_all st0 [] = Inr ([], st0)" by simp
  have "answer_ips (m_Answer m) \<noteq> []"
    using \<open>handler ?lib 0 (dns_view st0) ?r = Inr (m, s')\<close> px ip
    by (cases "dns_log 0 (dns_view st0) ''host.vibepit'' ActionAllow []") (auto simp: handler_def qd Let_def new_Msg_def)
  moreover have "\<forall>ip\<in>set (answer_ips (m_Answer m)). ParseIP ''10.1.0.2'' = Some ip
              \<or> name_allows example_config [] ''host.vibepit'' \<and> addr_ok example_config ip"
    using dns_answers_only_by_policy [OF run all lib _ sv, of ?q "[]"] qd by (auto simp: example_config_def)
  ultimately show ?thesis using run sv by blast
qed

text \<open>
  C17. Availability: a process that \<^verbatim>\<open>Run\<close> accepted serves every history to the end. No request
  makes a handler panic, there is one outcome per request, and a control call that is refused
  changes nothing: the allowlists are the configured ones plus the accepted batches in order.
\<close>

theorem proxy_serves_every_history:
  assumes "Run cfg = Inr (st0, svcs, cap)"
  shows "\<exists>os st. serve_all st0 evs = Inr (os, st) \<and> length os = length evs
    \<and> ps_http st = HTTPAllowlist_adds (map parseHTTPRule (pc_AllowHTTP cfg)) (http_batches evs)
    \<and> ps_dns st = DNSAllowlist_adds (map parseDNSRule (pc_AllowDNS cfg)) (dns_batches evs)"
proof -
  obtain os st where "serve_all st0 evs = Inr (os, st)" "length os = length evs" "proxy_inv st0 evs st"
    using serve_all_inv [OF Run_inv [OF assms], of evs] by auto
  moreover have "ps_http st0 = map parseHTTPRule (pc_AllowHTTP cfg)" "ps_dns st0 = map parseDNSRule (pc_AllowDNS cfg)"
    using Run_Inr(1,2) [OF assms] by (simp_all add: NewHTTPAllowlist_Inr NewDNSAllowlist_Inr)
  ultimately show ?thesis by (auto simp: proxy_inv_def)
qed

theorem proxy_serves_every_history_witness:
  "\<exists>st0 svcs cap os st. Run example_config = Inr (st0, svcs, cap)
     \<and> serve_all st0 [ControlEvent \<lparr>ar_Method = ''POST'', ar_Path = ''/allow-http'', ar_After = [], ar_Entries = Some [''*:1'']\<rparr>]
         = Inr (os, st) \<and> ps_http st = map parseHTTPRule [''**.example.com:443'']"
proof -
  let ?ev = "ControlEvent \<lparr>ar_Method = ''POST'', ar_Path = ''/allow-http'', ar_After = [], ar_Entries = Some [''*:1'']\<rparr>"
  obtain st0 svcs cap where run: "Run example_config = Inr (st0, svcs, cap)" using example_runs by blast
  have "HTTPAllowlist_adds (map parseHTTPRule (pc_AllowHTTP example_config)) (http_batches [?ev])
      = map parseHTTPRule [''**.example.com:443'']" by code_simp
  with run proxy_serves_every_history [OF run, of "[?ev]"] show ?thesis by auto
qed

text \<open>
  \<^verbatim>\<open>Run\<close> refuses a configuration exactly for an invalid allowlist entry: it starts its services
  if and only if all HTTP and DNS entries validate, and otherwise reports the first invalid HTTP
  entry or, when those are fine, the first invalid DNS entry.
\<close>

lemma run_accepts_exactly:
  "((\<exists>r. Run cfg = Inr r) \<longleftrightarrow>
        ValidateHTTPEntries (pc_AllowHTTP cfg) = None \<and> ValidateDNSEntries (pc_AllowDNS cfg) = None)
   \<and> (\<forall>err. Run cfg = Inl (AllowHTTPError err) \<longleftrightarrow> ValidateHTTPEntries (pc_AllowHTTP cfg) = Some err)
   \<and> (\<forall>err. Run cfg = Inl (AllowDNSError err) \<longleftrightarrow>
        ValidateHTTPEntries (pc_AllowHTTP cfg) = None \<and> ValidateDNSEntries (pc_AllowDNS cfg) = Some err)"
  using NewLogBuffer_rep [of LogBufferCapacity]
  by (auto simp: Run_def Let_def NewHTTPAllowlist_def NewDNSAllowlist_def LogBufferCapacity_def
      split: option.splits sum.splits)

end
