(* ===== verification/Allowlist_CAS.thy ===== *)
theory Allowlist_CAS
  imports Allowlist
begin

text \<open>
  Concurrent \<^verbatim>\<open>Add\<close> on an allowlist, the compare-and-swap loops of \<^verbatim>\<open>proxy/allowlist.go\<close>. The
  list is an atomic pointer to an immutable slice; a thread of \<^verbatim>\<open>Add\<close> loads the pointer, builds
  a merged slice in freshly allocated memory and swaps the pointer if it is still the loaded one,
  else starts over. The model has a store from addresses to slices, the pointer, the next fresh
  address and, for every thread, where it is in the loop; a step is a load, a successful or a
  failed swap of any thread. It is generic in the rule type, and used for HTTP and DNS rules.

  Shown: whatever the interleaving, no update is lost (the list is the initial one followed by
  the batches of the finished threads, each once, in the order of their swaps), a reader sees only
  such lists, and the loops terminate.
\<close>

section \<open>Model\<close>

datatype 'r add_pc =
    Ready "'r list"
  | Loaded "'r list" nat
  | Finished

record 'r cas_state =
  cs_store :: "nat \<rightharpoonup> 'r list"
  cs_ptr :: nat
  cs_next :: nat
  cs_pcs :: "'r add_pc list"
  cs_log :: "nat list"

text \<open>
  \<open>cs_log\<close> is ghost state: the threads in the order of their successful swaps.
\<close>

inductive cas_step :: "'r cas_state \<Rightarrow> 'r cas_state \<Rightarrow> bool" where
  cas_load:
    "t < length (cs_pcs s) \<Longrightarrow> cs_pcs s ! t = Ready new \<Longrightarrow>
     cas_step s (s\<lparr>cs_pcs := (cs_pcs s)[t := Loaded new (cs_ptr s)]\<rparr>)"
| cas_swap:
    "t < length (cs_pcs s) \<Longrightarrow> cs_pcs s ! t = Loaded new current \<Longrightarrow> cs_store s current = Some old \<Longrightarrow>
     cs_ptr s = current \<Longrightarrow>
     cas_step s (s\<lparr>cs_store := (cs_store s)(cs_next s \<mapsto> old @ new), cs_ptr := cs_next s,
                   cs_next := cs_next s + 1, cs_pcs := (cs_pcs s)[t := Finished],
                   cs_log := cs_log s @ [t]\<rparr>)"
| cas_retry:
    "t < length (cs_pcs s) \<Longrightarrow> cs_pcs s ! t = Loaded new current \<Longrightarrow> cs_store s current = Some old \<Longrightarrow>
     cs_ptr s \<noteq> current \<Longrightarrow>
     cas_step s (s\<lparr>cs_store := (cs_store s)(cs_next s \<mapsto> old @ new), cs_next := cs_next s + 1,
                   cs_pcs := (cs_pcs s)[t := Ready new]\<rparr>)"

inductive_cases cas_stepE: "cas_step s s'"

definition cas_init :: "'r list \<Rightarrow> 'r list list \<Rightarrow> 'r cas_state" where
  "cas_init rules batches =
     \<lparr>cs_store = [0 \<mapsto> rules], cs_ptr = 0, cs_next = 1, cs_pcs = map Ready batches, cs_log = []\<rparr>"

text \<open>What a reader of the pointer sees, as in \<^verbatim>\<open>Allows\<close>.\<close>

definition cas_rules :: "'r cas_state \<Rightarrow> 'r list" where
  "cas_rules s = (case cs_store s (cs_ptr s) of Some rs \<Rightarrow> rs | None \<Rightarrow> [])"

section \<open>Invariant\<close>

fun pc_ok :: "'r cas_state \<Rightarrow> 'r list \<Rightarrow> 'r add_pc \<Rightarrow> bool" where
  "pc_ok s b (Ready new) = (new = b)"
| "pc_ok s b (Loaded new current) = (new = b \<and> current < cs_next s)"
| "pc_ok s b Finished = True"

definition cas_inv :: "'r list \<Rightarrow> 'r list list \<Rightarrow> 'r cas_state \<Rightarrow> bool" where
  "cas_inv rules batches s \<longleftrightarrow>
     (\<forall>a. cs_store s a \<noteq> None \<longleftrightarrow> a < cs_next s) \<and> cs_ptr s < cs_next s
     \<and> length (cs_pcs s) = length batches
     \<and> (\<forall>t < length batches. pc_ok s (batches ! t) (cs_pcs s ! t))
     \<and> distinct (cs_log s)
     \<and> (\<forall>t. t \<in> set (cs_log s) \<longleftrightarrow> t < length batches \<and> cs_pcs s ! t = Finished)
     \<and> cs_store s (cs_ptr s) = Some (rules @ concat (map (\<lambda>t. batches ! t) (cs_log s)))"

lemma cas_init_inv: "cas_inv rules batches (cas_init rules batches)"
  by (simp add: cas_inv_def cas_init_def)

lemma cas_inv_pc:
  assumes "cas_inv rules batches s" and "t < length (cs_pcs s)"
  shows "pc_ok s (batches ! t) (cs_pcs s ! t)" and "t < length batches"
  using assms by (simp_all add: cas_inv_def)

lemma pc_ok_mono: "pc_ok s b pc \<Longrightarrow> cs_next s \<le> cs_next s' \<Longrightarrow> pc_ok s' b pc"
  by (cases pc) auto

lemma cas_step_inv:
  assumes "cas_step s s'" and "cas_inv rules batches s"
  shows "cas_inv rules batches s'"
  using assms
proof (cases rule: cas_step.cases)
  case (cas_load t new)
  note inv = assms(2)[unfolded cas_inv_def]
  have new: "new = batches ! t" using cas_inv_pc [OF assms(2), of t] cas_load by simp
  moreover have "pc_ok s' (batches ! u) (cs_pcs s' ! u)" if "u < length batches" for u
    using that inv cas_load new by (cases "u = t") (auto intro: pc_ok_mono)
  ultimately show ?thesis
    using inv cas_load by (auto simp: cas_inv_def nth_list_update)
next
  case (cas_swap t new current old)
  note inv = assms(2)[unfolded cas_inv_def]
  have new: "new = batches ! t" using cas_inv_pc [OF assms(2), of t] cas_swap by simp
  have "t \<notin> set (cs_log s)" using inv cas_swap by auto
  moreover have "old = rules @ concat (map (\<lambda>t. batches ! t) (cs_log s))"
    using inv cas_swap by simp
  moreover have "pc_ok s' (batches ! u) (cs_pcs s' ! u)" if "u < length batches" for u
    using that inv cas_swap by (cases "u = t") (auto intro: pc_ok_mono)
  ultimately show ?thesis
    using inv cas_swap new by (auto simp: cas_inv_def nth_list_update less_Suc_eq)
next
  case (cas_retry t new current old)
  note inv = assms(2)[unfolded cas_inv_def]
  have new: "new = batches ! t" using cas_inv_pc [OF assms(2), of t] cas_retry by simp
  moreover have "pc_ok s' (batches ! u) (cs_pcs s' ! u)" if "u < length batches" for u
    using that inv cas_retry new by (cases "u = t") (auto intro: pc_ok_mono)
  ultimately show ?thesis
    using inv cas_retry by (auto simp: cas_inv_def nth_list_update less_Suc_eq)
qed

lemma cas_reach_inv:
  assumes "cas_step\<^sup>*\<^sup>* (cas_init rules batches) s"
  shows "cas_inv rules batches s"
  using assms by (induction rule: rtranclp_induct) (auto intro: cas_init_inv cas_step_inv)

section \<open>Progress and termination\<close>

fun pc_weight :: "nat \<Rightarrow> 'r add_pc \<Rightarrow> nat" where
  "pc_weight p (Ready new) = 2"
| "pc_weight p (Loaded new current) = (if current = p then 1 else 3)"
| "pc_weight p Finished = 0"

definition unfinished :: "'r cas_state \<Rightarrow> nat" where
  "unfinished s = length (filter (\<lambda>pc. pc \<noteq> Finished) (cs_pcs s))"

definition cas_measure :: "'r cas_state \<Rightarrow> nat" where
  "cas_measure s =
     unfinished s * (3 * length (cs_pcs s) + 1) + sum_list (map (pc_weight (cs_ptr s)) (cs_pcs s))"

lemma pc_weight_le: "pc_weight p pc \<le> 3"
  by (cases pc) auto

lemma sum_weights_le: "sum_list (map (pc_weight p) pcs) \<le> 3 * length pcs"
  by (induction pcs) (auto intro: add_mono pc_weight_le)

lemma sum_list_map_update:
  fixes f :: "'a \<Rightarrow> nat"
  assumes "t < length xs"
  shows "sum_list (map f (xs[t := y])) + f (xs ! t) = sum_list (map f xs) + f y"
  using assms
proof (induction xs arbitrary: t)
  case (Cons x xs)
  then show ?case by (cases t) auto
qed simp

lemma unfinished_update:
  assumes "t < length pcs"
  shows "length (filter P (pcs[t := y])) + (if P (pcs ! t) then 1 else 0)
    = length (filter P pcs) + (if P y then 1 else 0)"
  using assms
proof (induction pcs arbitrary: t)
  case (Cons x xs)
  then show ?case by (cases t) auto
qed simp

lemma cas_step_measure:
  assumes "cas_step s s'"
  shows "cas_measure s' < cas_measure s"
  using assms
proof (cases rule: cas_step.cases)
  case (cas_load t new)
  with sum_list_map_update [OF cas_load(2), of "pc_weight (cs_ptr s)" "Loaded new (cs_ptr s)"]
    unfinished_update [OF cas_load(2), of "\<lambda>pc. pc \<noteq> Finished" "Loaded new (cs_ptr s)"]
  show ?thesis by (simp add: cas_measure_def unfinished_def)
next
  case (cas_swap t new current old)
  let ?n = "3 * length (cs_pcs s) + 1"
  have "unfinished s = unfinished s' + 1"
    using cas_swap unfinished_update [OF cas_swap(2), of "\<lambda>pc. pc \<noteq> Finished" Finished]
    by (simp add: unfinished_def)
  moreover have "length (cs_pcs s') = length (cs_pcs s)" using cas_swap by simp
  moreover have "sum_list (map (pc_weight (cs_ptr s')) (cs_pcs s')) < ?n"
    using sum_weights_le [of "cs_ptr s'" "cs_pcs s'"] calculation(2) by simp
  ultimately show ?thesis by (simp add: cas_measure_def algebra_simps)
next
  case (cas_retry t new current old)
  with sum_list_map_update [OF cas_retry(2), of "pc_weight (cs_ptr s)" "Ready new"]
    unfinished_update [OF cas_retry(2), of "\<lambda>pc. pc \<noteq> Finished" "Ready new"]
  show ?thesis by (simp add: cas_measure_def unfinished_def)
qed

lemma cas_steps_measure: "(cas_step ^^ k) s s' \<Longrightarrow> k + cas_measure s' \<le> cas_measure s"
proof (induction k arbitrary: s')
  case (Suc k)
  then obtain s1 where "(cas_step ^^ k) s s1" "cas_step s1 s'" by auto
  with Suc.IH [of s1] cas_step_measure [of s1 s'] show ?case by simp
qed simp

lemma cas_init_measure: "cas_measure (cas_init rules batches) = length batches * (3 * length batches + 3)"
proof -
  have "sum_list (map (pc_weight p) (map Ready batches)) = 2 * length batches" for p
    by (induction batches) auto
  moreover have "filter (\<lambda>pc. pc \<noteq> Finished) (map Ready batches) = map Ready batches"
    by (simp add: filter_id_conv)
  ultimately show ?thesis by (simp add: cas_measure_def cas_init_def unfinished_def algebra_simps)
qed

lemma cas_progress:
  assumes "cas_inv rules batches s" and "t < length batches" and "cs_pcs s ! t \<noteq> Finished"
  shows "\<exists>s'. cas_step s s'"
proof -
  have t: "t < length (cs_pcs s)" using assms by (simp add: cas_inv_def)
  show ?thesis
  proof (cases "cs_pcs s ! t")
    case (Ready new)
    then show ?thesis using cas_load [OF t] by blast
  next
    case (Loaded new current)
    then have "current < cs_next s" using cas_inv_pc(1) [OF assms(1) t] by simp
    then have "cs_store s current \<noteq> None" using assms(1) unfolding cas_inv_def by blast
    then obtain old where "cs_store s current = Some old" by blast
    then show ?thesis
      using cas_swap [OF t Loaded] cas_retry [OF t Loaded] by (cases "cs_ptr s = current") blast+
  qed (use assms in simp)
qed

lemma cas_stuck_finished:
  assumes "cas_inv rules batches s" and "\<nexists>s'. cas_step s s'"
  shows "set (cs_log s) = {..<length batches}"
proof -
  have "cs_pcs s ! t = Finished" if "t < length batches" for t
    using cas_progress [OF assms(1) that] assms(2) by blast
  with assms(1) show ?thesis unfolding cas_inv_def by blast
qed

lemma cas_rules_log:
  "cas_inv rules batches s \<Longrightarrow> cas_rules s = rules @ concat (map ((!) batches) (cs_log s))"
  by (simp add: cas_inv_def cas_rules_def)

lemma valid_batches_adds:
  assumes "\<And>t. t \<in> set order \<Longrightarrow> ValidateHTTPEntries (ess ! t) = None"
  shows "HTTPAllowlist_adds al (map ((!) ess) order) = al @ concat (map (\<lambda>t. map parseHTTPRule (ess ! t)) order)"
  using assms by (induction order arbitrary: al) (simp_all add: HTTPAllowlist_Add_def)

section \<open>Properties\<close>



text \<open>
  The compare-and-swap loops terminate: with \<open>n\<close> concurrent callers no run has more than
  \<open>n (3 n + 3)\<close> steps, whatever the scheduler does, and a run that cannot be continued has every
  caller returned. A failed swap therefore never starves the system.
\<close>

lemma cas_loops_terminate:
  fixes rules :: "'r list"
  assumes "(cas_step ^^ k) (cas_init rules batches) s"
  shows "k \<le> length batches * (3 * length batches + 3)
    \<and> ((\<exists>s'. cas_step s s') \<or> (\<forall>pc\<in>set (cs_pcs s). pc = Finished))"
proof -
  have inv: "cas_inv rules batches s" by (rule cas_reach_inv [OF relpowp_imp_rtranclp [OF assms]])
  have "cs_pcs s ! t = Finished" if "\<nexists>s'. cas_step s s'" "t < length batches" for t
    using cas_progress [OF inv that(2)] that(1) by blast
  moreover have "length (cs_pcs s) = length batches" using inv by (simp add: cas_inv_def)
  moreover have "k \<le> length batches * (3 * length batches + 3)"
    using cas_steps_measure [OF assms] cas_init_measure [of rules batches] by simp
  ultimately show ?thesis by (metis in_set_conv_nth)
qed

lemma cas_loops_terminate_witness:
  "\<exists>s. (cas_step ^^ 1) (cas_init [] [[1 :: nat]]) s \<and> (1::nat) \<le> length [[1 :: nat]] * (3 * length [[1 :: nat]] + 3)"
proof -
  have "cas_step (cas_init [] [[1 :: nat]]) ((cas_init [] [[1 :: nat]])\<lparr>cs_pcs := [Loaded [1] 0]\<rparr>)"
    using cas_load [of 0 "cas_init [] [[1 :: nat]]" "[1]"] by (simp add: cas_init_def)
  then have run: "(cas_step ^^ 1) (cas_init [] [[1 :: nat]]) ((cas_init [] [[1 :: nat]])\<lparr>cs_pcs := [Loaded [1] 0]\<rparr>)"
    by (simp only: relpowp_1)
  then show ?thesis using cas_loops_terminate [OF run] by blast
qed

end
