(* ===== verification/Presets.thy ===== *)
theory Presets
  imports Go_Prelude
begin

text \<open>
  The built-in network presets, \<^verbatim>\<open>proxy/presets.go\<close>: the registry with its index, \<^verbatim>\<open>Get\<close>, and
  \<^verbatim>\<open>Expand\<close>, the recursive expansion of preset names into domains with cycle detection. The list
  of presets that \<^verbatim>\<open>NewPresetRegistry\<close> decodes from the embedded \<^verbatim>\<open>presets.yaml\<close> is a parameter.

  The recursive closure of \<^verbatim>\<open>Expand\<close> threads the map \<^verbatim>\<open>visited\<close> and the slice \<^verbatim>\<open>domains\<close>;
  \<^verbatim>\<open>seen\<close> has a key exactly for the elements of \<^verbatim>\<open>domains\<close> and is represented by them. The
  recursion has fuel: a nested call has marked one more registered name, so one unit per
  registered preset and one more are enough, which is what \<open>Expand\<close> uses and the lemmas prove.
\<close>

section \<open>Model\<close>

record Preset =
  pr_Name :: string
  pr_Group :: string
  pr_Description :: string
  pr_Domains :: "string list"
  pr_Matchers :: "string list"
  pr_Includes :: "string list"

record PresetRegistry =
  reg_presets :: "Preset list"
  reg_index :: "string \<rightharpoonup> nat"

fun index_presets :: "nat \<Rightarrow> Preset list \<Rightarrow> (string \<rightharpoonup> nat) \<Rightarrow> (string \<rightharpoonup> nat)" where
  "index_presets i [] index = index"
| "index_presets i (p # ps) index = index_presets (i + 1) ps (index(pr_Name p \<mapsto> i))"

definition NewPresetRegistry :: "Preset list \<Rightarrow> PresetRegistry" where
  "NewPresetRegistry presets = \<lparr>reg_presets = presets, reg_index = index_presets 0 presets Map.empty\<rparr>"

definition Get :: "PresetRegistry \<Rightarrow> string \<Rightarrow> Preset option" where
  "Get r name = (case reg_index r name of None \<Rightarrow> None | Some i \<Rightarrow> Some (reg_presets r ! i))"

definition All :: "PresetRegistry \<Rightarrow> Preset list" where
  "All r = reg_presets r"

function (sequential) expand :: "nat \<Rightarrow> PresetRegistry \<Rightarrow> string \<Rightarrow> string list \<times> string list \<Rightarrow> (string list \<times> string list) option"
  and expand_all :: "nat \<Rightarrow> PresetRegistry \<Rightarrow> string list \<Rightarrow> string list \<times> string list \<Rightarrow> (string list \<times> string list) option" where
  "expand 0 r name st = None"
| "expand (Suc fuel) r name (visited, domains) =
     (if name \<in> set visited then Some (visited, domains)
      else
        (case Get r name of
           None \<Rightarrow> Some (name # visited, domains)
         | Some p \<Rightarrow>
             (case expand_all fuel r (pr_Includes p) (name # visited, domains) of
                None \<Rightarrow> None
              | Some (visited', domains') \<Rightarrow> Some (visited', dedup_onto domains' (pr_Domains p)))))"
| "expand_all fuel r [] st = Some st"
| "expand_all fuel r (name # names) st =
     (case expand fuel r name st of None \<Rightarrow> None | Some st' \<Rightarrow> expand_all fuel r names st')"
  by pat_completeness auto
termination
  by (relation "measures [\<lambda>x. case x of Inl (f, _) \<Rightarrow> f | Inr (f, _) \<Rightarrow> f,
                          \<lambda>x. case x of Inl _ \<Rightarrow> 0 | Inr (_, _, ns, _) \<Rightarrow> Suc (length ns)]") auto

definition Expand :: "PresetRegistry \<Rightarrow> string list \<Rightarrow> string list option" where
  "Expand r names = map_option snd (expand_all (length (reg_presets r) + 1) r names ([], []))"

section \<open>Reference: the presets reachable through includes\<close>

inductive reaches :: "PresetRegistry \<Rightarrow> string list \<Rightarrow> string \<Rightarrow> bool" for r names where
  reaches_name: "n \<in> set names \<Longrightarrow> reaches r names n"
| reaches_include: "reaches r names n \<Longrightarrow> Get r n = Some p \<Longrightarrow> m \<in> set (pr_Includes p) \<Longrightarrow> reaches r names m"

definition registry_ok :: "PresetRegistry \<Rightarrow> bool" where
  "registry_ok r \<longleftrightarrow> dom (reg_index r) = pr_Name ` set (reg_presets r)"

definition unmarked :: "PresetRegistry \<Rightarrow> string list \<Rightarrow> nat" where
  "unmarked r visited = card (pr_Name ` set (reg_presets r) - set visited)"

section \<open>The registry\<close>

lemma index_presets_dom: "dom (index_presets i ps m) = dom m \<union> pr_Name ` set ps"
  by (induction ps arbitrary: i m) auto

lemma index_presets_range:
  "index_presets i ps m n = Some k \<Longrightarrow> m n = Some k \<or> i \<le> k \<and> k < i + length ps \<and> pr_Name (ps ! (k - i)) = n"
proof (induction ps arbitrary: i m)
  case (Cons p ps)
  have "index_presets (i + 1) ps (m(pr_Name p \<mapsto> i)) n = Some k" using Cons.prems by simp
  from Cons.IH [OF this] show ?case by (auto simp: nth_Cons' split: if_splits)
qed simp

lemma NewPresetRegistry_ok: "registry_ok (NewPresetRegistry ps)"
  by (simp add: registry_ok_def NewPresetRegistry_def index_presets_dom)

text \<open>\<^verbatim>\<open>Get\<close> stays inside the slice and returns a preset of that name.\<close>

lemma Get_NewPresetRegistry:
  "Get (NewPresetRegistry ps) name = Some p \<Longrightarrow> p \<in> set ps \<and> pr_Name p = name"
  using index_presets_range [of 0 ps Map.empty name]
  by (auto simp: Get_def NewPresetRegistry_def split: option.splits)

lemma Get_registered: "registry_ok r \<Longrightarrow> Get r name = Some p \<Longrightarrow> name \<in> pr_Name ` set (reg_presets r)"
  by (force simp: Get_def registry_ok_def split: option.splits)

lemma unmarked_mono: "set v \<subseteq> set v' \<Longrightarrow> unmarked r v' \<le> unmarked r v"
  by (auto simp: unmarked_def intro!: card_mono)

lemma unmarked_mark:
  "name \<in> pr_Name ` set (reg_presets r) \<Longrightarrow> name \<notin> set v \<Longrightarrow> unmarked r (name # v) < unmarked r v"
  unfolding unmarked_def by (rule psubset_card_mono) auto

lemma unmarked_bound: "unmarked r [] \<le> length (reg_presets r)"
  unfolding unmarked_def by (metis card_length list.set_map set_empty Diff_empty empty_set length_map)

section \<open>Expansion terminates\<close>

lemma expand_visited_mono:
  "expand fuel r name st = Some st' \<Longrightarrow> set (fst st) \<subseteq> set (fst st')"
  "expand_all fuel r names st = Some st' \<Longrightarrow> set (fst st) \<subseteq> set (fst st')"
proof (induction fuel r name st and fuel r names st arbitrary: st' and st' rule: expand_expand_all.induct)
  case (2 fuel r name visited domains)
  show ?case
  proof (cases "name \<in> set visited \<or> Get r name = None")
    case True
    with 2(2) show ?thesis by (auto split: if_splits)
  next
    case False
    then obtain p where p: "Get r name = Some p" and nv: "name \<notin> set visited" by auto
    from 2(2) p nv obtain v d where v: "expand_all fuel r (pr_Includes p) (name # visited, domains) = Some (v, d)"
      and st': "st' = (v, dedup_onto d (pr_Domains p))" by (auto split: option.splits)
    from 2(1) [OF nv p v] st' show ?thesis by auto
  qed
next
  case (4 fuel r name names st)
  from 4(3) obtain st1 where st1: "expand fuel r name st = Some st1" "expand_all fuel r names st1 = Some st'"
    by (auto split: option.splits)
  from 4(1) [OF st1(1)] 4(2) [OF st1(1) st1(2)] show ?case by (rule subset_trans)
qed auto

lemma expand_total:
  "registry_ok r \<Longrightarrow> unmarked r (fst st) < fuel \<Longrightarrow> \<exists>st'. expand fuel r name st = Some st'"
  "registry_ok r \<Longrightarrow> unmarked r (fst st) < fuel \<Longrightarrow> \<exists>st'. expand_all fuel r names st = Some st'"
proof (induction fuel r name st and fuel r names st rule: expand_expand_all.induct)
  case (2 fuel r name visited domains)
  show ?case
  proof (cases "name \<in> set visited \<or> Get r name = None")
    case True
    then show ?thesis by auto
  next
    case False
    then obtain p where p: "Get r name = Some p" and nv: "name \<notin> set visited" by auto
    have "unmarked r (name # visited) < fuel"
      using unmarked_mark [OF Get_registered [OF 2(2) p] nv] 2(3) by simp
    then obtain st' where "expand_all fuel r (pr_Includes p) (name # visited, domains) = Some st'"
      using 2(1) [OF nv p] 2(2) by auto
    with p nv show ?thesis by (simp add: split_beta)
  qed
next
  case (4 fuel r name names st)
  obtain st1 where st1: "expand fuel r name st = Some st1" using 4(1) [OF 4(3,4)] by blast
  have "unmarked r (fst st1) < fuel"
    using unmarked_mono [OF expand_visited_mono(1) [OF st1], of r] 4(4) by simp
  then show ?case using 4(2) [OF st1 4(3)] st1 by simp
qed auto

section \<open>Expansion collects the reachable domains\<close>

definition preset_done :: "PresetRegistry \<Rightarrow> string list \<times> string list \<Rightarrow> string \<Rightarrow> bool" where
  "preset_done r st n \<longleftrightarrow>
     (\<forall>p. Get r n = Some p \<longrightarrow> set (pr_Includes p) \<subseteq> set (fst st) \<and> set (pr_Domains p) \<subseteq> set (snd st))"

text \<open>What expanding \<open>names\<close> does to the state: the presets marked on the way are reachable and complete.\<close>

definition expands :: "PresetRegistry \<Rightarrow> string list \<Rightarrow> string list \<times> string list \<Rightarrow> string list \<times> string list \<Rightarrow> bool" where
  "expands r names st st' \<longleftrightarrow>
     set (fst st) \<union> set names \<subseteq> set (fst st') \<and> set (snd st) \<subseteq> set (snd st')
     \<and> (\<forall>n \<in> set (fst st') - set (fst st). reaches r names n \<and> preset_done r st' n)
     \<and> (\<forall>d \<in> set (snd st') - set (snd st). \<exists>n p. n \<in> set (fst st') - set (fst st) \<and> Get r n = Some p \<and> d \<in> set (pr_Domains p))
     \<and> (distinct (snd st) \<longrightarrow> distinct (snd st'))"

lemma reaches_mono: "reaches r ns n \<Longrightarrow> set ns \<subseteq> set ms \<Longrightarrow> reaches r ms n"
  by (induction rule: reaches.induct) (auto intro: reaches.intros)

lemma reaches_trans: "reaches r ns n \<Longrightarrow> (\<And>m. m \<in> set ns \<Longrightarrow> reaches r ms m) \<Longrightarrow> reaches r ms n"
  by (induction rule: reaches.induct) (auto intro: reaches.intros)

lemma expands_refl: "set names \<subseteq> set (fst st) \<Longrightarrow> expands r names st st"
  by (simp add: expands_def)

lemma preset_done_mono:
  "preset_done r st n \<Longrightarrow> set (fst st) \<subseteq> set (fst st') \<Longrightarrow> set (snd st) \<subseteq> set (snd st') \<Longrightarrow> preset_done r st' n"
  unfolding preset_done_def by blast

lemma expands_sets:
  assumes "expands r names st st'"
  shows "set (fst st) \<subseteq> set (fst st')" and "set names \<subseteq> set (fst st')" and "set (snd st) \<subseteq> set (snd st')"
    and "distinct (snd st) \<Longrightarrow> distinct (snd st')"
  using assms by (simp_all add: expands_def)

lemma expands_new:
  assumes "expands r names st st'" and "n \<in> set (fst st')" and "n \<notin> set (fst st)"
  shows "reaches r names n" and "preset_done r st' n"
  using assms by (simp_all add: expands_def)

lemma expands_domain:
  assumes "expands r names st st'" and "d \<in> set (snd st')" and "d \<notin> set (snd st)"
  obtains n p where "n \<in> set (fst st')" and "n \<notin> set (fst st)" and "Get r n = Some p" and "d \<in> set (pr_Domains p)"
  using assms by (force simp: expands_def)

lemma expandsI:
  assumes "set (fst st) \<subseteq> set (fst st')" and "set names \<subseteq> set (fst st')" and "set (snd st) \<subseteq> set (snd st')"
    and "distinct (snd st) \<Longrightarrow> distinct (snd st')"
    and "\<And>n. n \<in> set (fst st') \<Longrightarrow> n \<notin> set (fst st) \<Longrightarrow> reaches r names n \<and> preset_done r st' n"
    and "\<And>d. d \<in> set (snd st') \<Longrightarrow> d \<notin> set (snd st) \<Longrightarrow>
      \<exists>n p. n \<in> set (fst st') - set (fst st) \<and> Get r n = Some p \<and> d \<in> set (pr_Domains p)"
  shows "expands r names st st'"
  using assms by (simp add: expands_def)

lemma expands_trans:
  assumes "expands r [name] st st1" and "expands r names st1 st2"
  shows "expands r (name # names) st st2"
proof (rule expandsI)
  note s1 = expands_sets [OF assms(1)] and s2 = expands_sets [OF assms(2)]
  show "set (fst st) \<subseteq> set (fst st2)" "set (name # names) \<subseteq> set (fst st2)" "set (snd st) \<subseteq> set (snd st2)"
    "distinct (snd st) \<Longrightarrow> distinct (snd st2)"
    using s1 s2 by auto
  show "reaches r (name # names) n \<and> preset_done r st2 n" if "n \<in> set (fst st2)" "n \<notin> set (fst st)" for n
  proof (cases "n \<in> set (fst st1)")
    case True
    have "preset_done r st2 n"
      by (rule preset_done_mono [OF expands_new(2) [OF assms(1) True that(2)] s2(1,3)])
    moreover have "reaches r (name # names) n"
      by (rule reaches_mono [OF expands_new(1) [OF assms(1) True that(2)]]) simp
    ultimately show ?thesis by simp
  next
    case False
    have "reaches r (name # names) n"
      by (rule reaches_mono [OF expands_new(1) [OF assms(2) that(1) False]]) auto
    then show ?thesis using expands_new(2) [OF assms(2) that(1) False] ..
  qed
  show "\<exists>n p. n \<in> set (fst st2) - set (fst st) \<and> Get r n = Some p \<and> d \<in> set (pr_Domains p)"
    if "d \<in> set (snd st2)" "d \<notin> set (snd st)" for d
  proof (cases "d \<in> set (snd st1)")
    case True
    show ?thesis by (rule expands_domain [OF assms(1) True that(2)]) (use s2(1) in blast)
  next
    case False
    show ?thesis by (rule expands_domain [OF assms(2) that(1) False]) (use s1(1) in blast)
  qed
qed

lemma expands_preset:
  assumes "Get r name = Some p" and "name \<notin> set v" and ex: "expands r (pr_Includes p) (name # v, d) (v', d')"
  shows "expands r [name] (v, d) (v', dedup_onto d' (pr_Domains p))"
proof (rule expandsI)
  note s1 = expands_sets [OF ex, simplified]
  show "set (fst (v, d)) \<subseteq> set (fst (v', dedup_onto d' (pr_Domains p)))"
    "set [name] \<subseteq> set (fst (v', dedup_onto d' (pr_Domains p)))"
    "set (snd (v, d)) \<subseteq> set (snd (v', dedup_onto d' (pr_Domains p)))"
    "distinct (snd (v, d)) \<Longrightarrow> distinct (snd (v', dedup_onto d' (pr_Domains p)))"
    using s1 by auto
  have inc: "reaches r [name] n" if "reaches r (pr_Includes p) n" for n
    by (rule reaches_trans [OF that]) (rule reaches_include [OF reaches_name assms(1)], simp_all)
  show "reaches r [name] n \<and> preset_done r (v', dedup_onto d' (pr_Domains p)) n"
    if "n \<in> set (fst (v', dedup_onto d' (pr_Domains p)))" "n \<notin> set (fst (v, d))" for n
  proof (cases "n = name")
    case True
    then show ?thesis using assms(1) s1(2) by (auto simp: preset_done_def intro: reaches_name)
  next
    case False
    with that have n: "n \<in> set (fst (v', d'))" "n \<notin> set (fst (name # v, d))" by simp_all
    have "preset_done r (v', dedup_onto d' (pr_Domains p)) n"
      by (rule preset_done_mono [OF expands_new(2) [OF ex n]]) auto
    with inc [OF expands_new(1) [OF ex n]] show ?thesis ..
  qed
  show "\<exists>n q. n \<in> set (fst (v', dedup_onto d' (pr_Domains p))) - set (fst (v, d)) \<and> Get r n = Some q \<and> x \<in> set (pr_Domains q)"
    if "x \<in> set (snd (v', dedup_onto d' (pr_Domains p)))" "x \<notin> set (snd (v, d))" for x
  proof (cases "x \<in> set (pr_Domains p)")
    case True
    then show ?thesis using assms(1,2) s1(1) by auto
  next
    case False
    with that have x: "x \<in> set (snd (v', d'))" "x \<notin> set (snd (name # v, d))" by simp_all
    show ?thesis by (rule expands_domain [OF ex x]) auto
  qed
qed

lemma expand_expands:
  "expand fuel r name st = Some st' \<Longrightarrow> expands r [name] st st'"
  "expand_all fuel r names st = Some st' \<Longrightarrow> expands r names st st'"
proof (induction fuel r name st and fuel r names st arbitrary: st' and st' rule: expand_expand_all.induct)
  case (2 fuel r name v d)
  show ?case
  proof (cases "name \<in> set v")
    case True
    with 2(2) have "st' = (v, d)" by simp
    with True show ?thesis by (simp add: expands_refl)
  next
    case nv: False
    show ?thesis
    proof (cases "Get r name")
      case None
      with 2(2) nv have "st' = (name # v, d)" by simp
      with None show ?thesis by (auto simp: expands_def preset_done_def intro: reaches_name)
    next
      case (Some p)
      with 2(2) nv obtain v' d' where v: "expand_all fuel r (pr_Includes p) (name # v, d) = Some (v', d')"
        and st': "st' = (v', dedup_onto d' (pr_Domains p))" by (auto split: option.splits)
      show ?thesis unfolding st' by (rule expands_preset [OF Some nv 2(1) [OF nv Some v]])
    qed
  qed
next
  case (3 fuel r st)
  then show ?case by (simp add: expands_refl)
next
  case (4 fuel r name names st)
  from 4(3) obtain st1 where st1: "expand fuel r name st = Some st1" "expand_all fuel r names st1 = Some st'"
    by (auto split: option.splits)
  show ?case by (rule expands_trans [OF 4(1) [OF st1(1)] 4(2) [OF st1(1) st1(2)]])
qed simp

lemma reaches_visited:
  assumes "expands r names ([], []) (v, d)" and "reaches r names n"
  shows "n \<in> set v"
  using assms(2,1) by (induction rule: reaches.induct) (auto simp: expands_def preset_done_def)

section \<open>Expansion\<close>

lemma Expand_reachable:
  "\<exists>ds. Expand (NewPresetRegistry ps) names = Some ds \<and> distinct ds
     \<and> set ds = {d. \<exists>n p. reaches (NewPresetRegistry ps) names n \<and> Get (NewPresetRegistry ps) n = Some p
                        \<and> d \<in> set (pr_Domains p)}"
proof -
  let ?r = "NewPresetRegistry ps"
  have "unmarked ?r (fst ([], [])) < length (reg_presets ?r) + 1"
    using unmarked_bound [of ?r] by simp
  then obtain v d where all: "expand_all (length (reg_presets ?r) + 1) ?r names ([], []) = Some (v, d)"
    using expand_total(2) [OF NewPresetRegistry_ok, of ps "([], [])"] by fastforce
  have e: "expands ?r names ([], []) (v, d)" by (rule expand_expands(2) [OF all])
  have "set d = {d. \<exists>n p. reaches ?r names n \<and> Get ?r n = Some p \<and> d \<in> set (pr_Domains p)}"
  proof (intro subset_antisym subsetI)
    fix x assume "x \<in> set d"
    then have x: "x \<in> set (snd (v, d))" "x \<notin> set (snd ([], []))" by simp_all
    show "x \<in> {d. \<exists>n p. reaches ?r names n \<and> Get ?r n = Some p \<and> d \<in> set (pr_Domains p)}"
      by (rule expands_domain [OF e x]) (use expands_new(1) [OF e] in blast)
  next
    fix x assume "x \<in> {d. \<exists>n p. reaches ?r names n \<and> Get ?r n = Some p \<and> d \<in> set (pr_Domains p)}"
    then obtain n p where n: "reaches ?r names n" "Get ?r n = Some p" "x \<in> set (pr_Domains p)" by blast
    have "preset_done ?r (v, d) n"
      by (rule expands_new(2) [OF e]) (use reaches_visited [OF e n(1)] in simp_all)
    with n show "x \<in> set d" by (auto simp: preset_done_def)
  qed
  moreover have "distinct d" using e by (simp add: expands_def)
  ultimately show ?thesis using all by (simp add: Expand_def)
qed

section \<open>Properties\<close>

text \<open>
  C20. \<^verbatim>\<open>Expand\<close> terminates on every registry, cyclic includes included, and returns without
  duplicates exactly the domains of the presets that the given names reach through includes;
  unknown names contribute nothing.
\<close>

theorem expand_collects_reachable:
  "\<exists>ds. Expand (NewPresetRegistry ps) names = Some ds \<and> distinct ds
     \<and> set ds = {d. \<exists>n p. reaches (NewPresetRegistry ps) names n \<and> Get (NewPresetRegistry ps) n = Some p
                        \<and> d \<in> set (pr_Domains p)}"
  by (rule Expand_reachable)

end
