(* ===== verification/Config.thy ===== *)
theory Config
  imports Proxy_Server Presets
begin

text \<open>
  Configuration, \<^verbatim>\<open>config/config.go\<close> and \<^verbatim>\<open>config/detect.go\<close>: loading, merging of global and
  project configuration with command line flags and presets, the choice of a random port, and
  the detection of presets from marker files. The last step, the JSON file that
  \<^verbatim>\<open>cmd/bootstrap.go\<close> writes and the proxy reads, is \<open>proxy_config\<close>: the fields with equal keys.

  Parameters: the built-in presets, the file system (whether a file exists and what its YAML
  decodes to; the result of \<^verbatim>\<open>os.Stat\<close> and \<^verbatim>\<open>filepath.Glob\<close>), and the random bytes.
\<close>

section \<open>Model\<close>

record GlobalConfig =
  gc_AllowHTTP :: "string list"
  gc_AllowDNS :: "string list"
  gc_BlockCIDR :: "string list"
  gc_AllowCIDR :: "string list"
  gc_ExtraHosts :: "string list"
  gc_UpstreamDNS :: string

record ProjectConfig =
  jc_Presets :: "string list"
  jc_AllowHTTP :: "string list"
  jc_AllowDNS :: "string list"
  jc_AllowHostPorts :: "int list"

record Config =
  cf_Global :: GlobalConfig
  cf_Project :: ProjectConfig

record MergedConfig =
  mc_AllowHTTP :: "string list"
  mc_AllowDNS :: "string list"
  mc_BlockCIDR :: "string list"
  mc_AllowCIDR :: "string list"
  mc_ExtraHosts :: "string list"
  mc_UpstreamDNS :: string
  mc_AllowHostPorts :: "int list"
  mc_ProxyIP :: string
  mc_HostGateway :: string
  mc_ProxyPort :: int
  mc_ControlAPIPort :: int
  mc_SSHForwardAddr :: string

datatype config_error =
    LoadError string
  | MergeHTTP allow_error
  | MergeDNS allow_error
  | RandError string
  | NoPortFound
  | ExpandOutOfFuel

text \<open>
  The loop of \<^verbatim>\<open>RandomProxyPort\<close> over at most \<open>n\<close> attempts; \<open>draw\<close> gives the two bytes of an
  attempt, or the error of the random source.
\<close>

definition port_of_bytes :: "byte \<times> byte \<Rightarrow> int" where
  "port_of_bytes b = (let lo = 49152; hi = 65535; rangeSize = hi - lo + 1
     in lo + (256 * uint (fst b) + uint (snd b)) mod rangeSize)"

fun random_port_loop :: "(nat \<Rightarrow> string + byte \<times> byte) \<Rightarrow> int list \<Rightarrow> nat \<Rightarrow> nat \<Rightarrow> config_error + int" where
  "random_port_loop draw excluded i 0 = Inl NoPortFound"
| "random_port_loop draw excluded i (Suc n) =
     (case draw i of
        Inl err \<Rightarrow> Inl (RandError err)
      | Inr b \<Rightarrow> (let port = port_of_bytes b in
          if port \<notin> set excluded then Inr port else random_port_loop draw excluded (i + 1) n))"

definition RandomProxyPort :: "(nat \<Rightarrow> string + byte \<times> byte) \<Rightarrow> int list \<Rightarrow> config_error + int" where
  "RandomProxyPort draw excluded = random_port_loop draw excluded 0 100"

text \<open>A configuration file: absent, unreadable, or decoded into the target.\<close>

datatype 'a config_file = Missing | Broken string | Decoded 'a

definition loadFile :: "'a config_file \<Rightarrow> 'a \<Rightarrow> string + 'a" where
  "loadFile f target = (case f of Missing \<Rightarrow> Inr target | Broken err \<Rightarrow> Inl err | Decoded x \<Rightarrow> Inr x)"

definition zero_GlobalConfig :: GlobalConfig where
  "zero_GlobalConfig = \<lparr>gc_AllowHTTP = [], gc_AllowDNS = [], gc_BlockCIDR = [], gc_AllowCIDR = [],
     gc_ExtraHosts = [], gc_UpstreamDNS = []\<rparr>"

definition zero_ProjectConfig :: ProjectConfig where
  "zero_ProjectConfig = \<lparr>jc_Presets = [], jc_AllowHTTP = [], jc_AllowDNS = [], jc_AllowHostPorts = []\<rparr>"

definition Load :: "GlobalConfig config_file \<Rightarrow> ProjectConfig config_file \<Rightarrow> config_error + Config" where
  "Load globalFile projectFile =
     (case loadFile globalFile zero_GlobalConfig of
        Inl err \<Rightarrow> Inl (LoadError err)
      | Inr g \<Rightarrow>
          (case loadFile projectFile zero_ProjectConfig of
             Inl err \<Rightarrow> Inl (LoadError err)
           | Inr p \<Rightarrow> Inr \<lparr>cf_Global = g, cf_Project = p\<rparr>))"

fun dedup_slices :: "'a list \<Rightarrow> 'a list list \<Rightarrow> 'a list" where
  "dedup_slices result [] = result"
| "dedup_slices result (s # ss) = dedup_slices (dedup_onto result s) ss"

definition dedup :: "'a list list \<Rightarrow> 'a list" where
  "dedup ss = dedup_slices [] ss"

definition Merge :: "Preset list \<Rightarrow> Config \<Rightarrow> string list \<Rightarrow> string list \<Rightarrow> config_error + MergedConfig" where
  "Merge presets c cliAllow cliPresets =
     (let g = cf_Global c; j = cf_Project c;
          allowHTTP = dedup [gc_AllowHTTP g, jc_AllowHTTP j, cliAllow];
          reg = NewPresetRegistry presets
      in case Expand reg (jc_Presets j @ cliPresets) of
           None \<Rightarrow> Inl ExpandOutOfFuel
         | Some expanded \<Rightarrow>
             let allowHTTP' = dedup [allowHTTP, expanded] in
             (case ValidateHTTPEntries allowHTTP' of
                Some err \<Rightarrow> Inl (MergeHTTP err)
              | None \<Rightarrow>
                  let allowDNS = dedup [gc_AllowDNS g, jc_AllowDNS j] in
                  (case ValidateDNSEntries allowDNS of
                     Some err \<Rightarrow> Inl (MergeDNS err)
                   | None \<Rightarrow>
                       Inr \<lparr>mc_AllowHTTP = allowHTTP', mc_AllowDNS = allowDNS, mc_BlockCIDR = gc_BlockCIDR g,
                            mc_AllowCIDR = gc_AllowCIDR g, mc_ExtraHosts = gc_ExtraHosts g,
                            mc_UpstreamDNS = gc_UpstreamDNS g, mc_AllowHostPorts = jc_AllowHostPorts j,
                            mc_ProxyIP = [], mc_HostGateway = [], mc_ProxyPort = 0, mc_ControlAPIPort = 0,
                            mc_SSHForwardAddr = []\<rparr>)))"

text \<open>The proxy's view of the marshalled configuration; there is no key for the DNS port.\<close>

definition proxy_config :: "MergedConfig \<Rightarrow> ProxyConfig" where
  "proxy_config m =
     \<lparr>pc_AllowHTTP = mc_AllowHTTP m, pc_AllowDNS = mc_AllowDNS m, pc_BlockCIDR = mc_BlockCIDR m,
      pc_AllowCIDR = mc_AllowCIDR m, pc_UpstreamDNS = mc_UpstreamDNS m,
      pc_AllowHostPorts = mc_AllowHostPorts m, pc_ProxyIP = mc_ProxyIP m,
      pc_HostGateway = mc_HostGateway m, pc_ProxyPort = mc_ProxyPort m,
      pc_ControlAPIPort = mc_ControlAPIPort m, pc_DNSPort = 0, pc_SSHForwardAddr = mc_SSHForwardAddr m\<rparr>"

section \<open>Preset detection\<close>

definition containsGlob :: "string \<Rightarrow> bool" where
  "containsGlob pattern = list_ex (\<lambda>c. c = CHR ''*'' \<or> c = CHR ''?'' \<or> c = CHR ''['') pattern"

text \<open>\<open>glob\<close> are the matches of a pattern in the project directory, \<open>exists_file\<close> tells whether \<^verbatim>\<open>os.Stat\<close> succeeds.\<close>

fun matchesAny :: "(string \<Rightarrow> string list) \<Rightarrow> (string \<Rightarrow> bool) \<Rightarrow> string list \<Rightarrow> bool" where
  "matchesAny glob exists_file [] = False"
| "matchesAny glob exists_file (pattern # patterns) =
     (if containsGlob pattern
      then (if length (glob pattern) > 0 then True else matchesAny glob exists_file patterns)
      else (if exists_file pattern then True else matchesAny glob exists_file patterns))"

fun detect_loop :: "(string \<Rightarrow> string list) \<Rightarrow> (string \<Rightarrow> bool) \<Rightarrow> Preset list \<Rightarrow> string list" where
  "detect_loop glob exists_file [] = []"
| "detect_loop glob exists_file (p # ps) =
     (if length (pr_Matchers p) = 0 then detect_loop glob exists_file ps
      else if matchesAny glob exists_file (pr_Matchers p) then pr_Name p # detect_loop glob exists_file ps
      else detect_loop glob exists_file ps)"

definition DetectPresets :: "Preset list \<Rightarrow> (string \<Rightarrow> string list) \<Rightarrow> (string \<Rightarrow> bool) \<Rightarrow> string list" where
  "DetectPresets presets glob exists_file = detect_loop glob exists_file (All (NewPresetRegistry presets))"

section \<open>Lemmas\<close>

lemma dedup_slices_eq: "dedup_slices result ss = dedup_onto result (concat ss)"
  by (induction ss arbitrary: result) (simp_all add: dedup_onto_append)

lemma dedup_set [simp]: "set (dedup ss) = set (concat ss)"
  by (simp add: dedup_def dedup_slices_eq)

lemma dedup_distinct [simp]: "distinct (dedup ss)"
  by (simp add: dedup_def dedup_slices_eq)

lemma port_of_bytes_range: "49152 \<le> port_of_bytes b \<and> port_of_bytes b \<le> 65535"
  by (simp add: port_of_bytes_def Let_def)

lemma random_port_loop_Inr:
  "random_port_loop draw excluded i n = Inr port \<Longrightarrow>
     49152 \<le> port \<and> port \<le> 65535 \<and> port \<notin> set excluded"
proof (induction n arbitrary: i)
  case (Suc n)
  then show ?case using port_of_bytes_range by (auto simp: Let_def split: sum.splits if_splits)
qed simp

lemma random_port_loop_total:
  assumes "\<exists>k<n. \<exists>b. draw (i + k) = Inr b \<and> port_of_bytes b \<notin> set excluded"
    and "\<forall>k<n. \<exists>b. draw (i + k) = Inr b"
  shows "\<exists>port. random_port_loop draw excluded i n = Inr port"
  using assms
proof (induction n arbitrary: i)
  case (Suc n)
  obtain b where b: "draw i = Inr b" using Suc.prems(2) by force
  show ?case
  proof (cases "port_of_bytes b \<in> set excluded")
    case True
    obtain k b' where k: "k < Suc n" "draw (i + k) = Inr b'" "port_of_bytes b' \<notin> set excluded"
      using Suc.prems(1) by blast
    with b True have "k \<noteq> 0" by (metis add_0_right sum.inject(2))
    with k have "k - 1 < n" "draw (Suc i + (k - 1)) = Inr b'" by auto
    moreover have "\<forall>k<n. \<exists>b. draw (Suc i + k) = Inr b"
      using Suc.prems(2) by (metis Suc_less_eq add_Suc_right add_Suc)
    ultimately have "\<exists>port. random_port_loop draw excluded (Suc i) n = Inr port"
      using Suc.IH [of "Suc i"] k(3) by blast
    with b True show ?thesis by (simp add: Let_def)
  next
    case False
    with b show ?thesis by (simp add: Let_def)
  qed
qed simp

lemma Expand_total: "\<exists>ds. Expand (NewPresetRegistry ps) names = Some ds"
proof -
  have "unmarked (NewPresetRegistry ps) (fst ([], [])) < length (reg_presets (NewPresetRegistry ps)) + 1"
    using unmarked_bound [of "NewPresetRegistry ps"] by simp
  then show ?thesis
    using expand_total(2) [OF NewPresetRegistry_ok, of ps "([], [])"] by (force simp: Expand_def)
qed

text \<open>The entries a merge combines, in order and with duplicates.\<close>

definition merged_http :: "Preset list \<Rightarrow> Config \<Rightarrow> string list \<Rightarrow> string list \<Rightarrow> string list" where
  "merged_http presets c cliAllow cliPresets =
     gc_AllowHTTP (cf_Global c) @ jc_AllowHTTP (cf_Project c) @ cliAllow
     @ the (Expand (NewPresetRegistry presets) (jc_Presets (cf_Project c) @ cliPresets))"

definition merged_dns :: "Config \<Rightarrow> string list" where
  "merged_dns c = gc_AllowDNS (cf_Global c) @ jc_AllowDNS (cf_Project c)"

lemma dedup_twice: "dedup [dedup [a, b, c], d] = dedup [a, b, c, d]"
proof -
  have "dedup_onto [] (dedup [a, b, c]) = dedup [a, b, c]"
    using dedup_onto_id [of "[]" "dedup [a, b, c]"] by simp
  then show ?thesis by (simp add: dedup_def)
qed

lemma Merge_Inr:
  "Merge presets c cliAllow cliPresets = Inr m \<Longrightarrow>
     mc_AllowHTTP m = dedup_onto [] (merged_http presets c cliAllow cliPresets)
     \<and> mc_AllowDNS m = dedup_onto [] (merged_dns c)
     \<and> ValidateHTTPEntries (mc_AllowHTTP m) = None \<and> ValidateDNSEntries (mc_AllowDNS m) = None"
  unfolding Merge_def Let_def dedup_twice
  by (auto simp: merged_http_def merged_dns_def dedup_def dedup_slices_eq split: option.splits)

lemma validate_set:
  "set xs = set ys \<Longrightarrow> (first_error f xs = None \<longleftrightarrow> first_error f ys = None)"
  by (simp add: first_error_None)

lemma Merge_succeeds:
  "(\<exists>m. Merge presets c cliAllow cliPresets = Inr m) \<longleftrightarrow>
     ValidateHTTPEntries (merged_http presets c cliAllow cliPresets) = None
     \<and> ValidateDNSEntries (merged_dns c) = None"
proof -
  obtain ds where ds: "Expand (NewPresetRegistry presets) (jc_Presets (cf_Project c) @ cliPresets) = Some ds"
    using Expand_total by blast
  have h: "ValidateHTTPEntries (dedup [gc_AllowHTTP (cf_Global c), jc_AllowHTTP (cf_Project c), cliAllow, ds]) = None
      \<longleftrightarrow> ValidateHTTPEntries (merged_http presets c cliAllow cliPresets) = None"
    unfolding ValidateHTTPEntries_def by (rule validate_set) (simp add: merged_http_def ds)
  have d: "ValidateDNSEntries (dedup [gc_AllowDNS (cf_Global c), jc_AllowDNS (cf_Project c)]) = None
      \<longleftrightarrow> ValidateDNSEntries (merged_dns c) = None"
    unfolding ValidateDNSEntries_def by (rule validate_set) (simp add: merged_dns_def)
  show ?thesis
    unfolding Merge_def Let_def dedup_twice h [symmetric] d [symmetric] by (simp add: ds split: option.splits)
qed

lemma detect_loop_eq:
  "detect_loop glob ex ps = map pr_Name (filter (\<lambda>p. matchesAny glob ex (pr_Matchers p)) ps)"
  by (induction ps) auto

lemma matchesAny_iff:
  "matchesAny glob ex ms \<longleftrightarrow> (\<exists>m\<in>set ms. if containsGlob m then glob m \<noteq> [] else ex m)"
  by (induction ms) auto

lemma Merge_starts_Run:
  assumes "Merge presets c cliAllow cliPresets = Inr m"
  shows "\<exists>r. Run (proxy_config (m\<lparr>mc_ProxyIP := ip, mc_HostGateway := gw,
              mc_ProxyPort := pp, mc_ControlAPIPort := cp, mc_SSHForwardAddr := ssh\<rparr>)) = Inr r"
  using Merge_Inr [OF assms] NewLogBuffer_rep [of LogBufferCapacity]
  by (auto simp: Run_def Let_def proxy_config_def NewHTTPAllowlist_def NewDNSAllowlist_def LogBufferCapacity_def)

section \<open>Properties\<close>

text \<open>
  C9. Merging is exact, and what it accepts the proxy starts with. A merge succeeds if and only
  if every entry it combines validates; the merged lists have the combined entries without
  duplicates in order of first occurrence; and \<^verbatim>\<open>Run\<close> accepts the resulting proxy
  configuration whatever addresses and ports the start-up fills in.
\<close>

theorem merged_config_starts_proxy:
  "((\<exists>m. Merge presets c cliAllow cliPresets = Inr m) \<longleftrightarrow>
      ValidateHTTPEntries (merged_http presets c cliAllow cliPresets) = None
      \<and> ValidateDNSEntries (merged_dns c) = None)
   \<and> (\<forall>m \<in> {m. Merge presets c cliAllow cliPresets = Inr m}.
        distinct (mc_AllowHTTP m)
        \<and> mc_AllowHTTP m = dedup_onto [] (merged_http presets c cliAllow cliPresets)
        \<and> mc_AllowDNS m = dedup_onto [] (merged_dns c)
        \<and> (\<forall>ip gw pp cp ssh. \<exists>r. Run (proxy_config (m\<lparr>mc_ProxyIP := ip, mc_HostGateway := gw,
              mc_ProxyPort := pp, mc_ControlAPIPort := cp, mc_SSHForwardAddr := ssh\<rparr>)) = Inr r))"
  using Merge_succeeds [of presets c cliAllow cliPresets] Merge_Inr Merge_starts_Run by auto

theorem merged_config_starts_proxy_witness:
  "\<exists>m. Merge [] \<lparr>cf_Global = zero_GlobalConfig, cf_Project = zero_ProjectConfig\<rparr> [''a.com:443'', ''a.com:443''] [''none''] = Inr m
     \<and> mc_AllowHTTP m = [''a.com:443'']
     \<and> (\<exists>r. Run (proxy_config (m\<lparr>mc_ProxyIP := [], mc_HostGateway := [], mc_ProxyPort := 1, mc_ControlAPIPort := 2, mc_SSHForwardAddr := []\<rparr>)) = Inr r)"
proof -
  let ?c = "\<lparr>cf_Global = zero_GlobalConfig, cf_Project = zero_ProjectConfig\<rparr>"
  have ex: "Expand (NewPresetRegistry []) [''none''] = Some []" by code_simp
  have http: "merged_http [] ?c [''a.com:443'', ''a.com:443''] [''none''] = [''a.com:443'', ''a.com:443'']"
    and dns: "merged_dns ?c = []"
    using ex by (simp_all add: merged_http_def merged_dns_def zero_GlobalConfig_def zero_ProjectConfig_def)
  have ok: "ValidateHTTPEntries [''a.com:443'', ''a.com:443''] = None" "ValidateDNSEntries [] = None"
    "dedup_onto [] [''a.com:443'', ''a.com:443''] = [''a.com:443'']"
    by code_simp+
  note t = merged_config_starts_proxy [of "[]" ?c "[''a.com:443'', ''a.com:443'']" "[''none'']", unfolded http dns ok(3)]
  from t ok(1,2) obtain m where "Merge [] ?c [''a.com:443'', ''a.com:443''] [''none''] = Inr m" by blast
  with t show ?thesis by blast
qed

text \<open>
  A random port is usable: it lies in the dynamic range 49152 to 65535 and is not excluded,
  and the choice fails only when the random source fails or all of its hundred draws are
  excluded.
\<close>

lemma random_port_usable:
  "(\<forall>port \<in> {port. RandomProxyPort draw excluded = Inr port}.
      49152 \<le> port \<and> port \<le> 65535 \<and> port \<notin> set excluded)
   \<and> ((\<exists>port. RandomProxyPort draw excluded = Inr port)
      \<or> (\<exists>k<100. \<exists>err. draw k = Inl err)
      \<or> (\<forall>k<100. \<exists>b. draw k = Inr b \<and> port_of_bytes b \<in> set excluded))"
proof -
  have "\<exists>port. RandomProxyPort draw excluded = Inr port"
    if "\<not> (\<exists>k<100. \<exists>err. draw k = Inl err)" "\<not> (\<forall>k<100. \<exists>b. draw k = Inr b \<and> port_of_bytes b \<in> set excluded)"
  proof -
    have all: "\<exists>b. draw k = Inr b" if "k < 100" for k
      using that \<open>\<not> (\<exists>k<100. \<exists>err. draw k = Inl err)\<close> by (metis sum.exhaust)
    then have "\<exists>k<100. \<exists>b. draw (0 + k) = Inr b \<and> port_of_bytes b \<notin> set excluded"
      using that(2) by (metis add_0)
    then show ?thesis unfolding RandomProxyPort_def
      by (rule random_port_loop_total) (use all in simp)
  qed
  moreover have "\<forall>port \<in> {port. RandomProxyPort draw excluded = Inr port}.
      49152 \<le> port \<and> port \<le> 65535 \<and> port \<notin> set excluded"
    using random_port_loop_Inr by (simp only: RandomProxyPort_def) blast
  ultimately show ?thesis by blast
qed

lemma random_port_usable_witness:
  "RandomProxyPort (\<lambda>k. Inr (0, if k = 0 then 1 else 2)) [49153] = Inr 49154 \<and> (49154::int) \<notin> set [49153]"
proof -
  have "RandomProxyPort (\<lambda>k. Inr (0, if k = 0 then 1 else 2)) [49153] = Inr 49154"
  proof -
    have n: "(100::nat) = Suc (Suc 98)" by simp
    show ?thesis unfolding RandomProxyPort_def n
      by (simp only: random_port_loop.simps sum.case Let_def) (simp add: port_of_bytes_def)
  qed
  then show ?thesis
    using random_port_usable [of "\<lambda>k. Inr (0, if k = 0 then 1 else 2)" "[49153]"] by blast
qed

end
