(* ===== verification/Config_Setup.thy ===== *)
theory Config_Setup
  imports Config
begin

text \<open>
  Writing and editing the project configuration, \<^verbatim>\<open>config/setup.go\<close>: the file that the preset selector
  writes, and the edits by which allowed entries are added to a file that users also edit by hand.

  The state is the text of the configuration file, \<^term>\<open>None\<close> when there is no file. Parameters: the
  outcome of the file operations (\<open>project_io\<close>), the decoder of \<^verbatim>\<open>koanf\<close>, the YAML library
  (\<open>yaml_lib\<close>, with the exported fields of its \<^verbatim>\<open>Node\<close> type) and the interactive selector.
\<close>

section \<open>Model\<close>

datatype yaml_kind = DocumentNode | SequenceNode | MappingNode | ScalarNode | AliasNode

datatype yaml_style = TaggedStyle | DoubleQuotedStyle | SingleQuotedStyle | LiteralStyle | FoldedStyle | FlowStyle

datatype yaml_node =
  YNode (y_Kind: yaml_kind) (y_Style: "yaml_style list") (y_Tag: string) (y_Value: string) (y_Line: int)
    (y_Content: "yaml_node list")

record yaml_lib =
  yl_Unmarshal :: "string \<Rightarrow> string + yaml_node"
  yl_SetString :: "yaml_node \<Rightarrow> string \<Rightarrow> yaml_node"
  yl_Encode :: "yaml_node \<Rightarrow> string + string"
  yl_Close :: "string \<Rightarrow> string + string"

record project_io =
  pi_mkdir :: "string option"
  pi_read :: "string option"
  pi_write :: "string option"
  pi_torn :: "string option"

datatype setup_error =
    IOError string
  | LoadProject string
  | ReadProject string
  | ParseProject string
  | NotMapping
  | EncodeProject string
  | ExpectedList string
  | UnknownSection string
  | SelectorFailed string

text \<open>A failed write leaves what the file system made of it.\<close>

definition WriteFile :: "project_io \<Rightarrow> string \<Rightarrow> setup_error option \<times> string option" where
  "WriteFile io data = (case pi_write io of None \<Rightarrow> (None, Some data) | Some e \<Rightarrow> (Some (IOError e), pi_torn io))"

text \<open>The verb \<^verbatim>\<open>%q\<close>, for bytes below 128; others are kept, as those of printable characters are.\<close>

definition hex_char :: "nat \<Rightarrow> char" where
  "hex_char n = (if n < 10 then char_of (48 + n) else char_of (87 + n))"

definition quoted_char :: "char \<Rightarrow> string" where
  "quoted_char c =
     (if c = CHR 0x22 \<or> c = CHR 0x5C then [CHR 0x5C, c]
      else if c = CHR 0x07 then [CHR 0x5C, CHR ''a'']
      else if c = CHR 0x08 then [CHR 0x5C, CHR ''b'']
      else if c = CHR 0x0C then [CHR 0x5C, CHR ''f'']
      else if c = CHR 0x0A then [CHR 0x5C, CHR ''n'']
      else if c = CHR 0x0D then [CHR 0x5C, CHR ''r'']
      else if c = CHR 0x09 then [CHR 0x5C, CHR ''t'']
      else if c = CHR 0x0B then [CHR 0x5C, CHR ''v'']
      else if of_char c < (32::nat) \<or> c = CHR 0x7F then
        [CHR 0x5C, CHR ''x'', hex_char (of_char c div 16), hex_char (of_char c mod 16)]
      else [c])"

definition go_quote :: "string \<Rightarrow> string" where
  "go_quote s = [CHR 0x22] @ concat (map quoted_char s) @ [CHR 0x22]"

definition formatYAMLListValue :: "string \<Rightarrow> string" where
  "formatYAMLListValue v = (if has_prefix ''*'' v then go_quote v else v)"

text \<open>The writers append lines to a \<^verbatim>\<open>strings.Builder\<close>.\<close>

definition put_lines :: "string list \<Rightarrow> string" where
  "put_lines ls = concat (map (\<lambda>l. l @ [newline]) ls)"

definition writeConfigHeader :: "string \<Rightarrow> string" where
  "writeConfigHeader sb = sb @ put_lines
     [''# Vibepit network config for this project.'',
      ''# All internet access from the sandbox container is filtered through'',
      ''# a proxy that only allows domains listed here.'',
      ''#'',
      ''# Docs: https://github.com/bernd/vibepit'', []]"

definition writePresetsSection :: "string \<Rightarrow> string list \<Rightarrow> string" where
  "writePresetsSection sb presets = sb @ put_lines
     ([''# Presets bundle common domains for a language ecosystem.'',
       ''# Use 'vibepit --reconfigure' to change presets interactively.'',
       ''# Available: default, anthropic, vcs-github, vcs-other, containers,'',
       ''# cloud, pkg-node, pkg-python, pkg-ruby, pkg-rust, pkg-go, pkg-jvm,'',
       ''# pkg-others, linux-distros, devtools, monitoring, cdn, schema, mcp'']
      @ (if presets \<noteq> [] then ''presets:'' # map (\<lambda>p. ''  - '' @ p) presets
         else [''# presets:'', ''#   - default'', ''#   - pkg-go'']))"

definition writeYAMLListSection :: "string \<Rightarrow> string \<Rightarrow> string \<Rightarrow> string list \<Rightarrow> string list \<Rightarrow> string" where
  "writeYAMLListSection sb comment key entries examples = sb @ put_lines
     ([[], comment]
      @ (if entries \<noteq> [] then (key @ '':'') # map (\<lambda>d. ''  - '' @ formatYAMLListValue d) entries
         else (''# '' @ key @ '':'') # map (\<lambda>d. ''#   - '' @ d) examples))"

definition project_config_text :: "string list \<Rightarrow> string list \<Rightarrow> string list \<Rightarrow> string" where
  "project_config_text presets allowHTTP allowDNS =
     (let sb = writeConfigHeader [];
          sb = writePresetsSection sb presets;
          sb = writeYAMLListSection sb ''# Additional domains to allow HTTP access for this project.''
                 ''allow-http'' allowHTTP [''api.openai.com:443'', ''api.anthropic.com:443'']
      in writeYAMLListSection sb ''# Domains that only need DNS resolution (no HTTP proxy).''
           ''allow-dns'' allowDNS [''internal.corp.example.com''])"

definition writeReconfiguredProjectConfig ::
  "project_io \<Rightarrow> string list \<Rightarrow> string list \<Rightarrow> string list \<Rightarrow> string option \<Rightarrow> setup_error option \<times> string option" where
  "writeReconfiguredProjectConfig io presets allowHTTP allowDNS f =
     (case pi_mkdir io of
        Some e \<Rightarrow> (Some (IOError e), f)
      | None \<Rightarrow> WriteFile io (project_config_text presets allowHTTP allowDNS))"

definition writeProjectConfig :: "project_io \<Rightarrow> string list \<Rightarrow> string option \<Rightarrow> setup_error option \<times> string option" where
  "writeProjectConfig io presets f = writeReconfiguredProjectConfig io presets [] [] f"

text \<open>\<^verbatim>\<open>loadFile\<close> on the project file.\<close>

definition load_project :: "(string \<Rightarrow> string + ProjectConfig) \<Rightarrow> string option \<Rightarrow> string + ProjectConfig" where
  "load_project decode f = loadFile
     (case f of None \<Rightarrow> Missing | Some d \<Rightarrow> (case decode d of Inl e \<Rightarrow> Broken e | Inr c \<Rightarrow> Decoded c)) zero_ProjectConfig"

text \<open>
  The selector gets the checked names and the detected ones. The result is the selection or an error,
  and the file.
\<close>

definition RunFirstTimeSetup ::
  "project_io \<Rightarrow> (string list \<Rightarrow> string list \<Rightarrow> string + string list) \<Rightarrow> string list \<Rightarrow> string option
   \<Rightarrow> (setup_error + string list) \<times> string option" where
  "RunFirstTimeSetup io selector detected f =
     (case selector (''default'' # detected) detected of
        Inl e \<Rightarrow> (Inl (SelectorFailed e), f)
      | Inr selected \<Rightarrow>
          (case writeProjectConfig io selected f of
             (Some e, f') \<Rightarrow> (Inl e, f')
           | (None, f') \<Rightarrow> (Inr selected, f')))"

definition RunReconfigure ::
  "project_io \<Rightarrow> (string \<Rightarrow> string + ProjectConfig) \<Rightarrow> (string list \<Rightarrow> string list \<Rightarrow> string + string list) \<Rightarrow> string list
   \<Rightarrow> string option \<Rightarrow> (setup_error + string list) \<times> string option" where
  "RunReconfigure io decode selector detected f =
     (case load_project decode f of
        Inl e \<Rightarrow> (Inl (LoadProject e), f)
      | Inr cfg \<Rightarrow>
          (case selector (jc_Presets cfg) detected of
             Inl e \<Rightarrow> (Inl (SelectorFailed e), f)
           | Inr selected \<Rightarrow>
               (case writeReconfiguredProjectConfig io selected (jc_AllowHTTP cfg) (jc_AllowDNS cfg) f of
                  (Some e, f') \<Rightarrow> (Inl e, f')
                | (None, f') \<Rightarrow> (Inr selected, f'))))"

section \<open>Adding entries\<close>

definition parseProjectConfigYAML :: "yaml_lib \<Rightarrow> string \<Rightarrow> setup_error + yaml_node \<times> yaml_node" where
  "parseProjectConfigYAML y data =
     (let emptyMap = YNode MappingNode [] ''!!map'' [] 0 [] in
      if trim_space data = [] then Inr (YNode DocumentNode [] [] [] 0 [emptyMap], emptyMap)
      else case yl_Unmarshal y data of
             Inl e \<Rightarrow> Inl (ParseProject e)
           | Inr doc \<Rightarrow>
               (case y_Content doc of
                  [] \<Rightarrow> Inr (YNode (y_Kind doc) (y_Style doc) (y_Tag doc) (y_Value doc) (y_Line doc) [emptyMap], emptyMap)
                | root # _ \<Rightarrow> if y_Kind root \<noteq> MappingNode then Inl NotMapping else Inr (doc, root)))"

text \<open>The pair with its position in the content, by which a changed value is put back.\<close>

fun find_pair :: "nat \<Rightarrow> yaml_node list \<Rightarrow> string \<Rightarrow> (nat \<times> yaml_node \<times> yaml_node) option" where
  "find_pair i (k # v # rest) key =
     (if y_Kind k = ScalarNode \<and> y_Value k = key then Some (i, k, v) else find_pair (i + 2) rest key)"
| "find_pair i _ key = None"

definition findYAMLMappingPair :: "yaml_node \<Rightarrow> string \<Rightarrow> (nat \<times> yaml_node \<times> yaml_node) option" where
  "findYAMLMappingPair root key = find_pair 0 (y_Content root) key"

definition lineEnding :: "string \<Rightarrow> string" where
  "lineEnding line = (if has_suffix [CHR 0x0D, newline] line then [CHR 0x0D, newline] else [newline])"

definition is_blank :: "char \<Rightarrow> bool" where
  "is_blank c = (c = CHR '' '' \<or> c = CHR 0x09)"

text \<open>\<^verbatim>\<open>strings.TrimLeft(s, " \t")\<close> is \<^term>\<open>dropWhile is_blank\<close>.\<close>

definition newYAMLStringScalar :: "yaml_lib \<Rightarrow> string \<Rightarrow> yaml_node" where
  "newYAMLStringScalar y value = yl_SetString y (YNode ScalarNode [] ''!!str'' [] 0 []) value"

definition encodeYAMLDocument :: "yaml_lib \<Rightarrow> yaml_node \<Rightarrow> setup_error + string" where
  "encodeYAMLDocument y doc =
     (case yl_Encode y doc of
        Inl e \<Rightarrow> Inl (EncodeProject e)
      | Inr out \<Rightarrow> (case yl_Close y out of Inl e \<Rightarrow> Inl (EncodeProject e) | Inr out \<Rightarrow> Inr out))"

text \<open>The lines with \<open>inserted\<close> after line \<open>i\<close>, which gets its missing line ending first.\<close>

definition insert_lines :: "string list \<Rightarrow> nat \<Rightarrow> (string \<Rightarrow> string list) \<Rightarrow> string" where
  "insert_lines lines i inserted =
     (let nl = lineEnding (lines ! i);
          lines = (if has_suffix [newline] (lines ! i) then lines else lines[i := lines ! i @ nl])
      in concat (take (i + 1) lines @ inserted nl @ drop (i + 1) lines))"

definition appendToExistingBlockYAMLList :: "string \<Rightarrow> yaml_node \<Rightarrow> string list \<Rightarrow> string option" where
  "appendToExistingBlockYAMLList data section entries =
     (if FlowStyle \<in> set (y_Style section) \<or> y_Content section = [] then None
      else let l = last (y_Content section) in
        if y_Kind l \<noteq> ScalarNode \<or> LiteralStyle \<in> set (y_Style l) \<or> FoldedStyle \<in> set (y_Style l) \<or> y_Line l \<le> 0 then None
        else let lines = split_after newline data; lineIndex = y_Line l - 1 in
          if lineIndex < 0 \<or> lineIndex \<ge> int (length lines) then None
          else let itemLine = lines ! nat lineIndex; trimmedLeft = dropWhile is_blank itemLine in
            if \<not> has_prefix ''-'' trimmedLeft then None
            else let indent = take (length itemLine - length trimmedLeft) itemLine in
              Some (insert_lines lines (nat lineIndex)
                (\<lambda>nl. map (\<lambda>d. indent @ ''- '' @ formatYAMLListValue d @ nl) entries)))"

definition insertAfterKeyLine :: "string \<Rightarrow> int \<Rightarrow> string list \<Rightarrow> string option" where
  "insertAfterKeyLine data keyLine added =
     (let lines = split_after newline data; idx = keyLine - 1 in
      if idx < 0 \<or> idx \<ge> int (length lines) then None
      else Some (insert_lines lines (nat idx) (\<lambda>nl. map (\<lambda>d. ''  - '' @ formatYAMLListValue d @ nl) added)))"

definition isCommentedYAMLSectionHeader :: "string \<Rightarrow> string \<Rightarrow> bool" where
  "isCommentedYAMLSectionHeader line key =
     (let trimmed = trim_space line in
      if \<not> has_prefix ''#'' trimmed then False else dropWhile is_blank (drop 1 trimmed) = key @ '':'')"

definition isCommentedYAMLListEntry :: "string \<Rightarrow> bool" where
  "isCommentedYAMLListEntry line =
     (let trimmed = trim_space line in
      if \<not> has_prefix ''#'' trimmed then False
      else let rest = dropWhile is_blank (drop 1 trimmed) in rest = ''-'' \<or> has_prefix ''- '' rest)"

text \<open>The block is the first header line with the run of commented entries below it.\<close>

definition replaceCommentedYAMLListSection :: "string \<Rightarrow> string \<Rightarrow> string list \<Rightarrow> string option" where
  "replaceCommentedYAMLListSection data sectionKey added =
     (let lines = split_on newline data;
          before = takeWhile (\<lambda>l. \<not> isCommentedYAMLSectionHeader l sectionKey) lines
      in case drop (length before) lines of
           [] \<Rightarrow> None
         | header # rest \<Rightarrow>
             Some (join_with [newline]
               (before @ (sectionKey @ '':'') # map (\<lambda>d. ''  - '' @ formatYAMLListValue d) added
                @ dropWhile isCommentedYAMLListEntry rest)))"

definition appendNewYAMLListSection :: "string \<Rightarrow> string \<Rightarrow> string list \<Rightarrow> string" where
  "appendNewYAMLListSection data sectionKey added =
     data @ (if data \<noteq> [] then (if \<not> has_suffix [newline] data then [newline] else [])
                              @ (if \<not> has_suffix [newline, newline] data then [newline] else []) else [])
     @ sectionKey @ '':'' @ [newline]
     @ concat (map (\<lambda>d. ''  - '' @ formatYAMLListValue d @ [newline]) added)"

text \<open>
  The node of the list is changed in place: the document that is encoded is the parsed one with
  the value of the pair at position \<open>i\<close> replaced.
\<close>

definition set_content :: "yaml_node \<Rightarrow> yaml_node list \<Rightarrow> yaml_node" where
  "set_content n c = YNode (y_Kind n) (y_Style n) (y_Tag n) (y_Value n) (y_Line n) c"

definition put_value :: "yaml_node \<Rightarrow> nat \<Rightarrow> yaml_node \<Rightarrow> yaml_node" where
  "put_value doc i v =
     set_content doc ((y_Content doc)[0 := set_content (y_Content doc ! 0) ((y_Content (y_Content doc ! 0))[i + 1 := v])])"

definition appendYAMLListEntries :: "yaml_lib \<Rightarrow> string \<Rightarrow> string \<Rightarrow> string list \<Rightarrow> setup_error + string" where
  "appendYAMLListEntries y data sectionKey added =
     (case parseProjectConfigYAML y data of
        Inl e \<Rightarrow> Inl e
      | Inr (doc, root) \<Rightarrow>
          (case findYAMLMappingPair root sectionKey of
             None \<Rightarrow>
               (case replaceCommentedYAMLListSection data sectionKey added of
                  Some out \<Rightarrow> Inr out
                | None \<Rightarrow> Inr (appendNewYAMLListSection data sectionKey added))
           | Some (i, keyNode, valNode) \<Rightarrow>
               let newItems = map (newYAMLStringScalar y) added in
               if y_Kind valNode = SequenceNode then
                 (case appendToExistingBlockYAMLList data valNode added of
                    Some out \<Rightarrow> Inr out
                  | None \<Rightarrow> encodeYAMLDocument y (put_value doc i
                      (YNode SequenceNode [] (y_Tag valNode) (y_Value valNode) (y_Line valNode) (y_Content valNode @ newItems))))
               else if y_Kind valNode = ScalarNode \<and> y_Tag valNode = ''!!null'' then
                 (case (if y_Value valNode = [] \<and> y_Line valNode = y_Line keyNode \<and> y_Line keyNode > 0
                        then insertAfterKeyLine data (y_Line keyNode) added else None) of
                    Some out \<Rightarrow> Inr out
                  | None \<Rightarrow> encodeYAMLDocument y (put_value doc i
                      (YNode SequenceNode [] ''!!seq'' [] (y_Line valNode) (y_Content valNode @ newItems))))
               else Inl (ExpectedList sectionKey)))"

text \<open>The loop that keeps the entries that are neither in the file nor repeated.\<close>

fun new_entries :: "string list \<Rightarrow> string list \<Rightarrow> string list" where
  "new_entries existing [] = []"
| "new_entries existing (d # ds) =
     (if d \<in> set existing then new_entries existing ds else d # new_entries (d # existing) ds)"

definition appendAllowEntries ::
  "project_io \<Rightarrow> (string \<Rightarrow> string + ProjectConfig) \<Rightarrow> yaml_lib \<Rightarrow> string \<Rightarrow> string list \<Rightarrow> string option
   \<Rightarrow> setup_error option \<times> string option" where
  "appendAllowEntries io decode y sectionKey entries f =
     (case load_project decode f of
        Inl e \<Rightarrow> (Some (LoadProject e), f)
      | Inr cfg \<Rightarrow>
          (case (if sectionKey = ''allow-http'' then Some (jc_AllowHTTP cfg)
                 else if sectionKey = ''allow-dns'' then Some (jc_AllowDNS cfg) else None) of
             None \<Rightarrow> (Some (UnknownSection sectionKey), f)
           | Some current \<Rightarrow>
               let added = new_entries current entries in
               if added = [] then (None, f)
               else case (case pi_read io of Some e \<Rightarrow> Inl e
                          | None \<Rightarrow> (case f of None \<Rightarrow> Inl ''no such file'' | Some data \<Rightarrow> Inr data)) of
                      Inl e \<Rightarrow> (Some (ReadProject e), f)
                    | Inr data \<Rightarrow>
                        (case appendYAMLListEntries y data sectionKey added of
                           Inl e \<Rightarrow> (Some e, f)
                         | Inr updated \<Rightarrow> WriteFile io updated)))"

definition AppendAllowHTTP where
  "AppendAllowHTTP io decode y entries f = appendAllowEntries io decode y ''allow-http'' entries f"

definition AppendAllowDNS where
  "AppendAllowDNS io decode y entries f = appendAllowEntries io decode y ''allow-dns'' entries f"

section \<open>Reading a configuration line by line\<close>

text \<open>
  What the lists of a configuration file hold, for files in the layout that this code writes and
  edits: a list is a top-level line \<^verbatim>\<open>key:\<close> with one item per line below it, blank lines and comments
  may stand anywhere, and any other line ends the list. This reader is the specification that the
  edits are measured against.
\<close>

datatype config_line = Skip | Item string | Key string | Other

definition unquote :: "string \<Rightarrow> string" where
  "unquote v = (if 2 \<le> length v \<and> hd v = CHR 0x22 \<and> last v = CHR 0x22 then butlast (tl v) else v)"

definition read_line :: "string \<Rightarrow> config_line" where
  "read_line l =
     (let t = trim_space l in
      if t = [] \<or> hd t = CHR ''#'' then Skip
      else if has_prefix ''- '' t \<and> CHR '' '' \<notin> set (drop 2 t) then Item (unquote (drop 2 t))
      else if \<not> is_blank (hd l) \<and> last t = CHR '':'' then Key (butlast t) else Other)"

fun list_items :: "string \<Rightarrow> bool \<Rightarrow> config_line list \<Rightarrow> string list" where
  "list_items k on [] = []"
| "list_items k on (Skip # ls) = list_items k on ls"
| "list_items k on (Item v # ls) = (if on then v # list_items k on ls else list_items k on ls)"
| "list_items k on (Key k' # ls) = list_items k (k' = k) ls"
| "list_items k on (Other # ls) = list_items k False ls"

fun in_section :: "string \<Rightarrow> bool \<Rightarrow> config_line list \<Rightarrow> bool" where
  "in_section k on [] = on"
| "in_section k on (Key k' # ls) = in_section k (k' = k) ls"
| "in_section k on (Other # ls) = in_section k False ls"
| "in_section k on (l # ls) = in_section k on ls"

definition config_lines :: "string \<Rightarrow> config_line list" where
  "config_lines data = map read_line (split_on newline data)"

definition config_list :: "string \<Rightarrow> string \<Rightarrow> string list" where
  "config_list k data = list_items k False (config_lines data)"

text \<open>The entries of the lists: host names, patterns and ports.\<close>

definition entry_char :: "char \<Rightarrow> bool" where
  "entry_char c = (is_digit c \<or> (97 \<le> (of_char c :: nat) \<and> of_char c \<le> (122::nat)) \<or> (65 \<le> (of_char c :: nat) \<and> of_char c \<le> (90::nat))
     \<or> c \<in> {CHR ''.'', CHR ''-'', CHR ''_'', CHR ''*'', CHR '':''})"

definition plain_entry :: "string \<Rightarrow> bool" where
  "plain_entry d \<longleftrightarrow> d \<noteq> [] \<and> list_all entry_char d \<and> hd d \<notin> {CHR ''.'', CHR ''-'', CHR ''_'', CHR '':''} \<and> last d \<noteq> CHR '':''"

lemma list_items_append: "list_items k on (xs @ ys) = list_items k on xs @ list_items k (in_section k on xs) ys"
  by (induction k on xs rule: list_items.induct) auto

lemma in_section_append [simp]: "in_section k on (xs @ ys) = in_section k (in_section k on xs) ys"
  by (induction k on xs rule: in_section.induct) auto

lemma list_items_Items [simp]: "list_items k on (map Item vs @ ys) = (if on then vs else []) @ list_items k on ys"
  by (induction vs) auto

lemma list_items_only [simp]: "list_items k on (map Item vs) = (if on then vs else [])"
  by (induction vs) auto

lemma in_section_Items [simp]: "in_section k on (map Item vs) = on"
  by (induction vs) auto

lemma in_section_unique: "in_section k False ls \<Longrightarrow> k' \<noteq> k \<Longrightarrow> \<not> in_section k' False ls"
proof -
  have "\<not> (on \<and> on') \<Longrightarrow> k' \<noteq> k \<Longrightarrow> \<not> (in_section k on ls \<and> in_section k' on' ls)" for on on'
    by (induction k on ls arbitrary: on' rule: in_section.induct) auto
  from this [of False False] show "in_section k False ls \<Longrightarrow> k' \<noteq> k \<Longrightarrow> \<not> in_section k' False ls" by blast
qed

lemma list_items_absent: "Key k \<notin> set ls \<Longrightarrow> list_items k False ls = []"
proof (induction ls)
  case (Cons l ls)
  then show ?case by (cases l) auto
qed simp

lemma list_items_switch:
  assumes "list_items k True ls = []" and "Key k \<notin> set ls"
  shows "list_items k' on ls = list_items k' False ls"
  using assms
proof (induction ls)
  case (Cons l ls)
  then show ?case by (cases l) auto
qed simp

section \<open>The edits on lines\<close>

lemma entry_char_plain:
  assumes "entry_char c"
  shows "\<not> is_space c" "\<not> is_blank c" "c \<noteq> CHR ''#''" "c \<noteq> CHR 0x22" "c \<noteq> newline" "quoted_char c = [c]"
proof -
  have n: "(of_char c :: nat) = 42 \<or> of_char c = (45::nat) \<or> of_char c = (46::nat) \<or> (48 \<le> (of_char c :: nat) \<and> of_char c \<le> (58::nat))
      \<or> (65 \<le> (of_char c :: nat) \<and> of_char c \<le> (90::nat)) \<or> of_char c = (95::nat) \<or> (97 \<le> (of_char c :: nat) \<and> of_char c \<le> (122::nat))"
    using assms by (auto simp: entry_char_def is_digit_def)
  have e: "c = d \<longleftrightarrow> of_char c = (of_char d :: nat)" for d by simp
  have ne: "c \<noteq> CHR 0x22" "c \<noteq> CHR 0x5C" "c \<noteq> CHR 0x07" "c \<noteq> CHR 0x08" "c \<noteq> CHR 0x09" "c \<noteq> CHR 0x0A" "c \<noteq> CHR 0x0B"
    "c \<noteq> CHR 0x0C" "c \<noteq> CHR 0x0D" "c \<noteq> CHR '' ''" "c \<noteq> CHR ''#''" "c \<noteq> CHR 0x7F" "\<not> of_char c < (32::nat)"
    using n by auto
  then show "\<not> is_space c" "\<not> is_blank c" "c \<noteq> CHR ''#''" "c \<noteq> CHR 0x22" "c \<noteq> newline" "quoted_char c = [c]"
    by (simp_all add: is_space_def is_blank_def newline_def quoted_char_def)
qed

lemma go_quote_entry: "list_all entry_char d \<Longrightarrow> go_quote d = [CHR 0x22] @ d @ [CHR 0x22]"
  by (induction d) (auto simp: go_quote_def entry_char_plain)

lemma format_entry:
  assumes "plain_entry d"
  shows "formatYAMLListValue d \<noteq> []" "hd (formatYAMLListValue d) \<noteq> CHR ''#''"
    "\<forall>c\<in>set (formatYAMLListValue d). \<not> is_space c" "newline \<notin> set (formatYAMLListValue d)"
    "unquote (formatYAMLListValue d) = d"
proof -
  obtain c cs where d: "d = c # cs" and all: "list_all entry_char d" using assms by (cases d) (auto simp: plain_entry_def)
  have c: "c \<noteq> CHR 0x22" "c \<noteq> CHR ''#''" using all d by (auto dest: entry_char_plain)
  have sp: "\<forall>x\<in>set d. \<not> is_space x \<and> x \<noteq> newline" using all by (auto simp: list_all_iff dest: entry_char_plain)
  have q: "\<not> is_space CHR 0x22" "newline \<noteq> CHR 0x22" by (simp_all add: is_space_def newline_def)
  show "formatYAMLListValue d \<noteq> []" "hd (formatYAMLListValue d) \<noteq> CHR ''#''"
    "\<forall>c\<in>set (formatYAMLListValue d). \<not> is_space c" "newline \<notin> set (formatYAMLListValue d)"
    "unquote (formatYAMLListValue d) = d"
    using c sp q d go_quote_entry [OF all]
    by (auto simp: formatYAMLListValue_def unquote_def split: if_splits)
qed

lemma read_item:
  assumes "plain_entry d" and "\<forall>c\<in>set ind. is_blank c" and "\<forall>c\<in>set cr. is_space c"
  shows "read_line (ind @ ''- '' @ formatYAMLListValue d @ cr) = Item d"
proof -
  note f = format_entry [OF assms(1)]
  have "trim_space (ind @ (''- '' @ formatYAMLListValue d) @ cr) = ''- '' @ formatYAMLListValue d"
    by (rule trim_space_word) (use assms f in \<open>auto simp: is_space_def is_blank_def\<close>)
  moreover have "CHR '' '' \<notin> set (formatYAMLListValue d)" using f(3) by (auto simp: is_space_def)
  ultimately show ?thesis using f(5) by (simp add: read_line_def Let_def has_prefix_def)
qed

text \<open>A line inserted at position \<open>i\<close> of a file, with the file's own line ending.\<close>

definition item_end :: "string \<Rightarrow> nat \<Rightarrow> string" where
  "item_end data i = (let ls = split_on newline data in
     if i + 1 < length ls \<and> has_suffix [CHR 0x0D] (ls ! i) then [CHR 0x0D] else [])"

lemma lineEnding_line: "lineEnding (l @ [newline]) = (if has_suffix [CHR 0x0D] l then [CHR 0x0D] else []) @ [newline]"
  by (auto simp: lineEnding_def has_suffix_iff)

lemma lineEnding_last: "newline \<notin> set l \<Longrightarrow> lineEnding l = [newline]"
  by (auto simp: lineEnding_def has_suffix_iff)

lemma split_insert_lines:
  assumes i: "i < length (split_on newline data)" and ps: "\<And>p. p \<in> set ps \<Longrightarrow> newline \<notin> set p"
  shows "split_on newline (insert_lines (split_after newline data) i (\<lambda>nl. map (\<lambda>p. p @ nl) ps))
    = take (i + 1) (split_on newline data) @ map (\<lambda>p. p @ item_end data i) ps
      @ (if i + 1 < length (split_on newline data) then drop (i + 1) (split_on newline data) else [[]])"
proof -
  define L where "L = split_on newline data"
  have nl: "newline \<notin> set l" if "l \<in> set L" for l using that split_on_set unfolding L_def by blast
  have cr: "newline \<noteq> CHR 0x0D" by (simp add: newline_def)
  obtain xs l ys where L: "L = xs @ l # ys" "length xs = i" using i id_take_nth_drop [of i L] unfolding L_def by force
  show ?thesis
  proof (cases ys rule: rev_cases)
    case Nil
    have sa: "split_after newline data = map (\<lambda>p. p @ [newline]) xs @ [l]" using L Nil by (simp add: split_after_def L_def [symmetric])
    have "insert_lines (split_after newline data) i (\<lambda>nl. map (\<lambda>p. p @ nl) ps)
        = concat (map (\<lambda>p. p @ [newline]) (xs @ l # ps)) @ []"
      using L(2) nl [of l] L(1) lineEnding_last [of l]
      by (simp add: sa insert_lines_def Let_def nth_append has_suffix_iff list_update_append)
         (auto simp: has_suffix_iff)
    then show ?thesis
      using split_on_pieces [of "xs @ l # ps" newline "[]"] ps nl L Nil
      by (auto simp: L_def [symmetric] item_end_def)
  next
    case (snoc zs z)
    let ?e = "item_end data i"
    have e: "?e = (if has_suffix [CHR 0x0D] l then [CHR 0x0D] else [])"
      using L snoc by (simp add: item_end_def L_def [symmetric] nth_append)
    have sa: "split_after newline data = map (\<lambda>p. p @ [newline]) (xs @ l # zs) @ [z]"
      using L snoc by (simp add: split_after_def L_def [symmetric] butlast_append)
    have "insert_lines (split_after newline data) i (\<lambda>nl. map (\<lambda>p. p @ nl) ps)
        = concat (map (\<lambda>p. p @ [newline]) (xs @ l # map (\<lambda>p. p @ ?e) ps @ zs)) @ z"
      using L(2) lineEnding_line [of l] e
      by (simp add: sa insert_lines_def Let_def nth_append has_suffix_iff o_def)
    moreover have "\<And>p. p \<in> set (xs @ l # map (\<lambda>p. p @ ?e) ps @ zs) \<Longrightarrow> newline \<notin> set p"
      using ps nl L snoc cr by (auto simp: item_end_def Let_def)
    moreover have "split_on newline z = [z]" using nl [of z] L snoc by (simp add: split_on_no_sep)
    ultimately show ?thesis
      using split_on_pieces [of "xs @ l # map (\<lambda>p. p @ ?e) ps @ zs" newline z] L snoc by (simp add: L_def [symmetric])
  qed
qed

text \<open>
  What an edit may do: the list gets the new entries at its end, the other lists read as before, and
  the lines stay as they are but for one block, where lines are put in and at most a
  commented-out placeholder of the list is taken out.
\<close>

definition list_edited :: "string \<Rightarrow> string list \<Rightarrow> string \<Rightarrow> string \<Rightarrow> bool" where
  "list_edited key added data out \<longleftrightarrow>
     config_list key out = config_list key data @ added
     \<and> (\<forall>k. k \<noteq> key \<longrightarrow> config_list k out = config_list k data)
     \<and> (\<exists>pre old new post. split_on newline data = pre @ old @ post \<and> split_on newline out = pre @ new @ post
          \<and> (\<forall>l\<in>set old. isCommentedYAMLSectionHeader l key \<or> isCommentedYAMLListEntry l))"

text \<open>
  What the YAML library has to report about a file for the line edits to apply: the key is found
  exactly when a line of the file has it, and the line numbers of the nodes are those of the last
  item, or of the key of an empty list.
\<close>

definition list_ends :: "string \<Rightarrow> string \<Rightarrow> nat \<Rightarrow> bool" where
  "list_ends key data n \<longleftrightarrow> n < length (config_lines data) \<and> in_section key False (take (n + 1) (config_lines data))
     \<and> list_items key True (drop (n + 1) (config_lines data)) = []"

definition yaml_agrees :: "yaml_lib \<Rightarrow> string \<Rightarrow> string \<Rightarrow> bool" where
  "yaml_agrees y data key \<longleftrightarrow>
     (case parseProjectConfigYAML y data of
        Inl _ \<Rightarrow> False
      | Inr (doc, root) \<Rightarrow>
          (case findYAMLMappingPair root key of
             None \<Rightarrow> Key key \<notin> set (config_lines data)
           | Some (i, k, v) \<Rightarrow>
               (if y_Kind v = SequenceNode then
                  FlowStyle \<notin> set (y_Style v) \<and> y_Content v \<noteq> []
                  \<and> (let l = last (y_Content v) in
                       y_Kind l = ScalarNode \<and> LiteralStyle \<notin> set (y_Style l) \<and> FoldedStyle \<notin> set (y_Style l) \<and> 0 < y_Line l
                       \<and> list_ends key data (nat (y_Line l - 1))
                       \<and> has_prefix ''-'' (dropWhile is_blank (split_on newline data ! nat (y_Line l - 1))))
                else y_Kind v = ScalarNode \<and> y_Tag v = ''!!null'' \<and> y_Value v = [] \<and> y_Line v = y_Line k \<and> 0 < y_Line k
                  \<and> list_ends key data (nat (y_Line k - 1)))))"

text \<open>A placeholder of the list, if the file has one, does not stand inside another list.\<close>

definition placeholder_apart :: "string \<Rightarrow> string \<Rightarrow> bool" where
  "placeholder_apart data key =
     (case dropWhile (\<lambda>l. \<not> isCommentedYAMLSectionHeader l key) (split_on newline data) of
        [] \<Rightarrow> True
      | _ # rest \<Rightarrow> list_items key True (map read_line (dropWhile isCommentedYAMLListEntry rest)) = [])"

lemma edited_insert:
  assumes n: "list_ends key data n" and items: "map read_line items = map Item added"
    and out: "split_on newline out = take (n + 1) (split_on newline data) @ items
      @ (if n + 1 < length (split_on newline data) then drop (n + 1) (split_on newline data) else [[]])"
  shows "list_edited key added data out"
proof -
  let ?L = "split_on newline data" and ?C = "config_lines data"
  let ?post = "if n + 1 < length ?L then drop (n + 1) ?L else [[]]"
  have len: "length ?C = length ?L" by (simp add: config_lines_def)
  have blank: "read_line [] = Skip" by (simp add: read_line_def trim_space_def)
  have post: "list_items k on (map read_line ?post) = list_items k on (drop (n + 1) ?C)" for k on
    by (simp add: config_lines_def drop_map blank)
  have C: "config_lines out = take (n + 1) ?C @ map Item added @ map read_line ?post"
    unfolding config_lines_def out by (simp add: items take_map)
  have on: "in_section key False (take (n + 1) ?C)" and rest: "list_items key True (drop (n + 1) ?C) = []"
    using n by (simp_all add: list_ends_def)
  have split: "config_list k data = list_items k False (take (n + 1) ?C)
      @ list_items k (in_section k False (take (n + 1) ?C)) (drop (n + 1) ?C)" for k
    using list_items_append [of k False "take (n + 1) ?C" "drop (n + 1) ?C"] by (simp add: config_list_def)
  have "config_list key out = config_list key data @ added"
    using on rest split [of key] post by (simp add: config_list_def C list_items_append)
  moreover have "config_list k out = config_list k data" if "k \<noteq> key" for k
    using in_section_unique [OF on that] split [of k] post by (simp add: config_list_def C list_items_append)
  moreover have "\<exists>pre old new post. ?L = pre @ old @ post \<and> split_on newline out = pre @ new @ post \<and> old = []"
  proof (cases "n + 1 < length ?L")
    case True
    then show ?thesis using out by (intro exI [of _ "take (n + 1) ?L"] exI [of _ "[]"] exI [of _ items] exI [of _ "drop (n + 1) ?L"]) simp
  next
    case False
    then show ?thesis using out by (intro exI [of _ ?L] exI [of _ "[]"] exI [of _ "items @ [[]]"]) simp
  qed
  ultimately show ?thesis unfolding list_edited_def by (metis emptyE empty_set)
qed

lemma item_end_space: "\<forall>c\<in>set (item_end data i). is_space c"
  by (simp add: item_end_def Let_def is_space_def)

lemma insert_items_edited:
  assumes "list_ends key data n" and added: "list_all plain_entry added" and ind: "\<forall>c\<in>set ind. is_blank c"
  shows "list_edited key added data (insert_lines (split_after newline data) n
           (\<lambda>nl. map (\<lambda>d. ind @ ''- '' @ formatYAMLListValue d @ nl) added))"
proof -
  let ?ps = "map (\<lambda>d. ind @ ''- '' @ formatYAMLListValue d) added"
  have "newline \<notin> set p" if "p \<in> set ?ps" for p
  proof -
    obtain d where d: "d \<in> set added" "p = ind @ ''- '' @ formatYAMLListValue d" using \<open>p \<in> set ?ps\<close> by auto
    have "\<not> is_blank newline" by (simp add: is_blank_def newline_def)
    with ind have "newline \<notin> set ind" by blast
    moreover have "newline \<notin> set ''- ''" by (simp add: newline_def)
    moreover have "newline \<notin> set (formatYAMLListValue d)" using added d(1) by (simp add: list_all_iff format_entry(4))
    ultimately show ?thesis unfolding d(2) by simp
  qed
  moreover have n: "n < length (split_on newline data)" using assms(1) by (simp add: list_ends_def config_lines_def)
  ultimately have out: "split_on newline (insert_lines (split_after newline data) n (\<lambda>nl. map (\<lambda>p. p @ nl) ?ps))
    = take (n + 1) (split_on newline data) @ map (\<lambda>p. p @ item_end data n) ?ps
      @ (if n + 1 < length (split_on newline data) then drop (n + 1) (split_on newline data) else [[]])"
    by (intro split_insert_lines)
  have items: "map read_line (map (\<lambda>p. p @ item_end data n) ?ps) = map Item added"
  proof -
    have "read_line (ind @ ''- '' @ formatYAMLListValue d @ item_end data n) = Item d" if "d \<in> set added" for d
      using added that by (intro read_item [OF _ ind item_end_space]) (simp add: list_all_iff)
    then show ?thesis by simp
  qed
  have "list_edited key added data (insert_lines (split_after newline data) n (\<lambda>nl. map (\<lambda>p. p @ nl) ?ps))"
    by (rule edited_insert [OF assms(1) items out])
  then show ?thesis by (simp add: o_def)
qed

lemma read_section_key:
  assumes "key \<in> {''allow-http'', ''allow-dns''}"
  shows "read_line (key @ '':'') = Key key" "newline \<notin> set (key @ '':'')"
proof -
  have "read_line ''allow-http:'' = Key ''allow-http''" "read_line ''allow-dns:'' = Key ''allow-dns''"
    "newline \<notin> set ''allow-http:''" "newline \<notin> set ''allow-dns:''" by code_simp+
  with assms show "read_line (key @ '':'') = Key key" "newline \<notin> set (key @ '':'')" by (elim insertE emptyE; simp)+
qed

lemma read_comment:
  assumes "has_prefix ''#'' (trim_space l)"
  shows "read_line l = Skip"
  using assms by (cases "trim_space l") (auto simp: read_line_def has_prefix_def)

lemma commented_header_Skip: "isCommentedYAMLSectionHeader l key \<Longrightarrow> read_line l = Skip"
  by (auto simp: isCommentedYAMLSectionHeader_def Let_def read_comment split: if_splits)

lemma commented_entry_Skip: "isCommentedYAMLListEntry l \<Longrightarrow> read_line l = Skip"
  by (auto simp: isCommentedYAMLListEntry_def Let_def read_comment split: if_splits)

lemma list_items_skips: "\<forall>l\<in>set xs. l = Skip \<Longrightarrow> list_items k on (xs @ ys) = list_items k on ys"
  by (induction xs) auto

lemma item_lines:
  assumes "list_all plain_entry added"
  shows "map read_line (map (\<lambda>d. ''  - '' @ formatYAMLListValue d) added) = map Item added"
    and "\<And>l. l \<in> set (map (\<lambda>d. ''  - '' @ formatYAMLListValue d) added) \<Longrightarrow> newline \<notin> set l"
proof -
  have "read_line (''  '' @ ''- '' @ formatYAMLListValue d @ []) = Item d" if "plain_entry d" for d
    using that by (intro read_item) (auto simp: is_blank_def)
  then show "map read_line (map (\<lambda>d. ''  - '' @ formatYAMLListValue d) added) = map Item added"
    using assms by (auto simp: list_all_iff)
  have "newline \<notin> set ''  - ''" by (simp add: newline_def)
  then show "newline \<notin> set l" if "l \<in> set (map (\<lambda>d. ''  - '' @ formatYAMLListValue d) added)" for l
    using that assms format_entry(4) by (auto simp: list_all_iff)
qed

text \<open>A new section in place of comments, where no list goes on.\<close>

lemma edited_section:
  assumes key: "key \<in> {''allow-http'', ''allow-dns''}" and added: "list_all plain_entry added"
    and absent: "Key key \<notin> set (config_lines data)"
    and data: "split_on newline data = pre @ old @ post"
    and out: "split_on newline out = pre @ gap @ (key @ '':'') # map (\<lambda>d. ''  - '' @ formatYAMLListValue d) added @ post'"
    and old: "\<forall>l\<in>set old. isCommentedYAMLSectionHeader l key \<or> isCommentedYAMLListEntry l"
    and gap: "\<forall>l\<in>set gap. read_line l = Skip"
    and post: "post' = post \<or> post = [] \<and> post' = [[]]"
    and free: "list_items key True (map read_line post) = []"
  shows "list_edited key added data out"
proof -
  let ?r = "map read_line"
  have blank: "read_line [] = Skip" by (simp add: read_line_def trim_space_def)
  have post': "list_items k on (?r post') = list_items k on (?r post)" for k on using post blank by auto
  have skip: "\<forall>l\<in>set (?r old). l = Skip" "\<forall>l\<in>set (?r gap). l = Skip"
    using old gap commented_header_Skip commented_entry_Skip by auto
  have D: "config_lines data = ?r pre @ ?r old @ ?r post" by (simp add: config_lines_def data)
  have C: "config_lines out = ?r pre @ ?r gap @ Key key # map Item added @ ?r post'"
    unfolding config_lines_def out map_append list.map(2) read_section_key(1) [OF key] item_lines(1) [OF added] by simp
  have nokey: "Key key \<notin> set (?r pre)" "Key key \<notin> set (?r post)" using absent D by auto
  have "config_list key data = []" unfolding config_list_def by (rule list_items_absent [OF absent])
  moreover have "config_list key out = added"
    using free by (simp add: config_list_def C list_items_append [of key False "?r pre"] list_items_skips [OF skip(2)] post'
        list_items_absent [OF nokey(1)])
  moreover have "config_list k out = config_list k data" if "k \<noteq> key" for k
    using that list_items_switch [OF free nokey(2), of k "in_section k False (?r pre)"]
    by (simp add: config_list_def C D list_items_append [of k False "?r pre"] list_items_skips skip post')
  moreover have "\<exists>p o' n q. split_on newline data = p @ o' @ q \<and> split_on newline out = p @ n @ q
      \<and> (\<forall>l\<in>set o'. isCommentedYAMLSectionHeader l key \<or> isCommentedYAMLListEntry l)"
    using post
  proof
    let ?new = "gap @ (key @ '':'') # map (\<lambda>d. ''  - '' @ formatYAMLListValue d) added"
    assume "post' = post"
    with data out old show ?thesis by (intro exI [of _ pre] exI [of _ old] exI [of _ ?new] exI [of _ post]) simp
  next
    let ?new = "gap @ (key @ '':'') # map (\<lambda>d. ''  - '' @ formatYAMLListValue d) added @ [[]]"
    assume "post = [] \<and> post' = [[]]"
    with data out old show ?thesis by (intro exI [of _ pre] exI [of _ old] exI [of _ ?new] exI [of _ "[]"]) simp
  qed
  ultimately show ?thesis unfolding list_edited_def by simp
qed

lemma replace_edited:
  assumes key: "key \<in> {''allow-http'', ''allow-dns''}" and added: "list_all plain_entry added"
    and absent: "Key key \<notin> set (config_lines data)" and apart: "placeholder_apart data key"
    and r: "replaceCommentedYAMLListSection data key added = Some out"
  shows "list_edited key added data out"
proof -
  let ?L = "split_on newline data" and ?items = "map (\<lambda>d. ''  - '' @ formatYAMLListValue d) added"
  define before where "before = takeWhile (\<lambda>l. \<not> isCommentedYAMLSectionHeader l key) ?L"
  have dw: "drop (length before) ?L = dropWhile (\<lambda>l. \<not> isCommentedYAMLSectionHeader l key) ?L"
    unfolding before_def by (metis dropWhile_eq_drop)
  with r obtain header rest where d: "dropWhile (\<lambda>l. \<not> isCommentedYAMLSectionHeader l key) ?L = header # rest"
    and out: "out = join_with [newline] (before @ (key @ '':'') # ?items @ dropWhile isCommentedYAMLListEntry rest)"
    by (auto simp: replaceCommentedYAMLListSection_def Let_def before_def split: list.splits)
  have h: "isCommentedYAMLSectionHeader header key" using d by (metis (no_types, lifting) hd_dropWhile list.distinct(1) list.sel(1))
  let ?old = "header # takeWhile isCommentedYAMLListEntry rest" and ?post = "dropWhile isCommentedYAMLListEntry rest"
  have data: "?L = before @ ?old @ ?post"
    using takeWhile_dropWhile_id [of "\<lambda>l. \<not> isCommentedYAMLSectionHeader l key" ?L] d by (simp add: before_def)
  have nl: "newline \<notin> set l" if "l \<in> set ?L" for l using that split_on_set by blast
  have parts: "set before \<subseteq> set ?L" "set ?post \<subseteq> set ?L" by (subst data, auto dest: set_dropWhileD)+
  have "split_on newline out = before @ (key @ '':'') # ?items @ ?post"
    unfolding out
  proof (rule split_join)
    fix s assume "s \<in> set (before @ (key @ '':'') # ?items @ ?post)"
    then consider "s \<in> set before" | "s = key @ '':''" | "s \<in> set ?items" | "s \<in> set ?post" by auto
    then show "newline \<notin> set s"
    proof cases
      case 3 then show ?thesis by (rule item_lines(2) [OF added])
    qed (use nl parts read_section_key(2) [OF key] in auto)
  qed simp
  then have "split_on newline out = before @ [] @ (key @ '':'') # ?items @ ?post" by simp
  then show ?thesis
    by (rule edited_section [OF key added absent data])
      (use h apart d in \<open>auto simp: placeholder_apart_def dest: set_takeWhileD\<close>)
qed

lemma append_edited:
  assumes key: "key \<in> {''allow-http'', ''allow-dns''}" and added: "list_all plain_entry added"
    and absent: "Key key \<notin> set (config_lines data)"
  shows "list_edited key added data (appendNewYAMLListSection data key added)"
proof -
  let ?L = "split_on newline data" and ?items = "map (\<lambda>d. ''  - '' @ formatYAMLListValue d) added"
  let ?ps = "(key @ '':'') # ?items"
  define sect where "sect = concat (map (\<lambda>p. p @ [newline]) ?ps)"
  have "newline \<notin> set p" if "p \<in> set ?ps" for p
    using that read_section_key(2) [OF key] item_lines(2) [OF added] by (metis set_ConsD)
  then have sect: "split_on newline sect = ?ps @ [[]]"
    using split_on_pieces [of ?ps newline "[]"] by (simp add: sect_def)
  have blank: "read_line [] = Skip" by (simp add: read_line_def trim_space_def)
  define pad where "pad = (if data \<noteq> [] then (if \<not> has_suffix [newline] data then [newline] else [])
    @ (if \<not> has_suffix [newline, newline] data then [newline] else []) else [])"
  have out: "appendNewYAMLListSection data key added = data @ pad @ sect"
    by (simp add: appendNewYAMLListSection_def pad_def sect_def o_def)
  have edited: "list_edited key added data (data @ pad @ sect)"
    if "?L = pre @ post" "split_on newline (data @ pad @ sect) = pre @ gap @ (key @ '':'') # ?items @ [[]]"
      "\<forall>l\<in>set gap. l = []" "post = [[]] \<or> post = []" for pre gap post
    by (rule edited_section [OF key added absent, where pre = pre and old = "[]" and post = post and gap = gap and post' = "[[]]"])
      (use that blank in auto)
  show ?thesis unfolding out
  proof (cases "data = []")
    case True
    then show "list_edited key added data (data @ pad @ sect)"
      using sect by (intro edited [of "[]" "[[]]" "[]"]) (auto simp: pad_def)
  next
    case ne: False
    show "list_edited key added data (data @ pad @ sect)"
    proof (cases "has_suffix [newline] data")
      case False
      then have "\<not> has_suffix [newline, newline] data" by (metis append.assoc append_Cons append_Nil has_suffix_iff)
      with ne False sect have "split_on newline (data @ pad @ sect) = ?L @ [[]] @ ?ps @ [[]]"
        by (simp add: pad_def split_on_append_sep_any)
      then show ?thesis by (intro edited [of ?L "[]" "[[]]"]) auto
    next
      case True
      then obtain s where s: "data = s @ [newline]" by (auto simp: has_suffix_iff)
      have L: "?L = split_on newline s @ [[]]" by (simp add: s split_on_append_sep_any)
      show ?thesis
      proof (cases "has_suffix [newline, newline] data")
        case True
        with s ne sect have "split_on newline (data @ pad @ sect) = split_on newline s @ [] @ ?ps @ [[]]"
          by (simp add: pad_def split_on_append_sep_any has_suffix_iff)
        then show ?thesis using L by (intro edited [of "split_on newline s" "[[]]" "[]"]) auto
      next
        case False
        with s ne sect have "split_on newline (data @ pad @ sect) = ?L @ [] @ ?ps @ [[]]"
          using \<open>has_suffix [newline] data\<close> L split_on_append_sep_any [of newline s "newline # sect"]
          by (simp add: pad_def)
        then show ?thesis by (intro edited [of ?L "[]" "[]"]) auto
      qed
    qed
  qed
qed

lemma existing_edited:
  assumes n: "list_ends key data n" and added: "list_all plain_entry added"
    and item: "has_prefix ''-'' (dropWhile is_blank (split_on newline data ! n))"
    and v: "FlowStyle \<notin> set (y_Style v)" "y_Content v \<noteq> []" "y_Kind (last (y_Content v)) = ScalarNode"
      "LiteralStyle \<notin> set (y_Style (last (y_Content v)))" "FoldedStyle \<notin> set (y_Style (last (y_Content v)))"
      "y_Line (last (y_Content v)) = int n + 1"
  shows "\<exists>out. appendToExistingBlockYAMLList data v added = Some out \<and> list_edited key added data out"
proof -
  let ?L = "split_on newline data" and ?l = "split_after newline data ! n"
  have len: "n < length ?L" using n by (simp add: list_ends_def config_lines_def)
  obtain t where t: "dropWhile is_blank (?L ! n) = CHR ''-'' # t" using item by (cases "dropWhile is_blank (?L ! n)") (auto simp: has_prefix_def)
  have l: "\<exists>e. ?l = ?L ! n @ e"
  proof (cases "n < length ?L - 1")
    case True
    then show ?thesis by (auto simp: split_after_def Let_def nth_append nth_butlast)
  next
    case False
    with len have "n = length ?L - 1" by simp
    then show ?thesis by (simp add: split_after_def Let_def nth_append last_conv_nth)
  qed
  define ind where "ind = takeWhile is_blank (?L ! n)"
  have Ln: "?L ! n = ind @ CHR ''-'' # t" unfolding ind_def by (metis t takeWhile_dropWhile_id)
  have ind: "\<forall>c\<in>set ind. is_blank c" unfolding ind_def by (blast dest: set_takeWhileD)
  obtain u where u: "?l = ind @ CHR ''-'' # u" using l Ln by auto
  have "\<not> is_blank CHR ''-''" by (simp add: is_blank_def)
  with ind have d: "dropWhile is_blank ?l = CHR ''-'' # u" unfolding u by (simp add: dropWhile_append2)
  have "appendToExistingBlockYAMLList data v added = Some (insert_lines (split_after newline data) n
           (\<lambda>nl. map (\<lambda>d. ind @ ''- '' @ formatYAMLListValue d @ nl) added))"
    using v len d u by (simp add: appendToExistingBlockYAMLList_def Let_def has_prefix_def)
  with insert_items_edited [OF n added ind] show ?thesis by blast
qed

lemma append_entries_edited:
  assumes key: "key \<in> {''allow-http'', ''allow-dns''}" and added: "list_all plain_entry added"
    and agrees: "yaml_agrees y data key" and apart: "placeholder_apart data key"
  shows "\<exists>out. appendYAMLListEntries y data key added = Inr out \<and> list_edited key added data out"
proof -
  obtain doc root where p: "parseProjectConfigYAML y data = Inr (doc, root)"
    using agrees by (auto simp: yaml_agrees_def split: sum.splits)
  show ?thesis
  proof (cases "findYAMLMappingPair root key")
    case None
    then have absent: "Key key \<notin> set (config_lines data)" using agrees p by (simp add: yaml_agrees_def)
    show ?thesis
      using None p append_edited [OF key added absent] replace_edited [OF key added absent apart]
      by (cases "replaceCommentedYAMLListSection data key added") (auto simp: appendYAMLListEntries_def)
  next
    case (Some ikv)
    then obtain i k v where f: "findYAMLMappingPair root key = Some (i, k, v)" by (cases ikv) auto
    show ?thesis
    proof (cases "y_Kind v = SequenceNode")
      case True
      have "\<exists>out. appendToExistingBlockYAMLList data v added = Some out \<and> list_edited key added data out"
        by (rule existing_edited [of _ _ "nat (y_Line (last (y_Content v)) - 1)", OF _ added])
          (use True agrees p f in \<open>auto simp: yaml_agrees_def Let_def\<close>)
      then show ?thesis using True p f by (auto simp: appendYAMLListEntries_def)
    next
      case False
      then have n: "y_Kind v = ScalarNode" "y_Tag v = ''!!null''" "y_Value v = []" "y_Line v = y_Line k" "0 < y_Line k"
        and ends: "list_ends key data (nat (y_Line k - 1))"
        using agrees p f by (auto simp: yaml_agrees_def)
      have len: "nat (y_Line k - 1) < length (split_on newline data)" using ends by (simp add: list_ends_def config_lines_def)
      have "list_edited key added data (insert_lines (split_after newline data) (nat (y_Line k - 1))
           (\<lambda>nl. map (\<lambda>d. ''  '' @ ''- '' @ formatYAMLListValue d @ nl) added))"
        by (rule insert_items_edited [OF ends added]) (simp add: is_blank_def)
      moreover have "insertAfterKeyLine data (y_Line k) added = Some (insert_lines (split_after newline data) (nat (y_Line k - 1))
           (\<lambda>nl. map (\<lambda>d. ''  '' @ ''- '' @ formatYAMLListValue d @ nl) added))"
        using n len by (simp add: insertAfterKeyLine_def Let_def)
      ultimately show ?thesis using n p f by (auto simp: appendYAMLListEntries_def Let_def)
    qed
  qed
qed

section \<open>Properties\<close>

lemma new_entries_dedup: "set existing = set acc \<Longrightarrow> acc @ new_entries existing entries = dedup_onto acc entries"
proof (induction existing entries arbitrary: acc rule: new_entries.induct)
  case (2 existing d ds)
  show ?case
  proof (cases "d \<in> set existing")
    case True
    then show ?thesis using "2.IH"(1) "2.prems" by simp
  next
    case False
    then show ?thesis using "2.IH"(2) [of "acc @ [d]"] "2.prems" by simp
  qed
qed simp

lemma new_entries_subset: "set (new_entries existing entries) \<subseteq> set entries"
  by (induction existing entries rule: new_entries.induct) auto

text \<open>The effect of saving entries.\<close>

lemma append_saved:
  assumes key: "key \<in> {''allow-http'', ''allow-dns''}" and entries: "list_all plain_entry entries"
    and io: "pi_read io = None" "pi_write io = None"
    and load: "load_project decode (Some data) = Inr cfg"
    and decoded: "(if key = ''allow-http'' then jc_AllowHTTP cfg else jc_AllowDNS cfg) = config_list key data"
    and agrees: "yaml_agrees y data key" and apart: "placeholder_apart data key"
  shows "\<exists>out. appendAllowEntries io decode y key entries (Some data) = (None, Some out)
    \<and> config_list key out = dedup_onto (config_list key data) entries
    \<and> (\<forall>k. k \<noteq> key \<longrightarrow> config_list k out = config_list k data)
    \<and> (\<exists>pre old new post. split_on newline data = pre @ old @ post \<and> split_on newline out = pre @ new @ post
         \<and> (\<forall>l\<in>set old. isCommentedYAMLSectionHeader l key \<or> isCommentedYAMLListEntry l))"
proof -
  let ?cur = "config_list key data"
  define added where "added = new_entries ?cur entries"
  have "list_all plain_entry added" using entries new_entries_subset by (fastforce simp: added_def list_all_iff)
  then obtain out where out: "appendYAMLListEntries y data key added = Inr out" "list_edited key added data out"
    using append_entries_edited [OF key _ agrees apart] by blast
  have sel: "(if key = ''allow-http'' then Some (jc_AllowHTTP cfg) else if key = ''allow-dns'' then Some (jc_AllowDNS cfg) else None) = Some ?cur"
    using key decoded by auto
  have dd: "?cur @ added = dedup_onto ?cur entries" unfolding added_def by (rule new_entries_dedup) simp
  show ?thesis
  proof (cases "added = []")
    case True
    then have "appendAllowEntries io decode y key entries (Some data) = (None, Some data)"
      using load sel by (simp add: appendAllowEntries_def added_def)
    then show ?thesis using dd True by (intro exI [of _ data]) (auto intro: exI [of _ "split_on newline data"])
  next
    case False
    have "appendAllowEntries io decode y key entries (Some data) = (None, Some out)"
      using False load sel io out(1) unfolding appendAllowEntries_def added_def by (simp add: WriteFile_def Let_def)
    then show ?thesis using dd out(2) by (auto simp: list_edited_def)
  qed
qed


text \<open>A file with a comment, and what the YAML library reports about it.\<close>

definition sample_text :: string where
  "sample_text = join_with [newline]
     [''presets:'', ''  - default'', ''# hosts'', ''allow-http:'', ''  - a.org:443'', ''# end'', []]"

definition sample_item :: "string \<Rightarrow> int \<Rightarrow> yaml_node" where
  "sample_item v l = YNode ScalarNode [] ''!!str'' v l []"

definition sample_yaml :: yaml_lib where
  "sample_yaml = \<lparr>
     yl_Unmarshal = (\<lambda>_. Inr (YNode DocumentNode [] [] [] 1 [YNode MappingNode [] ''!!map'' [] 1
        [sample_item ''presets'' 1, YNode SequenceNode [] ''!!seq'' [] 2 [sample_item ''default'' 2],
         sample_item ''allow-http'' 4, YNode SequenceNode [] ''!!seq'' [] 5 [sample_item ''a.org:443'' 5]]])),
     yl_SetString = (\<lambda>n v. YNode ScalarNode [] ''!!str'' v 0 []),
     yl_Encode = (\<lambda>_. Inl ''unused''), yl_Close = Inr\<rparr>"

definition sample_io :: project_io where
  "sample_io = \<lparr>pi_mkdir = None, pi_read = None, pi_write = None, pi_torn = None\<rparr>"

definition sample_decode :: "string \<Rightarrow> string + ProjectConfig" where
  "sample_decode d = Inr \<lparr>jc_Presets = [''default''], jc_AllowHTTP = [''a.org:443''], jc_AllowDNS = [], jc_AllowHostPorts = []\<rparr>"


text \<open>The file that the setup writes, line by line.\<close>

lemma put_lines_append [simp]: "put_lines (xs @ ys) = put_lines xs @ put_lines ys"
  by (simp add: put_lines_def)

lemma config_list_put_lines:
  assumes "\<And>l. l \<in> set ls \<Longrightarrow> newline \<notin> set l"
  shows "config_list k (put_lines ls) = list_items k False (map read_line ls)"
proof -
  have "split_on newline (put_lines ls) = ls @ [[]]"
    using split_on_pieces [OF assms, of ls "[]"] by (simp add: put_lines_def)
  moreover have "list_items k on (xs @ [Skip]) = list_items k on xs" for k on xs by (simp add: list_items_append)
  ultimately show ?thesis by (simp add: config_list_def config_lines_def read_line_def trim_space_def)
qed

definition header_lines :: "string list" where
  "header_lines =
     [''# Vibepit network config for this project.'',
      ''# All internet access from the sandbox container is filtered through'',
      ''# a proxy that only allows domains listed here.'',
      ''#'',
      ''# Docs: https://github.com/bernd/vibepit'', [],
      ''# Presets bundle common domains for a language ecosystem.'',
      ''# Use 'vibepit --reconfigure' to change presets interactively.'',
      ''# Available: default, anthropic, vcs-github, vcs-other, containers,'',
      ''# cloud, pkg-node, pkg-python, pkg-ruby, pkg-rust, pkg-go, pkg-jvm,'',
      ''# pkg-others, linux-distros, devtools, monitoring, cdn, schema, mcp'']"

definition section_lines :: "string \<Rightarrow> string list \<Rightarrow> string list \<Rightarrow> string list" where
  "section_lines key entries placeholder =
     (if entries \<noteq> [] then (key @ '':'') # map (\<lambda>d. ''  - '' @ formatYAMLListValue d) entries else placeholder)"

lemma section_lines_read:
  assumes "list_all plain_entry entries" and "read_line (key @ '':'') = Key key" and "newline \<notin> set (key @ '':'')"
    and "\<forall>l\<in>set placeholder. read_line l = Skip \<and> newline \<notin> set l"
  shows "list_items k on (map read_line (section_lines key entries placeholder) @ ys)
      = (if entries = [] then list_items k on ys else (if k = key then entries else []) @ list_items k (k = key) ys)"
    and "\<forall>l\<in>set (section_lines key entries placeholder). newline \<notin> set l"
proof -
  let ?items = "map (\<lambda>d. ''  - '' @ formatYAMLListValue d) entries"
  have skip: "\<forall>l\<in>set (map read_line placeholder). l = Skip" using assms(4) by auto
  have r: "map read_line ((key @ '':'') # ?items) = Key key # map Item entries"
    unfolding list.map(2) assms(2) item_lines(1) [OF assms(1)] by simp
  have "map read_line (section_lines key entries placeholder)
      = (if entries = [] then map read_line placeholder else Key key # map Item entries)"
  proof (cases "entries = []")
    case False
    then have "section_lines key entries placeholder = (key @ '':'') # ?items" unfolding section_lines_def by (rule if_P)
    with r False show ?thesis by (simp only: if_False)
  qed (simp add: section_lines_def)
  then show "list_items k on (map read_line (section_lines key entries placeholder) @ ys)
      = (if entries = [] then list_items k on ys else (if k = key then entries else []) @ list_items k (k = key) ys)"
    by (simp add: list_items_skips [OF skip])
  show "\<forall>l\<in>set (section_lines key entries placeholder). newline \<notin> set l"
  proof (cases "entries = []")
    case False
    then have "section_lines key entries placeholder = (key @ '':'') # ?items" unfolding section_lines_def by (rule if_P)
    then show ?thesis using assms(3) item_lines(2) [OF assms(1)] by (metis set_ConsD)
  qed (use assms(4) in \<open>simp add: section_lines_def\<close>)
qed

definition preset_placeholder :: "string list" where
  "preset_placeholder = [''# presets:'', ''#   - default'', ''#   - pkg-go'']"

definition http_comment :: "string list" where
  "http_comment = [[], ''# Additional domains to allow HTTP access for this project.'']"

definition http_placeholder :: "string list" where
  "http_placeholder = [''# allow-http:'', ''#   - api.openai.com:443'', ''#   - api.anthropic.com:443'']"

definition dns_comment :: "string list" where
  "dns_comment = [[], ''# Domains that only need DNS resolution (no HTTP proxy).'']"

definition dns_placeholder :: "string list" where
  "dns_placeholder = [''# allow-dns:'', ''#   - internal.corp.example.com'']"

lemma project_config_text_lines:
  assumes "\<forall>p\<in>set presets. \<not> has_prefix ''*'' p"
  shows "project_config_text presets http dns = put_lines
    (header_lines @ section_lines ''presets'' presets preset_placeholder
     @ http_comment @ section_lines ''allow-http'' http http_placeholder
     @ dns_comment @ section_lines ''allow-dns'' dns dns_placeholder)"
proof -
  have p: "map (\<lambda>p. ''  - '' @ p) presets = map (\<lambda>d. ''  - '' @ formatYAMLListValue d) presets"
    using assms by (simp add: formatYAMLListValue_def)
  show ?thesis
    unfolding project_config_text_def Let_def writeConfigHeader_def writePresetsSection_def writeYAMLListSection_def p
      section_lines_def header_lines_def preset_placeholder_def http_comment_def http_placeholder_def dns_comment_def dns_placeholder_def
    by (simp add: put_lines_def)
qed

lemma fixed_lines:
  "\<forall>l\<in>set header_lines. read_line l = Skip \<and> newline \<notin> set l"
  "\<forall>l\<in>set preset_placeholder. read_line l = Skip \<and> newline \<notin> set l"
  "\<forall>l\<in>set http_comment. read_line l = Skip \<and> newline \<notin> set l"
  "\<forall>l\<in>set http_placeholder. read_line l = Skip \<and> newline \<notin> set l"
  "\<forall>l\<in>set dns_comment. read_line l = Skip \<and> newline \<notin> set l"
  "\<forall>l\<in>set dns_placeholder. read_line l = Skip \<and> newline \<notin> set l"
  "read_line (''presets'' @ '':'') = Key ''presets''" "newline \<notin> set (''presets'' @ '':'')"
  by code_simp+

lemma project_config_lists:
  assumes presets: "list_all plain_entry presets" "\<forall>p\<in>set presets. \<not> has_prefix ''*'' p"
    and http: "list_all plain_entry http" and dns: "list_all plain_entry dns"
  shows "config_list k (project_config_text presets http dns)
    = (if k = ''presets'' then presets else if k = ''allow-http'' then http else if k = ''allow-dns'' then dns else [])"
proof -
  let ?ls = "header_lines @ section_lines ''presets'' presets preset_placeholder
     @ http_comment @ section_lines ''allow-http'' http http_placeholder
     @ dns_comment @ section_lines ''allow-dns'' dns dns_placeholder"
  note p = section_lines_read [OF presets(1) fixed_lines(7,8,2)]
  note h = section_lines_read [OF http read_section_key fixed_lines(4), of "''allow-http''", simplified]
  note d = section_lines_read [OF dns read_section_key fixed_lines(6), of "''allow-dns''", simplified]
  have "newline \<notin> set l" if "l \<in> set ?ls" for l
    using that fixed_lines(1,3,5) p(2) h(2) d(2) by (simp only: set_append Un_iff) blast
  then have "config_list k (put_lines ?ls) = list_items k False (map read_line ?ls)" by (rule config_list_put_lines)
  moreover have "list_items k on (map read_line c @ ys) = list_items k on ys" if "\<forall>l\<in>set c. read_line l = Skip \<and> newline \<notin> set l" for on c ys
    using that by (intro list_items_skips) auto
  note skips = this [OF fixed_lines(1)] this [OF fixed_lines(3)] this [OF fixed_lines(5)]
  have "list_items k False (map read_line ?ls @ [])
      = (if k = ''presets'' then presets else if k = ''allow-http'' then http else if k = ''allow-dns'' then dns else [])"
    unfolding map_append append_assoc skips p(1) h(1) d(1) by simp
  ultimately show ?thesis by (simp add: project_config_text_lines [OF presets(2)])
qed



text \<open>
  A placeholder in the middle of another list breaks that list: its remaining items end up in the new
  one. The hypothesis \<^term>\<open>placeholder_apart data key\<close> excludes this.
\<close>

lemma placeholder_in_list_moves_entry:
  "let data = join_with [newline] [''allow-dns:'', ''  - a.org'', ''# allow-http:'', ''  - b.org'', []] in
     config_list ''allow-dns'' data = [''a.org'', ''b.org'']
     \<and> map_option (config_list ''allow-dns'') (replaceCommentedYAMLListSection data ''allow-http'' [''c.org:443'']) = Some [''a.org'']
     \<and> map_option (config_list ''allow-http'') (replaceCommentedYAMLListSection data ''allow-http'' [''c.org:443'']) = Some [''c.org:443'', ''b.org'']"
  by code_simp

end
