(* ===== verification/TUI_Cursor.thy ===== *)
theory TUI_Cursor
  imports Go_Prelude
begin

text \<open>
  The list cursor shared by the terminal screens, \<^verbatim>\<open>tui/cursor.go\<close>, and its use in the SSH
  session selector, \<^verbatim>\<open>sshd/selector.go\<close>. A key message is its \<^verbatim>\<open>String()\<close>. The locale
  \<open>list_cursor\<close> is the contract a screen relies on.
\<close>

section \<open>Model\<close>

record Cursor =
  cu_Pos :: int
  cu_Offset :: int
  cu_VpHeight :: int
  cu_ItemCount :: int

definition AtEnd :: "Cursor \<Rightarrow> bool" where
  "AtEnd c = (cu_ItemCount c > 0 \<and> cu_Pos c = cu_ItemCount c - 1)"

definition EnsureVisible :: "Cursor \<Rightarrow> Cursor" where
  "EnsureVisible c =
     (let c1 = (if cu_Pos c < cu_Offset c then c\<lparr>cu_Offset := cu_Pos c\<rparr> else c)
      in if cu_Pos c1 \<ge> cu_Offset c1 + cu_VpHeight c1
         then c1\<lparr>cu_Offset := cu_Pos c1 - cu_VpHeight c1 + 1\<rparr> else c1)"

definition HandleKey :: "Cursor \<Rightarrow> string \<Rightarrow> bool \<times> Cursor" where
  "HandleKey c key =
     (if key = ''j'' \<or> key = ''down'' then
        (True, if cu_Pos c < cu_ItemCount c - 1 then EnsureVisible (c\<lparr>cu_Pos := cu_Pos c + 1\<rparr>) else c)
      else if key = ''k'' \<or> key = ''up'' then
        (True, if cu_Pos c > 0 then EnsureVisible (c\<lparr>cu_Pos := cu_Pos c - 1\<rparr>) else c)
      else if key = ''G'' \<or> key = ''end'' then
        (True, if cu_ItemCount c > 0 then EnsureVisible (c\<lparr>cu_Pos := cu_ItemCount c - 1\<rparr>) else c)
      else if key = ''g'' \<or> key = ''home'' then
        (True, EnsureVisible (c\<lparr>cu_Pos := 0\<rparr>))
      else if key = ''pgdown'' then
        (let p = cu_Pos c + cu_VpHeight c;
             p = (if p \<ge> cu_ItemCount c then cu_ItemCount c - 1 else p);
             p = (if p < 0 then 0 else p)
         in (True, EnsureVisible (c\<lparr>cu_Pos := p\<rparr>)))
      else if key = ''pgup'' then
        (let p = cu_Pos c - cu_VpHeight c; p = (if p < 0 then 0 else p)
         in (True, EnsureVisible (c\<lparr>cu_Pos := p\<rparr>)))
      else (False, c))"

section \<open>Invariant\<close>

definition in_list :: "Cursor \<Rightarrow> bool" where
  "in_list c \<longleftrightarrow> 0 \<le> cu_Pos c \<and> (cu_Pos c < cu_ItemCount c \<or> cu_Pos c = 0 \<and> cu_ItemCount c = 0)"

definition visible :: "Cursor \<Rightarrow> bool" where
  "visible c \<longleftrightarrow> 0 \<le> cu_Offset c \<and> cu_Offset c \<le> cu_Pos c \<and> cu_Pos c < cu_Offset c + cu_VpHeight c"

definition same_frame :: "Cursor \<Rightarrow> Cursor \<Rightarrow> bool" where
  "same_frame c c' \<longleftrightarrow> cu_VpHeight c' = cu_VpHeight c \<and> cu_ItemCount c' = cu_ItemCount c"

lemma EnsureVisible_frame [simp]:
  "cu_Pos (EnsureVisible c) = cu_Pos c" "cu_VpHeight (EnsureVisible c) = cu_VpHeight c"
  "cu_ItemCount (EnsureVisible c) = cu_ItemCount c"
  by (simp_all add: EnsureVisible_def Let_def)

lemma EnsureVisible_visible:
  "0 \<le> cu_Pos c \<Longrightarrow> 0 \<le> cu_Offset c \<Longrightarrow> 0 < cu_VpHeight c \<Longrightarrow> visible (EnsureVisible c)"
  by (simp add: EnsureVisible_def Let_def visible_def)

text \<open>The offset moves only as far as needed.\<close>

lemma EnsureVisible_id: "visible c \<Longrightarrow> EnsureVisible c = c"
  by (simp add: EnsureVisible_def Let_def visible_def)

text \<open>Every key either leaves the cursor alone or moves it inside the list and makes it visible.\<close>

definition cursor_move :: "Cursor \<Rightarrow> Cursor \<Rightarrow> bool" where
  "cursor_move c c' \<longleftrightarrow> c' = c \<or> (\<exists>p. c' = EnsureVisible (c\<lparr>cu_Pos := p\<rparr>) \<and> in_list (c\<lparr>cu_Pos := p\<rparr>))"

lemma cursor_move_refl: "cursor_move c c"
  by (simp add: cursor_move_def)

lemma cursor_move_to: "in_list (c\<lparr>cu_Pos := p\<rparr>) \<Longrightarrow> cursor_move c (EnsureVisible (c\<lparr>cu_Pos := p\<rparr>))"
  by (auto simp: cursor_move_def)

lemma cursor_move_if: "(b \<Longrightarrow> cursor_move c x) \<Longrightarrow> (\<not> b \<Longrightarrow> cursor_move c y) \<Longrightarrow> cursor_move c (if b then x else y)"
  by simp

lemma snd_if_move:
  "(b \<Longrightarrow> cursor_move c (snd x)) \<Longrightarrow> (\<not> b \<Longrightarrow> cursor_move c (snd y)) \<Longrightarrow> cursor_move c (snd (if b then x else y))"
  by simp

lemma HandleKey_moves:
  assumes "in_list c" and "0 \<le> cu_VpHeight c"
  shows "cursor_move c (snd (HandleKey c key))"
  unfolding HandleKey_def Let_def
proof (intro snd_if_move, unfold snd_conv)
  show "cursor_move c (if cu_Pos c < cu_ItemCount c - 1 then EnsureVisible (c\<lparr>cu_Pos := cu_Pos c + 1\<rparr>) else c)"
    using assms by (intro cursor_move_if cursor_move_to cursor_move_refl) (simp add: in_list_def)
  show "cursor_move c (if cu_Pos c > 0 then EnsureVisible (c\<lparr>cu_Pos := cu_Pos c - 1\<rparr>) else c)"
    using assms by (intro cursor_move_if cursor_move_to cursor_move_refl) (auto simp: in_list_def)
  show "cursor_move c (if cu_ItemCount c > 0 then EnsureVisible (c\<lparr>cu_Pos := cu_ItemCount c - 1\<rparr>) else c)"
    by (intro cursor_move_if cursor_move_to cursor_move_refl) (simp add: in_list_def)
  show "cursor_move c (EnsureVisible (c\<lparr>cu_Pos := 0\<rparr>))"
    using assms by (intro cursor_move_to) (auto simp: in_list_def)
  show "cursor_move c (EnsureVisible (c\<lparr>cu_Pos :=
      if (if cu_ItemCount c \<le> cu_Pos c + cu_VpHeight c then cu_ItemCount c - 1 else cu_Pos c + cu_VpHeight c) < 0 then 0
      else if cu_ItemCount c \<le> cu_Pos c + cu_VpHeight c then cu_ItemCount c - 1 else cu_Pos c + cu_VpHeight c\<rparr>))"
    using assms by (intro cursor_move_to) (auto simp: in_list_def)
  show "cursor_move c (EnsureVisible (c\<lparr>cu_Pos := if cu_Pos c - cu_VpHeight c < 0 then 0 else cu_Pos c - cu_VpHeight c\<rparr>))"
    using assms by (intro cursor_move_to) (auto simp: in_list_def)
  show "cursor_move c c" by (rule cursor_move_refl)
qed

lemma cursor_move_in_list: "cursor_move c c' \<Longrightarrow> in_list c \<Longrightarrow> in_list c' \<and> same_frame c c'"
  by (auto simp: cursor_move_def same_frame_def in_list_def)

lemma cursor_move_visible:
  assumes "cursor_move c c'" and "visible c"
  shows "visible c'"
proof -
  have "visible (EnsureVisible (c\<lparr>cu_Pos := p\<rparr>))" if "in_list (c\<lparr>cu_Pos := p\<rparr>)" for p
    using assms(2) that by (intro EnsureVisible_visible) (auto simp: in_list_def visible_def)
  with assms show ?thesis by (auto simp: cursor_move_def)
qed

section \<open>The contract of a navigable list\<close>

locale list_cursor =
  fixes key :: "'c \<Rightarrow> 'k \<Rightarrow> 'c"
    and ok :: "'c \<Rightarrow> bool"
  assumes key_ok: "ok c \<Longrightarrow> ok (key c k)"
begin

lemma keys_ok: "ok c \<Longrightarrow> ok (foldl key c ks)"
  by (induction ks arbitrary: c) (auto intro: key_ok)

end

interpretation nav: list_cursor "\<lambda>c k. snd (HandleKey c k)" "\<lambda>c. in_list c \<and> visible c"
proof
  fix c k assume c: "in_list c \<and> visible c"
  then have "cursor_move c (snd (HandleKey c k))"
    by (intro HandleKey_moves) (auto simp: visible_def)
  with c show "in_list (snd (HandleKey c k)) \<and> visible (snd (HandleKey c k))"
    using cursor_move_in_list cursor_move_visible by blast
qed

section \<open>The session selector\<close>

text \<open>
  The selector has one item per session and a last one for a new session; a result is
  \<^term>\<open>Some None\<close> for a new session and \<^term>\<open>Some (Some id)\<close> for a session. The boolean is
  \<^verbatim>\<open>tea.Quit\<close>.
\<close>

record selectorScreen =
  sc_cursor :: Cursor
  sc_sessions :: "string list"
  sc_result :: "string option option"

definition newSelectorScreen :: "string list \<Rightarrow> selectorScreen" where
  "newSelectorScreen sessions =
     \<lparr>sc_cursor = \<lparr>cu_Pos = 0, cu_Offset = 0, cu_VpHeight = 0, cu_ItemCount = int (length sessions) + 1\<rparr>,
      sc_sessions = sessions, sc_result = None\<rparr>"

datatype selector_msg = KeyPress string | WindowSize int

definition selector_Update :: "selectorScreen \<Rightarrow> selector_msg \<Rightarrow> selectorScreen \<times> bool" where
  "selector_Update s msg =
     (case msg of
        KeyPress key \<Rightarrow>
          (if key = ''q'' \<or> key = ''ctrl+c'' then (s, True)
           else if key = ''n'' then (s\<lparr>sc_result := Some None\<rparr>, True)
           else if key = ''enter'' then
             (if cu_Pos (sc_cursor s) < int (length (sc_sessions s))
              then (s\<lparr>sc_result := Some (Some (sc_sessions s ! nat (cu_Pos (sc_cursor s))))\<rparr>, True)
              else (s\<lparr>sc_result := Some None\<rparr>, True))
           else (s\<lparr>sc_cursor := snd (HandleKey (sc_cursor s) key)\<rparr>, False))
      | WindowSize vpHeight \<Rightarrow>
          (s\<lparr>sc_cursor := EnsureVisible ((sc_cursor s)\<lparr>cu_VpHeight := vpHeight\<rparr>)\<rparr>, False))"

text \<open>The items the view draws: two of the rows hold the heading.\<close>

definition selector_View_items :: "selectorScreen \<Rightarrow> int list" where
  "selector_View_items s =
     (let c = sc_cursor s; headerLines = 2;
          end' = min (cu_Offset c + cu_VpHeight c - headerLines) (cu_ItemCount c)
      in [cu_Offset c..end' - 1])"

definition selector_ok :: "selectorScreen \<Rightarrow> bool" where
  "selector_ok s \<longleftrightarrow>
     in_list (sc_cursor s) \<and> 0 \<le> cu_VpHeight (sc_cursor s)
     \<and> cu_ItemCount (sc_cursor s) = int (length (sc_sessions s)) + 1
     \<and> (case sc_result s of Some (Some sid) \<Rightarrow> sid \<in> set (sc_sessions s) | _ \<Rightarrow> True)"

lemma selector_Update_ok:
  assumes "selector_ok s" and "case msg of WindowSize h \<Rightarrow> 0 \<le> h | _ \<Rightarrow> True"
  shows "selector_ok (fst (selector_Update s msg)) \<and> sc_sessions (fst (selector_Update s msg)) = sc_sessions s"
proof (cases msg)
  case (KeyPress key)
  have mv: "cursor_move (sc_cursor s) (snd (HandleKey (sc_cursor s) key))"
    using assms(1) by (intro HandleKey_moves) (auto simp: selector_ok_def)
  have nav: "in_list (snd (HandleKey (sc_cursor s) key)) \<and> same_frame (sc_cursor s) (snd (HandleKey (sc_cursor s) key))"
    using cursor_move_in_list [OF mv] assms(1) by (simp add: selector_ok_def)
  have idx: "cu_Pos (sc_cursor s) < int (length (sc_sessions s)) \<Longrightarrow>
      sc_sessions s ! nat (cu_Pos (sc_cursor s)) \<in> set (sc_sessions s)"
    using assms(1) by (auto simp: selector_ok_def in_list_def)
  show ?thesis
    unfolding KeyPress selector_Update_def selector_msg.case
    using assms(1) nav idx by (simp add: selector_ok_def same_frame_def split: option.splits)
next
  case (WindowSize h)
  then show ?thesis
    using assms by (auto simp: selector_Update_def selector_ok_def in_list_def split: option.splits)
qed

section \<open>Properties\<close>

text \<open>
  Navigation keeps the cursor in the list and on the screen: from a cursor that is, no
  sequence of keys, known or unknown, takes it out of the items or out of the visible rows.
\<close>

lemma cursor_stays_visible:
  assumes "in_list c" and "visible c"
  shows "in_list (foldl (\<lambda>c k. snd (HandleKey c k)) c keys) \<and> visible (foldl (\<lambda>c k. snd (HandleKey c k)) c keys)"
  using nav.keys_ok [of c keys] assms by blast

lemma cursor_stays_visible_witness:
  "visible (foldl (\<lambda>c k. snd (HandleKey c k)) \<lparr>cu_Pos = 0, cu_Offset = 0, cu_VpHeight = 3, cu_ItemCount = 9\<rparr> [''G'', ''pgup'', ''x''])
   \<and> cu_Offset (foldl (\<lambda>c k. snd (HandleKey c k)) \<lparr>cu_Pos = 0, cu_Offset = 0, cu_VpHeight = 3, cu_ItemCount = 9\<rparr> [''G'', ''pgup'', ''x'']) = 5"
proof -
  let ?c = "\<lparr>cu_Pos = 0, cu_Offset = 0, cu_VpHeight = 3, cu_ItemCount = 9\<rparr>"
  have "in_list ?c" "visible ?c" by (simp_all add: in_list_def visible_def)
  moreover have "cu_Offset (foldl (\<lambda>c k. snd (HandleKey c k)) ?c [''G'', ''pgup'', ''x'']) = 5" by code_simp
  ultimately show ?thesis using cursor_stays_visible [of ?c "[''G'', ''pgup'', ''x'']"] by blast
qed

text \<open>
  The selected row of the session selector can be off screen. \<^verbatim>\<open>EnsureVisible\<close> keeps the
  cursor within \<^verbatim>\<open>VpHeight\<close> rows of the offset, but \<^verbatim>\<open>View\<close> draws two items fewer because of
  its heading: with three sessions in a window of four rows, moving to the last item leaves the
  cursor on an item that the view does not draw.
\<close>

lemma selector_cursor_can_be_hidden:
  "\<exists>s. s = fst (selector_Update (fst (selector_Update (newSelectorScreen [''a'', ''b'', ''c'']) (WindowSize 4))) (KeyPress ''end''))
     \<and> visible (sc_cursor s) \<and> cu_Pos (sc_cursor s) = 3 \<and> cu_Pos (sc_cursor s) \<notin> set (selector_View_items s)"
proof -
  have "visible (sc_cursor (fst (selector_Update (fst (selector_Update (newSelectorScreen [''a'', ''b'', ''c'']) (WindowSize 4))) (KeyPress ''end''))))"
    "cu_Pos (sc_cursor (fst (selector_Update (fst (selector_Update (newSelectorScreen [''a'', ''b'', ''c'']) (WindowSize 4))) (KeyPress ''end'')))) = 3"
    "3 \<notin> set (selector_View_items (fst (selector_Update (fst (selector_Update (newSelectorScreen [''a'', ''b'', ''c'']) (WindowSize 4))) (KeyPress ''end''))))"
    by code_simp+
  then show ?thesis by metis
qed

end
