(* ===== verification/Session_Util.thy ===== *)
theory Session_Util
  imports Go_Prelude
begin

text \<open>
  The pure parts of package \<^verbatim>\<open>session\<close>: \<^verbatim>\<open>ToCRLF\<close>, the rendering of scrollback and \<^verbatim>\<open>MergeEnv\<close>
  (\<^verbatim>\<open>session/session.go\<close>), and the scan of \<^verbatim>\<open>/proc\<close> with the clean-up of descendants
  (\<^verbatim>\<open>session/cleanup.go\<close>). The terminal emulator's cells and styles, the environment, the process
  table and the effect of signals are parameters.
\<close>

section \<open>Line endings\<close>

abbreviation LF :: char where "LF \<equiv> CHR 0x0A"
abbreviation CR :: char where "CR \<equiv> CHR 0x0D"

text \<open>\<^verbatim>\<open>bytes.ReplaceAll(b, "\r\n", "\n")\<close> and \<^verbatim>\<open>bytes.ReplaceAll(b, "\n", "\r\n")\<close>.\<close>

fun collapse_crlf :: "string \<Rightarrow> string" where
  "collapse_crlf (x # y # xs) = (if x = CR \<and> y = LF then LF # collapse_crlf xs else x # collapse_crlf (y # xs))"
| "collapse_crlf xs = xs"

fun expand_lf :: "string \<Rightarrow> string" where
  "expand_lf [] = []"
| "expand_lf (x # xs) = (if x = LF then CR # LF # expand_lf xs else x # expand_lf xs)"

definition ToCRLF :: "string \<Rightarrow> string" where
  "ToCRLF b = expand_lf (collapse_crlf b)"

text \<open>Every line feed is preceded by a carriage return.\<close>

fun cooked :: "bool \<Rightarrow> string \<Rightarrow> bool" where
  "cooked afterCR [] = True"
| "cooked afterCR (x # xs) = ((x = LF \<longrightarrow> afterCR) \<and> cooked (x = CR) xs)"

lemma cooked_expand_lf: "cooked b (expand_lf xs)"
  by (induction xs arbitrary: b) auto

lemma collapse_expand_lf:
  "\<not> (CR, LF) \<in> set (zip xs (tl xs)) \<Longrightarrow> collapse_crlf (expand_lf xs) = xs"
proof (induction xs)
  case (Cons x xs)
  then have IH: "collapse_crlf (expand_lf xs) = xs" by (cases xs) auto
  show ?case
  proof (cases "x = LF")
    case True
    with IH show ?thesis by simp
  next
    case False
    show ?thesis
    proof (cases xs)
      case Nil
      with False show ?thesis by simp
    next
      case (Cons y ys)
      then obtain z zs where z: "expand_lf xs = z # zs" "z = LF \<longrightarrow> False"
        by (cases "y = LF") auto
      with False IH show ?thesis by simp
    qed
  qed
qed simp

lemma collapse_crlf_hd_LF: "xs \<noteq> [] \<Longrightarrow> collapse_crlf xs \<noteq> []"
  by (cases xs rule: collapse_crlf.cases) auto

text \<open>A collapsed text may still have a pair, from \<^verbatim>\<open>\r\r\n\<close>, so \<^verbatim>\<open>ToCRLF\<close> is idempotent only without it.\<close>

fun no_crcrlf :: "string \<Rightarrow> bool" where
  "no_crcrlf (x # y # z # xs) = (\<not> (x = CR \<and> y = CR \<and> z = LF) \<and> no_crcrlf (y # z # xs))"
| "no_crcrlf xs = True"

lemma collapse_no_pair:
  "no_crcrlf xs \<Longrightarrow> (CR, LF) \<notin> set (zip (collapse_crlf xs) (tl (collapse_crlf xs)))"
proof (induction xs rule: collapse_crlf.induct)
  case (1 x y xs)
  show ?case
  proof (cases "x = CR \<and> y = LF")
    case True
    have "no_crcrlf xs" using 1(3) True by (cases xs rule: no_crcrlf.cases) auto
    with 1(1) [OF True] True show ?thesis by (cases "collapse_crlf xs") auto
  next
    case False
    have nc: "no_crcrlf (y # xs)" using 1(3) by (cases xs) auto
    note IH = 1(2) [OF False nc]
    obtain z zs where z: "collapse_crlf (y # xs) = z # zs"
      using collapse_crlf_hd_LF [of "y # xs"] by (cases "collapse_crlf (y # xs)") auto
    have "\<not> (x = CR \<and> z = LF)"
    proof
      assume xz: "x = CR \<and> z = LF"
      with False have "y \<noteq> LF" by blast
      with z xz have "y = CR \<and> xs \<noteq> [] \<and> hd xs = LF" by (cases xs) (auto split: if_splits)
      with xz 1(3) show False by (cases xs) auto
    qed
    with IH z False show ?thesis by auto
  qed
qed auto

section \<open>Rendering of scrollback\<close>

text \<open>
  The emulator's scrollback is a number of lines, a width and a cell (or \<^verbatim>\<open>nil\<close>) per position;
  \<open>style_lib\<close> has the operations of the style type and the text of \<^verbatim>\<open>ansi.ResetStyle\<close>.
\<close>

record 'st Cell =
  ce_Content :: string
  ce_Width :: nat
  ce_Style :: 'st

record 'st style_lib =
  sl_zero :: 'st
  sl_Equal :: "'st \<Rightarrow> 'st \<Rightarrow> bool"
  sl_Diff :: "'st \<Rightarrow> 'st \<Rightarrow> string"
  sl_IsZero :: "'st \<Rightarrow> bool"
  sl_Reset :: string

type_synonym 'st scrollback = "nat \<times> nat \<times> (nat \<Rightarrow> nat \<Rightarrow> 'st Cell option)"

definition scrollbackCellSignificant :: "'st style_lib \<Rightarrow> 'st Cell option \<Rightarrow> bool" where
  "scrollbackCellSignificant lib cell =
     (case cell of
        None \<Rightarrow> False
      | Some c \<Rightarrow>
          if ce_Width c = 0 then False
          else if ce_Content c \<noteq> [] \<and> ce_Content c \<noteq> '' '' then True
          else \<not> sl_IsZero lib (ce_Style c))"

text \<open>The columns up to the last significant one, found from the right.\<close>

fun last_significant :: "'st style_lib \<Rightarrow> (nat \<Rightarrow> 'st Cell option) \<Rightarrow> nat \<Rightarrow> nat" where
  "last_significant lib row 0 = 0"
| "last_significant lib row (Suc x) =
     (if scrollbackCellSignificant lib (row x) then Suc x else last_significant lib row x)"

fun render_cells :: "'st style_lib \<Rightarrow> 'st Cell option list \<Rightarrow> string \<times> 'st \<Rightarrow> string \<times> 'st" where
  "render_cells lib [] st = st"
| "render_cells lib (None # cells) st = render_cells lib cells st"
| "render_cells lib (Some c # cells) (buf, prev) =
     (if ce_Width c = 0 then render_cells lib cells (buf, prev)
      else
        let (buf1, prev1) = (if \<not> sl_Equal lib (ce_Style c) prev
                             then (buf @ sl_Diff lib prev (ce_Style c), ce_Style c) else (buf, prev));
            buf2 = buf1 @ (if ce_Content c = [] then '' '' else ce_Content c)
        in render_cells lib cells (buf2, prev1))"

fun render_lines :: "'st style_lib \<Rightarrow> nat \<Rightarrow> (nat \<Rightarrow> nat \<Rightarrow> 'st Cell option) \<Rightarrow> nat list \<Rightarrow> string \<times> 'st \<Rightarrow> string \<times> 'st" where
  "render_lines lib width cellAt [] st = st"
| "render_lines lib width cellAt (y # ys) st =
     (let cols = last_significant lib (\<lambda>x. cellAt x y) width;
          (buf, prev) = render_cells lib (map (\<lambda>x. cellAt x y) [0..<cols]) st;
          (buf, prev) = (if \<not> sl_IsZero lib prev then (buf @ sl_Reset lib, sl_zero lib) else (buf, prev))
      in render_lines lib width cellAt ys (buf @ [LF], prev))"

definition renderVTEScrollback :: "'st style_lib \<Rightarrow> 'st scrollback \<Rightarrow> string" where
  "renderVTEScrollback lib sb =
     (case sb of (lines, width, cellAt) \<Rightarrow>
        if lines = 0 then []
        else fst (render_lines lib width cellAt [0..<lines] ([], sl_zero lib)) @ sl_Reset lib)"

text \<open>
  The text of a plain line: without styles, a line is the contents of its cells up to the last one
  that shows something, an empty cell giving a space and a continuation cell nothing.
\<close>

definition plain_line :: "'st style_lib \<Rightarrow> nat \<Rightarrow> (nat \<Rightarrow> 'st Cell option) \<Rightarrow> string" where
  "plain_line lib width row =
     concat (map (\<lambda>x. case row x of
               None \<Rightarrow> []
             | Some c \<Rightarrow> if ce_Width c = 0 then [] else if ce_Content c = [] then '' '' else ce_Content c)
       [0..<last_significant lib row width])"

definition style_lib_ok :: "'st style_lib \<Rightarrow> bool" where
  "style_lib_ok lib \<longleftrightarrow> sl_IsZero lib (sl_zero lib) \<and> sl_Equal lib (sl_zero lib) (sl_zero lib)"

lemma render_cells_plain:
  assumes "\<And>c. Some c \<in> set cells \<Longrightarrow> sl_Equal lib (ce_Style c) prev"
  shows "render_cells lib cells (buf, prev) =
    (buf @ concat (map (\<lambda>cell. case cell of None \<Rightarrow> []
       | Some c \<Rightarrow> if ce_Width c = 0 then [] else if ce_Content c = [] then '' '' else ce_Content c) cells), prev)"
  using assms
proof (induction cells arbitrary: buf)
  case (Cons cell cells)
  then show ?case by (cases cell) (auto simp: Let_def)
qed simp

lemma last_significant_le: "last_significant lib row n \<le> n"
  by (induction n) (auto simp: le_SucI)

text \<open>After every line the style is the zero style again.\<close>

lemma render_lines_zero:
  assumes "sl_IsZero lib (sl_zero lib)" and "sl_IsZero lib (snd st)"
  shows "sl_IsZero lib (snd (render_lines lib width cellAt ys st))"
  using assms(2)
proof (induction ys arbitrary: st)
  case (Cons y ys)
  show ?case using assms(1) by (auto simp: Let_def split_beta intro!: Cons.IH)
qed simp

lemma render_lines_plain:
  assumes lib: "style_lib_ok lib"
    and plain: "\<And>x y c. x < width \<Longrightarrow> y \<in> set ys \<Longrightarrow> cellAt x y = Some c \<Longrightarrow> ce_Style c = sl_zero lib"
  shows "render_lines lib width cellAt ys (buf, sl_zero lib) =
    (buf @ concat (map (\<lambda>y. plain_line lib width (\<lambda>x. cellAt x y) @ [LF]) ys), sl_zero lib)"
  using plain
proof (induction ys arbitrary: buf)
  case (Cons y ys)
  let ?row = "\<lambda>x. cellAt x y"
  have "render_cells lib (map ?row [0..<last_significant lib ?row width]) (buf, sl_zero lib)
      = (buf @ plain_line lib width ?row, sl_zero lib)"
  proof (subst render_cells_plain)
    fix c assume "Some c \<in> set (map ?row [0..<last_significant lib ?row width])"
    then obtain x where "x < last_significant lib ?row width" "cellAt x y = Some c" by auto
    moreover from this(1) have "x < width" using last_significant_le less_le_trans by blast
    ultimately show "sl_Equal lib (ce_Style c) (sl_zero lib)"
      using Cons.prems [of x y c] lib by (simp add: style_lib_ok_def)
  qed (simp add: plain_line_def comp_def)
  moreover have "render_lines lib width cellAt ys (buf @ plain_line lib width ?row @ [LF], sl_zero lib) =
      ((buf @ plain_line lib width ?row @ [LF]) @ concat (map (\<lambda>y. plain_line lib width (\<lambda>x. cellAt x y) @ [LF]) ys), sl_zero lib)"
    by (rule Cons.IH) (use Cons.prems in auto)
  ultimately show ?case using lib by (simp add: style_lib_ok_def Let_def)
qed simp

section \<open>Environment\<close>

fun env_overlay :: "(string \<rightharpoonup> string) \<Rightarrow> string list \<Rightarrow> (string \<rightharpoonup> string)" where
  "env_overlay env [] = env"
| "env_overlay env (e # es) =
     (case cut_at CHR ''='' e of
        Some (k, v) \<Rightarrow> env_overlay (env(k \<mapsto> v)) es
      | None \<Rightarrow> env_overlay env es)"

text \<open>The order of the result is Go's map order, so the result is the set of its strings.\<close>

definition merged_env :: "string list \<Rightarrow> string list \<Rightarrow> (string \<rightharpoonup> string)" where
  "merged_env environ sessionEnv =
     (env_overlay (env_overlay Map.empty environ) sessionEnv)(''VIBEPIT_SSH_PUBKEY'' := None)"

definition MergeEnv :: "string list \<Rightarrow> string list \<Rightarrow> string set" where
  "MergeEnv environ sessionEnv =
     {k @ ''='' @ v | k v. merged_env environ sessionEnv k = Some v}"

lemma env_overlay_key: "env_overlay env es k = Some v \<Longrightarrow> CHR ''='' \<notin> set k \<or> env k = Some v"
proof (induction es arbitrary: env)
  case (Cons e es)
  show ?case
  proof (cases "cut_at CHR ''='' e")
    case None
    with Cons show ?thesis by simp
  next
    case (Some kv)
    obtain k' v' where kv: "kv = (k', v')" by (cases kv)
    with Some have "CHR ''='' \<notin> set k'" by (simp add: cut_at_Some)
    have "env_overlay (env(k' \<mapsto> v')) es k = Some v" using Cons.prems Some kv by simp
    from Cons.IH [OF this] \<open>CHR ''='' \<notin> set k'\<close> show ?thesis by (auto split: if_splits)
  qed
qed simp

section \<open>Processes of a session\<close>

text \<open>\<^verbatim>\<open>strings.Fields\<close> on ASCII text.\<close>

function fields :: "string \<Rightarrow> string list" where
  "fields s =
     (let t = dropWhile is_space s in
      if t = [] then [] else takeWhile (Not \<circ> is_space) t # fields (dropWhile (Not \<circ> is_space) t))"
  by pat_completeness auto
termination
proof (relation "measure length", simp)
  fix s t :: string assume t: "t = dropWhile is_space s" "t \<noteq> []"
  then have "takeWhile (Not \<circ> is_space) t \<noteq> []"
    by (metis (no_types, lifting) comp_apply hd_dropWhile takeWhile_eq_Nil_iff)
  then have "length (dropWhile (Not \<circ> is_space) t) < length t"
    by (metis append_Nil2 length_append length_greater_0_conv less_add_same_cancel2 takeWhile_dropWhile_id)
  moreover have "length t \<le> length s" using t(1) length_dropWhile_le by blast
  ultimately show "(dropWhile (Not \<circ> is_space) t, s) \<in> measure length" by simp
qed

declare fields.simps [simp del]

definition parseProcStat :: "string \<Rightarrow> (int \<times> int \<times> int) option" where
  "parseProcStat line =
     (case last_index CHR '')'' line of
        None \<Rightarrow> None
      | Some closeParen \<Rightarrow>
          if closeParen + 2 \<ge> length line then None
          else
            (case cut_at CHR '' '' line of
               None \<Rightarrow> None
             | Some (pidStr, _) \<Rightarrow>
                 (case atoi pidStr of
                    None \<Rightarrow> None
                  | Some pid \<Rightarrow>
                      let fs = fields (drop (closeParen + 2) line) in
                      if length fs < 4 then None
                      else (case atoi (fs ! 2) of
                              None \<Rightarrow> None
                            | Some pgid \<Rightarrow>
                                (case atoi (fs ! 3) of
                                   None \<Rightarrow> None
                                 | Some sid \<Rightarrow> Some (pid, pgid, sid))))))"

text \<open>A process is its pid and process group. The readable \<^verbatim>\<open>/proc\<close> entries are a list of lines.\<close>

fun findProcessesBySID :: "int \<Rightarrow> string list \<Rightarrow> int \<Rightarrow> int \<Rightarrow> (int \<times> int) list" where
  "findProcessesBySID self [] sid shellPID = []"
| "findProcessesBySID self (d # ds) sid shellPID =
     (case parseProcStat d of
        None \<Rightarrow> findProcessesBySID self ds sid shellPID
      | Some (pid, pgid, procSID) \<Rightarrow>
          if procSID \<noteq> sid \<or> pid = shellPID \<or> pid = self then findProcessesBySID self ds sid shellPID
          else (pid, pgid) # findProcessesBySID self ds sid shellPID)"

datatype signal_sent = TermGroup int | KillProcess int

fun term_groups :: "int list \<Rightarrow> (int \<times> int) list \<Rightarrow> signal_sent list" where
  "term_groups killed [] = []"
| "term_groups killed ((pid, pgid) # ps) =
     (if pgid = 0 \<or> pgid \<in> set killed then term_groups killed ps
      else TermGroup pgid # term_groups (pgid # killed) ps)"

text \<open>
  The loop of at most \<open>n\<close> rescans; \<open>procfs i\<close> is the content of \<^verbatim>\<open>/proc\<close> at scan \<open>i\<close>.
\<close>

fun kill_survivors :: "int \<Rightarrow> (nat \<Rightarrow> string list) \<Rightarrow> int \<Rightarrow> int \<Rightarrow> nat \<Rightarrow> nat \<Rightarrow> signal_sent list" where
  "kill_survivors self procfs sid shellPID i 0 = []"
| "kill_survivors self procfs sid shellPID i (Suc n) =
     (let procs = findProcessesBySID self (procfs i) sid shellPID in
      if length procs = 0 then []
      else map (\<lambda>p. KillProcess (fst p)) procs @ kill_survivors self procfs sid shellPID (i + 1) n)"

definition cleanupDescendants :: "int \<Rightarrow> (nat \<Rightarrow> string list) \<Rightarrow> int \<Rightarrow> int \<Rightarrow> signal_sent list" where
  "cleanupDescendants self procfs shellPID sid =
     (let procs = findProcessesBySID self (procfs 0) sid shellPID in
      if length procs = 0 then []
      else term_groups [] procs @ kill_survivors self procfs sid shellPID 1 5)"

lemma findProcessesBySID_iff:
  "(pid, pgid) \<in> set (findProcessesBySID self ds sid shellPID) \<longleftrightarrow>
     (\<exists>d\<in>set ds. parseProcStat d = Some (pid, pgid, sid)) \<and> pid \<noteq> shellPID \<and> pid \<noteq> self"
  by (induction ds) (auto split: option.splits)

lemma term_groups_member:
  "s \<in> set (term_groups killed ps) \<Longrightarrow> \<exists>pid pgid. s = TermGroup pgid \<and> (pid, pgid) \<in> set ps \<and> pgid \<noteq> 0 \<and> pgid \<notin> set killed"
  by (induction killed ps rule: term_groups.induct) (fastforce split: if_splits)+

lemma term_groups_distinct: "distinct (term_groups killed ps)"
proof (induction killed ps rule: term_groups.induct)
  case (2 killed pid pgid ps)
  then show ?case using term_groups_member [of "TermGroup pgid" "pgid # killed" ps] by auto
qed simp

lemma kill_survivors_member:
  "s \<in> set (kill_survivors self procfs sid shellPID i n) \<Longrightarrow>
     \<exists>k pid pgid. i \<le> k \<and> k < i + n \<and> s = KillProcess pid
       \<and> (pid, pgid) \<in> set (findProcessesBySID self (procfs k) sid shellPID)"
proof (induction n arbitrary: i)
  case (Suc n)
  then consider "s \<in> set (map (\<lambda>p. KillProcess (fst p)) (findProcessesBySID self (procfs i) sid shellPID))"
    | "s \<in> set (kill_survivors self procfs sid shellPID (i + 1) n)"
    by (auto simp: Let_def split: if_splits)
  then show ?case
  proof cases
    case 1
    then show ?thesis by force
  next
    case 2
    with Suc.IH [of "i + 1"] show ?thesis by (metis Suc_eq_plus1 Suc_leD add_Suc_right add_Suc_shift)
  qed
qed simp

lemma fields_word:
  assumes "w \<noteq> []" and "\<forall>c\<in>set w. \<not> is_space c"
  shows "fields (w @ CHR '' '' # s) = w # fields s" and "fields w = [w]"
proof -
  have sp: "is_space CHR '' ''" by (simp add: is_space_def)
  have dw: "dropWhile is_space (w @ t) = w @ t" for t using assms by (cases w) auto
  have tw: "takeWhile (Not \<circ> is_space) (w @ CHR '' '' # s) = w" "dropWhile (Not \<circ> is_space) (w @ CHR '' '' # s) = CHR '' '' # s"
    using assms(2) sp by (simp_all add: takeWhile_append dropWhile_append3 comp_def)
  have "fields (w @ CHR '' '' # s) = w # fields (CHR '' '' # s)"
    by (subst fields.simps) (simp add: dw tw assms(1) Let_def)
  also have "fields (CHR '' '' # s) = fields s"
    by (subst (1 2) fields.simps) (simp add: sp)
  finally show "fields (w @ CHR '' '' # s) = w # fields s" .
  have tw2: "takeWhile (Not \<circ> is_space) w = w" "dropWhile (Not \<circ> is_space) w = []"
    using assms(2) by (simp_all add: takeWhile_eq_all_conv dropWhile_eq_Nil_conv)
  have nil: "fields [] = []" by (subst fields.simps) simp
  have dw1: "dropWhile is_space w = w" using dw [of "[]"] by simp
  show "fields w = [w]"
    by (subst fields.simps) (simp only: dw1 tw2 nil Let_def assms(1) if_False)
qed

lemma digits_plain: "list_all is_digit ds \<Longrightarrow> c \<in> set ds \<Longrightarrow> \<not> is_space c \<and> c \<noteq> CHR '')''"
  by (auto simp: list_all_iff is_digit_def is_space_def)

lemma show_nat_plain: "c \<in> set (show_nat n) \<Longrightarrow> \<not> is_space c \<and> c \<noteq> CHR '')''"
  by (rule digits_plain [OF show_nat_digits])

lemma show_nat_fields [simp]:
  "fields (show_nat n @ CHR '' '' # s) = show_nat n # fields s" "fields (show_nat n) = [show_nat n]"
  using fields_word [of "show_nat n"] show_nat_plain by auto

lemma parseProcStat_show:
  assumes small: "pid < 2 ^ 63 \<and> pgid < 2 ^ 63 \<and> sid' < 2 ^ 63"
  shows "parseProcStat (show_nat pid @ '' ('' @ comm @ '') S '' @ show_nat ppid @ '' '' @ show_nat pgid @ '' '' @ show_nat sid')
    = Some (int pid, int pgid, int sid')"
proof -
  let ?tail = "''S '' @ show_nat ppid @ '' '' @ show_nat pgid @ '' '' @ show_nat sid'"
  let ?pre = "show_nat pid @ '' ('' @ comm"
  let ?line = "?pre @ CHR '')'' # CHR '' '' # ?tail"
  have "CHR '')'' \<notin> set (CHR '' '' # ?tail)" using show_nat_plain by auto
  then have li: "last_index CHR '')'' ?line = Some (length ?pre)" by (rule last_index_append)
  have cut: "cut_at CHR '' '' ?line = Some (show_nat pid, CHR ''('' # comm @ CHR '')'' # CHR '' '' # ?tail)"
    using show_nat_plain [of "CHR '' ''" pid] by (subst cut_at_Some) (auto simp: is_space_def)
  have "fields ?tail = [''S'', show_nat ppid, show_nat pgid, show_nat sid']"
    using fields_word(1) [of "''S''" "show_nat ppid @ '' '' @ show_nat pgid @ '' '' @ show_nat sid'"]
    by (simp add: is_space_def)
  moreover have "drop (length ?pre + 2) ?line = drop 2 (CHR '')'' # CHR '' '' # ?tail)"
    by (simp only: drop_append drop_all) simp
  then have "drop (length ?pre + 2) ?line = ?tail" by simp
  moreover have "atoi (show_nat pid) = Some (int pid)" "atoi (show_nat pgid) = Some (int pgid)"
    "atoi (show_nat sid') = Some (int sid')" using small by (simp_all add: atoi_show_nat)
  ultimately have "parseProcStat ?line = Some (int pid, int pgid, int sid')"
    unfolding parseProcStat_def li cut by simp
  then show ?thesis by simp
qed

section \<open>Properties\<close>

text \<open>
  Cooked output: after \<^verbatim>\<open>ToCRLF\<close> every line feed follows a carriage return, so a raw-mode
  terminal starts each line in column 0, and on content without \<^verbatim>\<open>\r\r\n\<close> a second application
  changes nothing: carriage returns are not doubled.
\<close>

lemma to_crlf_cooked:
  "cooked False (ToCRLF b) \<and> (no_crcrlf b \<longrightarrow> ToCRLF (ToCRLF b) = ToCRLF b)"
proof -
  have "ToCRLF (ToCRLF b) = ToCRLF b" if "no_crcrlf b"
    using collapse_expand_lf [OF collapse_no_pair [OF that]] by (simp add: ToCRLF_def)
  then show ?thesis by (simp add: ToCRLF_def cooked_expand_lf)
qed

lemma to_crlf_cooked_witness:
  "no_crcrlf (''a'' @ [LF] @ ''b'' @ [CR, LF]) \<and> ToCRLF (''a'' @ [LF] @ ''b'' @ [CR, LF]) = ''a'' @ [CR, LF] @ ''b'' @ [CR, LF]
   \<and> ToCRLF (ToCRLF (''a'' @ [LF] @ ''b'' @ [CR, LF])) = ToCRLF (''a'' @ [LF] @ ''b'' @ [CR, LF])"
proof -
  have "no_crcrlf (''a'' @ [LF] @ ''b'' @ [CR, LF])"
    "ToCRLF (''a'' @ [LF] @ ''b'' @ [CR, LF]) = ''a'' @ [CR, LF] @ ''b'' @ [CR, LF]" by code_simp+
  then show ?thesis using to_crlf_cooked [of "''a'' @ [LF] @ ''b'' @ [CR, LF]"] by blast
qed

text \<open>
  C36. Clean-up signals only the session: every signal that \<^verbatim>\<open>cleanupDescendants\<close> sends goes to a
  process that some scan showed with the session's identifier and that is neither the shell nor
  the daemon itself, or terminates the (non-zero) process group of such a process; no group is
  terminated twice, and there are at most five rescans. The process name cannot disturb this:
  a \<^verbatim>\<open>stat\<close> line is read correctly whatever spaces and parentheses the name has.
\<close>

theorem cleanup_signals_session_only:
  "(\<forall>s \<in> set (cleanupDescendants self procfs shellPID sid). \<exists>k<6. \<exists>d\<in>set (procfs k). \<exists>pid pgid.
      parseProcStat d = Some (pid, pgid, sid) \<and> pid \<noteq> shellPID \<and> pid \<noteq> self
      \<and> (s = KillProcess pid \<or> k = 0 \<and> pgid \<noteq> 0 \<and> s = TermGroup pgid))
   \<and> distinct (filter (\<lambda>s. \<exists>g. s = TermGroup g) (cleanupDescendants self procfs shellPID sid))
   \<and> (pid < 2 ^ 63 \<and> pgid < 2 ^ 63 \<and> sid' < 2 ^ 63 \<longrightarrow>
        parseProcStat (show_nat pid @ '' ('' @ comm @ '') S '' @ show_nat ppid @ '' '' @ show_nat pgid @ '' '' @ show_nat sid')
        = Some (int pid, int pgid, int sid'))"
proof (intro conjI impI ballI parseProcStat_show)
  fix s assume s: "s \<in> set (cleanupDescendants self procfs shellPID sid)"
  then consider "s \<in> set (term_groups [] (findProcessesBySID self (procfs 0) sid shellPID))"
    | "s \<in> set (kill_survivors self procfs sid shellPID 1 5)"
    by (auto simp: cleanupDescendants_def Let_def split: if_splits)
  then show "\<exists>k<6. \<exists>d\<in>set (procfs k). \<exists>pid pgid.
      parseProcStat d = Some (pid, pgid, sid) \<and> pid \<noteq> shellPID \<and> pid \<noteq> self
      \<and> (s = KillProcess pid \<or> k = 0 \<and> pgid \<noteq> 0 \<and> s = TermGroup pgid)"
  proof cases
    case 1
    from term_groups_member [OF this] show ?thesis
      by (auto simp: findProcessesBySID_iff intro!: exI [of _ "0 :: nat"])
  next
    case 2
    from kill_survivors_member [OF this] show ?thesis
    proof (elim exE conjE)
      fix k pid pgid
      assume k: "k < 1 + 5" "s = KillProcess pid"
        and p: "(pid, pgid) \<in> set (findProcessesBySID self (procfs k) sid shellPID)"
      then have "k < 6" by simp
      with k(2) p show ?thesis unfolding findProcessesBySID_iff by blast
    qed
  qed
next
  have no_kill: "filter (\<lambda>s. \<exists>g. s = TermGroup g) (kill_survivors self procfs sid shellPID i n) = []" for i n
    using kill_survivors_member by (fastforce simp: filter_empty_conv)
  show "distinct (filter (\<lambda>s. \<exists>g. s = TermGroup g) (cleanupDescendants self procfs shellPID sid))"
    by (simp add: cleanupDescendants_def Let_def no_kill distinct_filter term_groups_distinct)
qed simp_all

theorem cleanup_signals_session_only_witness:
  "cleanupDescendants 99 (\<lambda>k. if k < 2 then [''7 (a) b) S 1 8 5 0''] else []) 5 5 = [TermGroup 8, KillProcess 7]
   \<and> (\<exists>k<6. \<exists>d\<in>set (if k < (2::nat) then [''7 (a) b) S 1 8 5 0''] else []). \<exists>pid pgid.
        parseProcStat d = Some (pid, pgid, 5) \<and> pid \<noteq> 5 \<and> pid \<noteq> 99 \<and> KillProcess 7 = KillProcess pid)
   \<and> parseProcStat (show_nat 7 @ '' ('' @ '') ('' @ '') S '' @ show_nat 1 @ '' '' @ show_nat 8 @ '' '' @ show_nat 5) = Some (7, 8, 5)"
proof -
  let ?procfs = "\<lambda>k :: nat. if k < 2 then [''7 (a) b) S 1 8 5 0''] else []"
  have run: "cleanupDescendants 99 ?procfs 5 5 = [TermGroup 8, KillProcess 7]" by code_simp
  note t = cleanup_signals_session_only [of 99 ?procfs 5 5 7 8 5 "'') (''" 1]
  have "\<exists>k<6. \<exists>d\<in>set (?procfs k). \<exists>pid pgid.
        parseProcStat d = Some (pid, pgid, 5) \<and> pid \<noteq> 5 \<and> pid \<noteq> 99
        \<and> (KillProcess 7 = KillProcess pid \<or> k = 0 \<and> pgid \<noteq> 0 \<and> KillProcess 7 = TermGroup pgid)"
    by (rule bspec [OF conjunct1 [OF t]]) (simp only: run, simp)
  moreover have "parseProcStat (show_nat 7 @ '' ('' @ '') ('' @ '') S '' @ show_nat 1 @ '' '' @ show_nat 8 @ '' '' @ show_nat 5) = Some (7, 8, 5)"
    using t by simp
  ultimately show ?thesis using run by blast
qed

end
