(* ===== verification/Session.thy ===== *)
theory Session
  imports Session_Util
begin

text \<open>
  Persistent shell sessions, \<^verbatim>\<open>session/session.go\<close> and \<^verbatim>\<open>session/client.go\<close>: clients attach to
  and detach from a session, one of them is the writer, the pump goroutine feeds the shell's
  output to the terminal emulator and to every attached client, and a client that cannot keep up
  is dropped.

  The state is one record. Clients are addresses in a store. The operations that run under the
  session's mutex are functions on the state; the goroutines interleave between them, which is the
  step relation \<open>session_step\<close>: the pump has a program counter (its fan-out holds no lock while it
  delivers), a close is two steps (\<^verbatim>\<open>closeOnce\<close> with the reason, then \<^verbatim>\<open>Detach\<close>), a
  \<^verbatim>\<open>ptmx.Write\<close> happens after the lock is released (\<open>ss_writes\<close> holds the writes under way), and a
  \<^verbatim>\<open>select\<close> with several ready cases may take any of them. The pump may go on before the
  \<^verbatim>\<open>Detach\<close> of a slow client that it closes, which the code does not: the relation has more
  interleavings than the program, never fewer.

  The emulator \<^verbatim>\<open>vt-go\<close> is a parameter (\<open>vte_lib\<close>). Fields whose name starts with \<open>g\<close> are ghost:
  the shell's output so far (\<open>ss_gOut\<close>) and, per client, the replay and how much output the
  emulator had absorbed when it was taken (\<open>cl_gReplay\<close>, \<open>cl_gBase\<close>), all chunks queued
  (\<open>cl_gLog\<close>), and the bytes handed to the reader (\<open>cl_gRead\<close>).
\<close>

section \<open>Clients\<close>

datatype DetachReason = DetachNone | DetachDisconnect | DetachKeepalive | DetachSlowConsumer

text \<open>The order of the constants, as their \<^verbatim>\<open>iota\<close> values.\<close>

fun reason_code :: "DetachReason \<Rightarrow> nat" where
  "reason_code DetachNone = 0"
| "reason_code DetachDisconnect = 1"
| "reason_code DetachKeepalive = 2"
| "reason_code DetachSlowConsumer = 3"

instantiation DetachReason :: linorder
begin

definition less_eq_DetachReason :: "DetachReason \<Rightarrow> DetachReason \<Rightarrow> bool" where
  "less_eq_DetachReason a b \<longleftrightarrow> reason_code a \<le> reason_code b"

definition less_DetachReason :: "DetachReason \<Rightarrow> DetachReason \<Rightarrow> bool" where
  "less_DetachReason a b \<longleftrightarrow> reason_code a < reason_code b"

instance
proof
  fix x y z :: DetachReason
  show "x < y \<longleftrightarrow> x \<le> y \<and> \<not> y \<le> x" by (auto simp: less_eq_DetachReason_def less_DetachReason_def)
  show "x \<le> x" by (simp add: less_eq_DetachReason_def)
  show "x \<le> z" if "x \<le> y" "y \<le> z" using that by (simp add: less_eq_DetachReason_def)
  show "x = y" if "x \<le> y" "y \<le> x" using that by (cases x; cases y) (simp_all add: less_eq_DetachReason_def)
  show "x \<le> y \<or> y \<le> x" by (auto simp: less_eq_DetachReason_def)
qed

end

definition Label :: "DetachReason \<Rightarrow> string" where
  "Label r =
     (case r of DetachKeepalive \<Rightarrow> ''connection lost'' | DetachSlowConsumer \<Rightarrow> ''dropped - slow'' | _ \<Rightarrow> [])"

record Client =
  cl_output :: "string list"
  cl_outputClosed :: bool
  cl_done :: bool
  cl_pending :: string
  cl_closeOnce :: bool
  cl_reason :: DetachReason
  cl_gReplay :: "string list"
  cl_gBase :: nat
  cl_gLog :: "string list"
  cl_gRead :: string

definition newClient :: "nat \<Rightarrow> Client" where
  "newClient base =
     \<lparr>cl_output = [], cl_outputClosed = False, cl_done = False, cl_pending = [], cl_closeOnce = False,
      cl_reason = DetachNone, cl_gReplay = [], cl_gBase = base, cl_gLog = [], cl_gRead = []\<rparr>"

definition output_cap :: nat where "output_cap = 1024"

text \<open>The successful send of \<^verbatim>\<open>deliver\<close>.\<close>

definition send :: "string \<Rightarrow> Client \<Rightarrow> Client" where
  "send data c = c\<lparr>cl_output := cl_output c @ [data], cl_gLog := cl_gLog c @ [data]\<rparr>"

datatype deliver_case = DeliverClosed | DeliverSend | DeliverDone | DeliverFull

text \<open>The cases of \<^verbatim>\<open>deliver\<close> that may be taken; \<^verbatim>\<open>default\<close> only when no other is ready.\<close>

definition deliver_cases :: "Client \<Rightarrow> deliver_case list" where
  "deliver_cases c =
     (if cl_outputClosed c then [DeliverClosed]
      else let ready = (if length (cl_output c) < output_cap then [DeliverSend] else [])
                       @ (if cl_done c then [DeliverDone] else [])
           in if ready = [] then [DeliverFull] else ready)"

definition closeOutput :: "Client \<Rightarrow> Client" where
  "closeOutput c = (if \<not> cl_outputClosed c then c\<lparr>cl_outputClosed := True\<rparr> else c)"

text \<open>The body of \<^verbatim>\<open>closeOnce.Do\<close> up to \<^verbatim>\<open>Detach\<close>.\<close>

definition close_begin :: "DetachReason \<Rightarrow> Client \<Rightarrow> Client" where
  "close_begin reason c = c\<lparr>cl_closeOnce := True, cl_reason := reason, cl_done := True\<rparr>"

datatype read_result = ReadData string | ReadEOF

text \<open>
  The results that \<^verbatim>\<open>Read\<close> into a buffer of \<open>n\<close> bytes may give; no result means that it blocks.
\<close>

definition Read_cases :: "nat \<Rightarrow> Client \<Rightarrow> (read_result \<times> Client) list" where
  "Read_cases n c =
     (if cl_pending c \<noteq> [] then
        [(ReadData (take n (cl_pending c)),
          c\<lparr>cl_pending := drop n (cl_pending c), cl_gRead := cl_gRead c @ take n (cl_pending c)\<rparr>)]
      else
        (case cl_output c of
           data # rest \<Rightarrow>
             [(ReadData (take n data),
               c\<lparr>cl_output := rest, cl_pending := (if n < length data then drop n data else cl_pending c),
                 cl_gRead := cl_gRead c @ take n data\<rparr>)]
         | [] \<Rightarrow> if cl_outputClosed c then [(ReadEOF, c)] else [])
        @ (if cl_done c then [(ReadEOF, c)] else []))"

section \<open>Sessions\<close>

record ('v, 'st) vte_lib =
  vl_IsAltScreen :: "'v \<Rightarrow> bool"
  vl_Render :: "'v \<Rightarrow> string"
  vl_CursorX :: "'v \<Rightarrow> int"
  vl_CursorY :: "'v \<Rightarrow> int"
  vl_Scrollback :: "'v \<Rightarrow> 'st scrollback"
  vl_Write :: "'v \<Rightarrow> string \<Rightarrow> 'v"
  vl_Resize :: "'v \<Rightarrow> uint16 \<Rightarrow> uint16 \<Rightarrow> 'v"
  vl_style :: "'st style_lib"

datatype pump_pc = PumpRead | PumpFanout string "nat list" | PumpClose "nat list" | PumpDone

record 'v Session =
  ss_store :: "nat \<rightharpoonup> Client"
  ss_next :: nat
  ss_clients :: "nat list"
  ss_writer :: "nat option"
  ss_exited :: bool
  ss_exitCode :: int
  ss_exitedAt :: int
  ss_detachedAt :: int
  ss_lastDetachReason :: DetachReason
  ss_vte :: 'v
  ss_cols :: uint16
  ss_rows :: uint16
  ss_pump :: pump_pc
  ss_detaching :: "nat list"
  ss_writes :: "string list"
  ss_ptyIn :: "string list"
  ss_tombstones :: nat
  ss_gOut :: "string list"

definition newSession :: "'v \<Rightarrow> uint16 \<Rightarrow> uint16 \<Rightarrow> 'v Session" where
  "newSession vte cols rows =
     \<lparr>ss_store = Map.empty, ss_next = 0, ss_clients = [], ss_writer = None, ss_exited = False,
      ss_exitCode = 0, ss_exitedAt = 0, ss_detachedAt = 0, ss_lastDetachReason = DetachNone,
      ss_vte = vte, ss_cols = cols, ss_rows = rows, ss_pump = PumpRead, ss_detaching = [],
      ss_writes = [], ss_ptyIn = [], ss_tombstones = 0, ss_gOut = []\<rparr>"

definition resizeLocked :: "('v, 'st) vte_lib \<Rightarrow> uint16 \<Rightarrow> uint16 \<Rightarrow> 'v Session \<Rightarrow> 'v Session" where
  "resizeLocked lib cols rows s =
     s\<lparr>ss_vte := vl_Resize lib (ss_vte s) cols rows, ss_cols := cols, ss_rows := rows\<rparr>"

definition ESC :: char where "ESC = CHR 0x1B"

definition replay_blob :: "('v, 'st) vte_lib \<Rightarrow> 'v \<Rightarrow> string" where
  "replay_blob lib vte =
     ToCRLF
       ([ESC, CHR ''c''] @ renderVTEScrollback (vl_style lib) (vl_Scrollback lib vte) @ vl_Render lib vte
        @ (if length (vl_Render lib vte) > 0
           then [ESC, CHR ''[''] @ show_int (vl_CursorY lib vte + 1) @ '';'' @ show_int (vl_CursorX lib vte + 1) @ ''H''
           else []))"

definition alt_screen_blob :: string where
  "alt_screen_blob = [ESC] @ ''[?1049h'' @ [ESC] @ ''[2J''"

definition Attach :: "('v, 'st) vte_lib \<Rightarrow> uint16 \<Rightarrow> uint16 \<Rightarrow> 'v Session \<Rightarrow> nat \<times> 'v Session" where
  "Attach lib cols rows s =
     (let id = ss_next s; s = s\<lparr>ss_next := id + 1\<rparr> in
      if ss_exited s then (id, s\<lparr>ss_store := (ss_store s)(id \<mapsto> closeOutput (newClient (length (ss_gOut s))))\<rparr>)
      else
        let altScreen = vl_IsAltScreen lib (ss_vte s);
            blob = (if altScreen then alt_screen_blob else replay_blob lib (ss_vte s));
            becameWriter = (ss_writer s = None);
            s = (if becameWriter
                 then let s = s\<lparr>ss_writer := Some id\<rparr> in
                   if cols > 0 \<and> rows > 0 \<and> (cols \<noteq> ss_cols s \<or> rows \<noteq> ss_rows s)
                   then resizeLocked lib cols rows s else s
                 else s);
            c = (send blob (newClient (length (ss_gOut s))))\<lparr>cl_gReplay := [blob]\<rparr>;
            s = s\<lparr>ss_store := (ss_store s)(id \<mapsto> c), ss_clients := ss_clients s @ [id]\<rparr>
        in (id, if altScreen \<and> becameWriter then s\<lparr>ss_writes := ss_writes s @ [[CHR 0x0C]]\<rparr> else s))"

text \<open>The \<^verbatim>\<open>ptmx.Write\<close> that follows the unlock in \<^verbatim>\<open>Attach\<close> and \<^verbatim>\<open>WriteInput\<close>.\<close>

definition pty_write :: "string \<Rightarrow> 'v Session \<Rightarrow> 'v Session" where
  "pty_write p s = s\<lparr>ss_writes := remove1 p (ss_writes s), ss_ptyIn := ss_ptyIn s @ [p]\<rparr>"

definition TakeOver :: "('v, 'st) vte_lib \<Rightarrow> nat \<Rightarrow> uint16 \<Rightarrow> uint16 \<Rightarrow> 'v Session \<Rightarrow> 'v Session" where
  "TakeOver lib c cols rows s =
     (let s = s\<lparr>ss_writer := Some c\<rparr> in
      if cols > 0 \<and> rows > 0 \<and> (cols \<noteq> ss_cols s \<or> rows \<noteq> ss_rows s)
      then resizeLocked lib cols rows s else s)"

definition Detach :: "int \<Rightarrow> nat \<Rightarrow> 'v Session \<Rightarrow> 'v Session" where
  "Detach now c s =
     (let s = s\<lparr>ss_clients := remove1 c (ss_clients s)\<rparr>;
          s = (if ss_writer s = Some c
               then s\<lparr>ss_writer := (if length (ss_clients s) > 0 then Some (last (ss_clients s)) else None)\<rparr>
               else s);
          s = (if length (ss_clients s) = 0 then s\<lparr>ss_detachedAt := now\<rparr> else s);
          r = (case ss_store s c of Some cl \<Rightarrow> cl_reason cl | None \<Rightarrow> DetachNone);
          s = (if r \<noteq> DetachNone then s\<lparr>ss_lastDetachReason := r\<rparr> else s)
      in if length (ss_clients s) = 0 \<and> ss_exited s then s\<lparr>ss_tombstones := ss_tombstones s + 1\<rparr> else s)"

definition Resize :: "('v, 'st) vte_lib \<Rightarrow> nat \<Rightarrow> uint16 \<Rightarrow> uint16 \<Rightarrow> 'v Session \<Rightarrow> 'v Session" where
  "Resize lib c cols rows s =
     (if ss_writer s \<noteq> Some c then s
      else if cols = ss_cols s \<and> rows = ss_rows s then s
      else resizeLocked lib cols rows s)"

datatype input_error = NotTheWriter

definition WriteInput :: "nat \<Rightarrow> string \<Rightarrow> 'v Session \<Rightarrow> input_error + 'v Session" where
  "WriteInput c p s =
     (if ss_writer s \<noteq> Some c then Inl NotTheWriter else Inr (s\<lparr>ss_writes := ss_writes s @ [p]\<rparr>))"

datatype Status = Attached | Detached | Exited

definition Info_Status :: "'v Session \<Rightarrow> Status" where
  "Info_Status s = (if ss_exited s then Exited else if length (ss_clients s) > 0 then Attached else Detached)"

text \<open>The pump's critical sections: after a read of \<open>data\<close>, and after a read error.\<close>

definition pump_data :: "('v, 'st) vte_lib \<Rightarrow> string \<Rightarrow> 'v Session \<Rightarrow> 'v Session" where
  "pump_data lib data s =
     s\<lparr>ss_vte := vl_Write lib (ss_vte s) data, ss_pump := PumpFanout data (ss_clients s), ss_gOut := ss_gOut s @ [data]\<rparr>"

definition pump_error :: "'v Session \<Rightarrow> 'v Session" where
  "pump_error s = s\<lparr>ss_exited := True, ss_pump := PumpClose (ss_clients s)\<rparr>"

text \<open>The last critical section of \<^verbatim>\<open>waitForExit\<close>.\<close>

definition record_exit :: "int \<Rightarrow> int \<Rightarrow> 'v Session \<Rightarrow> 'v Session" where
  "record_exit exitCode now s =
     (let s = s\<lparr>ss_exitCode := exitCode, ss_exitedAt := now\<rparr>
      in if \<not> length (ss_clients s) > 0 then s\<lparr>ss_tombstones := ss_tombstones s + 1\<rparr> else s)"

definition set_client :: "nat \<Rightarrow> Client \<Rightarrow> 'v Session \<Rightarrow> 'v Session" where
  "set_client c cl s = s\<lparr>ss_store := (ss_store s)(c \<mapsto> cl)\<rparr>"

text \<open>\<^verbatim>\<open>CloseWithReason\<close> up to \<^verbatim>\<open>Detach\<close>; without effect after the first call.\<close>

definition begin_close :: "nat \<Rightarrow> DetachReason \<Rightarrow> 'v Session \<Rightarrow> 'v Session" where
  "begin_close c reason s =
     (case ss_store s c of
        None \<Rightarrow> s
      | Some cl \<Rightarrow>
          if cl_closeOnce cl then s
          else (set_client c (close_begin reason cl) s)\<lparr>ss_detaching := c # ss_detaching s\<rparr>)"

section \<open>Interleavings\<close>

inductive session_step :: "('v, 'st) vte_lib \<Rightarrow> 'v Session \<Rightarrow> 'v Session \<Rightarrow> bool" for lib where
  step_attach: "session_step lib s (snd (Attach lib cols rows s))"
| step_takeover: "c \<in> set (ss_clients s) \<Longrightarrow> session_step lib s (TakeOver lib c cols rows s)"
| step_resize: "session_step lib s (Resize lib c cols rows s)"
| step_input: "WriteInput c p s = Inr s' \<Longrightarrow> session_step lib s s'"
| step_pty_write: "p \<in> set (ss_writes s) \<Longrightarrow> session_step lib s (pty_write p s)"
| step_close: "session_step lib s (begin_close c reason s)"
| step_detach:
    "c \<in> set (ss_detaching s) \<Longrightarrow>
     session_step lib s ((Detach now c s)\<lparr>ss_detaching := remove1 c (ss_detaching s)\<rparr>)"
| step_read:
    "ss_store s c = Some cl \<Longrightarrow> (res, cl') \<in> set (Read_cases n cl) \<Longrightarrow> session_step lib s (set_client c cl' s)"
| step_pump_data: "ss_pump s = PumpRead \<Longrightarrow> session_step lib s (pump_data lib data s)"
| step_fan_send:
    "ss_pump s = PumpFanout data (c # cs) \<Longrightarrow> ss_store s c = Some cl \<Longrightarrow> DeliverSend \<in> set (deliver_cases cl) \<Longrightarrow>
     session_step lib s ((set_client c (send data cl) s)\<lparr>ss_pump := PumpFanout data cs\<rparr>)"
| step_fan_skip:
    "ss_pump s = PumpFanout data (c # cs) \<Longrightarrow> ss_store s c = Some cl \<Longrightarrow>
     DeliverClosed \<in> set (deliver_cases cl) \<or> DeliverDone \<in> set (deliver_cases cl) \<Longrightarrow>
     session_step lib s (s\<lparr>ss_pump := PumpFanout data cs\<rparr>)"
| step_fan_full:
    "ss_pump s = PumpFanout data (c # cs) \<Longrightarrow> ss_store s c = Some cl \<Longrightarrow> DeliverFull \<in> set (deliver_cases cl) \<Longrightarrow>
     session_step lib s ((begin_close c DetachSlowConsumer s)\<lparr>ss_pump := PumpFanout data cs\<rparr>)"
| step_fan_end: "ss_pump s = PumpFanout data [] \<Longrightarrow> session_step lib s (s\<lparr>ss_pump := PumpRead\<rparr>)"
| step_pump_error: "ss_pump s = PumpRead \<Longrightarrow> session_step lib s (pump_error s)"
| step_close_output:
    "ss_pump s = PumpClose (c # cs) \<Longrightarrow> ss_store s c = Some cl \<Longrightarrow>
     session_step lib s ((set_client c (closeOutput cl) s)\<lparr>ss_pump := PumpClose cs\<rparr>)"
| step_pump_end: "ss_pump s = PumpClose [] \<Longrightarrow> session_step lib s (s\<lparr>ss_pump := PumpDone\<rparr>)"
| step_exit_flag: "session_step lib s (s\<lparr>ss_exited := True\<rparr>)"
| step_exit_record: "ss_pump s = PumpDone \<Longrightarrow> session_step lib s (record_exit code now s)"

inductive_cases session_stepE: "session_step lib s s'"

section \<open>Invariants\<close>

definition fan_rest :: "'v Session \<Rightarrow> nat list" where
  "fan_rest s = (case ss_pump s of PumpFanout d cs \<Rightarrow> cs | _ \<Rightarrow> [])"

definition close_rest :: "'v Session \<Rightarrow> nat list" where
  "close_rest s = (case ss_pump s of PumpClose cs \<Rightarrow> cs | _ \<Rightarrow> [])"

definition closing :: "'v Session \<Rightarrow> bool" where
  "closing s = (case ss_pump s of PumpClose cs \<Rightarrow> True | PumpDone \<Rightarrow> True | _ \<Rightarrow> False)"

fun writer_ok :: "nat option \<Rightarrow> nat list \<Rightarrow> bool" where
  "writer_ok None cs = (cs = [])"
| "writer_ok (Some w) cs = (w \<in> set cs)"

fun pump_last :: "pump_pc \<Rightarrow> string list \<Rightarrow> bool" where
  "pump_last (PumpFanout d cs) out = (out \<noteq> [] \<and> last out = d)"
| "pump_last _ out = True"

text \<open>The roster: who is attached and who writes.\<close>

definition roster_ok :: "'v Session \<Rightarrow> bool" where
  "roster_ok s \<longleftrightarrow>
     (\<forall>c. ss_store s c \<noteq> None \<longleftrightarrow> c < ss_next s)
     \<and> distinct (ss_clients s) \<and> set (ss_clients s) \<subseteq> {..<ss_next s}
     \<and> writer_ok (ss_writer s) (ss_clients s)"

text \<open>The pump: what it still has to serve.\<close>

definition pump_ok :: "'v Session \<Rightarrow> bool" where
  "pump_ok s \<longleftrightarrow>
     distinct (fan_rest s) \<and> set (fan_rest s) \<subseteq> {..<ss_next s}
     \<and> pump_last (ss_pump s) (ss_gOut s)
     \<and> (closing s \<longrightarrow> ss_exited s)"

text \<open>A client by itself: what was read, is pending and is queued makes up what was queued.\<close>

definition client_ok :: "Client \<Rightarrow> bool" where
  "client_ok cl \<longleftrightarrow>
     (cl_closeOnce cl \<longleftrightarrow> cl_done cl) \<and> (cl_reason cl \<noteq> DetachNone \<longrightarrow> cl_done cl)
     \<and> length (cl_output cl) \<le> output_cap
     \<and> cl_gRead cl @ cl_pending cl @ concat (cl_output cl) = concat (cl_gLog cl)"

text \<open>What was queued for an attached client: the replay and all output since the snapshot.\<close>

definition stream_ok :: "string list \<Rightarrow> bool \<Rightarrow> Client \<Rightarrow> bool" where
  "stream_ok out waiting cl \<longleftrightarrow>
     (if waiting then cl_gBase cl < length out \<and> cl_gLog cl = cl_gReplay cl @ drop (cl_gBase cl) (butlast out)
      else cl_gBase cl \<le> length out \<and> cl_gLog cl = cl_gReplay cl @ drop (cl_gBase cl) out)"

definition member_ok :: "'v Session \<Rightarrow> nat \<Rightarrow> Client \<Rightarrow> bool" where
  "member_ok s c cl \<longleftrightarrow>
     client_ok cl
     \<and> (c \<in> set (ss_detaching s) \<longrightarrow> cl_done cl)
     \<and> (cl_done cl \<longrightarrow> c \<in> set (ss_clients s) \<longrightarrow> c \<in> set (ss_detaching s))
     \<and> (\<not> cl_done cl \<longrightarrow> c \<in> set (ss_clients s) \<or> cl_outputClosed cl)
     \<and> (c \<in> set (ss_clients s) \<longrightarrow> cl_outputClosed cl \<longrightarrow> closing s)
     \<and> (closing s \<longrightarrow> cl_outputClosed cl \<or> cl_done cl \<or> c \<in> set (close_rest s))
     \<and> (c \<in> set (ss_clients s) \<longrightarrow> \<not> cl_done cl \<longrightarrow> stream_ok (ss_gOut s) (c \<in> set (fan_rest s)) cl)"

definition detaching_ok :: "'v Session \<Rightarrow> bool" where
  "detaching_ok s \<longleftrightarrow> distinct (ss_detaching s) \<and> set (ss_detaching s) \<subseteq> {..<ss_next s}"

definition session_inv :: "'v Session \<Rightarrow> bool" where
  "session_inv s \<longleftrightarrow>
     roster_ok s \<and> pump_ok s \<and> detaching_ok s
     \<and> (\<forall>c cl. ss_store s c = Some cl \<longrightarrow> member_ok s c cl)"

lemma newSession_inv: "session_inv (newSession vte cols rows)"
  by (simp add: session_inv_def roster_ok_def pump_ok_def detaching_ok_def newSession_def fan_rest_def closing_def)

text \<open>The parts of a state that the invariants read, for the operations that leave most of it alone.\<close>

definition same_view :: "'v Session \<Rightarrow> 'v Session \<Rightarrow> bool" where
  "same_view s s' \<longleftrightarrow>
     ss_next s' = ss_next s \<and> ss_clients s' = ss_clients s \<and> ss_pump s' = ss_pump s
     \<and> ss_detaching s' = ss_detaching s \<and> ss_gOut s' = ss_gOut s"

lemma same_view_rests:
  assumes "same_view s s'"
  shows "fan_rest s' = fan_rest s" and "close_rest s' = close_rest s" and "closing s' = closing s"
  using assms by (simp_all add: same_view_def fan_rest_def close_rest_def closing_def)

lemma same_view_member: "same_view s s' \<Longrightarrow> member_ok s' c cl = member_ok s c cl"
  unfolding member_ok_def by (simp only: same_view_rests) (simp add: same_view_def)

lemma session_inv_view:
  assumes "session_inv s" and "same_view s s'" and "ss_exited s \<Longrightarrow> ss_exited s'"
    and "dom (ss_store s') = dom (ss_store s)"
    and "\<And>c cl. ss_store s' c = Some cl \<Longrightarrow> ss_store s c = Some cl \<or> member_ok s c cl"
    and "writer_ok (ss_writer s') (ss_clients s)"
  shows "session_inv s'"
proof -
  note v = assms(2)[unfolded same_view_def]
  have "roster_ok s'"
  proof -
    have "\<forall>c. ss_store s' c \<noteq> None \<longleftrightarrow> c < ss_next s'"
    proof -
      have "\<forall>c. ss_store s c \<noteq> None \<longleftrightarrow> c < ss_next s"
        using assms(1) unfolding session_inv_def roster_ok_def by blast
      moreover have "ss_next s' = ss_next s" using v by blast
      ultimately show ?thesis using assms(4) by (metis domIff)
    qed
    moreover have "distinct (ss_clients s')" "set (ss_clients s') \<subseteq> {..<ss_next s'}"
      using assms(1) v by (simp_all add: session_inv_def roster_ok_def)
    moreover have "writer_ok (ss_writer s') (ss_clients s')"
      using assms(6) v by simp
    ultimately show ?thesis unfolding roster_ok_def by blast
  qed
  moreover have "pump_ok s'"
  proof -
    have "pump_ok s" using assms(1) unfolding session_inv_def by blast
    then show ?thesis
      using assms(3) v unfolding pump_ok_def same_view_rests [OF assms(2)] by simp
  qed
  moreover have "member_ok s' c cl" if "ss_store s' c = Some cl" for c cl
    using assms(5) [OF that] assms(1) unfolding same_view_member [OF assms(2)] session_inv_def by blast
  ultimately show ?thesis using assms(1) v by (simp add: session_inv_def detaching_ok_def)
qed

lemma session_inv_frame:
  assumes "session_inv s" and "ss_store s' = ss_store s" and "same_view s s'"
    and "ss_exited s \<Longrightarrow> ss_exited s'"
    and "ss_writer s' = ss_writer s \<or> (\<exists>w \<in> set (ss_clients s). ss_writer s' = Some w)"
  shows "session_inv s'"
proof (rule session_inv_view [OF assms(1,3,4)])
  show "writer_ok (ss_writer s') (ss_clients s)"
    using assms(1,5) by (auto simp: session_inv_def roster_ok_def)
qed (simp_all add: assms(2))

lemma resizeLocked_frame [simp]:
  "ss_store (resizeLocked lib cols rows s) = ss_store s" "ss_next (resizeLocked lib cols rows s) = ss_next s"
  "ss_clients (resizeLocked lib cols rows s) = ss_clients s" "ss_writer (resizeLocked lib cols rows s) = ss_writer s"
  "ss_pump (resizeLocked lib cols rows s) = ss_pump s" "ss_detaching (resizeLocked lib cols rows s) = ss_detaching s"
  "ss_gOut (resizeLocked lib cols rows s) = ss_gOut s" "ss_exited (resizeLocked lib cols rows s) = ss_exited s"
  by (simp_all add: resizeLocked_def)

lemma TakeOver_inv:
  assumes "session_inv s" and "c \<in> set (ss_clients s)"
  shows "session_inv (TakeOver lib c cols rows s)"
  by (rule session_inv_frame [OF assms(1)]) (use assms(2) in \<open>simp_all add: TakeOver_def Let_def same_view_def\<close>)

lemma Resize_inv:
  assumes "session_inv s"
  shows "session_inv (Resize lib c cols rows s)"
  by (rule session_inv_frame [OF assms]) (simp_all add: Resize_def same_view_def)

lemma WriteInput_inv:
  assumes "session_inv s" and "WriteInput c p s = Inr s'"
  shows "session_inv s'"
  by (rule session_inv_frame [OF assms(1)])
    (use assms(2) in \<open>auto simp: WriteInput_def same_view_def split: if_splits\<close>)

lemma pty_write_inv: "session_inv s \<Longrightarrow> session_inv (pty_write p s)"
  by (erule session_inv_frame) (simp_all add: pty_write_def same_view_def)

lemma exit_flag_inv:
  assumes "session_inv s"
  shows "session_inv (s\<lparr>ss_exited := True\<rparr>)"
  by (rule session_inv_frame [OF assms]) (simp_all add: same_view_def)

lemma record_exit_inv:
  assumes "session_inv s"
  shows "session_inv (record_exit code now s)"
  by (rule session_inv_frame [OF assms]) (simp_all add: record_exit_def Let_def same_view_def)

text \<open>Changing one client.\<close>

lemma set_client_inv:
  assumes "session_inv s" and "ss_store s c = Some cl" and "member_ok s c cl'"
  shows "session_inv (set_client c cl' s)"
proof (rule session_inv_view [OF assms(1)])
  show "writer_ok (ss_writer (set_client c cl' s)) (ss_clients s)"
    using assms(1) by (simp add: set_client_def session_inv_def roster_ok_def)
  show "dom (ss_store (set_client c cl' s)) = dom (ss_store s)"
    using assms(2) by (auto simp: set_client_def)
qed (use assms(3) in \<open>auto simp: set_client_def same_view_def split: if_splits\<close>)

lemma session_inv_member: "session_inv s \<Longrightarrow> ss_store s c = Some cl \<Longrightarrow> member_ok s c cl"
  by (simp add: session_inv_def)

lemma Read_cases_ok:
  assumes "client_ok cl" and "(res, cl') \<in> set (Read_cases n cl)"
  shows "client_ok cl' \<and> cl_done cl' = cl_done cl \<and> cl_outputClosed cl' = cl_outputClosed cl
    \<and> cl_gLog cl' = cl_gLog cl \<and> cl_gReplay cl' = cl_gReplay cl \<and> cl_gBase cl' = cl_gBase cl"
proof (cases "cl_pending cl = []")
  case False
  with assms show ?thesis by (simp add: Read_cases_def client_ok_def)
next
  case True
  show ?thesis
  proof (cases "cl_output cl")
    case Nil
    with True assms show ?thesis by (auto simp: Read_cases_def split: if_splits)
  next
    case (Cons data rest)
    have "client_ok (cl\<lparr>cl_output := rest, cl_pending := (if n < length data then drop n data else cl_pending cl),
                 cl_gRead := cl_gRead cl @ take n data\<rparr>)"
      using assms(1) True Cons by (simp add: client_ok_def)
    with True Cons assms show ?thesis by (auto simp: Read_cases_def split: if_splits)
  qed
qed

lemma Read_inv:
  assumes "session_inv s" and "ss_store s c = Some cl" and "(res, cl') \<in> set (Read_cases n cl)"
  shows "session_inv (set_client c cl' s)"
proof (rule set_client_inv [OF assms(1,2)])
  have m: "member_ok s c cl" by (rule session_inv_member [OF assms(1,2)])
  then have "client_ok cl" by (simp add: member_ok_def)
  from Read_cases_ok [OF this assms(3)] m show "member_ok s c cl'"
    by (auto simp: member_ok_def stream_ok_def)
qed

lemma close_begin_ok:
  assumes "client_ok cl"
  shows "client_ok (close_begin reason cl)"
  using assms by (simp add: client_ok_def close_begin_def)

lemma begin_close_inv:
  assumes "session_inv s"
  shows "session_inv (begin_close c reason s)"
proof (cases "\<exists>cl. ss_store s c = Some cl \<and> \<not> cl_closeOnce cl")
  case False
  then have "begin_close c reason s = s" by (auto simp: begin_close_def split: option.splits)
  with assms show ?thesis by simp
next
  case True
  then obtain cl where cl: "ss_store s c = Some cl" "\<not> cl_closeOnce cl" by blast
  let ?s = "(set_client c (close_begin reason cl) s)\<lparr>ss_detaching := c # ss_detaching s\<rparr>"
  have eq: "begin_close c reason s = ?s" using cl by (simp add: begin_close_def)
  have m: "member_ok s c cl" by (rule session_inv_member [OF assms cl(1)])
  then have nd: "\<not> cl_done cl" using cl(2) by (simp add: member_ok_def client_ok_def)
  then have nin: "c \<notin> set (ss_detaching s)" using m by (auto simp: member_ok_def)
  have rests: "fan_rest ?s = fan_rest s" "close_rest ?s = close_rest s" "closing ?s = closing s"
    by (simp_all add: fan_rest_def close_rest_def closing_def set_client_def)
  have "member_ok ?s d x" if "ss_store ?s d = Some x" for d x
  proof (cases "d = c")
    case True
    with that have x: "x = close_begin reason cl" by (simp add: set_client_def)
    have "client_ok x" using m by (simp add: x member_ok_def close_begin_ok)
    with m show ?thesis
      unfolding member_ok_def rests x True by (simp add: set_client_def close_begin_def)
  next
    case False
    then have "member_ok s d x" using that assms by (simp add: set_client_def session_inv_def)
    with False show ?thesis unfolding member_ok_def rests by (simp add: set_client_def)
  qed
  moreover have "roster_ok ?s"
    using assms cl(1) by (auto simp: session_inv_def roster_ok_def set_client_def)
  moreover have "pump_ok ?s"
    using assms unfolding session_inv_def pump_ok_def rests by (simp add: set_client_def)
  moreover have "detaching_ok ?s"
    using assms nin cl(1) by (auto simp: session_inv_def detaching_ok_def roster_ok_def set_client_def)
  ultimately show ?thesis unfolding eq session_inv_def by blast
qed

lemma Detach_fields:
  "ss_clients (Detach now c s) = remove1 c (ss_clients s)"
  "ss_writer (Detach now c s) = (if ss_writer s = Some c
     then (if remove1 c (ss_clients s) \<noteq> [] then Some (last (remove1 c (ss_clients s))) else None) else ss_writer s)"
  "ss_store (Detach now c s) = ss_store s" "ss_next (Detach now c s) = ss_next s"
  "ss_pump (Detach now c s) = ss_pump s" "ss_gOut (Detach now c s) = ss_gOut s"
  "ss_exited (Detach now c s) = ss_exited s" "ss_detaching (Detach now c s) = ss_detaching s"
  by (simp_all add: Detach_def Let_def)

lemma writer_ok_remove:
  "writer_ok w cs \<Longrightarrow>
     writer_ok (if w = Some c then (if remove1 c cs \<noteq> [] then Some (last (remove1 c cs)) else None) else w) (remove1 c cs)"
proof (cases w)
  case (Some x)
  assume "writer_ok w cs"
  with Some show ?thesis using last_in_set [of "remove1 c cs"] by (auto simp: in_set_remove1)
qed simp

lemma Detach_inv:
  assumes "session_inv s" and "c \<in> set (ss_detaching s)"
  shows "session_inv ((Detach now c s)\<lparr>ss_detaching := remove1 c (ss_detaching s)\<rparr>)" (is "session_inv ?s")
proof -
  have dist: "distinct (ss_clients s)" "distinct (ss_detaching s)"
    using assms(1) by (simp_all add: session_inv_def roster_ok_def detaching_ok_def)
  have rests: "fan_rest ?s = fan_rest s" "close_rest ?s = close_rest s" "closing ?s = closing s"
    by (simp_all add: fan_rest_def close_rest_def closing_def Detach_fields)
  have "roster_ok ?s"
  proof -
    have "writer_ok (ss_writer ?s) (ss_clients ?s)"
      using assms(1) writer_ok_remove [of "ss_writer s" "ss_clients s" c]
      by (simp add: Detach_fields session_inv_def roster_ok_def)
    then show ?thesis
      using assms(1) dist(1) by (auto simp: session_inv_def roster_ok_def Detach_fields)
  qed
  moreover have "pump_ok ?s"
    using assms(1) unfolding session_inv_def pump_ok_def rests by (simp add: Detach_fields)
  moreover have "detaching_ok ?s"
    using assms(1) dist(2) by (auto simp: session_inv_def detaching_ok_def Detach_fields)
  moreover have "member_ok ?s d x" if "ss_store ?s d = Some x" for d x
  proof -
    have m: "member_ok s d x" using that assms(1) by (simp add: Detach_fields session_inv_def)
    have "d = c \<Longrightarrow> cl_done x" using m assms(2) by (simp add: member_ok_def)
    with m show ?thesis
      unfolding member_ok_def rests using dist by (auto simp: Detach_fields)
  qed
  ultimately show ?thesis unfolding session_inv_def by blast
qed

text \<open>A new client.\<close>

lemma newClient_send_ok:
  "client_ok ((send blob (newClient base))\<lparr>cl_gReplay := [blob]\<rparr>)"
  by (simp add: client_ok_def send_def newClient_def output_cap_def)

lemma add_client_inv:
  assumes "session_inv s" and "ss_store s' = (ss_store s)(ss_next s \<mapsto> cl)" and "ss_next s' = ss_next s + 1"
    and "ss_clients s' = ss_clients s @ (if attached then [ss_next s] else [])"
    and "ss_pump s' = ss_pump s" "ss_detaching s' = ss_detaching s" "ss_gOut s' = ss_gOut s" "ss_exited s' = ss_exited s"
    and "writer_ok (ss_writer s') (ss_clients s')"
    and "client_ok cl" "\<not> cl_done cl"
    and "attached \<Longrightarrow> \<not> ss_exited s \<and> \<not> cl_outputClosed cl \<and> cl_gBase cl = length (ss_gOut s) \<and> cl_gLog cl = cl_gReplay cl"
    and "\<not> attached \<Longrightarrow> cl_outputClosed cl"
  shows "session_inv s'"
proof -
  let ?n = "ss_next s"
  have rests: "fan_rest s' = fan_rest s" "close_rest s' = close_rest s" "closing s' = closing s"
    using assms(5) by (simp_all add: fan_rest_def close_rest_def closing_def)
  have roster: "roster_ok s" and pump: "pump_ok s" and det: "detaching_ok s"
    using assms(1) by (simp_all add: session_inv_def)
  have fresh: "?n \<notin> set (ss_clients s)" "?n \<notin> set (ss_detaching s)" "?n \<notin> set (fan_rest s)"
    using roster pump det by (auto simp: roster_ok_def pump_ok_def detaching_ok_def)
  have "roster_ok s'"
    using roster assms(2,3,4,9) fresh by (auto simp: roster_ok_def less_Suc_eq)
  moreover have "pump_ok s'"
    using pump assms(3,5,7,8) unfolding pump_ok_def rests by auto
  moreover have "member_ok s' d x" if "ss_store s' d = Some x" for d x
  proof (cases "d = ?n")
    case True
    with that assms(2) have x: "x = cl" by simp
    show ?thesis
    proof (cases attached)
      case True
      have "\<not> closing s" using pump assms(12) [OF True] by (auto simp: pump_ok_def)
      then show ?thesis
        unfolding member_ok_def rests x \<open>d = ?n\<close>
        using True assms(4,6,7,10,11) assms(12) [OF True] fresh by (simp add: stream_ok_def)
    next
      case False
      then show ?thesis
        unfolding member_ok_def rests x \<open>d = ?n\<close>
        using assms(4,6,10,11) assms(13) [OF False] fresh by simp
    qed
  next
    case False
    then have "member_ok s d x" using that assms(1,2) by (simp add: session_inv_def)
    with False show ?thesis unfolding member_ok_def rests using assms(4,6,7) by auto
  qed
  moreover have "detaching_ok s'" using det assms(3,6) by (auto simp: detaching_ok_def)
  ultimately show ?thesis by (simp add: session_inv_def)
qed

lemma Attach_live_fields:
  assumes "\<not> ss_exited s"
  obtains blob where
    "ss_store (snd (Attach lib cols rows s)) =
       (ss_store s)(ss_next s \<mapsto> (send blob (newClient (length (ss_gOut s))))\<lparr>cl_gReplay := [blob]\<rparr>)"
    and "blob = (if vl_IsAltScreen lib (ss_vte s) then alt_screen_blob else replay_blob lib (ss_vte s))"
    and "ss_next (snd (Attach lib cols rows s)) = ss_next s + 1"
    and "ss_clients (snd (Attach lib cols rows s)) = ss_clients s @ [ss_next s]"
    and "ss_writer (snd (Attach lib cols rows s)) = (if ss_writer s = None then Some (ss_next s) else ss_writer s)"
    and "ss_pump (snd (Attach lib cols rows s)) = ss_pump s"
    and "ss_detaching (snd (Attach lib cols rows s)) = ss_detaching s"
    and "ss_gOut (snd (Attach lib cols rows s)) = ss_gOut s"
    and "ss_exited (snd (Attach lib cols rows s)) = ss_exited s"
  using that assms by (simp add: Attach_def Let_def)

lemma Attach_inv:
  assumes "session_inv s"
  shows "session_inv (snd (Attach lib cols rows s))"
proof (cases "ss_exited s")
  case True
  show ?thesis
    by (rule add_client_inv [OF assms, where attached = False and cl = "closeOutput (newClient (length (ss_gOut s)))"])
      (use True assms in \<open>simp_all add: Attach_def Let_def closeOutput_def newClient_def client_ok_def output_cap_def
         session_inv_def roster_ok_def\<close>)
next
  case False
  show ?thesis
  proof (rule Attach_live_fields [OF False, of lib cols rows])
    fix blob
    assume a: "ss_store (snd (Attach lib cols rows s)) =
       (ss_store s)(ss_next s \<mapsto> (send blob (newClient (length (ss_gOut s))))\<lparr>cl_gReplay := [blob]\<rparr>)"
      "ss_next (snd (Attach lib cols rows s)) = ss_next s + 1"
      "ss_clients (snd (Attach lib cols rows s)) = ss_clients s @ [ss_next s]"
      "ss_writer (snd (Attach lib cols rows s)) = (if ss_writer s = None then Some (ss_next s) else ss_writer s)"
      "ss_pump (snd (Attach lib cols rows s)) = ss_pump s"
      "ss_detaching (snd (Attach lib cols rows s)) = ss_detaching s"
      "ss_gOut (snd (Attach lib cols rows s)) = ss_gOut s"
      "ss_exited (snd (Attach lib cols rows s)) = ss_exited s"
    have w: "writer_ok (ss_writer s) (ss_clients s)" using assms by (simp add: session_inv_def roster_ok_def)
    show ?thesis
      by (rule add_client_inv [OF assms a(1,2), where attached = True])
        (use w False in \<open>simp_all add: a newClient_send_ok, cases "ss_writer s", simp_all add: send_def newClient_def\<close>)
  qed
qed

text \<open>The pump.\<close>

lemma pump_data_inv:
  assumes "session_inv s" and "ss_pump s = PumpRead"
  shows "session_inv (pump_data lib data s)" (is "session_inv ?s")
proof -
  have rests: "fan_rest ?s = ss_clients s" "close_rest ?s = close_rest s" "closing ?s = closing s"
    "fan_rest s = []" "\<not> closing s"
    using assms(2) by (simp_all add: fan_rest_def close_rest_def closing_def pump_data_def)
  have "member_ok ?s c cl" if "ss_store ?s c = Some cl" for c cl
  proof -
    have "member_ok s c cl" using that assms(1) by (simp add: pump_data_def session_inv_def)
    then show ?thesis unfolding member_ok_def rests by (auto simp: pump_data_def stream_ok_def)
  qed
  moreover have "roster_ok ?s" "detaching_ok ?s"
    using assms(1) by (simp_all add: session_inv_def roster_ok_def detaching_ok_def pump_data_def)
  moreover have "pump_ok ?s"
    using assms(1) rests unfolding pump_ok_def rests by (auto simp: session_inv_def roster_ok_def pump_data_def)
  ultimately show ?thesis by (simp add: session_inv_def)
qed

text \<open>Serving one client of the fan-out: it is either up to date or no longer a live member.\<close>

lemma fan_advance_inv:
  assumes "session_inv s" and "ss_pump s = PumpFanout data (c # cs)" and "ss_store s c = Some cl"
    and "client_ok cl'" "cl_done cl' = cl_done cl" "cl_outputClosed cl' = cl_outputClosed cl"
      "cl_gBase cl' = cl_gBase cl" "cl_gReplay cl' = cl_gReplay cl"
    and "cl_gLog cl' = cl_gLog cl @ [data] \<or> cl_done cl \<or> cl_outputClosed cl"
  shows "session_inv ((set_client c cl' s)\<lparr>ss_pump := PumpFanout data cs\<rparr>)" (is "session_inv ?s")
proof -
  have rests: "fan_rest ?s = cs" "fan_rest s = c # cs" "closing ?s = closing s" "\<not> closing s" "close_rest ?s = close_rest s"
    using assms(2) by (simp_all add: fan_rest_def close_rest_def closing_def set_client_def)
  have pump: "pump_ok s" using assms(1) by (simp add: session_inv_def)
  then have out: "ss_gOut s \<noteq> []" "last (ss_gOut s) = data" "c \<notin> set cs" "distinct cs"
    using assms(2) rests(2) by (auto simp: pump_ok_def)
  have m: "member_ok s c cl" by (rule session_inv_member [OF assms(1,3)])
  have str: "stream_ok (ss_gOut s) False cl'" if "c \<in> set (ss_clients s)" "\<not> cl_done cl"
  proof -
    have nc: "\<not> cl_outputClosed cl" using m that rests(4) by (auto simp: member_ok_def)
    have "stream_ok (ss_gOut s) True cl" using m that rests(2) by (simp add: member_ok_def)
    then have b: "cl_gBase cl < length (ss_gOut s)"
      and l: "cl_gLog cl = cl_gReplay cl @ drop (cl_gBase cl) (butlast (ss_gOut s))" by (simp_all add: stream_ok_def)
    have "ss_gOut s = butlast (ss_gOut s) @ [data]" using out by (metis append_butlast_last_id)
    then have "drop (cl_gBase cl) (ss_gOut s) = drop (cl_gBase cl) (butlast (ss_gOut s)) @ [data]"
      using b by (metis Suc_pred append_butlast_last_id diff_is_0_eq drop0 drop_append length_append_singleton length_butlast
          less_Suc_eq_le out(1,2))
    with b l assms(7,8,9) that nc show ?thesis by (auto simp: stream_ok_def)
  qed
  have "member_ok ?s d x" if "ss_store ?s d = Some x" for d x
  proof (cases "d = c")
    case True
    with that have x: "x = cl'" by (simp add: set_client_def)
    show ?thesis unfolding member_ok_def rests x True
      using m str assms(4,5,6) rests(4) out(3) by (auto simp: member_ok_def set_client_def)
  next
    case False
    then have "member_ok s d x" using that assms(1) by (simp add: set_client_def session_inv_def)
    with False show ?thesis unfolding member_ok_def rests by (auto simp: set_client_def)
  qed
  moreover have "roster_ok ?s" "detaching_ok ?s"
    using assms(1,3) by (auto simp: session_inv_def roster_ok_def detaching_ok_def set_client_def)
  moreover have "pump_ok ?s"
    using pump out unfolding pump_ok_def rests by (simp add: set_client_def)
  ultimately show ?thesis unfolding session_inv_def by blast
qed

lemma set_client_same: "ss_store s c = Some cl \<Longrightarrow> set_client c cl s = s"
  by (simp add: set_client_def fun_upd_idem)

lemma fan_skip_inv:
  assumes "session_inv s" and "ss_pump s = PumpFanout data (c # cs)" and "ss_store s c = Some cl"
    and "cl_done cl \<or> cl_outputClosed cl"
  shows "session_inv (s\<lparr>ss_pump := PumpFanout data cs\<rparr>)"
proof -
  have "client_ok cl" using session_inv_member [OF assms(1,3)] by (simp add: member_ok_def)
  then have "session_inv ((set_client c cl s)\<lparr>ss_pump := PumpFanout data cs\<rparr>)"
    by (rule fan_advance_inv [OF assms(1,2,3)]) (use assms(4) in auto)
  then show ?thesis by (simp only: set_client_same [OF assms(3)])
qed

lemma fan_send_inv:
  assumes "session_inv s" and "ss_pump s = PumpFanout data (c # cs)" and "ss_store s c = Some cl"
    and "DeliverSend \<in> set (deliver_cases cl)"
  shows "session_inv ((set_client c (send data cl) s)\<lparr>ss_pump := PumpFanout data cs\<rparr>)"
proof (rule fan_advance_inv [OF assms(1,2,3)])
  have "client_ok cl" using session_inv_member [OF assms(1,3)] by (simp add: member_ok_def)
  moreover have "length (cl_output cl) < output_cap"
    using assms(4) by (auto simp: deliver_cases_def Let_def split: if_splits)
  ultimately show "client_ok (send data cl)" by (auto simp: client_ok_def send_def)
qed (simp_all add: send_def)

lemma fan_full_inv:
  assumes "session_inv s" and "ss_pump s = PumpFanout data (c # cs)" and "ss_store s c = Some cl"
  shows "session_inv ((begin_close c r s)\<lparr>ss_pump := PumpFanout data cs\<rparr>)"
proof (cases "cl_closeOnce cl")
  case True
  then have "begin_close c r s = s" using assms(3) by (simp add: begin_close_def)
  moreover have "cl_done cl" using True session_inv_member [OF assms(1,3)] by (simp add: member_ok_def client_ok_def)
  ultimately show ?thesis using fan_skip_inv [OF assms] by simp
next
  case False
  let ?s = "begin_close c r s"
  have "ss_pump ?s = PumpFanout data (c # cs)" "ss_store ?s c = Some (close_begin r cl)"
    using False assms(2,3) by (simp_all add: begin_close_def set_client_def)
  from fan_skip_inv [OF begin_close_inv [OF assms(1)] this] show ?thesis by (simp add: close_begin_def)
qed

lemma fan_end_inv:
  assumes "session_inv s" and "ss_pump s = PumpFanout data []"
  shows "session_inv (s\<lparr>ss_pump := PumpRead\<rparr>)" (is "session_inv ?s")
proof -
  have rests: "fan_rest ?s = fan_rest s" "close_rest ?s = close_rest s" "closing ?s = closing s" "\<not> closing s"
    using assms(2) by (simp_all add: fan_rest_def close_rest_def closing_def)
  have "member_ok ?s c cl" if "ss_store ?s c = Some cl" for c cl
  proof -
    have "member_ok s c cl" using that assms(1) by (simp add: session_inv_def)
    then show ?thesis unfolding member_ok_def rests by simp
  qed
  moreover have "roster_ok ?s" "detaching_ok ?s" "pump_ok ?s"
    using assms(1) rests(4) unfolding pump_ok_def rests
    by (simp_all add: session_inv_def roster_ok_def detaching_ok_def pump_ok_def)
  ultimately show ?thesis by (simp add: session_inv_def)
qed

lemma pump_error_inv:
  assumes "session_inv s" and "ss_pump s = PumpRead"
  shows "session_inv (pump_error s)" (is "session_inv ?s")
proof -
  have rests: "fan_rest ?s = []" "close_rest ?s = ss_clients s" "closing ?s" "\<not> closing s" "fan_rest s = []"
    using assms(2) by (simp_all add: fan_rest_def close_rest_def closing_def pump_error_def)
  have "member_ok ?s c cl" if "ss_store ?s c = Some cl" for c cl
  proof -
    have "member_ok s c cl" using that assms(1) by (simp add: session_inv_def pump_error_def)
    then show ?thesis unfolding member_ok_def rests using rests(3) by (auto simp: pump_error_def)
  qed
  moreover have "roster_ok ?s" "detaching_ok ?s" "pump_ok ?s"
    using assms(1) unfolding pump_ok_def rests
    by (simp_all add: session_inv_def roster_ok_def detaching_ok_def pump_error_def)
  ultimately show ?thesis by (simp add: session_inv_def)
qed

lemma close_output_inv:
  assumes "session_inv s" and "ss_pump s = PumpClose (c # cs)" and "ss_store s c = Some cl"
  shows "session_inv ((set_client c (closeOutput cl) s)\<lparr>ss_pump := PumpClose cs\<rparr>)" (is "session_inv ?s")
proof -
  have rests: "fan_rest ?s = []" "close_rest ?s = cs" "closing ?s" "closing s" "fan_rest s = []" "close_rest s = c # cs"
    using assms(2) by (simp_all add: fan_rest_def close_rest_def closing_def set_client_def)
  have "member_ok ?s d x" if "ss_store ?s d = Some x" for d x
  proof (cases "d = c")
    case True
    with that have x: "x = closeOutput cl" by (simp add: set_client_def)
    have m: "member_ok s c cl" by (rule session_inv_member [OF assms(1,3)])
    show ?thesis unfolding member_ok_def rests x True
      using m rests by (auto simp: member_ok_def client_ok_def stream_ok_def closeOutput_def set_client_def)
  next
    case False
    then have "member_ok s d x" using that assms(1) by (simp add: set_client_def session_inv_def)
    with False rests show ?thesis unfolding member_ok_def rests by (auto simp: set_client_def)
  qed
  moreover have "roster_ok ?s" "detaching_ok ?s" "pump_ok ?s"
    using assms(1,3) rests unfolding pump_ok_def rests
    by (auto simp: session_inv_def roster_ok_def detaching_ok_def pump_ok_def set_client_def)
  ultimately show ?thesis unfolding session_inv_def by blast
qed

lemma pump_end_inv:
  assumes "session_inv s" and "ss_pump s = PumpClose []"
  shows "session_inv (s\<lparr>ss_pump := PumpDone\<rparr>)" (is "session_inv ?s")
proof -
  have rests: "fan_rest ?s = fan_rest s" "close_rest ?s = close_rest s" "closing ?s = closing s" "closing s"
    using assms(2) by (simp_all add: fan_rest_def close_rest_def closing_def)
  have "member_ok ?s c cl" if "ss_store ?s c = Some cl" for c cl
  proof -
    have "member_ok s c cl" using that assms(1) by (simp add: session_inv_def)
    then show ?thesis unfolding member_ok_def rests by simp
  qed
  moreover have "roster_ok ?s" "detaching_ok ?s" "pump_ok ?s"
    using assms(1) rests(4) unfolding pump_ok_def rests
    by (simp_all add: session_inv_def roster_ok_def detaching_ok_def pump_ok_def)
  ultimately show ?thesis by (simp add: session_inv_def)
qed

lemma session_step_inv:
  assumes "session_step lib s s'" and "session_inv s"
  shows "session_inv s'"
  using assms
proof (cases rule: session_step.cases)
  case (step_fan_skip data c cs cl)
  then have "cl_done cl \<or> cl_outputClosed cl"
    by (auto simp: deliver_cases_def Let_def split: if_splits)
  with step_fan_skip assms(2) show ?thesis by (simp add: fan_skip_inv)
qed (use assms(2) in \<open>auto intro: Attach_inv TakeOver_inv Resize_inv WriteInput_inv pty_write_inv begin_close_inv Detach_inv Read_inv
    pump_data_inv fan_send_inv fan_full_inv fan_end_inv pump_error_inv close_output_inv pump_end_inv exit_flag_inv record_exit_inv\<close>)

lemma session_reach_inv:
  assumes "(session_step lib)\<^sup>*\<^sup>* (newSession vte cols rows) s"
  shows "session_inv s"
  using assms by (induction rule: rtranclp_induct) (auto intro: newSession_inv session_step_inv)

section \<open>Properties\<close>

abbreviation session_reach :: "('v, 'st) vte_lib \<Rightarrow> 'v \<Rightarrow> uint16 \<Rightarrow> uint16 \<Rightarrow> 'v Session \<Rightarrow> bool" where
  "session_reach lib vte cols rows s \<equiv> (session_step lib)\<^sup>*\<^sup>* (newSession vte cols rows) s"

lemma session_reach_member:
  assumes "session_reach lib vte cols rows s" and "ss_store s c = Some cl"
  shows "member_ok s c cl"
  using session_inv_member [OF session_reach_inv [OF assms(1)] assms(2)] .

text \<open>Output that the pump has read but not yet handed to a client in its fan-out.\<close>

definition delivered :: "'v Session \<Rightarrow> nat \<Rightarrow> string list" where
  "delivered s c = (if c \<in> set (fan_rest s) then butlast (ss_gOut s) else ss_gOut s)"

lemma attached_stream:
  assumes "session_reach lib vte cols rows s" and "ss_store s c = Some cl"
    and "c \<in> set (ss_clients s)" and "\<not> cl_done cl"
  shows "cl_gRead cl @ cl_pending cl @ concat (cl_output cl)
         = concat (cl_gReplay cl) @ concat (drop (cl_gBase cl) (delivered s c))"
proof -
  have m: "member_ok s c cl" by (rule session_reach_member [OF assms(1,2)])
  then have "cl_gLog cl = cl_gReplay cl @ drop (cl_gBase cl) (delivered s c)"
    using assms(3,4) by (auto simp: member_ok_def stream_ok_def delivered_def split: if_splits)
  moreover have "cl_gRead cl @ cl_pending cl @ concat (cl_output cl) = concat (cl_gLog cl)"
    using m by (simp add: member_ok_def client_ok_def)
  ultimately show ?thesis by simp
qed

lemma Read_cases_EOF:
  assumes "(ReadEOF, cl') \<in> set (Read_cases n cl)"
  shows "cl' = cl" and "cl_pending cl = []"
    and "\<not> cl_done cl \<Longrightarrow> cl_output cl = [] \<and> cl_outputClosed cl"
  using assms by (auto simp: Read_cases_def split: if_splits list.splits)

lemma Read_cases_ready:
  assumes "cl_outputClosed cl \<or> cl_done cl"
  shows "Read_cases n cl \<noteq> []"
  using assms by (auto simp: Read_cases_def split: list.splits)

lemma closing_fan_rest: "closing s \<Longrightarrow> fan_rest s = []"
  by (auto simp: closing_def fan_rest_def split: pump_pc.splits)

text \<open>An emulator that keeps the screen as the bytes written, and a run of one client on it.\<close>

definition plain_vte :: "(string, unit) vte_lib" where
  "plain_vte =
     \<lparr>vl_IsAltScreen = (\<lambda>v. False), vl_Render = (\<lambda>v. v), vl_CursorX = (\<lambda>v. int (length v)), vl_CursorY = (\<lambda>v. 0),
      vl_Scrollback = (\<lambda>v. (0, 80, \<lambda>x y. None)), vl_Write = (\<lambda>v d. v @ d), vl_Resize = (\<lambda>v c r. v),
      vl_style = \<lparr>sl_zero = (), sl_Equal = (=), sl_Diff = (\<lambda>a b. []), sl_IsZero = (\<lambda>a. True), sl_Reset = []\<rparr>\<rparr>"

definition run_start :: "string Session" where
  "run_start = newSession [] 80 24"

definition run_attached :: "string Session" where
  "run_attached = snd (Attach plain_vte 80 24 run_start)"

definition run_output :: "string Session" where
  "run_output = pump_data plain_vte ''hi'' run_attached"

definition run_client :: Client where
  "run_client = (send [ESC, CHR ''c''] (newClient 0))\<lparr>cl_gReplay := [[ESC, CHR ''c'']]\<rparr>"

definition run_sent :: "string Session" where
  "run_sent = (set_client 0 (send ''hi'' run_client) run_output)\<lparr>ss_pump := PumpFanout ''hi'' []\<rparr>"

definition read_all :: "Client \<Rightarrow> Client" where
  "read_all cl = cl\<lparr>cl_output := [], cl_gRead := cl_gRead cl @ concat (cl_output cl)\<rparr>"

definition run_error :: "string Session" where
  "run_error = pump_error (run_sent\<lparr>ss_pump := PumpRead\<rparr>)"

definition run_closed :: "string Session" where
  "run_closed = (set_client 0 (closeOutput (send ''hi'' run_client)) run_error)\<lparr>ss_pump := PumpClose []\<rparr>"

definition run_done :: "string Session" where
  "run_done = run_closed\<lparr>ss_pump := PumpDone\<rparr>"

definition run_read :: "string Session" where
  "run_read = set_client 0 (read_all (closeOutput (send ''hi'' run_client))) run_done"

lemmas run_defs = run_start_def run_attached_def run_output_def run_client_def run_sent_def run_error_def
  run_closed_def run_done_def run_read_def read_all_def

lemmas run_eval = run_defs plain_vte_def newSession_def Attach_def Let_def pump_data_def pump_error_def set_client_def
  closeOutput_def send_def newClient_def replay_blob_def renderVTEScrollback_def ToCRLF_def ESC_def

lemma run_attached_client: "ss_store run_output 0 = Some run_client"
  by (simp add: run_eval)

lemma run_output_reach: "session_reach plain_vte [] 80 24 run_output"
proof -
  have "session_step plain_vte (newSession [] 80 24) run_attached"
    unfolding run_attached_def run_start_def by (rule step_attach)
  moreover have "session_step plain_vte run_attached run_output"
    unfolding run_output_def by (rule step_pump_data) (simp add: run_eval)
  ultimately show ?thesis by (meson r_into_rtranclp rtranclp.rtrancl_into_rtrancl)
qed

lemma run_sent_reach: "session_reach plain_vte [] 80 24 run_sent"
proof -
  have "session_step plain_vte run_output run_sent"
    unfolding run_sent_def
    by (rule step_fan_send [OF _ run_attached_client]) (simp_all add: run_eval deliver_cases_def output_cap_def)
  with run_output_reach show ?thesis by (rule rtranclp.rtrancl_into_rtrancl)
qed

lemma run_done_reach: "session_reach plain_vte [] 80 24 run_done"
proof -
  note [trans] = rtranclp.rtrancl_into_rtrancl
  have "session_reach plain_vte [] 80 24 run_sent" by (rule run_sent_reach)
  also have "session_step plain_vte run_sent (run_sent\<lparr>ss_pump := PumpRead\<rparr>)"
    by (rule step_fan_end [where data = "''hi''"]) (simp add: run_sent_def)
  also have "session_step plain_vte (run_sent\<lparr>ss_pump := PumpRead\<rparr>) run_error"
    unfolding run_error_def by (rule step_pump_error) simp
  also have "session_step plain_vte run_error run_closed"
    unfolding run_closed_def by (rule step_close_output) (simp_all add: run_eval)
  also have "session_step plain_vte run_closed run_done"
    unfolding run_done_def by (rule step_pump_end) (simp add: run_closed_def)
  finally show ?thesis .
qed

lemma run_read_reach: "session_reach plain_vte [] 80 24 run_read"
proof -
  let ?c = "closeOutput (send ''hi'' run_client)"
  let ?c1 = "?c\<lparr>cl_output := [''hi''], cl_gRead := [ESC, CHR ''c'']\<rparr>"
  have s0: "ss_store run_done 0 = Some ?c" by (simp add: run_eval)
  have "session_step plain_vte run_done (set_client 0 ?c1 run_done)"
    by (rule step_read [OF s0, where n = 10 and res = "ReadData [ESC, CHR ''c'']"]) (simp add: run_eval Read_cases_def)
  moreover have "session_step plain_vte (set_client 0 ?c1 run_done) run_read"
  proof -
    have "session_step plain_vte (set_client 0 ?c1 run_done) (set_client 0 (read_all ?c) (set_client 0 ?c1 run_done))"
      by (rule step_read [where n = 10 and res = "ReadData ''hi''" and cl = ?c1]) (simp_all add: run_eval Read_cases_def)
    then show ?thesis by (simp add: run_read_def set_client_def)
  qed
  ultimately show ?thesis using run_done_reach by (meson rtranclp.rtrancl_into_rtrancl)
qed



text \<open>
  C7. No output is lost, repeated or reordered. In every reachable state, for every client that is
  attached and not closed, the bytes its reader has received followed by the bytes still pending and
  queued are exactly its replay followed by all shell output since the snapshot the replay was
  rendered from (less the one chunk that the pump is still handing out, for a client it has not
  come to). At most 1024 chunks are queued.
\<close>

theorem session_stream_exact:
  assumes "session_reach lib vte cols rows s" and "ss_store s c = Some cl"
    and "c \<in> set (ss_clients s)" and "\<not> cl_done cl"
  shows "cl_gRead cl @ cl_pending cl @ concat (cl_output cl)
           = concat (cl_gReplay cl) @ concat (drop (cl_gBase cl) (delivered s c))
         \<and> length (cl_output cl) \<le> 1024"
proof
  have "length (cl_output cl) \<le> output_cap"
    using session_reach_member [OF assms(1,2)] by (simp add: member_ok_def client_ok_def)
  then show "length (cl_output cl) \<le> 1024" by (simp add: output_cap_def)
qed (rule attached_stream [OF assms])

theorem session_stream_exact_witness:
  "\<exists>cl. ss_store run_sent 0 = Some cl
        \<and> cl_gRead cl @ cl_pending cl @ concat (cl_output cl) = [ESC, CHR ''c''] @ ''hi''"
proof -
  let ?cl = "send ''hi'' run_client"
  have c: "ss_store run_sent 0 = Some ?cl" "0 \<in> set (ss_clients run_sent)" "\<not> cl_done ?cl"
    by (simp_all add: run_eval)
  have "concat (cl_gReplay ?cl) @ concat (drop (cl_gBase ?cl) (delivered run_sent 0)) = [ESC, CHR ''c''] @ ''hi''"
    by (simp add: delivered_def fan_rest_def run_eval)
  with session_stream_exact [OF run_sent_reach c] c(1) show ?thesis by simp
qed

text \<open>
  C19. A clean end of file means that the shell is gone and that everything was read. Once the pump
  has ended, no client's \<^verbatim>\<open>Read\<close> blocks, whatever the size of its buffer. And whenever \<^verbatim>\<open>Read\<close> gives
  end of file to a client that nobody closed, the session has exited and, if the client attached
  before the exit, its reader has received its replay and all shell output since.
\<close>

theorem session_eof_is_exit:
  assumes "session_reach lib vte cols rows s" and "ss_store s c = Some cl"
  shows "(ss_pump s = PumpDone \<longrightarrow> Read_cases n cl \<noteq> [])
         \<and> ((ReadEOF, cl') \<in> set (Read_cases n cl) \<longrightarrow> \<not> cl_done cl \<longrightarrow> c \<in> set (ss_clients s) \<longrightarrow>
              ss_exited s \<and> cl_gRead cl = concat (cl_gReplay cl) @ concat (drop (cl_gBase cl) (ss_gOut s)))"
proof (intro conjI impI)
  have m: "member_ok s c cl" by (rule session_reach_member [OF assms])
  { assume "ss_pump s = PumpDone"
    then have "cl_outputClosed cl \<or> cl_done cl" using m by (auto simp: member_ok_def closing_def close_rest_def)
    then show "Read_cases n cl \<noteq> []" by (rule Read_cases_ready) }
  assume e: "(ReadEOF, cl') \<in> set (Read_cases n cl)" and d: "\<not> cl_done cl" and a: "c \<in> set (ss_clients s)"
  note eof = Read_cases_EOF [OF e]
  have cl: "closing s" using m a eof(3) [OF d] by (simp add: member_ok_def)
  then show "ss_exited s" using session_reach_inv [OF assms(1)] by (simp add: session_inv_def pump_ok_def)
  show "cl_gRead cl = concat (cl_gReplay cl) @ concat (drop (cl_gBase cl) (ss_gOut s))"
    using attached_stream [OF assms a d] eof(2) eof(3) [OF d] closing_fan_rest [OF cl] by (simp add: delivered_def)
qed

theorem session_eof_is_exit_witness:
  "\<exists>cl. ss_store run_read 0 = Some cl \<and> (ReadEOF, cl) \<in> set (Read_cases 10 cl)
        \<and> ss_exited run_read \<and> cl_gRead cl = [ESC, CHR ''c''] @ ''hi''"
proof -
  let ?cl = "read_all (closeOutput (send ''hi'' run_client))"
  have c: "ss_store run_read 0 = Some ?cl" by (simp add: run_read_def set_client_def)
  have "(ReadEOF, ?cl) \<in> set (Read_cases 10 ?cl)" "\<not> cl_done ?cl" "0 \<in> set (ss_clients run_read)"
    by (simp_all add: run_eval Read_cases_def)
  moreover have "concat (cl_gReplay ?cl) @ concat (drop (cl_gBase ?cl) (ss_gOut run_read)) = [ESC, CHR ''c''] @ ''hi''"
    by (simp add: run_eval)
  ultimately show ?thesis using session_eof_is_exit [OF run_read_reach c, of 10 ?cl] c by auto
qed

end
