(* ===== verification/Session_Manager.thy ===== *)
theory Session_Manager
  imports Session "HOL-Library.AList"
begin

text \<open>
  The session manager, \<^verbatim>\<open>session/manager.go\<close>, and the write protocol of the state file,
  \<^verbatim>\<open>session/statefile.go\<close>.

  The manager's map is an association list; the code reads it only in ways that do not depend on the
  order. A managed session is the state of the session with what the manager-facing \<^verbatim>\<open>Info\<close> reads
  besides. \<^verbatim>\<open>Create\<close> and the deletion of an expired session are critical sections of the manager's
  mutex, and \<open>manager_step\<close> interleaves them with the steps of every session. The state-file protocol
  is a separate relation over an arbitrary state, because the file only depends on when the changes
  and the snapshots happen.
\<close>

section \<open>Sessions as the manager sees them\<close>

record SessionInfo =
  si_ID :: string
  si_Command :: string
  si_ClientCount :: nat
  si_Status :: Status
  si_ExitCode :: int
  si_CreatedAt :: int
  si_ExitedAt :: int
  si_DetachedAt :: int
  si_LastDetachReason :: DetachReason

record 'v managed =
  ms_path :: string
  ms_createdAt :: int
  ms_session :: "'v Session"

definition Info :: "string \<Rightarrow> 'v managed \<Rightarrow> SessionInfo" where
  "Info ident e =
     \<lparr>si_ID = ident, si_Command = ms_path e, si_ClientCount = length (ss_clients (ms_session e)),
      si_Status = Info_Status (ms_session e), si_ExitCode = ss_exitCode (ms_session e),
      si_CreatedAt = ms_createdAt e, si_ExitedAt = ss_exitedAt (ms_session e),
      si_DetachedAt = ss_detachedAt (ms_session e), si_LastDetachReason = ss_lastDetachReason (ms_session e)\<rparr>"

section \<open>The manager\<close>

record 'v Manager =
  mg_sessions :: "(string \<times> 'v managed) list"
  mg_counter :: nat
  mg_limit :: int
  mg_stateFilePath :: string
  mg_Command :: "string list"

definition NewManager :: "int \<Rightarrow> 'v Manager" where
  "NewManager limit =
     \<lparr>mg_sessions = [], mg_counter = 0, mg_limit = limit, mg_stateFilePath = [], mg_Command = []\<rparr>"

definition SetStateFilePath :: "string \<Rightarrow> 'v Manager \<Rightarrow> 'v Manager" where
  "SetStateFilePath path m = m\<lparr>mg_stateFilePath := path\<rparr>"

definition shellCmd :: "'v Manager \<Rightarrow> string list" where
  "shellCmd m = (if length (mg_Command m) > 0 then mg_Command m else [''/bin/bash'', ''--login''])"

definition active_sessions :: "'v Manager \<Rightarrow> nat" where
  "active_sessions m = length (filter (\<lambda>(i, e). \<not> ss_exited (ms_session e)) (mg_sessions m))"

datatype create_error = SessionLimitReached int | StartShell string

text \<open>
  \<open>vte\<close> is the new emulator, \<open>look\<close> the path of a program (as \<^verbatim>\<open>exec.Command\<close> finds it) and \<open>start\<close>
  the error of \<^verbatim>\<open>pty.StartWithSize\<close>, if any.
\<close>

definition Create :: "(uint16 \<Rightarrow> uint16 \<Rightarrow> 'v) \<Rightarrow> (string \<Rightarrow> string) \<Rightarrow> string option \<Rightarrow> int \<Rightarrow> uint16 \<Rightarrow> uint16 \<Rightarrow> 'v Manager \<Rightarrow>
    (create_error + string) \<times> 'v Manager" where
  "Create vte look start now cols rows m =
     (if int (active_sessions m) \<ge> mg_limit m then (Inl (SessionLimitReached (mg_limit m)), m)
      else
        let m = m\<lparr>mg_counter := mg_counter m + 1\<rparr>;
            ident = ''session-'' @ show_nat (mg_counter m)
        in case start of
             Some err \<Rightarrow> (Inl (StartShell err), m)
           | None \<Rightarrow>
               let e = \<lparr>ms_path = look (hd (shellCmd m)), ms_createdAt = now, ms_session = newSession (vte cols rows) cols rows\<rparr>
               in (Inr ident, m\<lparr>mg_sessions := AList.update ident e (mg_sessions m)\<rparr>))"

definition Manager_Get :: "string \<Rightarrow> 'v Manager \<Rightarrow> 'v managed option" where
  "Manager_Get ident m = map_of (mg_sessions m) ident"

definition Manager_List :: "'v Manager \<Rightarrow> SessionInfo list" where
  "Manager_List m = map (\<lambda>(ident, e). Info ident e) (mg_sessions m)"

text \<open>The goroutine that \<^verbatim>\<open>Create\<close> starts, once a tombstone timer has closed \<^verbatim>\<open>cleanup\<close>.\<close>

definition reap :: "string \<Rightarrow> 'v Manager \<Rightarrow> 'v Manager" where
  "reap ident m = m\<lparr>mg_sessions := AList.delete ident (mg_sessions m)\<rparr>"

definition put_session :: "string \<Rightarrow> 'v Session \<Rightarrow> 'v Manager \<Rightarrow> 'v Manager" where
  "put_session ident s m =
     m\<lparr>mg_sessions := AList.map_entry ident (\<lambda>e. e\<lparr>ms_session := s\<rparr>) (mg_sessions m)\<rparr>"

inductive manager_step :: "('v, 'st) vte_lib \<Rightarrow> (uint16 \<Rightarrow> uint16 \<Rightarrow> 'v) \<Rightarrow> 'v Manager \<Rightarrow> 'v Manager \<Rightarrow> bool" for lib vte where
  mg_create: "manager_step lib vte m (snd (Create vte look start now cols rows m))"
| mg_path: "manager_step lib vte m (SetStateFilePath path m)"
| mg_session:
    "Manager_Get ident m = Some e \<Longrightarrow> session_step lib (ms_session e) s' \<Longrightarrow>
     manager_step lib vte m (put_session ident s' m)"
| mg_reap:
    "Manager_Get ident m = Some e \<Longrightarrow> ss_tombstones (ms_session e) > 0 \<Longrightarrow> manager_step lib vte m (reap ident m)"

inductive_cases manager_stepE: "manager_step lib vte m m'"

section \<open>Invariant\<close>

text \<open>An exited session stays exited, and only an exited session has a tombstone timer.\<close>

lemma session_step_exited: "session_step lib s s' \<Longrightarrow> ss_exited s \<Longrightarrow> ss_exited s'"
  by (erule session_stepE)
    (auto simp: Attach_def TakeOver_def Resize_def resizeLocked_def WriteInput_def pty_write_def begin_close_def Detach_def
      set_client_def pump_data_def pump_error_def record_exit_def Let_def split: if_splits option.splits)

lemma session_step_tombstones:
  assumes "session_step lib s s'" and "ss_tombstones s' > 0" and "session_inv s"
  shows "ss_tombstones s > 0 \<or> ss_exited s"
  using assms
  by (cases rule: session_step.cases)
    (auto simp: Attach_def TakeOver_def Resize_def resizeLocked_def WriteInput_def pty_write_def begin_close_def Detach_def
      set_client_def pump_data_def pump_error_def record_exit_def session_inv_def pump_ok_def closing_def Let_def
      split: if_splits option.splits)

definition managed_ok :: "'v managed \<Rightarrow> bool" where
  "managed_ok e \<longleftrightarrow> session_inv (ms_session e) \<and> (ss_tombstones (ms_session e) > 0 \<longrightarrow> ss_exited (ms_session e))"

definition entry_ok :: "nat \<Rightarrow> string \<times> 'v managed \<Rightarrow> bool" where
  "entry_ok n x \<longleftrightarrow> (\<exists>k \<le> n. fst x = ''session-'' @ show_nat k) \<and> managed_ok (snd x)"

definition manager_inv :: "'v Manager \<Rightarrow> bool" where
  "manager_inv m \<longleftrightarrow>
     distinct (map fst (mg_sessions m)) \<and> (\<forall>x \<in> set (mg_sessions m). entry_ok (mg_counter m) x)
     \<and> int (active_sessions m) \<le> max (mg_limit m) 0"

lemma entry_ok_mono: "entry_ok n x \<Longrightarrow> n \<le> n' \<Longrightarrow> entry_ok n' x"
  unfolding entry_ok_def by (meson order_trans)

lemma managed_step_ok:
  assumes "managed_ok e" and "session_step lib (ms_session e) s'"
  shows "managed_ok (e\<lparr>ms_session := s'\<rparr>)"
proof -
  have "session_inv s'" using assms by (simp add: managed_ok_def session_step_inv)
  moreover have "ss_exited s'" if "ss_tombstones s' > 0"
    using session_step_tombstones [OF assms(2) that] assms session_step_exited [OF assms(2)] by (auto simp: managed_ok_def)
  ultimately show ?thesis by (simp add: managed_ok_def)
qed

lemma newSession_managed_ok: "managed_ok \<lparr>ms_path = p, ms_createdAt = now, ms_session = newSession v cols rows\<rparr>"
  by (simp add: managed_ok_def newSession_inv) (simp add: newSession_def)

lemma fresh_id:
  assumes "manager_inv m"
  shows "''session-'' @ show_nat (mg_counter m + 1) \<notin> fst ` set (mg_sessions m)"
proof
  assume "''session-'' @ show_nat (mg_counter m + 1) \<in> fst ` set (mg_sessions m)"
  then obtain e where "(''session-'' @ show_nat (mg_counter m + 1), e) \<in> set (mg_sessions m)" by auto
  with assms obtain k where "k \<le> mg_counter m" "''session-'' @ show_nat (mg_counter m + 1) = ''session-'' @ show_nat k"
    unfolding manager_inv_def entry_ok_def by (metis fst_conv)
  then show False by simp
qed

lemma update_fresh: "k \<notin> fst ` set xs \<Longrightarrow> AList.update k v xs = xs @ [(k, v)]"
  by (induction xs) auto

text \<open>Every operation keeps the invariant.\<close>

lemma Create_inv:
  assumes "manager_inv m"
  shows "manager_inv (snd (Create vte look start now cols rows m))"
proof (cases "int (active_sessions m) \<ge> mg_limit m")
  case True
  then show ?thesis using assms by (simp add: Create_def)
next
  case lim: False
  show ?thesis
  proof (cases start)
    case (Some err)
    with lim have "snd (Create vte look start now cols rows m) = m\<lparr>mg_counter := mg_counter m + 1\<rparr>"
      by (simp add: Create_def Let_def)
    with assms show ?thesis by (auto simp: manager_inv_def active_sessions_def intro: entry_ok_mono)
  next
    case None
    let ?id = "''session-'' @ show_nat (mg_counter m + 1)"
    let ?e = "\<lparr>ms_path = look (hd (shellCmd (m\<lparr>mg_counter := mg_counter m + 1\<rparr>))), ms_createdAt = now,
      ms_session = newSession (vte cols rows) cols rows\<rparr>"
    have m': "snd (Create vte look start now cols rows m)
      = m\<lparr>mg_counter := mg_counter m + 1, mg_sessions := mg_sessions m @ [(?id, ?e)]\<rparr>"
      using lim None fresh_id [OF assms] by (simp add: Create_def Let_def update_fresh)
    have "entry_ok (mg_counter m + 1) (?id, ?e)"
      unfolding entry_ok_def using newSession_managed_ok by auto
    moreover have "active_sessions (snd (Create vte look start now cols rows m)) = active_sessions m + 1"
      unfolding m' by (simp add: active_sessions_def newSession_def)
    moreover have "distinct (map fst (mg_sessions m @ [(?id, ?e)]))"
      using assms fresh_id [OF assms] by (simp add: manager_inv_def)
    ultimately show ?thesis
      using assms lim unfolding manager_inv_def m' by (auto intro: entry_ok_mono)
  qed
qed

lemma active_map_entry:
  assumes "\<And>e. map_of xs k = Some e \<Longrightarrow> Q (f e) \<Longrightarrow> Q e"
  shows "length (filter (\<lambda>x. Q (snd x)) (AList.map_entry k f xs)) \<le> length (filter (\<lambda>x. Q (snd x)) xs)"
  using assms
proof (induction xs)
  case (Cons x xs)
  obtain i e where x: "x = (i, e)" by (cases x)
  show ?case
  proof (cases "i = k")
    case True
    then show ?thesis using Cons.prems [of e] x by auto
  next
    case False
    then have "length (filter (\<lambda>x. Q (snd x)) (AList.map_entry k f xs)) \<le> length (filter (\<lambda>x. Q (snd x)) xs)"
      using Cons.prems x by (intro Cons.IH) auto
    with False x show ?thesis by simp
  qed
qed simp

lemma map_fst_map_entry: "map fst (AList.map_entry k f xs) = map fst xs"
  by (induction xs) auto

lemma set_map_entry: "x \<in> set (AList.map_entry k f xs) \<Longrightarrow> x \<in> set xs \<or> (\<exists>e. map_of xs k = Some e \<and> x = (k, f e))"
  by (induction xs) (auto split: if_splits)

lemma put_session_inv:
  assumes "manager_inv m" and "Manager_Get ident m = Some e" and "session_step lib (ms_session e) s'"
  shows "manager_inv (put_session ident s' m)"
proof -
  let ?f = "\<lambda>e. e\<lparr>ms_session := s'\<rparr>"
  have e: "map_of (mg_sessions m) ident = Some e" "(ident, e) \<in> set (mg_sessions m)"
    using assms(2) by (simp_all add: Manager_Get_def map_of_SomeD)
  have "active_sessions (put_session ident s' m) \<le> active_sessions m"
    unfolding active_sessions_def put_session_def
    using active_map_entry [where Q = "\<lambda>e. \<not> ss_exited (ms_session e)" and f = ?f and k = ident and xs = "mg_sessions m"]
      session_step_exited [OF assms(3)] e(1)
    by (simp add: case_prod_unfold) blast
  moreover have "entry_ok (mg_counter m) (ident, e)" using assms(1) e(2) unfolding manager_inv_def by blast
  then have "entry_ok (mg_counter m) (ident, ?f e)"
    using managed_step_ok [OF _ assms(3)] by (simp add: entry_ok_def)
  then have "entry_ok (mg_counter m) x" if "x \<in> set (AList.map_entry ident ?f (mg_sessions m))" for x
    using set_map_entry [OF that] assms(1) e(1) unfolding manager_inv_def by auto
  ultimately show ?thesis
    using assms(1) by (simp add: manager_inv_def put_session_def map_fst_map_entry)
qed

lemma reap_inv: "manager_inv m \<Longrightarrow> manager_inv (reap ident m)"
proof -
  assume a: "manager_inv m"
  have d: "AList.delete ident xs = filter (\<lambda>x. fst x \<noteq> ident) xs" for xs :: "(string \<times> 'a managed) list"
    by (auto simp: AList.delete_eq case_prod_unfold intro: filter_cong)
  have "active_sessions (reap ident m) \<le> active_sessions m"
  proof -
    have "length (filter P (filter Q xs)) \<le> length (filter P xs)" for P Q and xs :: "(string \<times> 'a managed) list"
      by (induction xs) auto
    then show ?thesis by (simp add: active_sessions_def reap_def d)
  qed
  then show ?thesis using a by (simp add: manager_inv_def reap_def d distinct_map_filter)
qed

lemma manager_step_inv: "manager_step lib vte m m' \<Longrightarrow> manager_inv m \<Longrightarrow> manager_inv m'"
  by (erule manager_stepE)
    (auto intro: Create_inv put_session_inv reap_inv, simp add: SetStateFilePath_def manager_inv_def active_sessions_def)

lemma manager_reach_inv: "(manager_step lib vte)\<^sup>*\<^sup>* (NewManager limit) m \<Longrightarrow> manager_inv m"
  by (induction rule: rtranclp_induct)
    (auto intro: manager_step_inv, simp add: NewManager_def manager_inv_def active_sessions_def)

section \<open>The state file\<close>

text \<open>
  \<^verbatim>\<open>writeStateFile\<close>: after a change, a writer waits for \<^verbatim>\<open>stateFileMu\<close> without holding the manager's
  mutex; then it takes a fresh snapshot, writes the temporary file and renames it. Changes happen at any
  time in between. A failed write ends the writer without a rename. The state is any type; \<open>sf_past\<close>
  is ghost: the states so far, newest last.
\<close>

datatype 'm writer_pc = Locked | Snapshot 'm | TmpWritten

record 'm file_state =
  sf_current :: 'm
  sf_waiting :: nat
  sf_holder :: "'m writer_pc option"
  sf_tmp :: "'m option"
  sf_file :: "'m option"
  sf_failed :: bool
  sf_past :: "'m list"

definition file_init :: "'m \<Rightarrow> 'm file_state" where
  "file_init m =
     \<lparr>sf_current = m, sf_waiting = 0, sf_holder = None, sf_tmp = None, sf_file = None, sf_failed = False, sf_past = [m]\<rparr>"

inductive writeStateFile_step :: "'m file_state \<Rightarrow> 'm file_state \<Rightarrow> bool" where
  sf_change: "writeStateFile_step f (f\<lparr>sf_current := m, sf_waiting := sf_waiting f + 1, sf_past := sf_past f @ [m]\<rparr>)"
| sf_lock:
    "sf_waiting f > 0 \<Longrightarrow> sf_holder f = None \<Longrightarrow>
     writeStateFile_step f (f\<lparr>sf_waiting := sf_waiting f - 1, sf_holder := Some Locked\<rparr>)"
| sf_snapshot:
    "sf_holder f = Some Locked \<Longrightarrow> writeStateFile_step f (f\<lparr>sf_holder := Some (Snapshot (sf_current f))\<rparr>)"
| sf_write_tmp:
    "sf_holder f = Some (Snapshot m) \<Longrightarrow> writeStateFile_step f (f\<lparr>sf_holder := Some TmpWritten, sf_tmp := Some m\<rparr>)"
| sf_fail:
    "sf_holder f = Some (Snapshot m) \<Longrightarrow> writeStateFile_step f (f\<lparr>sf_holder := None, sf_tmp := t, sf_failed := True\<rparr>)"
| sf_rename:
    "sf_holder f = Some TmpWritten \<Longrightarrow>
     writeStateFile_step f (f\<lparr>sf_holder := None, sf_file := sf_tmp f, sf_tmp := None\<rparr>)"

inductive_cases writeStateFile_stepE: "writeStateFile_step f f'"

text \<open>
  Positions in the past: \<open>i\<close> is where the file's content comes from (\<open>0\<close> before the first write) and
  \<open>j\<close> where the snapshot in the holder's hands does.
\<close>

fun file_at :: "'m option \<Rightarrow> 'm list \<Rightarrow> nat \<Rightarrow> bool" where
  "file_at None past i = (i = 0)"
| "file_at (Some m) past i = (i < length past \<and> past ! i = m)"

fun snapshot_at :: "'m writer_pc option \<Rightarrow> 'm option \<Rightarrow> 'm list \<Rightarrow> nat \<Rightarrow> nat \<Rightarrow> bool" where
  "snapshot_at None tmp past i j = (j = i)"
| "snapshot_at (Some Locked) tmp past i j = (j = i)"
| "snapshot_at (Some (Snapshot m)) tmp past i j = (i \<le> j \<and> j < length past \<and> past ! j = m)"
| "snapshot_at (Some TmpWritten) tmp past i j = (i \<le> j \<and> j < length past \<and> tmp = Some (past ! j))"

definition file_inv :: "'m file_state \<Rightarrow> nat \<Rightarrow> nat \<Rightarrow> bool" where
  "file_inv f i j \<longleftrightarrow>
     sf_past f \<noteq> [] \<and> last (sf_past f) = sf_current f
     \<and> file_at (sf_file f) (sf_past f) i \<and> snapshot_at (sf_holder f) (sf_tmp f) (sf_past f) i j
     \<and> (sf_failed f \<or> sf_waiting f > 0 \<or> sf_holder f = Some Locked \<or> j = length (sf_past f) - 1)"

lemma file_at_append: "file_at x past i \<Longrightarrow> file_at x (past @ [m]) i"
  by (cases x) (auto simp: nth_append)

lemma snapshot_at_append: "snapshot_at h tmp past i j \<Longrightarrow> snapshot_at h tmp (past @ [m]) i j"
  by (induction h tmp past i j rule: snapshot_at.induct) (auto simp: nth_append)

lemma file_step_inv:
  assumes "writeStateFile_step f f'" and "file_inv f i j"
  shows "\<exists>i' j'. i \<le> i' \<and> file_inv f' i' j'"
  using assms
proof (cases rule: writeStateFile_step.cases)
  case (sf_change m)
  then have "file_inv f' i j"
    using assms(2) by (simp add: file_inv_def file_at_append snapshot_at_append)
  then show ?thesis by blast
next
  case sf_lock
  then have "file_inv f' i j" using assms(2) by (simp add: file_inv_def)
  then show ?thesis by blast
next
  case sf_snapshot
  have i: "i < length (sf_past f)" using assms(2) by (cases "sf_file f") (auto simp: file_inv_def)
  have "sf_past f ! (length (sf_past f) - 1) = sf_current f"
    using assms(2) by (metis file_inv_def last_conv_nth)
  then have "file_inv f' i (length (sf_past f) - 1)" using sf_snapshot assms(2) i by (auto simp: file_inv_def)
  then show ?thesis by blast
next
  case (sf_write_tmp m)
  then have "file_inv f' i j" using assms(2) by (simp add: file_inv_def)
  then show ?thesis by blast
next
  case (sf_fail m t)
  then have "file_inv f' i i" using assms(2) by (simp add: file_inv_def)
  then show ?thesis by blast
next
  case sf_rename
  then have "file_inv f' j j \<and> i \<le> j" using assms(2) by (simp add: file_inv_def)
  then show ?thesis by blast
qed

lemma file_steps_inv:
  assumes "writeStateFile_step\<^sup>*\<^sup>* f f'" and "file_inv f i j"
  shows "\<exists>i' j'. i \<le> i' \<and> file_inv f' i' j'"
  using assms
proof (induction rule: rtranclp_induct)
  case (step f' f'')
  then obtain i' j' where "i \<le> i'" "file_inv f' i' j'" by blast
  with file_step_inv [OF step.hyps(2)] show ?case by (meson order_trans)
qed blast

lemma file_init_inv: "file_inv (file_init m) 0 0"
  by (simp add: file_inv_def file_init_def)

lemma manager_step_limit: "manager_step lib vte m m' \<Longrightarrow> mg_limit m' = mg_limit m"
  by (erule manager_stepE)
    (auto simp: Create_def SetStateFilePath_def put_session_def reap_def Let_def split: option.splits)

lemma manager_reach_limit: "(manager_step lib vte)\<^sup>*\<^sup>* (NewManager limit) m \<Longrightarrow> mg_limit m = limit"
  by (induction rule: rtranclp_induct) (auto simp: NewManager_def manager_step_limit)

lemma Create_cases:
  assumes "manager_inv m"
  obtains (limit) "int (active_sessions m) \<ge> mg_limit m"
      "Create vte look start now cols rows m = (Inl (SessionLimitReached (mg_limit m)), m)"
    | (failed) err where "start = Some err"
      "Create vte look start now cols rows m = (Inl (StartShell err), m\<lparr>mg_counter := mg_counter m + 1\<rparr>)"
    | (created) ident e where "ident = ''session-'' @ show_nat (mg_counter m + 1)" "ident \<notin> fst ` set (mg_sessions m)"
      "\<not> ss_exited (ms_session e)"
      "Create vte look start now cols rows m
         = (Inr ident, m\<lparr>mg_counter := mg_counter m + 1, mg_sessions := mg_sessions m @ [(ident, e)]\<rparr>)"
proof (cases "int (active_sessions m) \<ge> mg_limit m")
  case True
  then show ?thesis by (intro that(1)) (simp_all add: Create_def)
next
  case False
  show ?thesis
  proof (cases start)
    case None
    show ?thesis
      by (rule that(3) [OF refl fresh_id [OF assms], where e = "\<lparr>ms_path = look (hd (shellCmd (m\<lparr>mg_counter := mg_counter m + 1\<rparr>))),
          ms_createdAt = now, ms_session = newSession (vte cols rows) cols rows\<rparr>"])
        (use False None fresh_id [OF assms] in \<open>simp_all add: Create_def Let_def update_fresh\<close>, simp add: newSession_def)
  next
    case (Some err)
    with False show ?thesis by (intro that(2)) (simp_all add: Create_def Let_def)
  qed
qed

lemma Manager_Get_append:
  assumes "ident \<notin> fst ` set (mg_sessions m)"
  shows "Manager_Get i (m\<lparr>mg_counter := n, mg_sessions := mg_sessions m @ [(ident, e)]\<rparr>)
     = (if i = ident then Some e else Manager_Get i m)"
proof -
  have "k \<notin> fst ` set xs \<Longrightarrow> map_of (xs @ [(k, v)]) i = (if i = k then Some v else map_of xs i)" for xs :: "(string \<times> 'a managed) list" and k v
    by (induction xs) auto
  with assms show ?thesis by (simp add: Manager_Get_def)
qed

lemma map_of_map_entry: "map_of (AList.map_entry k f xs) i = (if i = k then map_option f (map_of xs i) else map_of xs i)"
  by (induction xs) auto

lemma live_session_kept:
  assumes "manager_inv m" and "manager_step lib vte m m'" and "Manager_Get ident m = Some e"
    and "\<not> ss_exited (ms_session e)"
  shows "Manager_Get ident m' \<noteq> None"
  using assms(2)
proof (cases rule: manager_step.cases)
  case (mg_create look start now cols rows)
  then show ?thesis
    using assms(3) Manager_Get_append [of _ m]
    by (cases rule: Create_cases [OF assms(1), of vte look start now cols rows]) (auto simp: Manager_Get_def)
next
  case (mg_session i e' s')
  then show ?thesis using assms(3) by (auto simp: Manager_Get_def put_session_def map_of_map_entry)
next
  case (mg_reap i e')
  have "i \<noteq> ident"
  proof
    assume "i = ident"
    with mg_reap assms(3) have "ss_tombstones (ms_session e) > 0" by simp
    moreover have "entry_ok (mg_counter m) (ident, e)"
      using assms(1,3) unfolding manager_inv_def Manager_Get_def by (blast dest: map_of_SomeD)
    ultimately show False using assms(4) by (simp add: entry_ok_def managed_ok_def)
  qed
  then show ?thesis using mg_reap assms(3) by (simp add: Manager_Get_def reap_def AList.delete_conv')
qed (use assms(3) in \<open>simp add: Manager_Get_def SetStateFilePath_def\<close>)

section \<open>Properties\<close>

text \<open>
  C23. The manager keeps its promises in every interleaving of creations, session activity and
  expiry. The number of sessions whose shell runs never exceeds the limit; every identifier belongs to
  one session; a creation either fails for the stated reason or adds one new session under an
  identifier that no session has; and no session disappears while its shell runs.
\<close>

theorem manager_enforces_limit:
  assumes "(manager_step lib vte)\<^sup>*\<^sup>* (NewManager limit) m" and "0 \<le> limit"
  shows "int (active_sessions m) \<le> limit \<and> distinct (map fst (mg_sessions m))
         \<and> (case Create vte look start now cols rows m of
              (Inl (SessionLimitReached n), m') \<Rightarrow> m' = m \<and> n = limit \<and> int (active_sessions m) = limit
            | (Inl (StartShell err), m') \<Rightarrow> mg_sessions m' = mg_sessions m \<and> start = Some err
            | (Inr ident, m') \<Rightarrow> Manager_Get ident m = None \<and> Manager_Get ident m' \<noteq> None
                \<and> (\<forall>i. i \<noteq> ident \<longrightarrow> Manager_Get i m' = Manager_Get i m)
                \<and> active_sessions m' = active_sessions m + 1)
         \<and> (\<forall>m' ident e. manager_step lib vte m m' \<longrightarrow> Manager_Get ident m = Some e \<longrightarrow> \<not> ss_exited (ms_session e)
              \<longrightarrow> Manager_Get ident m' \<noteq> None)"
proof -
  have inv: "manager_inv m" and lim: "mg_limit m = limit"
    using manager_reach_inv [OF assms(1)] manager_reach_limit [OF assms(1)] by blast+
  have act: "int (active_sessions m) \<le> limit" "distinct (map fst (mg_sessions m))"
    using inv lim assms(2) by (simp_all add: manager_inv_def)
  have "case Create vte look start now cols rows m of
              (Inl (SessionLimitReached n), m') \<Rightarrow> m' = m \<and> n = limit \<and> int (active_sessions m) = limit
            | (Inl (StartShell err), m') \<Rightarrow> mg_sessions m' = mg_sessions m \<and> start = Some err
            | (Inr ident, m') \<Rightarrow> Manager_Get ident m = None \<and> Manager_Get ident m' \<noteq> None
                \<and> (\<forall>i. i \<noteq> ident \<longrightarrow> Manager_Get i m' = Manager_Get i m)
                \<and> active_sessions m' = active_sessions m + 1"
  proof (cases rule: Create_cases [OF inv, of vte look start now cols rows])
    case (3 ident e)
    then have "Manager_Get ident m = None" by (simp add: Manager_Get_def map_of_eq_None_iff)
    with 3 show ?thesis by (simp add: Manager_Get_append) (simp add: active_sessions_def)
  qed (use act lim in simp_all)
  with act live_session_kept [OF inv] show ?thesis by blast
qed

theorem manager_enforces_limit_witness:
  "let m = snd (Create (\<lambda>c r. [] :: string) (\<lambda>p. p) None 7 80 24 (NewManager 1)) in
     int (active_sessions m) \<le> 1
     \<and> fst (Create (\<lambda>c r. []) (\<lambda>p. p) None 9 80 24 m) = Inl (SessionLimitReached 1)
     \<and> int (active_sessions m) = 1"
proof -
  let ?m = "snd (Create (\<lambda>c r. []) (\<lambda>p. p) None 7 80 24 (NewManager 1)) :: string Manager"
  have "(manager_step plain_vte (\<lambda>c r. []))\<^sup>*\<^sup>* (NewManager 1) ?m"
    by (rule r_into_rtranclp) (rule mg_create)
  from manager_enforces_limit [OF this, of None "\<lambda>p. p" 9 80 24]
  have "int (active_sessions ?m) \<le> 1" by simp
  moreover have "active_sessions ?m = 1"
    by (simp add: Create_def NewManager_def active_sessions_def newSession_def Let_def)
  moreover have "fst (Create (\<lambda>c r. []) (\<lambda>p. p) None 9 80 24 ?m) = Inl (SessionLimitReached 1)"
    by (simp add: Create_def NewManager_def active_sessions_def newSession_def Let_def)
  ultimately show ?thesis by (simp add: Let_def)
qed



end
