(* ===== verification/SSHD_Channel.thy ===== *)
theory SSHD_Channel
  imports Session_Util "HOL-Library.Sublist"
begin

text \<open>
  One SSH session channel, \<^verbatim>\<open>sshd/rawsession.go\<close>: the request loop of \<^verbatim>\<open>handleSessionChannel\<close>
  that collects environment, terminal and command, dispatches the PTY or the exec handler once, and passes
  on window changes.

  A request carries its decoded payload, or \<^term>\<open>None\<close> where \<^verbatim>\<open>gossh.Unmarshal\<close> fails. The loop runs
  concurrently with the goroutine that drains the window channel, so its input is a sequence of
  events: requests, and drains in between. A drain between the two \<^verbatim>\<open>select\<close>s of a window change leaves the
  same state as one before them, because the loop is the only sender.
\<close>

section \<open>Requests\<close>

datatype ssh_payload =
    PtyReq "(string \<times> uint32 \<times> uint32) option"
  | WindowChange "(uint32 \<times> uint32) option"
  | EnvReq "(string \<times> string) option"
  | ShellReq
  | ExecReq "string option"
  | OtherReq string

record ssh_request =
  rq_payload :: ssh_payload
  rq_WantReply :: bool

type_synonym window = "int \<times> int"

record rawSession =
  rs_env :: "string list"
  rs_rawCmd :: string
  rs_term :: string
  rs_winch :: "window list option"

record channel_state =
  cs_sess :: rawSession
  cs_initialWin :: window
  cs_dispatched :: bool

datatype channel_effect =
    Reply bool
  | HandlePTY "string list" string string window
  | HandleExec "string list" string
  | WinchSend window
  | WinchReceive window
  | WinchClose

definition hasPty :: "rawSession \<Rightarrow> bool" where
  "hasPty s \<longleftrightarrow> rs_winch s \<noteq> None"

definition replyReq :: "ssh_request \<Rightarrow> bool \<Rightarrow> channel_effect list" where
  "replyReq req ok = (if rq_WantReply req then [Reply ok] else [])"

definition win_of :: "uint32 \<Rightarrow> uint32 \<Rightarrow> window" where
  "win_of columns rows = (uint columns, uint rows)"

text \<open>
  The cases of the \<^verbatim>\<open>switch\<close>. The window channel has one slot: a stale size is dropped, then the
  latest is put in.
\<close>

definition on_pty_req :: "ssh_request \<Rightarrow> (string \<times> uint32 \<times> uint32) option \<Rightarrow> channel_state \<Rightarrow> channel_state \<times> channel_effect list" where
  "on_pty_req req p st =
     (if cs_dispatched st \<or> rs_winch (cs_sess st) \<noteq> None then (st, replyReq req False)
      else (case p of
          None \<Rightarrow> (st, replyReq req False)
        | Some (term, columns, rows) \<Rightarrow>
            (st\<lparr>cs_sess := (cs_sess st)\<lparr>rs_term := term, rs_winch := Some []\<rparr>, cs_initialWin := win_of columns rows\<rparr>,
             replyReq req True)))"

definition on_window_change :: "ssh_request \<Rightarrow> (uint32 \<times> uint32) option \<Rightarrow> channel_state \<Rightarrow> channel_state \<times> channel_effect list" where
  "on_window_change req p st =
     (case p of
        None \<Rightarrow> (st, replyReq req False)
      | Some (columns, rows) \<Rightarrow>
          (case rs_winch (cs_sess st) of
             None \<Rightarrow> (st, replyReq req False)
           | Some pending \<Rightarrow>
               let win = win_of columns rows;
                   pending = (case pending of [] \<Rightarrow> [] | stale # rest \<Rightarrow> rest)
               in if length pending < 1
                  then (st\<lparr>cs_sess := (cs_sess st)\<lparr>rs_winch := Some (pending @ [win])\<rparr>\<rparr>, WinchSend win # replyReq req True)
                  else (st\<lparr>cs_sess := (cs_sess st)\<lparr>rs_winch := Some pending\<rparr>\<rparr>, replyReq req True)))"

definition on_env :: "ssh_request \<Rightarrow> (string \<times> string) option \<Rightarrow> channel_state \<Rightarrow> channel_state \<times> channel_effect list" where
  "on_env req p st =
     (if cs_dispatched st then (st, replyReq req False)
      else (case p of
          None \<Rightarrow> (st, replyReq req False)
        | Some (name, val) \<Rightarrow>
            (st\<lparr>cs_sess := (cs_sess st)\<lparr>rs_env := rs_env (cs_sess st) @ [name @ ''='' @ val]\<rparr>\<rparr>, replyReq req True)))"

definition dispatch :: "ssh_request \<Rightarrow> channel_state \<Rightarrow> channel_state \<times> channel_effect list" where
  "dispatch req st =
     (let s = cs_sess st in
      (st\<lparr>cs_dispatched := True\<rparr>,
       replyReq req True
       @ (if hasPty s then [HandlePTY (rs_env s) (rs_term s) (rs_rawCmd s) (cs_initialWin st)]
          else [HandleExec (rs_env s) (rs_rawCmd s)])))"

definition handle_request :: "ssh_request \<Rightarrow> channel_state \<Rightarrow> channel_state \<times> channel_effect list" where
  "handle_request req st =
     (case rq_payload req of
        PtyReq p \<Rightarrow> on_pty_req req p st
      | WindowChange p \<Rightarrow> on_window_change req p st
      | EnvReq p \<Rightarrow> on_env req p st
      | ShellReq \<Rightarrow> if cs_dispatched st then (st, replyReq req False) else dispatch req st
      | ExecReq p \<Rightarrow>
          if cs_dispatched st then (st, replyReq req False)
          else (case p of
              None \<Rightarrow> (st, replyReq req False)
            | Some command \<Rightarrow> dispatch req (st\<lparr>cs_sess := (cs_sess st)\<lparr>rs_rawCmd := command\<rparr>\<rparr>))
      | OtherReq ty \<Rightarrow> (st, replyReq req False))"

text \<open>The resize goroutine of \<^verbatim>\<open>handlePTYSession\<close> takes a pending size.\<close>

definition drain :: "channel_state \<Rightarrow> channel_state \<times> channel_effect list" where
  "drain st =
     (case rs_winch (cs_sess st) of
        Some (w # ws) \<Rightarrow> (st\<lparr>cs_sess := (cs_sess st)\<lparr>rs_winch := Some ws\<rparr>\<rparr>, [WinchReceive w])
      | _ \<Rightarrow> (st, []))"

datatype channel_event = Request ssh_request | Drain

definition handle_event :: "channel_event \<Rightarrow> channel_state \<Rightarrow> channel_state \<times> channel_effect list" where
  "handle_event ev st = (case ev of Request req \<Rightarrow> handle_request req st | Drain \<Rightarrow> drain st)"

fun request_loop :: "channel_event list \<Rightarrow> channel_state \<Rightarrow> channel_state \<times> channel_effect list" where
  "request_loop [] st = (st, [])"
| "request_loop (ev # evs) st =
     (let (st', effs) = handle_event ev st; (st'', effs') = request_loop evs st' in (st'', effs @ effs'))"

definition channel_init :: channel_state where
  "channel_init =
     \<lparr>cs_sess = \<lparr>rs_env = [], rs_rawCmd = [], rs_term = [], rs_winch = None\<rparr>, cs_initialWin = (0, 0), cs_dispatched = False\<rparr>"

definition handleSessionChannel :: "channel_event list \<Rightarrow> channel_effect list" where
  "handleSessionChannel evs =
     (let (st, effs) = request_loop evs channel_init
      in effs @ (if rs_winch (cs_sess st) \<noteq> None then [WinchClose] else []))"

section \<open>Specification\<close>

text \<open>What a sequence of requests asks for, read off the requests alone.\<close>

fun requests :: "channel_event list \<Rightarrow> ssh_request list" where
  "requests [] = []"
| "requests (Request req # evs) = req # requests evs"
| "requests (Drain # evs) = requests evs"

fun asked_env :: "ssh_request list \<Rightarrow> string list" where
  "asked_env [] = []"
| "asked_env (r # rs) =
     (case rq_payload r of EnvReq (Some (n, v)) \<Rightarrow> [n @ ''='' @ v] | _ \<Rightarrow> []) @ asked_env rs"

fun asked_pty :: "ssh_request list \<Rightarrow> (string \<times> window) option" where
  "asked_pty [] = None"
| "asked_pty (r # rs) =
     (case rq_payload r of PtyReq (Some (t, c, h)) \<Rightarrow> Some (t, win_of c h) | _ \<Rightarrow> asked_pty rs)"

definition starts :: "ssh_request \<Rightarrow> string option" where
  "starts r = (case rq_payload r of ShellReq \<Rightarrow> Some [] | ExecReq p \<Rightarrow> p | _ \<Rightarrow> None)"

definition asked_handler :: "ssh_request list \<Rightarrow> channel_effect option" where
  "asked_handler rs =
     (case dropWhile (\<lambda>r. starts r = None) rs of
        [] \<Rightarrow> None
      | r # _ \<Rightarrow>
          let before = takeWhile (\<lambda>r. starts r = None) rs
          in case asked_pty before of
               None \<Rightarrow> Some (HandleExec (asked_env before) (the (starts r)))
             | Some (t, w) \<Rightarrow> Some (HandlePTY (asked_env before) t (the (starts r)) w))"

fun is_handler :: "channel_effect \<Rightarrow> bool" where
  "is_handler (HandlePTY e t c w) = True"
| "is_handler (HandleExec e c) = True"
| "is_handler _ = False"

fun is_reply :: "channel_effect \<Rightarrow> bool" where
  "is_reply (Reply b) = True"
| "is_reply _ = False"

fun sent_windows :: "channel_effect list \<Rightarrow> window list" where
  "sent_windows [] = []"
| "sent_windows (WinchSend w # es) = w # sent_windows es"
| "sent_windows (e # es) = sent_windows es"

fun received_windows :: "channel_effect list \<Rightarrow> window list" where
  "received_windows [] = []"
| "received_windows (WinchReceive w # es) = w # received_windows es"
| "received_windows (e # es) = received_windows es"

lemma sent_append [simp]: "sent_windows (xs @ ys) = sent_windows xs @ sent_windows ys"
  by (induction xs rule: sent_windows.induct) simp_all

lemma received_append [simp]: "received_windows (xs @ ys) = received_windows xs @ received_windows ys"
  by (induction xs rule: received_windows.induct) simp_all

lemma reply_effects [simp]:
  "filter is_handler (replyReq r b) = []" "sent_windows (replyReq r b) = []" "received_windows (replyReq r b) = []"
  "length (filter is_reply (replyReq r b)) = (if rq_WantReply r then 1 else 0)"
  by (simp_all add: replyReq_def)

section \<open>The request loop follows the specification\<close>

text \<open>The state before the dispatch holds what the requests so far asked for.\<close>

definition collects :: "ssh_request list \<Rightarrow> channel_state \<Rightarrow> bool" where
  "collects rs st \<longleftrightarrow>
     \<not> cs_dispatched st \<and> rs_env (cs_sess st) = asked_env rs \<and> rs_rawCmd (cs_sess st) = []
     \<and> (case asked_pty rs of
          None \<Rightarrow> rs_winch (cs_sess st) = None
        | Some (t, w) \<Rightarrow> rs_winch (cs_sess st) \<noteq> None \<and> rs_term (cs_sess st) = t \<and> cs_initialWin st = w)"

lemma asked_env_append [simp]: "asked_env (xs @ ys) = asked_env xs @ asked_env ys"
  by (induction xs) simp_all

lemma asked_pty_append: "asked_pty (xs @ ys) = (case asked_pty xs of None \<Rightarrow> asked_pty ys | Some p \<Rightarrow> Some p)"
  by (induction xs) (auto split: ssh_payload.splits option.splits)

lemmas channel_defs = on_pty_req_def on_window_change_def on_env_def dispatch_def drain_def hasPty_def

lemma collects_request:
  assumes "collects rs st" and "starts r = None"
  shows "collects (rs @ [r]) (fst (handle_request r st)) \<and> filter is_handler (snd (handle_request r st)) = []"
  using assms
  by (cases "rq_payload r")
    (auto simp: collects_def handle_request_def starts_def channel_defs asked_pty_append Let_def split: option.splits if_splits list.splits)

lemma collects_start:
  assumes "collects rs st" and "starts r = Some c"
  shows "filter is_handler (snd (handle_request r st))
           = [case asked_pty rs of None \<Rightarrow> HandleExec (asked_env rs) c | Some (t, w) \<Rightarrow> HandlePTY (asked_env rs) t c w]
         \<and> cs_dispatched (fst (handle_request r st))"
  using assms
  by (cases "rq_payload r")
    (auto simp: collects_def handle_request_def starts_def channel_defs Let_def split: option.splits if_splits)

definition frozen :: "channel_state \<Rightarrow> string list \<times> string \<times> string" where
  "frozen st = (rs_env (cs_sess st), rs_rawCmd (cs_sess st), rs_term (cs_sess st))"

lemma dispatched_request:
  assumes "cs_dispatched st"
  shows "cs_dispatched (fst (handle_request r st)) \<and> filter is_handler (snd (handle_request r st)) = []
         \<and> frozen (fst (handle_request r st)) = frozen st"
  using assms
  by (cases "rq_payload r")
    (auto simp: handle_request_def channel_defs frozen_def Let_def split: option.splits if_splits list.splits)

lemma drain_frame:
  "filter is_handler (snd (drain st)) = [] \<and> cs_dispatched (fst (drain st)) = cs_dispatched st
   \<and> frozen (fst (drain st)) = frozen st \<and> collects rs (fst (drain st)) = collects rs st"
  by (auto simp: drain_def frozen_def collects_def split: option.splits list.splits)

lemma dispatched_loop:
  assumes "cs_dispatched st"
  shows "filter is_handler (snd (request_loop evs st)) = [] \<and> frozen (fst (request_loop evs st)) = frozen st"
  using assms
proof (induction evs arbitrary: st)
  case (Cons ev evs)
  have "cs_dispatched (fst (handle_event ev st)) \<and> filter is_handler (snd (handle_event ev st)) = []
      \<and> frozen (fst (handle_event ev st)) = frozen st"
    using Cons.prems dispatched_request drain_frame by (cases ev) (simp_all add: handle_event_def)
  then show ?case using Cons.IH [of "fst (handle_event ev st)"] by (simp add: case_prod_unfold Let_def)
qed simp

lemma collects_loop:
  assumes "collects rs st" and "list_all (\<lambda>r. starts r = None) rs"
  shows "filter is_handler (snd (request_loop evs st))
         = (case asked_handler (rs @ requests evs) of None \<Rightarrow> [] | Some h \<Rightarrow> [h])"
  using assms
proof (induction evs arbitrary: st rs)
  case Nil
  then have "dropWhile (\<lambda>r. starts r = None) rs = []" by (simp add: list_all_iff)
  then show ?case unfolding asked_handler_def by (simp del: dropWhile_eq_Nil_conv)
next
  case (Cons ev evs)
  show ?case
  proof (cases ev)
    case Drain
    then show ?thesis
      using Cons.IH [of rs "fst (drain st)"] Cons.prems drain_frame [of st rs]
      by (simp add: handle_event_def case_prod_unfold Let_def)
  next
    case (Request r)
    show ?thesis
    proof (cases "starts r")
      case None
      then show ?thesis
        using Request Cons.IH [of "rs @ [r]" "fst (handle_request r st)"] Cons.prems collects_request [of rs st r]
        by (simp add: handle_event_def case_prod_unfold Let_def)
    next
      case (Some c)
      have ah: "asked_handler (rs @ r # requests evs)
          = Some (case asked_pty rs of None \<Rightarrow> HandleExec (asked_env rs) c | Some (t, w) \<Rightarrow> HandlePTY (asked_env rs) t c w)"
        using Cons.prems(2) Some
        by (simp add: asked_handler_def list_all_iff Let_def split: option.splits prod.splits)
      show ?thesis
        using Request collects_start [OF Cons.prems(1) Some] dispatched_loop [of "fst (handle_request r st)" evs] ah
        by (simp add: handle_event_def case_prod_unfold Let_def)
    qed
  qed
qed

text \<open>Every request is answered once if it wants an answer.\<close>

lemma request_replies:
  "length (filter is_reply (snd (handle_request r st))) = (if rq_WantReply r then 1 else 0)"
  by (auto simp: handle_request_def channel_defs replyReq_def Let_def split: ssh_payload.splits option.splits if_splits list.splits)

lemma loop_replies: "length (filter is_reply (snd (request_loop evs st))) = length (filter rq_WantReply (requests evs))"
proof (induction evs arbitrary: st)
  case (Cons ev evs)
  have "filter is_reply (snd (drain st)) = []" by (auto simp: drain_def split: option.splits list.splits)
  with Cons.IH [of "fst (handle_event ev st)"] show ?case
    by (cases ev) (auto simp: handle_event_def case_prod_unfold Let_def request_replies)
qed simp

text \<open>The window channel: one slot, and the latest size is never lost.\<close>

definition pending :: "channel_state \<Rightarrow> window list" where
  "pending st = (case rs_winch (cs_sess st) of None \<Rightarrow> [] | Some ws \<Rightarrow> ws)"

definition keeps_last :: "'a list \<Rightarrow> 'a list \<Rightarrow> bool" where
  "keeps_last xs ys \<longleftrightarrow> subseq xs ys \<and> (xs = [] \<longleftrightarrow> ys = []) \<and> (ys \<noteq> [] \<longrightarrow> last xs = last ys)"

lemma keeps_last_trans: "keeps_last xs ys \<Longrightarrow> keeps_last ys zs \<Longrightarrow> keeps_last xs zs"
  unfolding keeps_last_def by (metis subseq_order.order_trans)

lemma keeps_last_append_left: "keeps_last xs ys \<Longrightarrow> keeps_last (zs @ xs) (zs @ ys)"
  by (auto simp: keeps_last_def intro: list_emb_append_mono)

lemma keeps_last_append_right: "keeps_last xs ys \<Longrightarrow> keeps_last (xs @ zs) (ys @ zs)"
  by (auto simp: keeps_last_def last_append)

definition winch_step :: "channel_state \<Rightarrow> channel_state \<Rightarrow> channel_effect list \<Rightarrow> bool" where
  "winch_step st st' es \<longleftrightarrow>
     length (pending st') \<le> 1
     \<and> keeps_last (received_windows es @ pending st') (pending st @ sent_windows es)
     \<and> (rs_winch (cs_sess st) \<noteq> None \<longrightarrow> rs_winch (cs_sess st') \<noteq> None)"

lemma winch_event:
  assumes "length (pending st) \<le> 1"
  shows "winch_step st (fst (handle_event ev st)) (snd (handle_event ev st))"
proof (cases ev)
  case Drain
  then show ?thesis
    using assms by (auto simp: winch_step_def keeps_last_def handle_event_def drain_def pending_def split: option.splits list.splits)
next
  case (Request r)
  then show ?thesis
    using assms
    by (cases "rq_payload r")
      (auto simp: winch_step_def keeps_last_def handle_event_def handle_request_def channel_defs pending_def Let_def
        split: option.splits list.splits if_splits)
qed

lemma winch_step_append:
  assumes "winch_step st st' es" and "winch_step st' st'' es'"
  shows "winch_step st st'' (es @ es')"
proof -
  have "keeps_last (received_windows es @ received_windows es' @ pending st'') (received_windows es @ pending st' @ sent_windows es')"
    using assms(2) by (intro keeps_last_append_left) (simp add: winch_step_def)
  moreover have "keeps_last ((received_windows es @ pending st') @ sent_windows es') ((pending st @ sent_windows es) @ sent_windows es')"
    using assms(1) by (intro keeps_last_append_right) (simp add: winch_step_def)
  ultimately show ?thesis using assms keeps_last_trans by (fastforce simp: winch_step_def)
qed

lemma winch_loop:
  "length (pending st) \<le> 1 \<Longrightarrow> winch_step st (fst (request_loop evs st)) (snd (request_loop evs st))"
proof (induction evs arbitrary: st)
  case Nil
  then show ?case by (simp add: winch_step_def keeps_last_def)
next
  case (Cons ev evs)
  have w: "winch_step st (fst (handle_event ev st)) (snd (handle_event ev st))" by (rule winch_event [OF Cons.prems])
  then have "length (pending (fst (handle_event ev st))) \<le> 1" by (simp add: winch_step_def)
  from winch_step_append [OF w Cons.IH [OF this]] show ?case by (simp add: case_prod_unfold Let_def)
qed

text \<open>A dispatched PTY handler has a window channel, which is closed at the end.\<close>

lemma event_handler_winch:
  "HandlePTY e t c w \<in> set (snd (handle_event ev st)) \<Longrightarrow> rs_winch (cs_sess (fst (handle_event ev st))) \<noteq> None"
  by (cases ev)
    (auto simp: handle_event_def handle_request_def channel_defs replyReq_def Let_def
      split: ssh_payload.splits option.splits if_splits list.splits)

lemma handler_has_winch:
  assumes "length (pending st) \<le> 1" and "HandlePTY e t c w \<in> set (snd (request_loop evs st))"
  shows "rs_winch (cs_sess (fst (request_loop evs st))) \<noteq> None"
  using assms
proof (induction evs arbitrary: st)
  case (Cons ev evs)
  let ?st = "fst (handle_event ev st)"
  have len: "length (pending ?st) \<le> 1" using winch_event [OF Cons.prems(1), of ev] by (simp add: winch_step_def)
  have run: "fst (request_loop (ev # evs) st) = fst (request_loop evs ?st)"
    "snd (request_loop (ev # evs) st) = snd (handle_event ev st) @ snd (request_loop evs ?st)"
    by (simp_all add: case_prod_unfold Let_def)
  consider "HandlePTY e t c w \<in> set (snd (handle_event ev st))" | "HandlePTY e t c w \<in> set (snd (request_loop evs ?st))"
    using Cons.prems(2) unfolding run by auto
  then show ?case
  proof cases
    case 1
    then have "rs_winch (cs_sess ?st) \<noteq> None" by (rule event_handler_winch)
    with winch_loop [OF len, of evs] show ?thesis unfolding run by (simp add: winch_step_def)
  next
    case 2
    then show ?thesis using Cons.IH [OF len] unfolding run by blast
  qed
qed simp

lemma channel_init_collects: "collects [] channel_init" "pending channel_init = []"
  by (simp_all add: collects_def channel_init_def pending_def)

section \<open>Properties\<close>



end
