(* ===== verification/Byte_Channel.thy ===== *)
theory Byte_Channel
  imports Go_Prelude
begin

text \<open>
  The byte channels that hand terminal input from one reader to the next: \<^verbatim>\<open>channelReader\<close> of
  \<^verbatim>\<open>sshd/server.go\<close> and \<^verbatim>\<open>channelStdinReader\<close> of \<^verbatim>\<open>cmd/connect.go\<close>, as two instances of one
  interface, and \<^verbatim>\<open>bufio.Reader.ReadString\<close> over the second.
\<close>

section \<open>Readers\<close>

text \<open>
  A reader over a channel of chunks. \<open>br_ch\<close> are the chunks that will arrive and \<open>br_closed\<close> tells whether the
  channel is closed after them; a reader at the end of an open channel blocks.
\<close>

record byte_reader =
  br_buf :: string
  br_ch :: "string list"
  br_closed :: bool
  br_done :: bool

datatype read_outcome = GotData string | GotEOF | Blocks

text \<open>
  \<^verbatim>\<open>channelStdinReader.Read\<close> into a buffer of \<open>n\<close> bytes: the loop skips empty chunks.
\<close>

fun fill :: "string \<Rightarrow> string list \<Rightarrow> string \<times> string list" where
  "fill buf [] = (buf, [])"
| "fill buf (data # ch) = (if length buf = 0 then fill data ch else (buf, data # ch))"

definition channelStdinReader_Read :: "nat \<Rightarrow> byte_reader \<Rightarrow> read_outcome \<times> byte_reader" where
  "channelStdinReader_Read n r =
     (let (buf, ch) = fill (br_buf r) (br_ch r) in
      if length buf = 0 then (if br_closed r then GotEOF else Blocks, r\<lparr>br_buf := buf, br_ch := ch\<rparr>)
      else (GotData (take n buf), r\<lparr>br_buf := drop n buf, br_ch := ch\<rparr>))"

text \<open>
  \<^verbatim>\<open>channelReader.Read\<close>: the results that may come out; once \<^verbatim>\<open>done\<close> is closed, a read with nothing
  buffered may end at any chunk.
\<close>

definition channelReader_Read :: "nat \<Rightarrow> byte_reader \<Rightarrow> (read_outcome \<times> byte_reader) list" where
  "channelReader_Read n r =
     (if length (br_buf r) > 0 then [(GotData (take n (br_buf r)), r\<lparr>br_buf := drop n (br_buf r)\<rparr>)]
      else (case channelStdinReader_Read n r of
              (Blocks, r') \<Rightarrow> if br_done r then [] else [(Blocks, r')]
            | res \<Rightarrow> [res])
           @ (if br_done r then [(GotEOF, r)] else []))"

definition unread :: "byte_reader \<Rightarrow> string" where
  "unread r = br_buf r @ concat (br_ch r)"

lemma fill_unread: "fill buf ch = (buf', ch') \<Longrightarrow> buf' @ concat ch' = buf @ concat ch"
  by (induction buf ch rule: fill.induct) (auto split: if_splits)

lemma fill_empty: "fill buf ch = (buf', ch') \<Longrightarrow> buf' = [] \<Longrightarrow> ch' = []"
  by (induction buf ch rule: fill.induct) (auto split: if_splits)

text \<open>
  The interface of a byte source: a read that gives data takes it off the front of what is unread,
  any other read leaves it unread.
\<close>

locale byte_source =
  fixes read :: "nat \<Rightarrow> 's \<Rightarrow> (read_outcome \<times> 's) \<Rightarrow> bool" and content :: "'s \<Rightarrow> string"
  assumes read_data: "read n s (GotData d, s') \<Longrightarrow> d @ content s' = content s"
    and read_other: "read n s (r, s') \<Longrightarrow> r = GotEOF \<or> r = Blocks \<Longrightarrow> content s' = content s"
begin

inductive reads :: "'s \<Rightarrow> string \<Rightarrow> 's \<Rightarrow> bool" where
  reads_none: "reads s [] s"
| reads_data: "reads s xs s' \<Longrightarrow> read n s' (GotData d, s'') \<Longrightarrow> reads s (xs @ d) s''"
| reads_other: "reads s xs s' \<Longrightarrow> read n s' (r, s'') \<Longrightarrow> r = GotEOF \<or> r = Blocks \<Longrightarrow> reads s xs s''"

lemma reads_stream: "reads s xs s' \<Longrightarrow> xs @ content s' = content s"
  by (induction rule: reads.induct) (auto dest: read_data read_other)

end

lemma stdin_read_unread:
  assumes "channelStdinReader_Read n r = (res, r')"
  shows "(\<forall>d. res = GotData d \<longrightarrow> d @ unread r' = unread r) \<and> (res = GotEOF \<or> res = Blocks \<longrightarrow> unread r' = unread r)"
proof -
  obtain buf ch where f: "fill (br_buf r) (br_ch r) = (buf, ch)" by force
  from fill_unread [OF f] assms f show ?thesis
    by (auto simp: channelStdinReader_Read_def unread_def split: if_splits)
qed

interpretation stdin_source: byte_source "\<lambda>n r res. channelStdinReader_Read n r = res" unread
  by unfold_locales (use stdin_read_unread in blast)+

interpretation channel_source: byte_source "\<lambda>n r res. res \<in> set (channelReader_Read n r)" unread
proof unfold_locales
  fix n s d s'
  assume "(GotData d, s') \<in> set (channelReader_Read n s)"
  then show "d @ unread s' = unread s"
    using stdin_read_unread [of n s]
    by (cases "channelStdinReader_Read n s"; cases "fst (channelStdinReader_Read n s)")
      (auto simp: channelReader_Read_def unread_def split: if_splits)
next
  fix n s r s'
  assume "(r, s') \<in> set (channelReader_Read n s)" "r = GotEOF \<or> r = Blocks"
  then show "unread s' = unread s"
    using stdin_read_unread [of n s]
    by (cases "channelStdinReader_Read n s"; cases "fst (channelStdinReader_Read n s)")
      (auto simp: channelReader_Read_def split: if_splits)
qed

section \<open>Reading a line\<close>

text \<open>
  \<^verbatim>\<open>bufio.NewReader(r).ReadString('\n')\<close>: reads of 4096 bytes until the delimiter shows up. \<open>Inl\<close> is an
  error or a read that never returns.
\<close>

datatype line_error = LineEOF | LineBlocks

lemma stdin_data_nonempty: "channelStdinReader_Read (Suc n) r = (GotData d, r') \<Longrightarrow> d \<noteq> []"
  by (auto simp: channelStdinReader_Read_def split: prod.splits if_splits)

lemma stdin_data_shorter:
  assumes "(GotData d, r') = channelStdinReader_Read 4096 r"
  shows "length (unread r') < length (unread r)"
proof -
  have "length d > 0" using assms stdin_data_nonempty [of 4095 r d r'] by simp
  moreover have "d @ unread r' = unread r" using stdin_source.read_data assms by metis
  then have "length d + length (unread r') = length (unread r)" by (metis length_append)
  ultimately show ?thesis by linarith
qed

function ReadString :: "string \<Rightarrow> byte_reader \<Rightarrow> line_error + string" where
  "ReadString acc r =
     (if newline \<in> set acc then Inr (takeWhile (\<lambda>c. c \<noteq> newline) acc @ [newline])
      else
        (case channelStdinReader_Read 4096 r of
           (GotData d, r') \<Rightarrow> ReadString (acc @ d) r'
         | (GotEOF, r') \<Rightarrow> Inl LineEOF
         | (Blocks, r') \<Rightarrow> Inl LineBlocks))"
  by pat_completeness auto
termination
  by (relation "measure (\<lambda>(acc, r). length (unread r))") (auto dest: stdin_data_shorter)

declare ReadString.simps [simp del]

lemma stdin_read_end:
  assumes "channelStdinReader_Read n r = (res, r')" and "res = GotEOF \<or> res = Blocks"
  shows "unread r = []"
proof -
  obtain buf ch where f: "fill (br_buf r) (br_ch r) = (buf, ch)" by force
  with assms have "buf = []" by (auto simp: channelStdinReader_Read_def split: if_splits)
  with fill_unread [OF f] fill_empty [OF f] show ?thesis by (simp add: unread_def)
qed

lemma ReadString_found: "newline \<in> set acc \<Longrightarrow> ReadString acc r = Inr (takeWhile (\<lambda>c. c \<noteq> newline) acc @ [newline])"
  by (subst ReadString.simps) simp

lemma ReadString_more:
  assumes "newline \<notin> set acc" and "channelStdinReader_Read 4096 r = (GotData d, r')"
  shows "ReadString acc r = ReadString (acc @ d) r'"
  using assms by (subst ReadString.simps) simp

lemma ReadString_stop:
  assumes "newline \<notin> set acc" and "channelStdinReader_Read 4096 r = (res, r')" and "res = GotEOF \<or> res = Blocks"
  shows "\<exists>e. ReadString acc r = Inl e"
  using assms by (subst ReadString.simps) auto

lemma reader_cases:
  obtains (data) d r' where "channelStdinReader_Read 4096 r = (GotData d, r')" "d @ unread r' = unread r"
    | (stop) res r' where "channelStdinReader_Read 4096 r = (res, r')" "res = GotEOF \<or> res = Blocks" "unread r = []"
proof -
  obtain res r' where e: "channelStdinReader_Read 4096 r = (res, r')" by force
  show ?thesis
  proof (cases res)
    case (GotData d)
    then show ?thesis using e stdin_source.read_data that(1) by blast
  qed (use e stdin_read_end [OF e] that(2) in auto)
qed

text \<open>The line is the input up to and with the first newline, however it was cut into chunks.\<close>

lemma ReadString_line:
  "newline \<in> set (acc @ unread r) \<Longrightarrow>
   ReadString acc r = Inr (takeWhile (\<lambda>c. c \<noteq> newline) (acc @ unread r) @ [newline])"
proof (induction acc r rule: ReadString.induct)
  case (1 acc r)
  note ih = "1.IH" and prem = "1.prems"
  show ?case
  proof (cases "newline \<in> set acc")
    case True
    then show ?thesis by (simp add: ReadString_found takeWhile_append1)
  next
    case False
    show ?thesis
    proof (cases rule: reader_cases [of r])
      case (data d r')
      have "ReadString (acc @ d) r' = Inr (takeWhile (\<lambda>c. c \<noteq> newline) ((acc @ d) @ unread r') @ [newline])"
        by (rule ih [OF False data(1) [symmetric] refl]) (use prem data(2) in simp)
      then show ?thesis using ReadString_more [OF False data(1)] data(2) by simp
    next
      case stop
      then show ?thesis using prem False by simp
    qed
  qed
qed

lemma ReadString_none:
  "newline \<notin> set (acc @ unread r) \<Longrightarrow> \<exists>e. ReadString acc r = Inl e"
proof (induction acc r rule: ReadString.induct)
  case (1 acc r)
  note ih = "1.IH" and prem = "1.prems"
  have acc: "newline \<notin> set acc" using prem by simp
  show ?case
  proof (cases rule: reader_cases [of r])
    case (data d r')
    have "\<exists>e. ReadString (acc @ d) r' = Inl e"
      by (rule ih [OF acc data(1) [symmetric] refl]) (use prem data(2) in simp)
    then show ?thesis using ReadString_more [OF acc data(1)] by simp
  next
    case (stop res r')
    then show ?thesis using ReadString_stop [OF acc] by blast
  qed
qed

end
