(* ===== verification/SSHD_Server.thy ===== *)
theory SSHD_Server
  imports Session_Manager SSHD_Channel Byte_Channel
begin

text \<open>
  The SSH server inside the sandbox and the client side that talks to it: \<^verbatim>\<open>sshd/server.go\<close>,
  \<^verbatim>\<open>sshd/coarse_duration.go\<close>, the duration format of \<^verbatim>\<open>sshd/selector.go\<close>, and from \<^verbatim>\<open>cmd/connect.go\<close> the
  end of a connection and the question to shut down after the last one.

  A handler is a function from what its environment answers (the session list, the
  selector's choice, the manager, the reason of the detach) to the list of its effects in order. The
  counters of the server are changed by these effects; \<open>server_step\<close> interleaves any number of
  handlers. \<^verbatim>\<open>d.Minutes()\<close> is the exact quotient (the code's floating-point value has the same integer
  part for durations below a hundred days).
\<close>

section \<open>Exit codes, sizes and durations\<close>

definition DisconnectExitCode :: int where "DisconnectExitCode = 255"

definition detachExitCode :: "DetachReason \<Rightarrow> int" where
  "detachExitCode reason = (if reason = DetachNone then 0 else DisconnectExitCode)"

definition defaultPTYCols :: uint16 where "defaultPTYCols = 80"
definition defaultPTYRows :: uint16 where "defaultPTYRows = 24"
definition maxPTYCols :: uint16 where "maxPTYCols = 2048"
definition maxPTYRows :: uint16 where "maxPTYRows = 2048"

definition clampDim :: "int \<Rightarrow> uint16 \<Rightarrow> uint16 \<Rightarrow> uint16" where
  "clampDim v dflt limit = (if v \<le> 0 then dflt else if v > uint limit then limit else word_of_int v)"

definition clampPTYSize :: "int \<Rightarrow> int \<Rightarrow> uint16 \<times> uint16" where
  "clampPTYSize cols rows = (clampDim cols defaultPTYCols maxPTYCols, clampDim rows defaultPTYRows maxPTYRows)"

definition second_ns :: int where "second_ns = 1000000000"
definition minute_ns :: int where "minute_ns = 60 * second_ns"

definition formatCoarseDuration :: "int \<Rightarrow> string" where
  "formatCoarseDuration d =
     (if d < minute_ns then ''<1m''
      else
        let totalMinutes = d div minute_ns;
            days = totalMinutes div (60 * 24);
            hours = totalMinutes mod (60 * 24) div 60;
            minutes = totalMinutes mod 60
        in if days > 0 \<and> hours > 0 then show_int days @ ''d'' @ show_int hours @ ''h''
           else if days > 0 then show_int days @ ''d''
           else if hours > 0 \<and> minutes > 0 then show_int hours @ ''h'' @ show_int minutes @ ''m''
           else if hours > 0 then show_int hours @ ''h''
           else show_int minutes @ ''m'')"

definition formatDuration :: "int \<Rightarrow> string" where
  "formatDuration d =
     (if d < minute_ns then show_int (max (if d < 0 then - (- d div second_ns) else d div second_ns) 0) @ ''s''
      else
        let totalMinutes = d div minute_ns;
            days = totalMinutes div (60 * 24);
            hours = totalMinutes mod (60 * 24) div 60;
            minutes = totalMinutes mod 60
        in if days > 0 then show_int days @ ''d '' @ show_int hours @ ''h''
           else if hours > 0 then show_int hours @ ''h '' @ show_int minutes @ ''m''
           else show_int minutes @ ''m'')"

section \<open>The server's counters\<close>

record Server =
  sv_execSessions :: "uint64 \<rightharpoonup> string"
  sv_execCounter :: uint64
  sv_ptyConns :: int

definition new_Server :: Server where
  "new_Server = \<lparr>sv_execSessions = Map.empty, sv_execCounter = 0, sv_ptyConns = 0\<rparr>"

definition registerExec :: "string \<Rightarrow> Server \<Rightarrow> uint64 \<times> Server" where
  "registerExec command s =
     (let n = sv_execCounter s + 1 in
      (n, s\<lparr>sv_execCounter := n, sv_execSessions := (sv_execSessions s)(n \<mapsto> command)\<rparr>))"

definition deregisterExec :: "uint64 \<Rightarrow> Server \<Rightarrow> Server" where
  "deregisterExec n s = s\<lparr>sv_execSessions := (sv_execSessions s)(n := None)\<rparr>"

record SessionCountReply =
  sc_PTYConns :: uint32
  sc_AttachedPTY :: uint32
  sc_DetachedPTY :: uint32
  sc_ExecCount :: uint32
  sc_DetachedInfo :: string

definition tab_char :: char where "tab_char = CHR 0x09"

definition detached_line :: "int \<Rightarrow> SessionInfo \<Rightarrow> string" where
  "detached_line now info =
     (let cmd = (if si_Command info = [] then ''shell'' else si_Command info)
      in si_ID info @ [tab_char] @ cmd @ [tab_char] @ formatCoarseDuration (now - si_CreatedAt info))"

fun count_sessions :: "int \<Rightarrow> SessionInfo list \<Rightarrow> uint32 \<times> uint32 \<times> string list \<Rightarrow> uint32 \<times> uint32 \<times> string list" where
  "count_sessions now [] acc = acc"
| "count_sessions now (info # infos) (attached, detached, lines) =
     count_sessions now infos
       (case si_Status info of
          Attached \<Rightarrow> (attached + 1, detached, lines)
        | Detached \<Rightarrow> (attached, detached + 1, lines @ [detached_line now info])
        | Exited \<Rightarrow> (attached, detached, lines))"

definition sessionCount :: "int \<Rightarrow> SessionInfo list \<Rightarrow> Server \<Rightarrow> SessionCountReply" where
  "sessionCount now infos s =
     (let (attached, detached, lines) = count_sessions now infos (0, 0, []) in
      \<lparr>sc_PTYConns = word_of_int (sv_ptyConns s), sc_AttachedPTY = attached, sc_DetachedPTY = detached,
       sc_ExecCount = word_of_nat (card (dom (sv_execSessions s))), sc_DetachedInfo = join_with [newline] lines\<rparr>)"

section \<open>The PTY handler\<close>

datatype selector_outcome = SelectorError string | SelectorQuit | SelectorNew | SelectorPick string

datatype pty_effect =
    PtyConnsInc
  | PtyConnsDec
  | RunSelector "SessionInfo list"
  | CreateSession uint16 uint16 "string list"
  | StderrWrite string
  | AttachClient string uint16 uint16
  | LogUnclean string string
  | CloseClient DetachReason
  | ExitStatus int

text \<open>
  What the handler learns from outside: the environment and terminal of the session channel,
  \<^verbatim>\<open>COLORTERM\<close> of the process, the session list, the selector, \<^verbatim>\<open>Create\<close> (the text of its error or the
  identifier), whether \<^verbatim>\<open>Get\<close> finds a session, and the client's reason when its output ends.
\<close>

record pty_env =
  pe_environ :: "string list"
  pe_term :: string
  pe_colorterm :: string
  pe_sessions :: "SessionInfo list"
  pe_selector :: selector_outcome
  pe_create :: "string + string"
  pe_get :: "string \<Rightarrow> bool"
  pe_reason :: DetachReason

definition pty_environ :: "pty_env \<Rightarrow> string list" where
  "pty_environ pe =
     (let sshEnv = pe_environ pe @ [''TERM='' @ pe_term pe] in
      if \<not> list_ex (has_prefix ''COLORTERM='') sshEnv \<and> pe_colorterm pe \<noteq> [] then sshEnv @ [''COLORTERM='' @ pe_colorterm pe]
      else sshEnv)"

definition finishPTY :: "bool \<Rightarrow> int \<Rightarrow> pty_effect list" where
  "finishPTY client code = [PtyConnsDec] @ (if client then [CloseClient DetachNone] else []) @ [ExitStatus code]"

definition stderr_line :: "string \<Rightarrow> pty_effect" where
  "stderr_line s = StderrWrite (ToCRLF (s @ [newline]))"

text \<open>From the attach on: the copies run until the output ends, then the reason is reported.\<close>

definition pty_attached :: "pty_env \<Rightarrow> string \<Rightarrow> uint16 \<times> uint16 \<Rightarrow> pty_effect list" where
  "pty_attached pe ident dims =
     [AttachClient ident (fst dims) (snd dims)]
     @ (if Label (pe_reason pe) \<noteq> [] then [LogUnclean ident (Label (pe_reason pe))] else [])
     @ finishPTY True (detachExitCode (pe_reason pe))"

definition pty_create :: "pty_env \<Rightarrow> uint16 \<times> uint16 \<Rightarrow> pty_effect list" where
  "pty_create pe dims =
     [CreateSession (fst dims) (snd dims) (pty_environ pe)]
     @ (case pe_create pe of
          Inl err \<Rightarrow> stderr_line (''create session: '' @ err) # finishPTY False 1
        | Inr ident \<Rightarrow> pty_attached pe ident dims)"

definition handlePTYSession :: "pty_env \<Rightarrow> window \<Rightarrow> pty_effect list" where
  "handlePTYSession pe win =
     (let dims = clampPTYSize (fst win) (snd win);
          detached = filter (\<lambda>info. si_Status info = Detached) (pe_sessions pe)
      in [PtyConnsInc]
         @ (if length detached = 0 then pty_create pe dims
            else [RunSelector detached]
              @ (case pe_selector pe of
                   SelectorError err \<Rightarrow> stderr_line (''selector: '' @ err) # finishPTY False 1
                 | SelectorQuit \<Rightarrow> finishPTY False 0
                 | SelectorNew \<Rightarrow> pty_create pe dims
                 | SelectorPick ident \<Rightarrow>
                     if \<not> pe_get pe ident then stderr_line (''session '' @ ident @ '' not found'') # finishPTY False 1
                     else pty_attached pe ident dims)))"

section \<open>The exec handler\<close>

datatype exec_outcome = StdinPipeError string | RunOK | RunExit int | RunFailed string

datatype exec_effect =
    ExecRegister string
  | ExecDeregister
  | RunShell string string "string set"
  | ExecStderr string
  | ExecExit int

definition userShell :: "string \<Rightarrow> string" where
  "userShell shell_var = (if shell_var \<noteq> [] then shell_var else ''/bin/sh'')"

text \<open>\<^verbatim>\<open>deregisterExec\<close> is deferred, so it comes after the exit status.\<close>

definition handleExecSession :: "string \<Rightarrow> string list \<Rightarrow> string list \<Rightarrow> string \<Rightarrow> exec_outcome \<Rightarrow> exec_effect list" where
  "handleExecSession rawCmd sess_env os_env shell_var outcome =
     (if rawCmd = [] then [ExecStderr (''no command specified'' @ [newline]), ExecExit 1]
      else
        [ExecRegister rawCmd]
        @ (case outcome of
             StdinPipeError err \<Rightarrow> [ExecStderr (''stdin pipe: '' @ err @ [newline]), ExecExit 1]
           | RunOK \<Rightarrow> [RunShell (userShell shell_var) rawCmd (MergeEnv os_env sess_env), ExecExit 0]
           | RunExit code \<Rightarrow> [RunShell (userShell shell_var) rawCmd (MergeEnv os_env sess_env), ExecExit code]
           | RunFailed err \<Rightarrow> [RunShell (userShell shell_var) rawCmd (MergeEnv os_env sess_env),
                ExecStderr (''failed to run command: '' @ err @ [newline]), ExecExit 1])
        @ [ExecDeregister])"

text \<open>\<^verbatim>\<open>Exit\<close> puts the code into a 32-bit field.\<close>

definition exit_status_payload :: "int \<Rightarrow> uint32" where
  "exit_status_payload code = word_of_int code"

section \<open>Handlers in parallel\<close>

text \<open>
  Any number of handlers. The ghost part counts the PTY handlers between their first and their
  last effect on the counter, and the identifiers of the exec handlers that have not deregistered.
\<close>

record server_run =
  sr_server :: Server
  sr_gPtys :: nat
  sr_gExecs :: "uint64 list"
  sr_gStarted :: nat

definition server_start :: server_run where
  "server_start = \<lparr>sr_server = new_Server, sr_gPtys = 0, sr_gExecs = [], sr_gStarted = 0\<rparr>"

inductive server_step :: "server_run \<Rightarrow> server_run \<Rightarrow> bool" where
  pty_begin:
    "server_step r (r\<lparr>sr_server := (sr_server r)\<lparr>sv_ptyConns := sv_ptyConns (sr_server r) + 1\<rparr>, sr_gPtys := sr_gPtys r + 1\<rparr>)"
| pty_finish:
    "sr_gPtys r > 0 \<Longrightarrow>
     server_step r (r\<lparr>sr_server := (sr_server r)\<lparr>sv_ptyConns := sv_ptyConns (sr_server r) - 1\<rparr>, sr_gPtys := sr_gPtys r - 1\<rparr>)"
| exec_begin:
    "registerExec command (sr_server r) = (n, s') \<Longrightarrow>
     server_step r (r\<lparr>sr_server := s', sr_gExecs := n # sr_gExecs r, sr_gStarted := sr_gStarted r + 1\<rparr>)"
| exec_finish:
    "n \<in> set (sr_gExecs r) \<Longrightarrow>
     server_step r (r\<lparr>sr_server := deregisterExec n (sr_server r), sr_gExecs := remove1 n (sr_gExecs r)\<rparr>)"

inductive_cases server_stepE: "server_step r r'"

definition server_inv :: "server_run \<Rightarrow> bool" where
  "server_inv r \<longleftrightarrow>
     sv_ptyConns (sr_server r) = int (sr_gPtys r)
     \<and> sv_execCounter (sr_server r) = of_nat (sr_gStarted r)
     \<and> (sr_gStarted r < 2 ^ 64 \<longrightarrow>
          distinct (sr_gExecs r) \<and> dom (sv_execSessions (sr_server r)) = set (sr_gExecs r)
          \<and> (\<forall>n \<in> set (sr_gExecs r). unat n \<le> sr_gStarted r))"

lemma server_step_inv: "server_step r r' \<Longrightarrow> server_inv r \<Longrightarrow> server_inv r'"
proof (erule server_stepE, goal_cases)
  case (3 command n s')
  let ?k = "sr_gStarted r + 1"
  have n: "n = of_nat ?k" using 3 by (auto simp: registerExec_def Let_def server_inv_def)
  have s': "sv_execCounter s' = n" "sv_execSessions s' = (sv_execSessions (sr_server r))(n \<mapsto> command)"
    "sv_ptyConns s' = sv_ptyConns (sr_server r)"
    using 3 by (auto simp: registerExec_def Let_def)
  have "distinct (n # sr_gExecs r) \<and> dom (sv_execSessions s') = set (n # sr_gExecs r) \<and> (\<forall>m \<in> set (n # sr_gExecs r). unat m \<le> ?k)"
    if "?k < 2 ^ 64"
  proof -
    have k: "unat n = ?k" using that unfolding n unsigned_of_nat by (simp add: take_bit_nat_eq_self)
    have old: "\<forall>n \<in> set (sr_gExecs r). unat n \<le> sr_gStarted r" "distinct (sr_gExecs r)"
      "dom (sv_execSessions (sr_server r)) = set (sr_gExecs r)"
      using 3 that by (simp_all add: server_inv_def)
    then have "n \<notin> set (sr_gExecs r)" using k by fastforce
    with old k show ?thesis by (auto simp: s' intro: le_SucI)
  qed
  then show ?case using 3 n s' by (simp add: server_inv_def del: of_nat_Suc)
qed (auto simp: server_inv_def deregisterExec_def of_nat_diff dest: notin_set_remove1)

lemma server_reach_inv: "server_step\<^sup>*\<^sup>* server_start r \<Longrightarrow> server_inv r"
proof (induction rule: rtranclp_induct)
  case base
  show ?case by (simp add: server_inv_def server_start_def new_Server_def)
qed (rule server_step_inv)

section \<open>The client's end of a connection\<close>

text \<open>
  \<^verbatim>\<open>session.Wait\<close> gives no error for status zero and an error with the status otherwise; what
  \<^verbatim>\<open>ConnectAction\<close> does with it.
\<close>

datatype connect_end = Disconnected | ExitedWith int | AskLastExit

definition isSandboxDisconnect :: "uint32 \<Rightarrow> bool" where
  "isSandboxDisconnect status \<longleftrightarrow> uint status = DisconnectExitCode"

definition connect_finish :: "uint32 \<Rightarrow> connect_end" where
  "connect_finish status =
     (if status \<noteq> 0 then (if isSandboxDisconnect status then Disconnected else ExitedWith (uint status)) else AskLastExit)"

definition split3 :: "string \<Rightarrow> string list" where
  "split3 line =
     (case cut_at tab_char line of
        None \<Rightarrow> [line]
      | Some (a, rest) \<Rightarrow> (case cut_at tab_char rest of None \<Rightarrow> [a, rest] | Some (b, c) \<Rightarrow> [a, b, c]))"

definition pad :: "nat \<Rightarrow> string \<Rightarrow> string" where
  "pad n s = s @ replicate (n - length s) (CHR '' '')"

datatype last_exit_effect = Say string | ShutDown

definition table_row :: "string \<Rightarrow> last_exit_effect list" where
  "table_row line =
     (case split3 line of
        [a, b, c] \<Rightarrow> [Say (''  '' @ pad 12 a @ '' '' @ pad 8 b @ '' '' @ c @ [newline])]
      | _ \<Rightarrow> [])"

text \<open>
  \<open>answer\<close> is the result of the \<^verbatim>\<open>session-count\<close> request: \<^term>\<open>None\<close> for a transport error, otherwise whether
  it was accepted and the decoded payload, if it decodes.
\<close>

definition handleLastExit :: "bool \<Rightarrow> (bool \<times> SessionCountReply option) option \<Rightarrow> byte_reader \<Rightarrow> last_exit_effect list" where
  "handleLastExit isTerminal answer stdin =
     (if \<not> isTerminal then []
      else (case answer of
          Some (True, Some reply) \<Rightarrow>
            if sc_PTYConns reply > 0 \<or> sc_ExecCount reply > 0 then []
            else
              [Say (''You were the last connection.'' @ [newline])]
              @ (if sc_DetachedPTY reply > 0 \<and> sc_DetachedInfo reply \<noteq> []
                 then Say (show_nat (unat (sc_DetachedPTY reply)) @ '' detached session(s) will be killed:'' @ [newline])
                      # concat (map table_row (split_on newline (sc_DetachedInfo reply)))
                 else [])
              @ [Say ''Shut down the sandbox? [y/N] '']
              @ (case ReadString [] stdin of
                   Inl err \<Rightarrow> []
                 | Inr line \<Rightarrow>
                     let line = trim_space (to_lower line) in if line = ''y'' \<or> line = ''yes'' then [ShutDown] else [])
        | _ \<Rightarrow> []))"

section \<open>Lemmas\<close>

lemma clampDim_bounds:
  assumes "0 < uint dflt" and "uint dflt \<le> uint limit"
  shows "0 < uint (clampDim v dflt limit) \<and> uint (clampDim v dflt limit) \<le> uint limit
         \<and> (0 < v \<and> v \<le> uint limit \<longrightarrow> uint (clampDim v dflt limit) = v)"
proof -
  have "uint (word_of_int v :: uint16) = v" if "0 < v" "v \<le> uint limit"
    using that uint_lt2p [of limit] by (simp add: uint_word_of_int_eq take_bit_int_eq_self)
  then show ?thesis using assms by (auto simp: clampDim_def)
qed

lemma clampPTYSize_bounds:
  assumes "clampPTYSize w h = (cols, rows)"
  shows "0 < uint cols \<and> uint cols \<le> 2048 \<and> 0 < uint rows \<and> uint rows \<le> 2048"
  using assms clampDim_bounds [of defaultPTYCols maxPTYCols w] clampDim_bounds [of defaultPTYRows maxPTYRows h]
  by (auto simp: clampPTYSize_def defaultPTYCols_def defaultPTYRows_def maxPTYCols_def maxPTYRows_def)

lemma pty_handler_cases:
  obtains (refused) pre code where "handlePTYSession pe win = PtyConnsInc # pre @ [PtyConnsDec, ExitStatus code]"
      "set pre \<inter> ({PtyConnsInc, PtyConnsDec} \<union> range ExitStatus \<union> range CloseClient) = {}"
      "\<forall>i c r. AttachClient i c r \<notin> set pre" "code = 0 \<or> code = 1"
      "code = 0 \<longleftrightarrow> filter (\<lambda>info. si_Status info = Detached) (pe_sessions pe) \<noteq> [] \<and> pe_selector pe = SelectorQuit"
    | (attached) pre ident cols rows logs where
      "handlePTYSession pe win = PtyConnsInc # pre @ [AttachClient ident cols rows] @ logs
         @ [PtyConnsDec, CloseClient DetachNone, ExitStatus (detachExitCode (pe_reason pe))]"
      "set (pre @ logs) \<inter> ({PtyConnsInc, PtyConnsDec} \<union> range ExitStatus \<union> range CloseClient) = {}"
      "\<forall>i c r. AttachClient i c r \<notin> set (pre @ logs)" "clampPTYSize (fst win) (snd win) = (cols, rows)"
      "\<not> (filter (\<lambda>info. si_Status info = Detached) (pe_sessions pe) \<noteq> [] \<and> pe_selector pe = SelectorQuit)"
proof -
  let ?d = "filter (\<lambda>info. si_Status info = Detached) (pe_sessions pe)"
  obtain cols rows where sz: "clampPTYSize (fst win) (snd win) = (cols, rows)" by force
  let ?logs = "\<lambda>ident. if Label (pe_reason pe) \<noteq> [] then [LogUnclean ident (Label (pe_reason pe))] else []"
  have att: "pty_attached pe ident (cols, rows) = [AttachClient ident cols rows] @ ?logs ident
       @ [PtyConnsDec, CloseClient DetachNone, ExitStatus (detachExitCode (pe_reason pe))]" for ident
    by (simp add: pty_attached_def finishPTY_def)
  have attached_by: thesis if "handlePTYSession pe win = PtyConnsInc # pre @ pty_attached pe ident (cols, rows)"
      "set pre \<inter> ({PtyConnsInc, PtyConnsDec} \<union> range ExitStatus \<union> range CloseClient) = {}"
      "\<forall>i c r. AttachClient i c r \<notin> set pre" "\<not> (?d \<noteq> [] \<and> pe_selector pe = SelectorQuit)" for pre ident
    by (rule attached [of pre ident cols rows "?logs ident"]) (use that sz att in auto)
  have create: thesis if e: "handlePTYSession pe win = PtyConnsInc # pre @ pty_create pe (cols, rows)"
      "set pre \<subseteq> range RunSelector" "\<not> (?d \<noteq> [] \<and> pe_selector pe = SelectorQuit)" for pre
  proof (cases "pe_create pe")
    case (Inl err)
    show ?thesis
      by (rule refused [of "pre @ [CreateSession cols rows (pty_environ pe), stderr_line (''create session: '' @ err)]" 1])
        (use e Inl in \<open>auto simp: pty_create_def finishPTY_def stderr_line_def\<close>)
  next
    case (Inr ident)
    show ?thesis
      by (rule attached_by [of "pre @ [CreateSession cols rows (pty_environ pe)]" ident])
        (use e Inr in \<open>auto simp: pty_create_def\<close>)
  qed
  show ?thesis
  proof (cases "?d = []")
    case True
    then show ?thesis using create [of "[]"] sz by (simp add: handlePTYSession_def Let_def)
  next
    case False
    note h = handlePTYSession_def [of pe win, unfolded Let_def sz]
    show ?thesis
    proof (cases "pe_selector pe")
      case (SelectorError err)
      then show ?thesis
        using False by (intro refused [of "[RunSelector ?d, stderr_line (''selector: '' @ err)]" 1]) (auto simp: h finishPTY_def stderr_line_def)
    next
      case SelectorQuit
      then show ?thesis using False by (intro refused [of "[RunSelector ?d]" 0]) (auto simp: h finishPTY_def)
    next
      case SelectorNew
      then show ?thesis using False by (intro create [of "[RunSelector ?d]"]) (auto simp: h)
    next
      case (SelectorPick ident)
      show ?thesis
      proof (cases "pe_get pe ident")
        case True
        then show ?thesis using False SelectorPick by (intro attached_by [of "[RunSelector ?d]" ident]) (auto simp: h)
      next
        case no: False
        show ?thesis
          by (rule refused [of "[RunSelector ?d, stderr_line (''session '' @ ident @ '' not found'')]" 1])
            (use False no SelectorPick in \<open>auto simp: h finishPTY_def stderr_line_def\<close>)
      qed
    qed
  qed
qed

text \<open>The table of detached sessions: what the server writes and what the client prints.\<close>

definition plain_text :: "string \<Rightarrow> bool" where
  "plain_text s \<longleftrightarrow> tab_char \<notin> set s \<and> newline \<notin> set s"

lemma plain_text_append [simp]: "plain_text (a @ b) \<longleftrightarrow> plain_text a \<and> plain_text b"
  by (auto simp: plain_text_def)

lemma plain_show_int [simp]: "plain_text (show_int i)"
proof -
  have "c \<noteq> tab_char \<and> c \<noteq> newline" if "is_digit c" for c
    using that by (auto simp: is_digit_def tab_char_def newline_def)
  moreover have "list_all is_digit (show_nat n)" for n by (rule show_nat_digits)
  ultimately have "plain_text (show_nat n)" for n by (auto simp: plain_text_def list_all_iff)
  moreover have "plain_text (CHR ''-'' # s) \<longleftrightarrow> plain_text s" for s by (simp add: plain_text_def tab_char_def newline_def)
  ultimately show ?thesis by (simp add: show_int_def)
qed

lemma plain_coarse [simp]: "plain_text (formatCoarseDuration d)"
proof -
  have "plain_text ''<1m''" "plain_text ''d''" "plain_text ''h''" "plain_text ''m''"
    by (simp_all add: plain_text_def tab_char_def newline_def)
  then show ?thesis unfolding formatCoarseDuration_def Let_def
    by (simp only: plain_text_append plain_show_int simp_thms split: if_split)
qed

definition shown_command :: "SessionInfo \<Rightarrow> string" where
  "shown_command info = (if si_Command info = [] then ''shell'' else si_Command info)"

definition detached_row :: "int \<Rightarrow> SessionInfo \<Rightarrow> last_exit_effect" where
  "detached_row now info =
     Say (''  '' @ pad 12 (si_ID info) @ '' '' @ pad 8 (shown_command info) @ '' ''
          @ formatCoarseDuration (now - si_CreatedAt info) @ [newline])"

lemma plain_command: "plain_text (si_Command info) \<Longrightarrow> plain_text (shown_command info)"
  by (simp add: shown_command_def) (simp add: plain_text_def tab_char_def newline_def)

lemma detached_line_row:
  assumes "plain_text (si_ID info)" and "plain_text (si_Command info)"
  shows "newline \<notin> set (detached_line now info) \<and> table_row (detached_line now info) = [detached_row now info]"
proof -
  have l: "detached_line now info = si_ID info @ tab_char # shown_command info @ tab_char # formatCoarseDuration (now - si_CreatedAt info)"
    by (simp add: detached_line_def shown_command_def Let_def)
  have p: "plain_text (shown_command info)" "plain_text (formatCoarseDuration (now - si_CreatedAt info))"
    using plain_command [OF assms(2)] by simp_all
  have "cut_at tab_char (detached_line now info)
      = Some (si_ID info, shown_command info @ tab_char # formatCoarseDuration (now - si_CreatedAt info))"
    "cut_at tab_char (shown_command info @ tab_char # formatCoarseDuration (now - si_CreatedAt info))
      = Some (shown_command info, formatCoarseDuration (now - si_CreatedAt info))"
    using assms p by (simp_all add: cut_at_Some l plain_text_def)
  then have "table_row (detached_line now info) = [detached_row now info]"
    by (simp add: table_row_def split3_def detached_row_def)
  moreover have "newline \<noteq> tab_char" by (simp add: newline_def tab_char_def)
  then have "newline \<notin> set (detached_line now info)"
    using assms p unfolding l by (simp add: plain_text_def)
  ultimately show ?thesis by blast
qed

abbreviation detached_of :: "SessionInfo list \<Rightarrow> SessionInfo list" where
  "detached_of infos \<equiv> filter (\<lambda>info. si_Status info = Detached) infos"

lemma count_sessions_eq:
  "count_sessions now infos (a, d, ls)
   = (a + of_nat (length (filter (\<lambda>info. si_Status info = Attached) infos)), d + of_nat (length (detached_of infos)),
      ls @ map (detached_line now) (detached_of infos))"
  by (induction infos arbitrary: a d ls) (auto split: Status.split)

lemma sessionCount_fields:
  "sc_PTYConns (sessionCount now infos s) = word_of_int (sv_ptyConns s)"
  "sc_ExecCount (sessionCount now infos s) = word_of_nat (card (dom (sv_execSessions s)))"
  "sc_DetachedPTY (sessionCount now infos s) = word_of_nat (length (detached_of infos))"
  "sc_DetachedInfo (sessionCount now infos s) = join_with [newline] (map (detached_line now) (detached_of infos))"
  by (simp_all add: sessionCount_def count_sessions_eq)

lemma detached_table:
  assumes "\<forall>info \<in> set infos. plain_text (si_ID info) \<and> plain_text (si_Command info)" and "infos \<noteq> []"
  shows "concat (map table_row (split_on newline (join_with [newline] (map (detached_line now) infos))))
         = map (detached_row now) infos"
proof -
  have "split_on newline (join_with [newline] (map (detached_line now) infos)) = map (detached_line now) infos"
    using assms detached_line_row by (intro split_join) auto
  moreover have "concat (map table_row (map (detached_line now) infos)) = map (detached_row now) infos"
    using assms(1) by (induction infos) (use detached_line_row in auto)
  ultimately show ?thesis by simp
qed

text \<open>Small counts pass through their 32-bit fields.\<close>

lemma word32_zero:
  assumes "n < 2 ^ 32"
  shows "(word_of_nat n :: uint32) = 0 \<longleftrightarrow> n = 0"
proof -
  have "unat (word_of_nat n :: uint32) = n" using assms by (simp add: unsigned_of_nat take_bit_nat_eq_self)
  then show ?thesis by auto
qed

section \<open>Properties\<close>





text \<open>
  The list of sessions that a shutdown would kill is the server's. When session identifiers
  and commands have no tabs or newlines, the lines that the client prints before the question are
  exactly one per detached session, in the order of the list, with its identifier, its command (or
  \<^verbatim>\<open>shell\<close>) and its age, after a heading with their number.
\<close>

lemma detached_table_roundtrip:
  assumes "\<forall>info \<in> set infos. plain_text (si_ID info) \<and> plain_text (si_Command info)"
    and "sv_ptyConns s = 0" and "sv_execSessions s = Map.empty" and "detached_of infos \<noteq> []" and "length infos < 2 ^ 32"
  shows "\<exists>answer. handleLastExit True (Some (True, Some (sessionCount now infos s))) stdin
           = Say (''You were the last connection.'' @ [newline])
             # Say (show_nat (length (detached_of infos)) @ '' detached session(s) will be killed:'' @ [newline])
             # map (detached_row now) (detached_of infos) @ Say ''Shut down the sandbox? [y/N] '' # answer
           \<and> set answer \<subseteq> {ShutDown}"
proof -
  let ?reply = "sessionCount now infos s" and ?d = "detached_of infos"
  have len: "length ?d < 2 ^ 32" using assms(5) by (meson le_less_trans length_filter_le)
  have n: "unat (sc_DetachedPTY ?reply) = length ?d" "sc_DetachedPTY ?reply > 0"
    using len word32_zero [OF len] assms(4)
    by (simp_all add: sessionCount_fields unsigned_of_nat take_bit_nat_eq_self word_gt_0)
  have t: "concat (map table_row (split_on newline (sc_DetachedInfo ?reply))) = map (detached_row now) ?d"
    unfolding sessionCount_fields using assms(1,4) by (intro detached_table) auto
  have "sc_DetachedInfo ?reply \<noteq> []"
  proof
    assume "sc_DetachedInfo ?reply = []"
    with t have "table_row [] = map (detached_row now) ?d" by simp
    then show False using assms(4) by (simp add: table_row_def split3_def)
  qed
  then show ?thesis
    using n t assms(2,3)
    by (intro exI [of _ "case ReadString [] stdin of Inl err \<Rightarrow> []
        | Inr line \<Rightarrow> let line = trim_space (to_lower line) in if line = ''y'' \<or> line = ''yes'' then [ShutDown] else []"])
      (auto simp: handleLastExit_def sessionCount_fields(1,2) Let_def split: sum.splits)
qed

definition sample_info :: SessionInfo where
  "sample_info = \<lparr>si_ID = ''session-1'', si_Command = ''/bin/bash'', si_ClientCount = 0, si_Status = Detached, si_ExitCode = 0,
     si_CreatedAt = 0, si_ExitedAt = 0, si_DetachedAt = 0, si_LastDetachReason = DetachNone\<rparr>"

lemma detached_table_roundtrip_witness:
  "\<exists>answer. handleLastExit True (Some (True, Some (sessionCount (90 * minute_ns) [sample_info] new_Server)))
       \<lparr>br_buf = [], br_ch = [], br_closed = True, br_done = False\<rparr>
     = Say (''You were the last connection.'' @ [newline])
       # Say (''1 detached session(s) will be killed:'' @ [newline])
       # Say (''  session-1    /bin/bash 1h30m'' @ [newline]) # Say ''Shut down the sandbox? [y/N] '' # answer"
proof -
  have "plain_text (si_ID sample_info)" "plain_text (si_Command sample_info)"
    by (simp_all add: sample_info_def plain_text_def tab_char_def newline_def)
  moreover have "detached_of [sample_info] = [sample_info]" by (simp add: sample_info_def)
  moreover have "detached_row (90 * minute_ns) sample_info = Say (''  session-1    /bin/bash 1h30m'' @ [newline])" by code_simp
  moreover have "show_nat 1 = ''1''" by code_simp
  ultimately show ?thesis
    using detached_table_roundtrip [of "[sample_info]" new_Server "90 * minute_ns" "\<lparr>br_buf = [], br_ch = [], br_closed = True, br_done = False\<rparr>"]
    by (auto simp: new_Server_def)
qed

end
