(* ===== verification/Shell_Quote.thy ===== *)
theory Shell_Quote
  imports Go_Prelude
begin

text \<open>
  Command lines for the remote shell: \<^verbatim>\<open>sshd/shell_escape.go\<close> and \<^verbatim>\<open>buildRemoteCommand\<close> of
  \<^verbatim>\<open>cmd/exec.go\<close>. The server runs the line with \<^verbatim>\<open>sh -c\<close>, so the specification is the shell's own
  reading of it: \<open>shell_lex\<close> is the token recognition and quoting of the POSIX shell language for lines of
  plain characters, single quotes and backslashes. It gives up (\<^term>\<open>None\<close>) on every unquoted
  character that could be an operator, an expansion, a pattern or a comment, so a result means
  that the shell has no freedom in reading the line. Each character of a word carries whether it was quoted,
  because an unquoted \<^verbatim>\<open>name=\<close> in front of the command makes an assignment of the word.
\<close>

section \<open>The code\<close>

definition shell_safe :: "char \<Rightarrow> bool" where
  "shell_safe c =
     (let n = of_char c :: nat in
      \<not> ((n < 97 \<or> n > 122) \<and> (n < 65 \<or> n > 90) \<and> (n < 48 \<or> n > 57)
         \<and> c \<noteq> CHR ''-'' \<and> c \<noteq> CHR ''_'' \<and> c \<noteq> CHR ''.'' \<and> c \<noteq> CHR ''/'' \<and> c \<noteq> CHR '':'' \<and> c \<noteq> CHR '',''
         \<and> c \<noteq> CHR ''+'' \<and> c \<noteq> CHR ''=''))"

definition quote_char :: char where "quote_char = CHR 0x27"
definition backslash_char :: char where "backslash_char = CHR 0x5C"

text \<open>\<^verbatim>\<open>strings.ReplaceAll\<close> of a quote by the four characters quote, backslash, quote, quote.\<close>

fun replace_quotes :: "string \<Rightarrow> string" where
  "replace_quotes [] = []"
| "replace_quotes (c # cs) =
     (if c = quote_char then [quote_char, backslash_char, quote_char, quote_char] else [c]) @ replace_quotes cs"

definition ShellEscape :: "string \<Rightarrow> string" where
  "ShellEscape s =
     (if s = [] then [quote_char, quote_char]
      else if list_all shell_safe s then s
      else [quote_char] @ replace_quotes s @ [quote_char])"

definition buildRemoteCommand :: "string list \<Rightarrow> string" where
  "buildRemoteCommand args = (if length args = 0 then [] else join_with '' '' (map ShellEscape args))"

section \<open>The shell's reading\<close>

type_synonym shell_word = "(char \<times> bool) list"

datatype shell_mode = Plain | Quoted | Escaped

definition blank :: "char \<Rightarrow> bool" where
  "blank c \<longleftrightarrow> c = CHR '' '' \<or> c = CHR 0x09"

definition flush_word :: "shell_word option \<Rightarrow> shell_word list" where
  "flush_word cur = (case cur of None \<Rightarrow> [] | Some w \<Rightarrow> [w])"

definition add_char :: "bool \<Rightarrow> char \<Rightarrow> shell_word option \<Rightarrow> shell_word option" where
  "add_char q c cur = Some ((case cur of None \<Rightarrow> [] | Some w \<Rightarrow> w) @ [(c, q)])"

definition open_word :: "shell_word option \<Rightarrow> shell_word option" where
  "open_word cur = Some (case cur of None \<Rightarrow> [] | Some w \<Rightarrow> w)"

fun shell_lex :: "shell_mode \<Rightarrow> shell_word option \<Rightarrow> string \<Rightarrow> shell_word list option" where
  "shell_lex Plain cur [] = Some (flush_word cur)"
| "shell_lex Quoted cur [] = None"
| "shell_lex Escaped cur [] = None"
| "shell_lex Plain cur (c # cs) =
     (if blank c then map_option (\<lambda>ws. flush_word cur @ ws) (shell_lex Plain None cs)
      else if c = quote_char then shell_lex Quoted (open_word cur) cs
      else if c = backslash_char then shell_lex Escaped (open_word cur) cs
      else if shell_safe c then shell_lex Plain (add_char False c cur) cs
      else None)"
| "shell_lex Quoted cur (c # cs) =
     (if c = quote_char then shell_lex Plain cur cs else shell_lex Quoted (add_char True c cur) cs)"
| "shell_lex Escaped cur (c # cs) = (if c = CHR 0x0A then None else shell_lex Plain (add_char True c cur) cs)"

definition shell_words :: "string \<Rightarrow> shell_word list option" where
  "shell_words s = shell_lex Plain None s"

definition word_text :: "shell_word \<Rightarrow> string" where "word_text w = map fst w"

text \<open>An assignment word: a name of unquoted characters and an unquoted equals sign.\<close>

definition name_char :: "char \<times> bool \<Rightarrow> bool" where
  "name_char x \<longleftrightarrow> \<not> snd x \<and> (fst x = CHR ''_'' \<or> (let n = of_char (fst x) :: nat in
     (97 \<le> n \<and> n \<le> 122) \<or> (65 \<le> n \<and> n \<le> 90) \<or> (48 \<le> n \<and> n \<le> 57)))"

definition assignment_word :: "shell_word \<Rightarrow> bool" where
  "assignment_word w \<longleftrightarrow>
     (let name = takeWhile name_char w; rest = dropWhile name_char w in
      name \<noteq> [] \<and> \<not> is_digit (fst (hd name)) \<and> rest \<noteq> [] \<and> hd rest = (CHR ''='', False))"

text \<open>The arguments of the simple command: the words after the assignments in front.\<close>

definition command_args :: "string \<Rightarrow> string list option" where
  "command_args s = map_option (\<lambda>ws. map word_text (dropWhile assignment_word ws)) (shell_words s)"

section \<open>Lemmas\<close>

lemma safe_not_special:
  assumes "shell_safe c"
  shows "\<not> blank c" and "c \<noteq> quote_char" and "c \<noteq> backslash_char"
  using assms by (auto simp: shell_safe_def blank_def quote_char_def backslash_char_def)

lemma special_chars [simp]: "quote_char \<noteq> backslash_char" "backslash_char \<noteq> quote_char" "\<not> blank quote_char" "\<not> blank backslash_char"
    "quote_char \<noteq> CHR 0x0A"
  by (simp_all add: quote_char_def backslash_char_def blank_def)

definition extend :: "shell_word option \<Rightarrow> shell_word \<Rightarrow> shell_word option" where
  "extend cur w = Some ((case cur of None \<Rightarrow> [] | Some v \<Rightarrow> v) @ w)"

lemma extend_extend [simp]: "extend (extend cur v) w = extend cur (v @ w)"
  by (simp add: extend_def)

lemma add_char_extend: "add_char q c cur = extend cur [(c, q)]"
  by (simp add: add_char_def extend_def)

lemma open_word_extend: "open_word cur = extend cur []"
  by (simp add: open_word_def extend_def)

lemma flush_extend: "flush_word (extend None w) = [w]"
  by (simp add: flush_word_def extend_def)

lemma lex_safe:
  assumes "list_all shell_safe s" and "s \<noteq> []"
  shows "shell_lex Plain cur (s @ rest) = shell_lex Plain (extend cur (map (\<lambda>c. (c, False)) s)) rest"
  using assms
proof (induction s arbitrary: cur)
  case (Cons c s)
  then show ?case
    by (cases "s = []") (simp_all add: safe_not_special add_char_extend)
qed simp

lemma lex_quoted:
  "shell_lex Quoted (extend cur v) (replace_quotes s @ quote_char # rest)
   = shell_lex Plain (extend cur (v @ map (\<lambda>c. (c, True)) s)) rest"
  by (induction s arbitrary: v) (simp_all add: add_char_extend open_word_extend)

definition escaped_word :: "string \<Rightarrow> shell_word" where
  "escaped_word s = map (\<lambda>c. (c, \<not> list_all shell_safe s)) s"

lemma word_text_escaped [simp]: "word_text (escaped_word s) = s"
  by (simp add: word_text_def escaped_word_def o_def)

lemma lex_escape: "shell_lex Plain None (ShellEscape s @ rest) = shell_lex Plain (extend None (escaped_word s)) rest"
proof (cases "s = [] \<or> list_all shell_safe s")
  case True
  then show ?thesis
    by (auto simp: ShellEscape_def escaped_word_def lex_safe open_word_extend)
next
  case False
  then show ?thesis
    using lex_quoted [of None "[]" s rest] by (auto simp: ShellEscape_def escaped_word_def open_word_extend)
qed

lemma words_join: "shell_words (join_with '' '' (map ShellEscape args)) = Some (map escaped_word args)"
  unfolding shell_words_def
proof (induction args)
  case (Cons a args)
  show ?case
  proof (cases "args = []")
    case True
    then show ?thesis using lex_escape [of a "[]"] by (simp add: flush_extend)
  next
    case False
    then have "join_with '' '' (map ShellEscape (a # args)) = ShellEscape a @ '' '' @ join_with '' '' (map ShellEscape args)"
      by (simp add: join_with_Cons)
    then show ?thesis using Cons.IH by (simp add: lex_escape blank_def flush_extend)
  qed
qed (simp add: flush_word_def)

lemma build_words: "shell_words (buildRemoteCommand args) = Some (map escaped_word args)"
  using words_join [of args] by (cases args) (simp_all add: buildRemoteCommand_def)

section \<open>Properties\<close>



text \<open>
  The exception is real: \<^verbatim>\<open>=\<close> counts as a safe character, so a first argument of the
  form \<^verbatim>\<open>name=value\<close> goes out unquoted and the shell takes it for a variable assignment. The command
  \<^verbatim>\<open>A=b ls\<close> then runs \<^verbatim>\<open>ls\<close>, not the program named \<^verbatim>\<open>A=b\<close>.
\<close>

lemma assignment_argument_is_lost:
  "command_args (buildRemoteCommand [''A=b'', ''ls'']) = Some [''ls'']"
  by code_simp

end
