(* ===== verification/Self_Update.thy ===== *)
theory Self_Update
  imports Go_Prelude "HOL-Library.Multiset"
begin

text \<open>
  The self-update library, package \<^verbatim>\<open>selfupdate\<close>: versions, the release index, changelogs, download,
  checksum, extraction and the replacement of the running binary.

  Parameters: the semantic versions of \<^verbatim>\<open>golang.org/x/mod/semver\<close>, the HTTP responses, the JSON
  decoders, the archive format (gzip and tar), SHA-256, signature verification, and the outcome of
  the operating system calls. The file system is a map from paths to files with their permissions.
  The progress display of the download is left out.
\<close>

section \<open>Versions\<close>

record semver_lib =
  sv_IsValid :: "string \<Rightarrow> bool"
  sv_Canonical :: "string \<Rightarrow> string"
  sv_Prerelease :: "string \<Rightarrow> string"
  sv_Compare :: "string \<Rightarrow> string \<Rightarrow> int"

definition addV :: "string \<Rightarrow> string" where
  "addV version = CHR ''v'' # version"

text \<open>The regular expression \<^verbatim>\<open>-\d+-g[0-9a-f]+$\<close>, matched from the end of the text.\<close>

definition is_lower_hex :: "char \<Rightarrow> bool" where
  "is_lower_hex c = (is_digit c \<or> ((97::nat) \<le> of_char c \<and> of_char c \<le> (102::nat)))"

definition gitDescribeSuffix :: "string \<Rightarrow> bool" where
  "gitDescribeSuffix version =
     (let r = rev version; r1 = dropWhile is_lower_hex r in
      takeWhile is_lower_hex r \<noteq> [] \<and> has_prefix ''g-'' r1
      \<and> (let r2 = drop 2 r1 in takeWhile is_digit r2 \<noteq> [] \<and> has_prefix ''-'' (dropWhile is_digit r2)))"

definition IsDevBuild :: "semver_lib \<Rightarrow> string \<Rightarrow> bool" where
  "IsDevBuild sv version =
     (let v = addV version in
      if \<not> sv_IsValid sv v then True
      else if v \<noteq> sv_Canonical sv v then True
      else if gitDescribeSuffix version then True else False)"

definition IsPrerelease :: "semver_lib \<Rightarrow> string \<Rightarrow> bool" where
  "IsPrerelease sv version = (let v = addV version in sv_IsValid sv v \<and> sv_Prerelease sv v \<noteq> [])"

definition ShouldUpdate :: "semver_lib \<Rightarrow> string \<Rightarrow> string \<Rightarrow> bool \<Rightarrow> bool" where
  "ShouldUpdate sv current latest crossChannel =
     (if IsDevBuild sv current \<or> crossChannel then True else sv_Compare sv (addV current) (addV latest) < 0)"

section \<open>Limits\<close>

text \<open>Evaluation of a prefix whose length is a large integer.\<close>

fun take_int :: "int \<Rightarrow> 'a list \<Rightarrow> 'a list" where
  "take_int n [] = []"
| "take_int n (x # xs) = (if n \<le> 0 then [] else x # take_int (n - 1) xs)"

lemma take_nat_int [code_unfold]: "take (nat n) xs = take_int n xs"
  by (induction n xs rule: take_int.induct) (auto simp: take_Cons' nat_diff_distrib)

section \<open>Releases\<close>

record ReleaseEntry =
  re_Version :: string
  re_Timestamp :: string

record ChannelIndex =
  ci_Latest :: string
  ci_Releases :: "ReleaseEntry list"

record ChangelogEntry =
  ce_Msg :: string
  ce_PR :: string
  ce_Issue :: string

record Asset =
  as_OS :: string
  as_Arch :: string
  as_URL :: string
  as_SHA256 :: string
  as_CosignBundleURL :: string

text \<open>\<^verbatim>\<open>Changes\<close> is \<^term>\<open>None\<close> for a nil map; a category that is not in the map has no entries.\<close>

record VersionMetadata =
  vm_Version :: string
  vm_Timestamp :: string
  vm_Changelog :: string
  vm_Changes :: "(string \<Rightarrow> ChangelogEntry list) option"
  vm_Assets :: "Asset list"

record MergedEntry =
  me_Entry :: ChangelogEntry
  me_Version :: string

datatype update_error =
    FetchFailed string
  | HTTPStatus int
  | ReadFailed string
  | ParseFailed string
  | VersionNotFound string
  | NoPrerelease
  | NoReleases
  | NoAsset string string
  | ArchiveTooLarge
  | CreateTempFailed string
  | WriteFailed string
  | OpenFailed string
  | ChecksumMismatch
  | MissingBundle
  | CosignFailed string
  | GzipFailed string
  | TarFailed string
  | PathTraversal string
  | BinaryNotFound
  | ExtractFailed string
  | StatFailed string
  | ChmodFailed string
  | RenameFailed string
  | ResolveFailed string
  | ManagedBy string
  | NoWritePermission string
  | FlagConflict string
  | ImageFailed string
  | BothFailed update_error update_error

fun FindAsset :: "Asset list \<Rightarrow> string \<Rightarrow> string \<Rightarrow> update_error + Asset" where
  "FindAsset [] os arch = Inl (NoAsset os arch)"
| "FindAsset (a # as) os arch = (if as_OS a = os \<and> as_Arch a = arch then Inr a else FindAsset as os arch)"

text \<open>
  \<^verbatim>\<open>sort.Slice\<close> leaves the order of equal elements open: \<open>sorter\<close> is any function that permutes its
  argument and sorts it by the given comparison.
\<close>

type_synonym sorter = "(ReleaseEntry \<Rightarrow> ReleaseEntry \<Rightarrow> bool) \<Rightarrow> ReleaseEntry list \<Rightarrow> ReleaseEntry list"

definition newer :: "semver_lib \<Rightarrow> ReleaseEntry \<Rightarrow> ReleaseEntry \<Rightarrow> bool" where
  "newer sv a b = (sv_Compare sv (addV (re_Version a)) (addV (re_Version b)) > 0)"

definition in_range :: "semver_lib \<Rightarrow> string \<Rightarrow> string \<Rightarrow> ReleaseEntry \<Rightarrow> bool" where
  "in_range sv current target r =
     (sv_Compare sv (addV current) (addV (re_Version r)) < 0 \<and> sv_Compare sv (addV (re_Version r)) (addV target) \<le> 0)"

definition ReleasesBetween :: "semver_lib \<Rightarrow> sorter \<Rightarrow> ChannelIndex \<Rightarrow> string \<Rightarrow> string \<Rightarrow> ReleaseEntry list" where
  "ReleasesBetween sv sorter idx current target = sorter (newer sv) (filter (in_range sv current target) (ci_Releases idx))"

definition ChannelStable :: string where "ChannelStable = ''stable''"
definition ChannelPrerelease :: string where "ChannelPrerelease = ''prerelease''"

definition OtherChannel :: "string \<Rightarrow> string" where
  "OtherChannel channel = (if channel = ChannelPrerelease then ChannelStable else ChannelPrerelease)"

fun combine_loop :: "string list \<Rightarrow> ReleaseEntry list \<Rightarrow> ReleaseEntry list \<Rightarrow> string list \<times> ReleaseEntry list" where
  "combine_loop seen out [] = (seen, out)"
| "combine_loop seen out (r # rs) =
     (if re_Version r \<in> set seen then combine_loop seen out rs
      else combine_loop (re_Version r # seen) (out @ [r]) rs)"

definition combine_index :: "ChannelIndex option \<Rightarrow> string list \<times> ReleaseEntry list \<Rightarrow> string list \<times> ReleaseEntry list" where
  "combine_index idx st = (case idx of None \<Rightarrow> st | Some i \<Rightarrow> combine_loop (fst st) (snd st) (ci_Releases i))"

definition CombineReleases :: "ChannelIndex option \<Rightarrow> ChannelIndex option \<Rightarrow> ReleaseEntry list" where
  "CombineReleases a b = snd (combine_index b (combine_index a ([], [])))"

text \<open>
  A response: its status, the header \<^verbatim>\<open>Content-Length\<close> (empty when absent) and its body, as the
  pieces that reads return, with the error after them or \<^term>\<open>None\<close> for the end of the body.
\<close>

record http_response =
  hr_Status :: int
  hr_ContentLength :: string
  hr_Chunks :: "string list"
  hr_End :: "string option"

record release_client =
  rc_Get :: "string \<Rightarrow> string + http_response"
  rc_BaseURL :: string
  rc_index :: "string \<Rightarrow> string + ChannelIndex"
  rc_meta :: "string \<Rightarrow> string + VersionMetadata"

text \<open>\<^verbatim>\<open>io.ReadAll\<close> of an \<^verbatim>\<open>io.LimitReader\<close>: beyond the limit the body looks finished.\<close>

definition read_limited :: "int \<Rightarrow> http_response \<Rightarrow> string + string" where
  "read_limited limit resp =
     (let d = concat (hr_Chunks resp) in
      if limit \<le> int (length d) then Inr (take (nat limit) d)
      else case hr_End resp of None \<Rightarrow> Inr d | Some e \<Rightarrow> Inl e)"

definition metadata_limit :: int where "metadata_limit = 1048576"

definition FetchChannelIndex :: "release_client \<Rightarrow> string \<Rightarrow> update_error + ChannelIndex option" where
  "FetchChannelIndex c channel =
     (case rc_Get c (rc_BaseURL c @ ''/'' @ channel @ ''.json'') of
        Inl e \<Rightarrow> Inl (FetchFailed e)
      | Inr resp \<Rightarrow>
          if hr_Status resp = 404 then Inr None
          else if hr_Status resp \<noteq> 200 then Inl (HTTPStatus (hr_Status resp))
          else case read_limited metadata_limit resp of
                 Inl e \<Rightarrow> Inl (ReadFailed e)
               | Inr body \<Rightarrow> (case rc_index c body of Inl e \<Rightarrow> Inl (ParseFailed e) | Inr idx \<Rightarrow> Inr (Some idx)))"

definition FetchVersionMetadata :: "release_client \<Rightarrow> string \<Rightarrow> update_error + VersionMetadata" where
  "FetchVersionMetadata c version =
     (case rc_Get c (rc_BaseURL c @ ''/'' @ version @ ''.json'') of
        Inl e \<Rightarrow> Inl (FetchFailed e)
      | Inr resp \<Rightarrow>
          if hr_Status resp = 404 then Inl (VersionNotFound version)
          else if hr_Status resp \<noteq> 200 then Inl (HTTPStatus (hr_Status resp))
          else case read_limited metadata_limit resp of
                 Inl e \<Rightarrow> Inl (ReadFailed e)
               | Inr body \<Rightarrow> (case rc_meta c body of Inl e \<Rightarrow> Inl (ParseFailed e) | Inr meta \<Rightarrow> Inr meta))"

definition ResolveChannel :: "release_client \<Rightarrow> bool \<Rightarrow> update_error + ChannelIndex \<times> string" where
  "ResolveChannel c preferPre =
     (if preferPre then
        (case FetchChannelIndex c ChannelPrerelease of
           Inl e \<Rightarrow> Inl e
         | Inr None \<Rightarrow> Inl NoPrerelease
         | Inr (Some idx) \<Rightarrow> Inr (idx, ChannelPrerelease))
      else
        (case FetchChannelIndex c ChannelStable of
           Inl e \<Rightarrow> Inl e
         | Inr (Some idx) \<Rightarrow> Inr (idx, ChannelStable)
         | Inr None \<Rightarrow>
             (case FetchChannelIndex c ChannelPrerelease of
                Inl e \<Rightarrow> Inl e
              | Inr None \<Rightarrow> Inl NoReleases
              | Inr (Some idx) \<Rightarrow> Inr (idx, ChannelPrerelease))))"

section \<open>Changelogs\<close>

definition repoURL :: string where "repoURL = ''https://github.com/bernd/vibepit''"

definition changelogCategories :: "string list" where
  "changelogCategories = [''added'', ''changed'', ''fixed'', ''deprecated'', ''removed'', ''security'']"

definition refSuffix :: "ChangelogEntry \<Rightarrow> string" where
  "refSuffix e =
     (let refs = (if ce_PR e \<noteq> [] then [''[#'' @ ce_PR e @ ''](''  @ repoURL @ ''/pull/'' @ ce_PR e @ '')''] else [])
               @ (if ce_Issue e \<noteq> [] then [''[#'' @ ce_Issue e @ ''](''  @ repoURL @ ''/issues/'' @ ce_Issue e @ '')''] else [])
      in if refs = [] then [] else '' ('' @ join_with '', '' refs @ '')'')"

definition formatEntry :: "ChangelogEntry \<Rightarrow> string" where
  "formatEntry e = ''- '' @ ce_Msg e @ refSuffix e"

definition ascii_upper :: "char \<Rightarrow> char" where
  "ascii_upper c = (if (97::nat) \<le> of_char c \<and> of_char c \<le> (122::nat) then char_of (of_char c - (32::nat)) else c)"

definition capitalizeCategory :: "string \<Rightarrow> string" where
  "capitalizeCategory s = (case s of [] \<Rightarrow> [] | c # cs \<Rightarrow> ascii_upper c # cs)"

definition section_text :: "(string \<Rightarrow> 'e list) \<Rightarrow> ('e \<Rightarrow> string) \<Rightarrow> string \<Rightarrow> string list" where
  "section_text sections line cat =
     (if sections cat = [] then []
      else (CHR 0x0A # capitalizeCategory cat @ '':'') # map line (sections cat))"

definition renderSections :: "(string \<Rightarrow> 'e list) \<Rightarrow> ('e \<Rightarrow> string) \<Rightarrow> string" where
  "renderSections sections line = join_with [CHR 0x0A] (concat (map (section_text sections line) changelogCategories))"

definition RenderChanges :: "(string \<Rightarrow> ChangelogEntry list) \<Rightarrow> string" where
  "RenderChanges changes = renderSections changes formatEntry"

definition merge_meta :: "VersionMetadata \<Rightarrow> (string \<Rightarrow> MergedEntry list) \<Rightarrow> string \<Rightarrow> MergedEntry list" where
  "merge_meta m merged = (\<lambda>cat. merged cat @
     (case vm_Changes m of None \<Rightarrow> []
      | Some ch \<Rightarrow> map (\<lambda>e. \<lparr>me_Entry = e, me_Version = vm_Version m\<rparr>) (ch cat)))"

definition MergeChanges :: "VersionMetadata list \<Rightarrow> string \<Rightarrow> MergedEntry list" where
  "MergeChanges metas = fold merge_meta metas (\<lambda>_. [])"

definition RenderMerged :: "(string \<Rightarrow> MergedEntry list) \<Rightarrow> string" where
  "RenderMerged merged = renderSections merged (\<lambda>m. ''- v'' @ me_Version m @ '': '' @ ce_Msg (me_Entry m) @ refSuffix (me_Entry m))"

section \<open>Files\<close>

datatype os_file = OSFile (f_Data: string) (f_Mode: nat)

type_synonym file_system = "string \<rightharpoonup> os_file"

record tar_entry =
  te_Name :: string
  te_Data :: string
  te_End :: "string option"

text \<open>
  The outcome of the system calls: the name of a new temporary file for a directory and a pattern, the
  error of a write at an offset of a file, the errors of opening, reading, \<^verbatim>\<open>stat\<close>, \<^verbatim>\<open>chmod\<close> and
  renaming, whether a removal succeeds, the digest in hexadecimal, the entries of an archive with the error
  after them, and the path of the running program.
\<close>

record os_env =
  oe_temp :: "string \<Rightarrow> string \<Rightarrow> string + string"
  oe_write :: "string \<Rightarrow> nat \<Rightarrow> string option"
  oe_open :: "string \<Rightarrow> string option"
  oe_read :: "string \<Rightarrow> string option"
  oe_stat :: "string \<Rightarrow> string option"
  oe_chmod :: "string \<Rightarrow> string option"
  oe_rename :: "string \<Rightarrow> string \<Rightarrow> string option"
  oe_removes :: "string \<Rightarrow> bool"
  oe_sha256 :: "string \<Rightarrow> string"
  oe_gunzip :: "string \<Rightarrow> string + tar_entry list \<times> string option"
  oe_Executable :: "string + string"
  oe_Abs :: "string \<Rightarrow> string + string"
  oe_EvalSymlinks :: "string \<Rightarrow> string + string"

definition Remove :: "os_env \<Rightarrow> string \<Rightarrow> file_system \<Rightarrow> file_system" where
  "Remove env path fs = (if oe_removes env path then fs(path := None) else fs)"

text \<open>\<^verbatim>\<open>os.CreateTemp\<close> creates an empty file that only its owner can read and write.\<close>

definition CreateTemp :: "os_env \<Rightarrow> string \<Rightarrow> string \<Rightarrow> file_system \<Rightarrow> (string + string) \<times> file_system" where
  "CreateTemp env dir pattern fs =
     (case oe_temp env dir pattern of
        Inl e \<Rightarrow> (Inl e, fs)
      | Inr path \<Rightarrow> (Inr path, fs(path \<mapsto> OSFile [] 384)))"

definition append_data :: "string \<Rightarrow> string \<Rightarrow> file_system \<Rightarrow> file_system" where
  "append_data path data fs = (case fs path of None \<Rightarrow> fs | Some f \<Rightarrow> fs(path \<mapsto> OSFile (f_Data f @ data) (f_Mode f)))"

definition OpenRead :: "os_env \<Rightarrow> string \<Rightarrow> file_system \<Rightarrow> string + string" where
  "OpenRead env path fs =
     (case oe_open env path of
        Some e \<Rightarrow> Inl e
      | None \<Rightarrow> (case fs path of None \<Rightarrow> Inl ''no such file'' | Some f \<Rightarrow> Inr (f_Data f)))"

section \<open>Download and verification\<close>

definition maxArchiveSizeLimit :: int where "maxArchiveSizeLimit = 256 * 1024 * 1024"

text \<open>The value of \<^verbatim>\<open>strconv.ParseInt(s, 10, 64)\<close> when its error is ignored.\<close>

definition parse_int64_value :: "string \<Rightarrow> int" where
  "parse_int64_value s =
     (let (neg, ds) = (case s of
            [] \<Rightarrow> (False, [])
          | x # xs \<Rightarrow> (if x = CHR ''-'' then (True, xs)
                      else if x = CHR ''+'' then (False, xs) else (False, x # xs)))
      in if ds = [] \<or> \<not> list_all is_digit ds then 0
         else if neg then max (- (2 ^ 63)) (- digits_val ds) else min (2 ^ 63 - 1) (digits_val ds))"

text \<open>
  The loop over the reads of an \<^verbatim>\<open>io.LimitReader\<close> with \<open>remaining\<close> bytes left, where \<open>chunks\<close> and
  \<open>ending\<close> are the reads of the body.
\<close>

fun download_loop ::
  "os_env \<Rightarrow> string \<Rightarrow> string option \<Rightarrow> string list \<Rightarrow> int \<Rightarrow> int \<Rightarrow> file_system \<Rightarrow> update_error option \<times> file_system" where
  "download_loop env path ending [] remaining written fs =
     (if remaining \<le> 0 then (None, fs)
      else case ending of None \<Rightarrow> (None, fs) | Some e \<Rightarrow> (Some (FetchFailed e), Remove env path fs))"
| "download_loop env path ending (c # cs) remaining written fs =
     (if remaining \<le> 0 then (None, fs)
      else let b = take (nat remaining) c in
        if b = [] then download_loop env path ending cs remaining written fs
        else case oe_write env path (nat written) of
               Some e \<Rightarrow> (Some (WriteFailed e), Remove env path fs)
             | None \<Rightarrow>
                 let fs = append_data path b fs; written = written + int (length b) in
                 if written > maxArchiveSizeLimit then (Some ArchiveTooLarge, Remove env path fs)
                 else download_loop env path ending cs (remaining - int (length b)) written fs)"

definition DownloadArchive ::
  "release_client \<Rightarrow> os_env \<Rightarrow> string \<Rightarrow> string \<Rightarrow> file_system \<Rightarrow> (update_error + string) \<times> file_system" where
  "DownloadArchive c env url dir fs =
     (case rc_Get c url of
        Inl e \<Rightarrow> (Inl (FetchFailed e), fs)
      | Inr resp \<Rightarrow>
          if hr_Status resp \<noteq> 200 then (Inl (HTTPStatus (hr_Status resp)), fs)
          else if hr_ContentLength resp \<noteq> [] \<and> parse_int64_value (hr_ContentLength resp) > maxArchiveSizeLimit
          then (Inl ArchiveTooLarge, fs)
          else case CreateTemp env dir ''.vibepit-download-*'' fs of
                 (Inl e, fs) \<Rightarrow> (Inl (CreateTempFailed e), fs)
               | (Inr path, fs) \<Rightarrow>
                   (case download_loop env path (hr_End resp) (hr_Chunks resp) (maxArchiveSizeLimit + 1) 0 fs of
                      (Some e, fs) \<Rightarrow> (Inl e, fs)
                    | (None, fs) \<Rightarrow> (Inr path, fs)))"

definition VerifySHA256 :: "os_env \<Rightarrow> string \<Rightarrow> string \<Rightarrow> file_system \<Rightarrow> update_error option" where
  "VerifySHA256 env path expected fs =
     (case OpenRead env path fs of
        Inl e \<Rightarrow> Some (OpenFailed e)
      | Inr d \<Rightarrow>
          (case oe_read env path of
             Some e \<Rightarrow> Some (ReadFailed e)
           | None \<Rightarrow> if oe_sha256 env d \<noteq> expected then Some ChecksumMismatch else None))"

text \<open>
  \<^verbatim>\<open>cosign.VerifyBlob\<close>. The signature library says whether a bundle can be loaded, the trusted root
  fetched, the verifier and the identity made, and whether the bundle proves that the artifact was
  signed by an identity of the given issuer and subject.
\<close>

record sigstore_lib =
  sg_LoadJSON :: "string \<Rightarrow> string option"
  sg_TrustedRoot :: "string option"
  sg_NewVerifier :: "string option"
  sg_Identity :: "string \<Rightarrow> string \<Rightarrow> string option"
  sg_Verify :: "string \<Rightarrow> string \<Rightarrow> string \<Rightarrow> string \<Rightarrow> string option"

definition OIDCIssuer :: string where "OIDCIssuer = ''https://token.actions.githubusercontent.com''"

definition BinarySANRegex :: string where
  "BinarySANRegex = ''^https://github'' @ [CHR 0x5C] @ ''.com/bernd/vibepit/'' @ [CHR 0x5C] @ ''.github/workflows/build'' @ [CHR 0x5C] @ ''.yml@refs/tags/v.*''"

definition VerifyBlob :: "sigstore_lib \<Rightarrow> os_env \<Rightarrow> string \<Rightarrow> string \<Rightarrow> file_system \<Rightarrow> string option" where
  "VerifyBlob sg env artifactPath bundlePath fs =
     (case OpenRead env bundlePath fs of
        Inl e \<Rightarrow> Some e
      | Inr b \<Rightarrow>
          (case sg_LoadJSON sg b of Some e \<Rightarrow> Some e | None \<Rightarrow>
          (case sg_TrustedRoot sg of Some e \<Rightarrow> Some e | None \<Rightarrow>
          (case sg_NewVerifier sg of Some e \<Rightarrow> Some e | None \<Rightarrow>
          (case sg_Identity sg OIDCIssuer BinarySANRegex of Some e \<Rightarrow> Some e | None \<Rightarrow>
          (case OpenRead env artifactPath fs of Inl e \<Rightarrow> Some e | Inr artifact \<Rightarrow>
             sg_Verify sg b artifact OIDCIssuer BinarySANRegex))))))"

definition maxBundleSize :: int where "maxBundleSize = 10 * 1024 * 1024"

definition downloadBundle ::
  "release_client \<Rightarrow> os_env \<Rightarrow> string \<Rightarrow> file_system \<Rightarrow> (update_error + string) \<times> file_system" where
  "downloadBundle c env url fs =
     (case rc_Get c url of
        Inl e \<Rightarrow> (Inl (FetchFailed e), fs)
      | Inr resp \<Rightarrow>
          if hr_Status resp \<noteq> 200 then (Inl (HTTPStatus (hr_Status resp)), fs)
          else case CreateTemp env [] ''.vibepit-bundle-*'' fs of
                 (Inl e, fs) \<Rightarrow> (Inl (CreateTempFailed e), fs)
               | (Inr path, fs) \<Rightarrow>
                   (case (case read_limited maxBundleSize resp of Inl e \<Rightarrow> Inl e
                          | Inr d \<Rightarrow> (case oe_write env path 0 of Some e \<Rightarrow> Inl e | None \<Rightarrow> Inr d)) of
                      Inl e \<Rightarrow> (Inl (WriteFailed e), Remove env path fs)
                    | Inr d \<Rightarrow> (Inr path, append_data path d fs)))"

definition VerifyCosignBundle ::
  "release_client \<Rightarrow> sigstore_lib \<Rightarrow> os_env \<Rightarrow> string \<Rightarrow> string \<Rightarrow> file_system \<Rightarrow> update_error option \<times> file_system" where
  "VerifyCosignBundle c sg env archivePath bundleURL fs =
     (case downloadBundle c env bundleURL fs of
        (Inl e, fs) \<Rightarrow> (Some e, fs)
      | (Inr bundlePath, fs) \<Rightarrow>
          (map_option CosignFailed (VerifyBlob sg env archivePath bundlePath fs), Remove env bundlePath fs))"

section \<open>Extraction and replacement\<close>

text \<open>\<^verbatim>\<open>filepath.Base\<close> and, for the clean absolute paths it is used on, \<^verbatim>\<open>filepath.Dir\<close>.\<close>

definition path_base :: "string \<Rightarrow> string" where
  "path_base p =
     (if p = [] then ''.''
      else let q = rev (dropWhile (\<lambda>c. c = CHR ''/'') (rev p)) in
        if q = [] then ''/'' else rev (takeWhile (\<lambda>c. c \<noteq> CHR ''/'') (rev q)))"

definition path_dir :: "string \<Rightarrow> string" where
  "path_dir p =
     (let d = rev (drop 1 (dropWhile (\<lambda>c. c \<noteq> CHR ''/'') (rev p))) in if d = [] then ''/'' else d)"

fun extract_loop ::
  "os_env \<Rightarrow> string \<Rightarrow> string \<Rightarrow> string option \<Rightarrow> tar_entry list \<Rightarrow> file_system \<Rightarrow> (update_error + string) \<times> file_system" where
  "extract_loop env outDir binaryName ending [] fs =
     (case ending of None \<Rightarrow> (Inl BinaryNotFound, fs) | Some e \<Rightarrow> (Inl (TarFailed e), fs))"
| "extract_loop env outDir binaryName ending (h # hs) fs =
     (if contains_sub ''..'' (te_Name h) then (Inl (PathTraversal (te_Name h)), fs)
      else if path_base (te_Name h) \<noteq> binaryName then extract_loop env outDir binaryName ending hs fs
      else case CreateTemp env outDir ''.vibepit-extract-*'' fs of
             (Inl e, fs) \<Rightarrow> (Inl (CreateTempFailed e), fs)
           | (Inr outPath, fs) \<Rightarrow>
               (case (if maxArchiveSizeLimit \<le> int (length (te_Data h)) then Inr (take (nat maxArchiveSizeLimit) (te_Data h))
                      else case te_End h of None \<Rightarrow> Inr (te_Data h) | Some e \<Rightarrow> Inl e) of
                  Inl e \<Rightarrow> (Inl (ExtractFailed e), Remove env outPath fs)
                | Inr d \<Rightarrow>
                    (case oe_write env outPath 0 of
                       Some e \<Rightarrow> (Inl (ExtractFailed e), Remove env outPath fs)
                     | None \<Rightarrow> (Inr outPath, append_data outPath d fs))))"

definition ExtractBinary ::
  "os_env \<Rightarrow> string \<Rightarrow> string \<Rightarrow> string \<Rightarrow> file_system \<Rightarrow> (update_error + string) \<times> file_system" where
  "ExtractBinary env archivePath outDir binaryName fs =
     (case OpenRead env archivePath fs of
        Inl e \<Rightarrow> (Inl (OpenFailed e), fs)
      | Inr d \<Rightarrow>
          (case oe_gunzip env d of
             Inl e \<Rightarrow> (Inl (GzipFailed e), fs)
           | Inr (entries, ending) \<Rightarrow> extract_loop env outDir binaryName ending entries fs))"

definition CheckWritePermission :: "os_env \<Rightarrow> string \<Rightarrow> file_system \<Rightarrow> update_error option \<times> file_system" where
  "CheckWritePermission env dir fs =
     (case CreateTemp env dir ''.vibepit-permission-check-*'' fs of
        (Inl e, fs) \<Rightarrow> (Some (NoWritePermission dir), fs)
      | (Inr name, fs) \<Rightarrow> (None, Remove env name fs))"

definition ReplaceBinary :: "os_env \<Rightarrow> string \<Rightarrow> string \<Rightarrow> file_system \<Rightarrow> update_error option \<times> file_system" where
  "ReplaceBinary env targetPath newPath fs =
     (case (case oe_stat env targetPath of Some e \<Rightarrow> Inl e
            | None \<Rightarrow> (case fs targetPath of None \<Rightarrow> Inl ''no such file'' | Some f \<Rightarrow> Inr f)) of
        Inl e \<Rightarrow> (Some (StatFailed e), fs)
      | Inr info \<Rightarrow>
          (case oe_chmod env newPath of
             Some e \<Rightarrow> (Some (ChmodFailed e), fs)
           | None \<Rightarrow>
               (case fs newPath of
                  None \<Rightarrow> (Some (ChmodFailed ''no such file''), fs)
                | Some f \<Rightarrow>
                    let fs = fs(newPath \<mapsto> OSFile (f_Data f) (f_Mode info)) in
                    (case oe_rename env newPath targetPath of
                       Some e \<Rightarrow> (Some (RenameFailed e), fs)
                     | None \<Rightarrow> (None, (fs(targetPath := fs newPath))(newPath := None))))))"

definition ResolveBinaryPath :: "os_env \<Rightarrow> update_error + string \<times> string" where
  "ResolveBinaryPath env =
     (case oe_Executable env of Inl e \<Rightarrow> Inl (ResolveFailed e) | Inr exe \<Rightarrow>
     (case oe_Abs env exe of Inl e \<Rightarrow> Inl (ResolveFailed e) | Inr absPath \<Rightarrow>
     (case oe_EvalSymlinks env absPath of Inl e \<Rightarrow> Inl (ResolveFailed e) | Inr realPath \<Rightarrow> Inr (absPath, realPath))))"

definition packageManagerPrefixes :: "(string \<times> string) list" where
  "packageManagerPrefixes =
     [(''/opt/homebrew/'', ''Homebrew''), (''/usr/local/Cellar/'', ''Homebrew''), (''/home/linuxbrew/.linuxbrew/'', ''Homebrew''),
      (''/usr/bin/'', ''system package manager''), (''/usr/sbin/'', ''system package manager''), (''/nix/store/'', ''Nix''), (''/snap/'', ''Snap'')]"

definition DetectPackageManager :: "string \<Rightarrow> string option" where
  "DetectPackageManager binaryPath = map_option snd (find (\<lambda>pm. has_prefix (fst pm) binaryPath) packageManagerPrefixes)"

section \<open>Lemmas on the operations\<close>

lemma gitDescribeSuffix_iff:
  "gitDescribeSuffix v \<longleftrightarrow> (\<exists>p n h. v = p @ ''-'' @ n @ ''-g'' @ h \<and> n \<noteq> [] \<and> list_all is_digit n \<and> h \<noteq> [] \<and> list_all is_lower_hex h)"
  (is "_ \<longleftrightarrow> ?R")
proof
  have g: "\<not> is_lower_hex CHR ''g''" "\<not> is_digit CHR ''-''" by (simp_all add: is_lower_hex_def is_digit_def)
  have dw: "dropWhile P (xs @ y # ys) = y # ys" "takeWhile P (xs @ y # ys) = xs"
    if "\<forall>x\<in>set xs. P x" "\<not> P y" for P :: "char \<Rightarrow> bool" and xs y ys using that by (induction xs) auto
  assume ?R
  then obtain p n h where v: "v = p @ ''-'' @ n @ ''-g'' @ h" and n: "n \<noteq> []" "list_all is_digit n" and h: "h \<noteq> []" "list_all is_lower_hex h"
    by blast
  have r: "rev v = rev h @ CHR ''g'' # CHR ''-'' # rev n @ CHR ''-'' # rev p" by (simp add: v)
  have "dropWhile is_lower_hex (rev v) = CHR ''g'' # CHR ''-'' # rev n @ CHR ''-'' # rev p" "takeWhile is_lower_hex (rev v) = rev h"
    unfolding r using h g by (intro dw; simp add: list_all_iff)+
  moreover have "dropWhile is_digit (rev n @ CHR ''-'' # rev p) = CHR ''-'' # rev p" "takeWhile is_digit (rev n @ CHR ''-'' # rev p) = rev n"
    using n g by (intro dw; simp add: list_all_iff)+
  ultimately show "gitDescribeSuffix v" using n h by (simp add: gitDescribeSuffix_def Let_def has_prefix_def)
next
  assume a: "gitDescribeSuffix v"
  let ?r = "rev v"
  let ?r2 = "drop 2 (dropWhile is_lower_hex ?r)"
  obtain r2 where r2: "dropWhile is_lower_hex ?r = ''g-'' @ r2" using a by (auto simp: gitDescribeSuffix_def Let_def has_prefix_iff)
  obtain r3 where r3: "dropWhile is_digit r2 = ''-'' @ r3" and ne: "takeWhile is_digit r2 \<noteq> []" "takeWhile is_lower_hex ?r \<noteq> []"
    using a r2 by (auto simp: gitDescribeSuffix_def Let_def has_prefix_iff)
  have "?r = takeWhile is_lower_hex ?r @ ''g-'' @ takeWhile is_digit r2 @ ''-'' @ r3"
    using r2 r3 by (metis takeWhile_dropWhile_id)
  then have "v = rev (takeWhile is_lower_hex ?r @ ''g-'' @ takeWhile is_digit r2 @ ''-'' @ r3)" by (metis rev_rev_ident)
  then have "v = rev r3 @ ''-'' @ rev (takeWhile is_digit r2) @ ''-g'' @ rev (takeWhile is_lower_hex ?r)" by simp
  moreover have "list_all is_digit (rev (takeWhile is_digit r2))" "list_all is_lower_hex (rev (takeWhile is_lower_hex ?r))"
    by (auto simp: list_all_iff dest: set_takeWhileD)
  ultimately show ?R using ne by (metis rev_is_Nil_conv)
qed

lemma append_data_Some: "fs path = Some (OSFile d m) \<Longrightarrow> append_data path b fs = fs(path \<mapsto> OSFile (d @ b) m)"
  by (simp add: append_data_def)

text \<open>A download that succeeds has written the whole body, which fits the limit.\<close>

lemma download_loop_result:
  assumes "download_loop env path ending cs (maxArchiveSizeLimit + 1 - int (length d)) (int (length d)) fs = (r, fs')"
    and "fs path = Some (OSFile d m)" and "int (length d) \<le> maxArchiveSizeLimit" and "oe_removes env path"
  shows "case r of
      None \<Rightarrow> fs' = fs(path \<mapsto> OSFile (d @ concat cs) m) \<and> ending = None \<and> int (length (d @ concat cs)) \<le> maxArchiveSizeLimit
    | Some e \<Rightarrow> fs' = fs(path := None)"
  using assms
proof (induction cs arbitrary: d fs)
  case Nil
  then show ?case by (auto simp: Remove_def fun_upd_idem_iff split: option.splits)
next
  case (Cons c cs)
  let ?rem = "maxArchiveSizeLimit + 1 - int (length d)"
  let ?b = "take (nat ?rem) c"
  have rem: "\<not> ?rem \<le> 0" using Cons.prems(3) by simp
  show ?case
  proof (cases "?b = []")
    case True
    with rem have "c = []" by auto
    with Cons.prems(1) rem have "download_loop env path ending cs ?rem (int (length d)) fs = (r, fs')" by simp
    from Cons.IH [OF this Cons.prems(2-4)] \<open>c = []\<close> show ?thesis by (cases r) simp_all
  next
    case b: False
    note run = Cons.prems(1) [unfolded download_loop.simps if_not_P [OF rem] Let_def if_not_P [OF b]]
    show ?thesis
    proof (cases "oe_write env path (nat (int (length d)))")
      case (Some e)
      with run Cons.prems(4) show ?thesis by (auto simp: Remove_def)
    next
      case None
      let ?fs = "fs(path \<mapsto> OSFile (d @ ?b) m)"
      note run = run [unfolded None option.case append_data_Some [where fs = fs and path = path, OF Cons.prems(2)]]
      show ?thesis
      proof (cases "int (length d) + int (length ?b) > maxArchiveSizeLimit")
        case True
        from run [unfolded if_P [OF True]] Cons.prems(4) show ?thesis by (auto simp: Remove_def)
      next
        case False
        then have "length c \<le> nat ?rem" using rem by simp
        then have c: "?b = c" by simp
        have "download_loop env path ending cs (maxArchiveSizeLimit + 1 - int (length (d @ ?b))) (int (length (d @ ?b))) ?fs = (r, fs')"
          using run [unfolded if_not_P [OF False]] by (simp only: length_append of_nat_add diff_diff_eq add.assoc)
        from Cons.IH [OF this] False Cons.prems(4) show ?thesis by (cases r) (auto simp: c fun_eq_iff)
      qed
    qed
  qed
qed

text \<open>
  The temporary files of an update: their names are not in use, and files created for different
  purposes have different names. A failed step takes its files away.
\<close>

definition temps_fresh :: "os_env \<Rightarrow> file_system \<Rightarrow> bool" where
  "temps_fresh env fs \<longleftrightarrow>
     (\<forall>dir pat path. oe_temp env dir pat = Inr path \<longrightarrow> fs path = None)
     \<and> (\<forall>dir pat dir' pat' path. oe_temp env dir pat = Inr path \<longrightarrow> oe_temp env dir' pat' = Inr path \<longrightarrow> pat = pat')"

lemma temps_freshD:
  assumes "temps_fresh env fs"
  shows "oe_temp env dir pat = Inr path \<Longrightarrow> fs path = None"
    and "oe_temp env dir pat = Inr path \<Longrightarrow> oe_temp env dir' pat' = Inr path' \<Longrightarrow> pat \<noteq> pat' \<Longrightarrow> path \<noteq> path'"
  using assms unfolding temps_fresh_def by blast+

lemma CheckWritePermission_frame:
  assumes "CheckWritePermission env dir fs = (r, fs')" and "temps_fresh env fs" and "\<And>p. oe_removes env p"
  shows "fs' = fs"
  using assms temps_freshD(1) [OF assms(2)]
  by (auto simp: CheckWritePermission_def CreateTemp_def Remove_def fun_upd_idem_iff split: sum.splits)

lemma DownloadArchive_result:
  assumes run: "DownloadArchive c env url dir fs = (r, fs')" and fresh: "temps_fresh env fs" and rm: "\<And>p. oe_removes env p"
  shows "case r of
      Inl e \<Rightarrow> fs' = fs
    | Inr path \<Rightarrow> oe_temp env dir ''.vibepit-download-*'' = Inr path \<and>
        (\<exists>resp. rc_Get c url = Inr resp \<and> hr_Status resp = 200 \<and> hr_End resp = None
           \<and> fs' = fs(path \<mapsto> OSFile (concat (hr_Chunks resp)) 384) \<and> int (length (concat (hr_Chunks resp))) \<le> maxArchiveSizeLimit)"
proof (cases "rc_Get c url")
  case (Inr resp)
  show ?thesis
  proof (cases "oe_temp env dir ''.vibepit-download-*''")
    case (Inr path)
    let ?fs = "fs(path \<mapsto> OSFile [] 384)"
    have loop: "case download_loop env path (hr_End resp) (hr_Chunks resp) (maxArchiveSizeLimit + 1) 0 ?fs of
        (None, fs'') \<Rightarrow> fs'' = fs(path \<mapsto> OSFile (concat (hr_Chunks resp)) 384) \<and> hr_End resp = None
           \<and> int (length (concat (hr_Chunks resp))) \<le> maxArchiveSizeLimit
      | (Some e, fs'') \<Rightarrow> fs'' = fs"
    proof -
      obtain r' fs'' where l: "download_loop env path (hr_End resp) (hr_Chunks resp) (maxArchiveSizeLimit + 1) 0 ?fs = (r', fs'')" by force
      have "fs path = None" by (rule temps_freshD(1) [OF fresh Inr])
      then have "fs(path := None) = fs" by (simp add: fun_upd_idem)
      with l rm download_loop_result [of env path "hr_End resp" "hr_Chunks resp" "[]" ?fs r' fs'' 384]
      show ?thesis by (cases r') (simp_all add: maxArchiveSizeLimit_def)
    qed
    with run Inr \<open>rc_Get c url = Inr resp\<close> show ?thesis
      by (auto simp: DownloadArchive_def CreateTemp_def split: if_splits prod.splits option.splits)
  qed (use run Inr in \<open>auto simp: DownloadArchive_def CreateTemp_def split: if_splits\<close>)
qed (use run in \<open>auto simp: DownloadArchive_def\<close>)

lemma downloadBundle_result:
  assumes run: "downloadBundle c env url fs = (r, fs')" and rm: "\<And>p. oe_removes env p"
    and fresh: "\<And>p. oe_temp env [] ''.vibepit-bundle-*'' = Inr p \<Longrightarrow> fs p = None"
  shows "case r of
      Inl e \<Rightarrow> fs' = fs
    | Inr path \<Rightarrow> oe_temp env [] ''.vibepit-bundle-*'' = Inr path \<and> (\<exists>b. fs' = fs(path \<mapsto> OSFile b 384))"
  using run fresh rm
  by (auto simp: downloadBundle_def CreateTemp_def Remove_def append_data_def fun_upd_idem_iff split: sum.splits if_splits option.splits)

lemma VerifyBlob_None:
  assumes "VerifyBlob sg env artifactPath bundlePath fs = None"
  shows "\<exists>a b. fs artifactPath = Some a \<and> fs bundlePath = Some b \<and> sg_Verify sg (f_Data b) (f_Data a) OIDCIssuer BinarySANRegex = None"
  using assms by (auto simp: VerifyBlob_def OpenRead_def split: sum.splits option.splits)

lemma VerifyCosignBundle_result:
  assumes run: "VerifyCosignBundle c sg env archivePath url fs = (r, fs')" and fresh: "temps_fresh env fs0"
    and fs: "fs = fs0(archivePath \<mapsto> OSFile d m)" "oe_temp env dir pat = Inr archivePath" "pat \<noteq> ''.vibepit-bundle-*''"
    and rm: "\<And>p. oe_removes env p"
  shows "fs' = fs \<and> (r = None \<longrightarrow> (\<exists>b. sg_Verify sg b d OIDCIssuer BinarySANRegex = None))"
proof -
  have ne: "p \<noteq> archivePath" if "oe_temp env [] ''.vibepit-bundle-*'' = Inr p" for p
    using temps_freshD(2) [OF fresh that fs(2)] fs(3) by blast
  have f0: "fs0 p = None" if "oe_temp env [] ''.vibepit-bundle-*'' = Inr p" for p by (rule temps_freshD(1) [OF fresh that])
  obtain r1 fs1 where d: "downloadBundle c env url fs = (r1, fs1)" by force
  have res: "case r1 of
      Inl e \<Rightarrow> fs1 = fs
    | Inr path \<Rightarrow> oe_temp env [] ''.vibepit-bundle-*'' = Inr path \<and> (\<exists>b. fs1 = fs(path \<mapsto> OSFile b 384))"
    by (rule downloadBundle_result [OF d rm]) (use ne f0 fs(1) in auto)
  show ?thesis
  proof (cases r1)
    case (Inl e)
    with run d res show ?thesis by (auto simp: VerifyCosignBundle_def)
  next
    case (Inr path)
    with res obtain b where p: "oe_temp env [] ''.vibepit-bundle-*'' = Inr path" "fs1 = fs(path \<mapsto> OSFile b 384)" by auto
    have "fs path = None" using fs(1) ne [OF p(1)] f0 [OF p(1)] by simp
    then have "Remove env path fs1 = fs" using rm p(2) by (simp add: Remove_def fun_upd_idem)
    moreover have "fs1 archivePath = Some (OSFile d m)" using p fs(1) ne by auto
    ultimately show ?thesis using run d Inr VerifyBlob_None [of sg env archivePath path fs1]
      by (auto simp: VerifyCosignBundle_def)
  qed
qed

lemma extract_loop_result:
  assumes run: "extract_loop env dir name ending entries fs = (r, fs')" and rm: "\<And>p. oe_removes env p"
    and fresh: "\<And>p. oe_temp env dir ''.vibepit-extract-*'' = Inr p \<Longrightarrow> fs p = None"
  shows "case r of
      Inl e \<Rightarrow> fs' = fs
    | Inr path \<Rightarrow> oe_temp env dir ''.vibepit-extract-*'' = Inr path \<and>
        (\<exists>h\<in>set entries. path_base (te_Name h) = name \<and> \<not> contains_sub ''..'' (te_Name h)
           \<and> fs' = fs(path \<mapsto> OSFile (take (nat maxArchiveSizeLimit) (te_Data h)) 384))"
  using run
proof (induction entries)
  case (Cons h hs)
  show ?case
  proof (cases "contains_sub ''..'' (te_Name h) \<or> path_base (te_Name h) \<noteq> name")
    case True
    with Cons show ?thesis by (cases r) (auto split: if_splits)
  next
    case False
    then show ?thesis
      using Cons.prems rm fresh
      by (auto simp: CreateTemp_def Remove_def append_data_def fun_upd_idem_iff split: sum.splits if_splits option.splits)
  qed
qed (auto split: option.splits)

lemma ExtractBinary_result:
  assumes run: "ExtractBinary env archivePath dir name fs = (r, fs')" and rm: "\<And>p. oe_removes env p"
    and fresh: "\<And>p. oe_temp env dir ''.vibepit-extract-*'' = Inr p \<Longrightarrow> fs p = None"
    and archive: "fs archivePath = Some (OSFile a m)"
  shows "case r of
      Inl e \<Rightarrow> fs' = fs
    | Inr path \<Rightarrow> oe_temp env dir ''.vibepit-extract-*'' = Inr path \<and>
        (\<exists>entries ending. oe_gunzip env a = Inr (entries, ending) \<and>
          (\<exists>h\<in>set entries. path_base (te_Name h) = name \<and> \<not> contains_sub ''..'' (te_Name h)
             \<and> fs' = fs(path \<mapsto> OSFile (take (nat maxArchiveSizeLimit) (te_Data h)) 384)))"
proof (cases "oe_open env archivePath")
  case None
  show ?thesis
  proof (cases "oe_gunzip env a")
    case (Inr es)
    obtain entries ending where es: "es = (entries, ending)" by force
    have "extract_loop env dir name ending entries fs = (r, fs')"
      using run archive None Inr es by (simp add: ExtractBinary_def OpenRead_def)
    from extract_loop_result [OF this rm fresh] Inr es show ?thesis by (auto split: sum.splits)
  qed (use run archive None in \<open>auto simp: ExtractBinary_def OpenRead_def\<close>)
qed (use run in \<open>auto simp: ExtractBinary_def OpenRead_def\<close>)

lemma ReplaceBinary_result:
  assumes run: "ReplaceBinary env target new fs = (r, fs')" and new: "fs new = Some (OSFile d m)" and ne: "new \<noteq> target"
  shows "case r of
      None \<Rightarrow> (\<exists>old. fs target = Some old \<and> fs' = fs(target \<mapsto> OSFile d (f_Mode old), new := None))
    | Some e \<Rightarrow> (\<exists>m'. fs' = fs(new \<mapsto> OSFile d m'))"
proof -
  have idem: "fs = fs(new \<mapsto> OSFile d m)" using new by (simp add: fun_upd_idem)
  show ?thesis
  proof (cases "fs target")
    case None
    then have "fs' = fs" "r \<noteq> None" using run by (auto simp: ReplaceBinary_def split: option.splits)
    with idem show ?thesis by (cases r) auto
  next
    case (Some old)
    show ?thesis
    proof (cases "oe_stat env target \<noteq> None \<or> oe_chmod env new \<noteq> None")
      case True
      then have "fs' = fs" "r \<noteq> None" using run Some by (auto simp: ReplaceBinary_def split: option.splits)
      with idem show ?thesis by (cases r) auto
    next
      case False
      then show ?thesis using run Some new ne
        by (auto simp: ReplaceBinary_def Let_def fun_upd_twist split: option.splits)
    qed
  qed
qed

end
