(* ===== verification/Update_Command.thy ===== *)
theory Update_Command
  imports Self_Update
begin

text \<open>
  The command \<^verbatim>\<open>vibepit update\<close>, \<^verbatim>\<open>cmd/update.go\<close>, with the image verification of
  \<^verbatim>\<open>cosign/image.go\<close>: choice of the version, changelog, confirmation, installation of the binary, and
  the update of the container images. The result of an operation is its error, what it prints, and
  the file system.
\<close>

section \<open>Model\<close>

record update_flags =
  uf_yes :: bool
  uf_bin :: bool
  uf_images :: bool
  uf_use :: string
  uf_list :: bool
  uf_check :: bool
  uf_pre :: bool

record update_ctx =
  uc_GOOS :: string
  uc_GOARCH :: string
  uc_Version :: string
  uc_answer :: string
  uc_semver :: semver_lib
  uc_sorter :: sorter
  uc_client :: release_client
  uc_sigstore :: sigstore_lib
  uc_os :: os_env

datatype update_out =
    ReleaseRow string string bool
  | UpdateAvailable string string string
  | AlreadyUpToDate
  | BinaryUpToDate
  | ShowVersions string string string
  | ShowChangelog string bool
  | AskInstall string
  | UpdateCancelled
  | UpdatedBinary string string
  | ImagesUpdated

definition validateUpdateFlags :: "update_flags \<Rightarrow> update_error option" where
  "validateUpdateFlags f =
     (if uf_bin f \<and> uf_images f then Some (FlagConflict ''--bin and --images are mutually exclusive'')
      else if uf_use f \<noteq> [] \<and> uf_images f then Some (FlagConflict ''--use cannot be combined with --images'')
      else if uf_list f \<and> uf_check f then Some (FlagConflict ''--list and --check are mutually exclusive'')
      else if uf_list f \<and> uf_use f \<noteq> [] then Some (FlagConflict ''--list and --use are mutually exclusive'')
      else if uf_check f \<and> uf_use f \<noteq> [] then Some (FlagConflict ''--check and --use are mutually exclusive'')
      else None)"

definition isCrossChannel :: "semver_lib \<Rightarrow> string \<Rightarrow> string \<Rightarrow> bool" where
  "isCrossChannel sv currentVersion targetChannel =
     (if IsDevBuild sv currentVersion then False
      else IsPrerelease sv currentVersion \<noteq> (targetChannel = ChannelPrerelease))"

definition runList :: "update_ctx \<Rightarrow> bool \<Rightarrow> update_error option \<times> update_out list" where
  "runList u pre =
     (case ResolveChannel (uc_client u) pre of
        Inl e \<Rightarrow> (Some e, [])
      | Inr (idx, _) \<Rightarrow>
          (None, map (\<lambda>r. ReleaseRow (re_Version r) (re_Timestamp r) (re_Version r = uc_Version u)) (ci_Releases idx)))"

definition runCheck :: "update_ctx \<Rightarrow> bool \<Rightarrow> update_error option \<times> update_out list" where
  "runCheck u pre =
     (case ResolveChannel (uc_client u) pre of
        Inl e \<Rightarrow> (Some e, [])
      | Inr (idx, channel) \<Rightarrow>
          let crossChannel = isCrossChannel (uc_semver u) (uc_Version u) channel in
          if ShouldUpdate (uc_semver u) (uc_Version u) (ci_Latest idx) crossChannel
          then (None, [UpdateAvailable (uc_Version u) (ci_Latest idx) channel])
          else (None, [AlreadyUpToDate]))"

text \<open>The loop that collects the metadata of the releases; \<^term>\<open>None\<close> is the fallback.\<close>

fun collect_metas :: "release_client \<Rightarrow> VersionMetadata \<Rightarrow> ReleaseEntry list \<Rightarrow> VersionMetadata list option" where
  "collect_metas c meta [] = Some []"
| "collect_metas c meta (r # rs) =
     (case (if re_Version r = vm_Version meta then Inr meta else FetchVersionMetadata c (re_Version r)) of
        Inl _ \<Rightarrow> None
      | Inr vm \<Rightarrow>
          if vm_Changes vm = None then None
          else map_option ((#) vm) (collect_metas c meta rs))"

definition updateChangelog ::
  "update_ctx \<Rightarrow> ChannelIndex option \<Rightarrow> string \<Rightarrow> VersionMetadata \<Rightarrow> string \<times> bool" where
  "updateChangelog u idx current meta =
     (case idx of
        None \<Rightarrow> (vm_Changelog meta, False)
      | Some i \<Rightarrow>
          if IsDevBuild (uc_semver u) current then (vm_Changelog meta, False)
          else let rng = ReleasesBetween (uc_semver u) (uc_sorter u) i current (vm_Version meta) in
            if length rng \<le> 1 then (vm_Changelog meta, False)
            else case collect_metas (uc_client u) meta rng of
                   None \<Rightarrow> (vm_Changelog meta, False)
                 | Some metas \<Rightarrow> (RenderMerged (MergeChanges metas), True))"

definition enumerationIndex :: "release_client \<Rightarrow> ChannelIndex \<Rightarrow> string \<Rightarrow> bool \<Rightarrow> ChannelIndex option" where
  "enumerationIndex c idx channel crossChannel =
     (if \<not> crossChannel then Some idx
      else case FetchChannelIndex c (OtherChannel channel) of
             Inl _ \<Rightarrow> None
           | Inr None \<Rightarrow> None
           | Inr (Some other) \<Rightarrow> Some \<lparr>ci_Latest = ci_Latest idx, ci_Releases = CombineReleases (Some idx) (Some other)\<rparr>)"

text \<open>
  The choice of the target: \<open>Inr None\<close> when the binary is up to date, otherwise its metadata and the
  index for the changelog.
\<close>

definition choose_target ::
  "update_ctx \<Rightarrow> string \<Rightarrow> bool \<Rightarrow> update_error + (VersionMetadata \<times> ChannelIndex option) option" where
  "choose_target u useVersion pre =
     (if useVersion \<noteq> [] then
        (case FetchVersionMetadata (uc_client u) useVersion of Inl e \<Rightarrow> Inl e | Inr meta \<Rightarrow> Inr (Some (meta, None)))
      else case ResolveChannel (uc_client u) pre of
             Inl e \<Rightarrow> Inl e
           | Inr (idx, channel) \<Rightarrow>
               let crossChannel = isCrossChannel (uc_semver u) (uc_Version u) channel in
               if \<not> ShouldUpdate (uc_semver u) (uc_Version u) (ci_Latest idx) crossChannel then Inr None
               else case FetchVersionMetadata (uc_client u) (ci_Latest idx) of
                      Inl e \<Rightarrow> Inl e
                    | Inr meta \<Rightarrow> Inr (Some (meta, enumerationIndex (uc_client u) idx channel crossChannel)))"

text \<open>The installation, from the resolution of the binary path to the end of \<^verbatim>\<open>runBinaryUpdate\<close>.\<close>

definition install_archive ::
  "update_ctx \<Rightarrow> Asset \<Rightarrow> string \<Rightarrow> string \<Rightarrow> file_system \<Rightarrow> update_error option \<times> file_system" where
  "install_archive u asset binPath archivePath fs =
     (case VerifySHA256 (uc_os u) archivePath (as_SHA256 asset) fs of
        Some e \<Rightarrow> (Some e, fs)
      | None \<Rightarrow>
          if as_CosignBundleURL asset = [] then (Some MissingBundle, fs)
          else case VerifyCosignBundle (uc_client u) (uc_sigstore u) (uc_os u) archivePath (as_CosignBundleURL asset) fs of
                 (Some e, fs) \<Rightarrow> (Some e, fs)
               | (None, fs) \<Rightarrow>
                   (case ExtractBinary (uc_os u) archivePath (path_dir binPath) ''vibepit'' fs of
                      (Inl e, fs) \<Rightarrow> (Some e, fs)
                    | (Inr extractedPath, fs) \<Rightarrow>
                        (case ReplaceBinary (uc_os u) binPath extractedPath fs of
                           (Some e, fs) \<Rightarrow> (Some e, Remove (uc_os u) extractedPath fs)
                         | (None, fs) \<Rightarrow> (None, fs))))"

definition install_asset :: "update_ctx \<Rightarrow> Asset \<Rightarrow> file_system \<Rightarrow> update_error option \<times> file_system" where
  "install_asset u asset fs =
     (case ResolveBinaryPath (uc_os u) of
        Inl e \<Rightarrow> (Some e, fs)
      | Inr (originalPath, binPath) \<Rightarrow>
          (case DetectPackageManager originalPath of
             Some manager \<Rightarrow> (Some (ManagedBy manager), fs)
           | None \<Rightarrow>
          (case DetectPackageManager binPath of
             Some manager \<Rightarrow> (Some (ManagedBy manager), fs)
           | None \<Rightarrow>
               let binDir = path_dir binPath in
               (case CheckWritePermission (uc_os u) binDir fs of
                  (Some e, fs) \<Rightarrow> (Some e, fs)
                | (None, fs) \<Rightarrow>
                    (case DownloadArchive (uc_client u) (uc_os u) (as_URL asset) binDir fs of
                       (Inl e, fs) \<Rightarrow> (Some e, fs)
                     | (Inr archivePath, fs) \<Rightarrow>
                         (case install_archive u asset binPath archivePath fs of
                            (r, fs) \<Rightarrow> (r, Remove (uc_os u) archivePath fs)))))))"

definition confirmed :: "update_ctx \<Rightarrow> bool \<Rightarrow> bool" where
  "confirmed u yes = (yes \<or> trim_space (to_lower (uc_answer u)) \<in> {''y'', ''yes''})"

definition runBinaryUpdate ::
  "update_ctx \<Rightarrow> string \<Rightarrow> bool \<Rightarrow> bool \<Rightarrow> file_system \<Rightarrow> update_error option \<times> update_out list \<times> file_system" where
  "runBinaryUpdate u useVersion pre yes fs =
     (case choose_target u useVersion pre of
        Inl e \<Rightarrow> (Some e, [], fs)
      | Inr None \<Rightarrow> (None, [BinaryUpToDate], fs)
      | Inr (Some (meta, idx)) \<Rightarrow>
          (case FindAsset (vm_Assets meta) (uc_GOOS u) (uc_GOARCH u) of
             Inl e \<Rightarrow> (Some e, [], fs)
           | Inr asset \<Rightarrow>
               let (changelog, merged) = updateChangelog u idx (uc_Version u) meta;
                   out = [ShowVersions (uc_Version u) (vm_Version meta) (vm_Timestamp meta)]
                     @ (if changelog \<noteq> [] then [ShowChangelog changelog merged] else [])
                     @ (if yes then [] else [AskInstall (vm_Version meta)])
               in if \<not> confirmed u yes then (None, out @ [UpdateCancelled], fs)
                  else case install_asset u asset fs of
                         (Some e, fs) \<Rightarrow> (Some e, out, fs)
                       | (None, fs) \<Rightarrow> (None, out @ [UpdatedBinary (uc_Version u) (vm_Version meta)], fs)))"

section \<open>Images\<close>

text \<open>
  \<^verbatim>\<open>cosign/image.go\<close>. The cache is the text of the file of verified digests, \<^term>\<open>None\<close> when it cannot be
  opened; \<open>im_append\<close> says whether a line can be appended.
\<close>

record image_env =
  im_user :: "string + string"
  im_client :: "string option"
  im_pull :: "string \<Rightarrow> string option"
  im_digest :: "string \<Rightarrow> string + string"
  im_parse :: "string \<Rightarrow> string option"
  im_root :: "string option"
  im_verify :: "string \<Rightarrow> string \<Rightarrow> string \<Rightarrow> string option"
  im_append :: bool

definition isDigestVerified :: "string option \<Rightarrow> string \<Rightarrow> bool" where
  "isDigestVerified cache digestRef =
     (case cache of None \<Rightarrow> False | Some t \<Rightarrow>
        let ls = split_on newline t in digestRef \<in> set (map trim_space (if last ls = [] then butlast ls else ls)))"

definition cacheVerifiedDigest :: "image_env \<Rightarrow> string option \<Rightarrow> string \<Rightarrow> string option" where
  "cacheVerifiedDigest im cache digestRef =
     (if im_append im then Some ((case cache of None \<Rightarrow> [] | Some t \<Rightarrow> t) @ digestRef @ [newline]) else cache)"

definition ImageSANRegex :: string where
  "ImageSANRegex = ''^https://github'' @ [CHR 0x5C] @ ''.com/bernd/vibepit/'' @ [CHR 0x5C] @ ''.github/workflows/docker-publish'' @ [CHR 0x5C] @ ''.yml@refs/heads/main$''"

definition ProxyImageOIDCIssuer :: string where "ProxyImageOIDCIssuer = ''https://accounts.google.com''"
definition ProxyImageSubject :: string where "ProxyImageSubject = ''keyless@distroless.iam.gserviceaccount.com''"

definition verify_image :: "image_env \<Rightarrow> string \<Rightarrow> string \<Rightarrow> string \<Rightarrow> string option \<Rightarrow> string option \<times> string option" where
  "verify_image im issuer subject imageRef cache =
     (if isDigestVerified cache imageRef then (None, cache)
      else case im_parse im imageRef of Some e \<Rightarrow> (Some e, cache) | None \<Rightarrow>
          (case im_root im of Some e \<Rightarrow> (Some e, cache) | None \<Rightarrow>
          (case im_verify im imageRef issuer subject of Some e \<Rightarrow> (Some e, cache) | None \<Rightarrow>
             (None, cacheVerifiedDigest im cache imageRef))))"

definition VerifyImage where
  "VerifyImage im imageRef cache = verify_image im OIDCIssuer ImageSANRegex imageRef cache"

definition VerifyProxyImage where
  "VerifyProxyImage im imageRef cache = verify_image im ProxyImageOIDCIssuer ProxyImageSubject imageRef cache"

definition ProxyImage :: string where "ProxyImage = ''gcr.io/distroless/base-debian13:latest''"

text \<open>\<open>im_user\<close> gives the image name of the current user.\<close>

definition runImageUpdate :: "image_env \<Rightarrow> string option \<Rightarrow> update_error option \<times> update_out list \<times> string option" where
  "runImageUpdate im cache =
     (case im_user im of Inl e \<Rightarrow> (Some (ImageFailed e), [], cache) | Inr img \<Rightarrow>
     (case im_client im of Some e \<Rightarrow> (Some (ImageFailed e), [], cache) | None \<Rightarrow>
     (case im_pull im img of Some e \<Rightarrow> (Some (ImageFailed e), [], cache) | None \<Rightarrow>
     (case im_digest im img of Inl e \<Rightarrow> (Some (ImageFailed e), [], cache) | Inr digestRef \<Rightarrow>
     (case VerifyImage im digestRef cache of (Some e, cache) \<Rightarrow> (Some (ImageFailed e), [], cache) | (None, cache) \<Rightarrow>
     (case im_pull im ProxyImage of Some e \<Rightarrow> (Some (ImageFailed e), [], cache) | None \<Rightarrow>
     (case im_digest im ProxyImage of Inl e \<Rightarrow> (Some (ImageFailed e), [], cache) | Inr proxyDigestRef \<Rightarrow>
     (case VerifyProxyImage im proxyDigestRef cache of (Some e, cache) \<Rightarrow> (Some (ImageFailed e), [], cache) | (None, cache) \<Rightarrow>
        (None, [ImagesUpdated], cache)))))))))"

section \<open>The command\<close>

definition runUpdate ::
  "update_ctx \<Rightarrow> image_env \<Rightarrow> update_flags \<Rightarrow> file_system \<Rightarrow> string option
   \<Rightarrow> update_error option \<times> update_out list \<times> file_system \<times> string option" where
  "runUpdate u im f fs cache =
     (case validateUpdateFlags f of
        Some e \<Rightarrow> (Some e, [], fs, cache)
      | None \<Rightarrow>
          let binOnly = uf_bin f \<or> uf_use f \<noteq> []; imagesOnly = uf_images f in
          if uf_list f then (let (e, out) = runList u (uf_pre f) in (e, out, fs, cache))
          else if uf_check f then (let (e, out) = runCheck u (uf_pre f) in (e, out, fs, cache))
          else
            let (binErr, out1, fs) = (if \<not> imagesOnly then runBinaryUpdate u (uf_use f) (uf_pre f) (uf_yes f) fs else (None, [], fs));
                (imgErr, out2, cache) = (if \<not> binOnly then runImageUpdate im cache else (None, [], cache))
            in ((case (binErr, imgErr) of
                   (Some b, Some i) \<Rightarrow> Some (BothFailed b i)
                 | (Some b, None) \<Rightarrow> Some b
                 | (None, i) \<Rightarrow> i),
                out1 @ out2, fs, cache))"

section \<open>Properties\<close>

text \<open>The binary \<open>d\<close> of an archive \<open>a\<close> that has the checksum of the asset and a valid signature.\<close>

definition verified_binary :: "update_ctx \<Rightarrow> Asset \<Rightarrow> string \<Rightarrow> bool" where
  "verified_binary u asset d \<longleftrightarrow>
     (\<exists>resp b entries ending.
        let a = concat (hr_Chunks resp) in
        rc_Get (uc_client u) (as_URL asset) = Inr resp \<and> hr_End resp = None \<and> int (length a) \<le> maxArchiveSizeLimit
        \<and> oe_sha256 (uc_os u) a = as_SHA256 asset
        \<and> sg_Verify (uc_sigstore u) b a OIDCIssuer BinarySANRegex = None
        \<and> oe_gunzip (uc_os u) a = Inr (entries, ending)
        \<and> (\<exists>h\<in>set entries. path_base (te_Name h) = ''vibepit'' \<and> \<not> contains_sub ''..'' (te_Name h)
             \<and> d = take (nat maxArchiveSizeLimit) (te_Data h)))"

text \<open>The running program has a file.\<close>

definition binary_exists :: "update_ctx \<Rightarrow> file_system \<Rightarrow> bool" where
  "binary_exists u fs = (case ResolveBinaryPath (uc_os u) of Inl _ \<Rightarrow> True | Inr (orig, b) \<Rightarrow> fs b \<noteq> None)"

lemma VerifySHA256_None:
  "VerifySHA256 env path expected fs = None \<Longrightarrow> fs path = Some (OSFile a m) \<Longrightarrow> oe_sha256 env a = expected"
  by (auto simp: VerifySHA256_def OpenRead_def split: sum.splits option.splits if_splits)

lemma install_archive_result:
  assumes run: "install_archive u asset binPath archivePath fs = (r, fs')"
    and fresh: "temps_fresh (uc_os u) fs0" and rm: "\<And>p. oe_removes (uc_os u) p" and bin: "fs0 binPath = Some old"
    and fs: "fs = fs0(archivePath \<mapsto> OSFile a 384)" and temp: "oe_temp (uc_os u) dir ''.vibepit-download-*'' = Inr archivePath"
  shows "case r of
      Some e \<Rightarrow> fs' = fs
    | None \<Rightarrow> oe_sha256 (uc_os u) a = as_SHA256 asset
        \<and> (\<exists>b. sg_Verify (uc_sigstore u) b a OIDCIssuer BinarySANRegex = None)
        \<and> (\<exists>entries ending. oe_gunzip (uc_os u) a = Inr (entries, ending)
             \<and> (\<exists>h\<in>set entries. path_base (te_Name h) = ''vibepit'' \<and> \<not> contains_sub ''..'' (te_Name h)
                  \<and> fs' = fs(binPath \<mapsto> OSFile (take (nat maxArchiveSizeLimit) (te_Data h)) (f_Mode old))))"
proof (cases "VerifySHA256 (uc_os u) archivePath (as_SHA256 asset) fs")
  case None
  have archive: "fs archivePath = Some (OSFile a 384)" by (simp add: fs)
  have sha: "oe_sha256 (uc_os u) a = as_SHA256 asset" by (rule VerifySHA256_None [where fs = fs, OF None archive])
  have free: "fs p = None" "p \<noteq> binPath" if "oe_temp (uc_os u) d ''.vibepit-extract-*'' = Inr p" for d p
    using temps_freshD(1) [OF fresh that] temps_freshD(2) [OF fresh that temp] bin fs by auto
  obtain r1 fs1 where v: "VerifyCosignBundle (uc_client u) (uc_sigstore u) (uc_os u) archivePath (as_CosignBundleURL asset) fs = (r1, fs1)"
    by force
  have v': "fs1 = fs" "r1 = None \<longrightarrow> (\<exists>b. sg_Verify (uc_sigstore u) b a OIDCIssuer BinarySANRegex = None)"
    using VerifyCosignBundle_result [OF v fresh fs temp _ rm] by simp_all
  obtain r2 fs2 where x: "ExtractBinary (uc_os u) archivePath (path_dir binPath) ''vibepit'' fs = (r2, fs2)" by force
  note x' = ExtractBinary_result [where fs = fs, OF x rm free(1) [of "path_dir binPath"] archive]
  show ?thesis
  proof (cases "as_CosignBundleURL asset = [] \<or> r1 \<noteq> None")
    case True
    then show ?thesis using run None v v' by (auto simp: install_archive_def split: if_splits)
  next
    case ok: False
    show ?thesis
    proof (cases r2)
      case (Inl e)
      then show ?thesis using run None v v' x x' ok by (auto simp: install_archive_def)
    next
      case (Inr p)
      then obtain entries ending h where p: "oe_temp (uc_os u) (path_dir binPath) ''.vibepit-extract-*'' = Inr p"
        and g: "oe_gunzip (uc_os u) a = Inr (entries, ending)" and h: "h \<in> set entries" "path_base (te_Name h) = ''vibepit''"
          "\<not> contains_sub ''..'' (te_Name h)" and fs2: "fs2 = fs(p \<mapsto> OSFile (take (nat maxArchiveSizeLimit) (te_Data h)) 384)"
        using x' by auto
      let ?d = "take (nat maxArchiveSizeLimit) (te_Data h)"
      have pb: "p \<noteq> binPath" "fs p = None" using free [OF p] by simp_all
      have fb: "fs binPath = Some old" using bin fs temps_freshD(1) [OF fresh temp] by auto
      obtain r3 fs3 where rep: "ReplaceBinary (uc_os u) binPath p fs2 = (r3, fs3)" by force
      have "fs2 p = Some (OSFile ?d 384)" by (simp add: fs2)
      note rep' = ReplaceBinary_result [where fs = fs2, OF rep this pb(1)]
      show ?thesis
      proof (cases r3)
        case None
        then have "fs3 = fs(binPath \<mapsto> OSFile ?d (f_Mode old))"
          using rep' pb fb by (auto simp: fs2 fun_eq_iff)
        then show ?thesis
          using run \<open>VerifySHA256 (uc_os u) archivePath (as_SHA256 asset) fs = None\<close> v v' x Inr ok rep None sha g h
          by (auto simp: install_archive_def)
      next
        case (Some e)
        then have "Remove (uc_os u) p fs3 = fs" using rep' pb rm by (auto simp: fs2 Remove_def fun_eq_iff)
        then show ?thesis
          using run \<open>VerifySHA256 (uc_os u) archivePath (as_SHA256 asset) fs = None\<close> v v' x Inr ok rep Some
          by (auto simp: install_archive_def)
      qed
    qed
  qed
next
  case (Some e)
  then have "r = Some e" "fs' = fs" using run by (auto simp: install_archive_def)
  then show ?thesis by simp
qed

lemma install_asset_result:
  assumes run: "install_asset u asset fs = (r, fs')"
    and fresh: "temps_fresh (uc_os u) fs" and rm: "\<And>p. oe_removes (uc_os u) p"
    and bin: "binary_exists u fs"
  shows "case r of
      Some e \<Rightarrow> fs' = fs
    | None \<Rightarrow> \<exists>orig binPath old d. ResolveBinaryPath (uc_os u) = Inr (orig, binPath)
        \<and> DetectPackageManager orig = None \<and> DetectPackageManager binPath = None
        \<and> fs binPath = Some old \<and> fs' = fs(binPath \<mapsto> OSFile d (f_Mode old)) \<and> verified_binary u asset d"
proof (cases "ResolveBinaryPath (uc_os u)")
  case (Inr ob)
  then obtain orig binPath old where res: "ResolveBinaryPath (uc_os u) = Inr (orig, binPath)" and old: "fs binPath = Some old"
    using bin by (cases ob) (auto simp: binary_exists_def)
  show ?thesis
  proof (cases "DetectPackageManager orig \<noteq> None \<or> DetectPackageManager binPath \<noteq> None")
    case True
    then show ?thesis using run res by (auto simp: install_asset_def split: option.splits)
  next
    case free: False
    obtain r1 fs1 where w: "CheckWritePermission (uc_os u) (path_dir binPath) fs = (r1, fs1)" by force
    have fs1: "fs1 = fs" by (rule CheckWritePermission_frame [OF w fresh rm])
    obtain r2 fs2 where d: "DownloadArchive (uc_client u) (uc_os u) (as_URL asset) (path_dir binPath) fs = (r2, fs2)" by force
    note d' = DownloadArchive_result [OF d fresh rm]
    show ?thesis
    proof (cases "r1 \<noteq> None \<or> isl r2")
      case True
      then show ?thesis using run res free w fs1 d d' by (cases r1; cases r2) (auto simp: install_asset_def)
    next
      case False
      then obtain path where r: "r1 = None" "r2 = Inr path" by (cases r2) auto
      with d' obtain resp where p: "oe_temp (uc_os u) (path_dir binPath) ''.vibepit-download-*'' = Inr path"
        and resp: "rc_Get (uc_client u) (as_URL asset) = Inr resp" "hr_End resp = None"
          "int (length (concat (hr_Chunks resp))) \<le> maxArchiveSizeLimit"
        and fs2: "fs2 = fs(path \<mapsto> OSFile (concat (hr_Chunks resp)) 384)" by auto
      obtain r3 fs3 where i: "install_archive u asset binPath path fs2 = (r3, fs3)" by force
      note i' = install_archive_result [OF i fresh rm old fs2 p]
      have np: "fs path = None" "path \<noteq> binPath" using temps_freshD(1) [OF fresh p] old by auto
      have out: "r = r3" "fs' = Remove (uc_os u) path fs3"
        using run res free w fs1 d r i by (auto simp: install_asset_def)
      show ?thesis
      proof (cases r3)
        case (Some e)
        then show ?thesis using out i' np rm by (auto simp: fs2 Remove_def fun_eq_iff)
      next
        case None
        then obtain b entries ending h where g: "oe_sha256 (uc_os u) (concat (hr_Chunks resp)) = as_SHA256 asset"
            "sg_Verify (uc_sigstore u) b (concat (hr_Chunks resp)) OIDCIssuer BinarySANRegex = None"
            "oe_gunzip (uc_os u) (concat (hr_Chunks resp)) = Inr (entries, ending)"
          and h: "h \<in> set entries" "path_base (te_Name h) = ''vibepit''" "\<not> contains_sub ''..'' (te_Name h)"
          and fs3: "fs3 = fs2(binPath \<mapsto> OSFile (take (nat maxArchiveSizeLimit) (te_Data h)) (f_Mode old))"
          using i' by auto
        have "verified_binary u asset (take (nat maxArchiveSizeLimit) (te_Data h))"
          unfolding verified_binary_def Let_def using resp g h by blast
        moreover have "fs' = fs(binPath \<mapsto> OSFile (take (nat maxArchiveSizeLimit) (te_Data h)) (f_Mode old))"
          using out(2) np rm by (auto simp: fs3 fs2 Remove_def fun_eq_iff)
        ultimately show ?thesis using out(1) None res free old by auto
      qed
    qed
  qed
qed (use run in \<open>auto simp: install_asset_def\<close>)

lemma runBinaryUpdate_result:
  assumes run: "runBinaryUpdate u use pre yes fs = (r, out, fs')"
    and fresh: "temps_fresh (uc_os u) fs" and rm: "\<And>p. oe_removes (uc_os u) p"
    and bin: "binary_exists u fs"
  shows "fs' = fs \<and> (\<forall>a b. UpdatedBinary a b \<notin> set out)
    \<or> r = None \<and> (\<exists>meta idx asset orig binPath old d.
         choose_target u use pre = Inr (Some (meta, idx)) \<and> FindAsset (vm_Assets meta) (uc_GOOS u) (uc_GOARCH u) = Inr asset
         \<and> confirmed u yes \<and> ResolveBinaryPath (uc_os u) = Inr (orig, binPath)
         \<and> DetectPackageManager orig = None \<and> DetectPackageManager binPath = None
         \<and> fs binPath = Some old \<and> fs' = fs(binPath \<mapsto> OSFile d (f_Mode old)) \<and> verified_binary u asset d
         \<and> UpdatedBinary (uc_Version u) (vm_Version meta) \<in> set out)"
proof (cases "choose_target u use pre")
  case (Inr t)
  show ?thesis
  proof (cases t)
    case (Some mi)
    then obtain meta idx where t: "choose_target u use pre = Inr (Some (meta, idx))" using Inr by (cases mi) auto
    obtain cl mg where cl: "updateChangelog u idx (uc_Version u) meta = (cl, mg)" by force
    show ?thesis
    proof (cases "FindAsset (vm_Assets meta) (uc_GOOS u) (uc_GOARCH u)")
      case asset: (Inr asset)
      show ?thesis
      proof (cases "confirmed u yes")
        case True
        obtain r1 fs1 where i: "install_asset u asset fs = (r1, fs1)" by force
        note i' = install_asset_result [OF i fresh rm bin]
        show ?thesis
        proof (cases r1)
          case None
          with run t asset cl True i have o: "r = None" "fs' = fs1" "UpdatedBinary (uc_Version u) (vm_Version meta) \<in> set out"
            by (auto simp: runBinaryUpdate_def)
          from i' None obtain orig binPath old d where "ResolveBinaryPath (uc_os u) = Inr (orig, binPath)"
              "DetectPackageManager orig = None" "DetectPackageManager binPath = None"
              "fs binPath = Some old" "fs1 = fs(binPath \<mapsto> OSFile d (f_Mode old))" "verified_binary u asset d"
            by (auto simp only: option.case)
          with o t asset True show ?thesis by blast
        next
          case (Some e)
          with run t asset cl True i i' show ?thesis by (auto simp: runBinaryUpdate_def split: if_splits)
        qed
      qed (use run t asset cl in \<open>auto simp: runBinaryUpdate_def split: if_splits\<close>)
    qed (use run t in \<open>auto simp: runBinaryUpdate_def\<close>)
  qed (use run Inr in \<open>auto simp: runBinaryUpdate_def\<close>)
qed (use run in \<open>auto simp: runBinaryUpdate_def\<close>)

lemma choose_target_Some:
  assumes "choose_target u use pre = Inr (Some (meta, idx))"
  shows "if use \<noteq> [] then FetchVersionMetadata (uc_client u) use = Inr meta
    else \<exists>i ch. ResolveChannel (uc_client u) pre = Inr (i, ch) \<and> FetchVersionMetadata (uc_client u) (ci_Latest i) = Inr meta
      \<and> ShouldUpdate (uc_semver u) (uc_Version u) (ci_Latest i) (isCrossChannel (uc_semver u) (uc_Version u) ch)"
  using assms by (auto simp: choose_target_def Let_def split: sum.splits if_splits)

lemma runImageUpdate_out: "runImageUpdate im cache = (r, out, cache') \<Longrightarrow> UpdatedBinary a b \<notin> set out"
  by (auto simp: runImageUpdate_def split: sum.splits option.splits prod.splits)

text \<open>
  C16. The update command changes nothing on disk but the running binary, and that only for the better: unless it
  reports the update of the binary, the file system is as before, with no temporary file left. If it reports it, the
  binary now is the \<^verbatim>\<open>vibepit\<close> entry of an archive of at most 256 MB that was downloaded completely for this
  platform, with the checksum of the release metadata and a signature of the release workflow; its permissions are
  the old ones, the user has confirmed, the binary belongs to no package manager, and the metadata are those of the
  requested version or of the latest version of a channel, which was due for an update.
\<close>

theorem update_installs_only_verified:
  assumes run: "runUpdate u im f fs cache = (r, out, fs', cache')"
    and fresh: "temps_fresh (uc_os u) fs" and rm: "\<And>p. oe_removes (uc_os u) p"
    and bin: "binary_exists u fs"
  shows "fs' = fs \<and> (\<forall>a b. UpdatedBinary a b \<notin> set out)
    \<or> (\<exists>meta asset orig binPath old d.
         UpdatedBinary (uc_Version u) (vm_Version meta) \<in> set out
         \<and> (if uf_use f \<noteq> [] then FetchVersionMetadata (uc_client u) (uf_use f) = Inr meta
            else \<exists>i ch. ResolveChannel (uc_client u) (uf_pre f) = Inr (i, ch) \<and> FetchVersionMetadata (uc_client u) (ci_Latest i) = Inr meta
              \<and> ShouldUpdate (uc_semver u) (uc_Version u) (ci_Latest i) (isCrossChannel (uc_semver u) (uc_Version u) ch))
         \<and> FindAsset (vm_Assets meta) (uc_GOOS u) (uc_GOARCH u) = Inr asset \<and> confirmed u (uf_yes f)
         \<and> ResolveBinaryPath (uc_os u) = Inr (orig, binPath)
         \<and> DetectPackageManager orig = None \<and> DetectPackageManager binPath = None
         \<and> fs binPath = Some old \<and> fs' = fs(binPath \<mapsto> OSFile d (f_Mode old)) \<and> verified_binary u asset d
         \<and> \<not> uf_images f \<and> \<not> uf_list f \<and> \<not> uf_check f)"
proof (cases "validateUpdateFlags f \<noteq> None \<or> uf_list f \<or> uf_check f \<or> uf_images f")
  case True
  then show ?thesis using run runImageUpdate_out
    by (fastforce simp: runUpdate_def runList_def runCheck_def Let_def split: option.splits prod.splits sum.splits if_splits)
next
  case False
  obtain r1 out1 fs1 where b: "runBinaryUpdate u (uf_use f) (uf_pre f) (uf_yes f) fs = (r1, out1, fs1)"
    using prod_cases3 by blast
  obtain r2 out2 c2 where i: "(if \<not> (uf_bin f \<or> uf_use f \<noteq> []) then runImageUpdate im cache else (None, [], cache)) = (r2, out2, c2)"
    using prod_cases3 by blast
  have img: "UpdatedBinary a b \<notin> set out2" for a b using i runImageUpdate_out by (auto split: if_splits)
  have o: "fs' = fs1" "out = out1 @ out2"
    using run False b i by (simp_all add: runUpdate_def Let_def del: if_not_P)
  from runBinaryUpdate_result [OF b fresh rm bin] show ?thesis
  proof (elim disjE conjE exE)
    fix meta idx asset orig binPath old d
    assume a: "choose_target u (uf_use f) (uf_pre f) = Inr (Some (meta, idx))" "FindAsset (vm_Assets meta) (uc_GOOS u) (uc_GOARCH u) = Inr asset"
      "confirmed u (uf_yes f)" "ResolveBinaryPath (uc_os u) = Inr (orig, binPath)" "DetectPackageManager orig = None"
      "DetectPackageManager binPath = None" "fs binPath = Some old" "fs1 = fs(binPath \<mapsto> OSFile d (f_Mode old))"
      "verified_binary u asset d" "UpdatedBinary (uc_Version u) (vm_Version meta) \<in> set out1"
    show ?thesis
      by (rule disjI2, rule exI [of _ meta], rule exI [of _ asset], rule exI [of _ orig], rule exI [of _ binPath], rule exI [of _ old],
          rule exI [of _ d]) (use a o False choose_target_Some [OF a(1)] in simp)
  qed (use o img in auto)
qed

text \<open>An update to version 2.0 of a binary in the home directory.\<close>

definition sample_asset :: Asset where
  "sample_asset = \<lparr>as_OS = ''linux'', as_Arch = ''amd64'', as_URL = ''u/a'', as_SHA256 = ''tgz'', as_CosignBundleURL = ''u/b''\<rparr>"

definition sample_meta :: VersionMetadata where
  "sample_meta = \<lparr>vm_Version = ''2.0'', vm_Timestamp = ''t'', vm_Changelog = [], vm_Changes = None, vm_Assets = [sample_asset]\<rparr>"

definition sample_os :: os_env where
  "sample_os = \<lparr>
     oe_temp = (\<lambda>d pat. if pat \<in> {''.vibepit-download-*'', ''.vibepit-extract-*'', ''.vibepit-bundle-*'', ''.vibepit-permission-check-*''}
                then Inr (''/tmp/'' @ pat) else Inl ''no''),
     oe_write = (\<lambda>_ _. None), oe_open = (\<lambda>_. None), oe_read = (\<lambda>_. None), oe_stat = (\<lambda>_. None), oe_chmod = (\<lambda>_. None),
     oe_rename = (\<lambda>_ _. None), oe_removes = (\<lambda>_. True), oe_sha256 = (\<lambda>d. d),
     oe_gunzip = (\<lambda>d. Inr ([\<lparr>te_Name = ''dist/vibepit'', te_Data = ''new'', te_End = None\<rparr>], None)),
     oe_Executable = Inr ''/home/u/vibepit'', oe_Abs = Inr, oe_EvalSymlinks = Inr\<rparr>"

definition sample_ctx :: update_ctx where
  "sample_ctx = \<lparr>uc_GOOS = ''linux'', uc_GOARCH = ''amd64'', uc_Version = ''1.0'', uc_answer = ''Y'',
     uc_semver = \<lparr>sv_IsValid = (\<lambda>_. True), sv_Canonical = (\<lambda>v. v), sv_Prerelease = (\<lambda>_. []), sv_Compare = (\<lambda>_ _. 0)\<rparr>,
     uc_sorter = (\<lambda>_ xs. xs),
     uc_client = \<lparr>rc_Get = (\<lambda>_. Inr \<lparr>hr_Status = 200, hr_ContentLength = ''3'', hr_Chunks = [''tg'', ''z''], hr_End = None\<rparr>),
       rc_BaseURL = [], rc_index = (\<lambda>_. Inl ''unused''), rc_meta = (\<lambda>_. Inr sample_meta)\<rparr>,
     uc_sigstore = \<lparr>sg_LoadJSON = (\<lambda>_. None), sg_TrustedRoot = None, sg_NewVerifier = None, sg_Identity = (\<lambda>_ _. None),
       sg_Verify = (\<lambda>_ _ _ _. None)\<rparr>,
     uc_os = sample_os\<rparr>"

definition sample_images :: image_env where
  "sample_images = \<lparr>im_user = Inl ''unused'', im_client = None, im_pull = (\<lambda>_. None), im_digest = Inr, im_parse = (\<lambda>_. None),
     im_root = None, im_verify = (\<lambda>_ _ _. None), im_append = True\<rparr>"

definition sample_flags :: update_flags where
  "sample_flags = \<lparr>uf_yes = False, uf_bin = False, uf_images = False, uf_use = ''2.0'', uf_list = False, uf_check = False, uf_pre = False\<rparr>"

definition sample_fs :: file_system where
  "sample_fs = [''/home/u/vibepit'' \<mapsto> OSFile ''old'' 493]"

theorem update_installs_only_verified_witness:
  "\<exists>r out fs' cache'. runUpdate sample_ctx sample_images sample_flags sample_fs None = (r, out, fs', cache')
     \<and> UpdatedBinary ''1.0'' ''2.0'' \<in> set out \<and> fs' ''/home/u/vibepit'' = Some (OSFile ''new'' 493)
     \<and> (\<exists>(meta::VersionMetadata) asset d. FindAsset (vm_Assets meta) ''linux'' ''amd64'' = Inr asset \<and> verified_binary sample_ctx asset d)"
proof -
  obtain r out fs' cache' where run: "runUpdate sample_ctx sample_images sample_flags sample_fs None = (r, out, fs', cache')"
    using prod_cases4 by blast
  have "(case runUpdate sample_ctx sample_images sample_flags sample_fs None of (r, out, fs', c) \<Rightarrow>
      UpdatedBinary ''1.0'' ''2.0'' \<in> set out \<and> fs' ''/home/u/vibepit'' = Some (OSFile ''new'' 493))" by code_simp
  with run have ev: "UpdatedBinary ''1.0'' ''2.0'' \<in> set out" "fs' ''/home/u/vibepit'' = Some (OSFile ''new'' 493)" by simp_all
  have os: "uc_os sample_ctx = sample_os" "uc_GOOS sample_ctx = ''linux''" "uc_GOARCH sample_ctx = ''amd64''"
    by (simp_all add: sample_ctx_def)
  have f: "temps_fresh (uc_os sample_ctx) sample_fs"
    unfolding os by (auto simp: temps_fresh_def sample_os_def sample_fs_def split: if_splits)
  have rm: "oe_removes (uc_os sample_ctx) p" for p unfolding os by (simp add: sample_os_def)
  have b: "binary_exists sample_ctx sample_fs"
    by (simp add: binary_exists_def ResolveBinaryPath_def sample_ctx_def sample_os_def sample_fs_def)
  have "\<exists>(meta::VersionMetadata) asset d. FindAsset (vm_Assets meta) ''linux'' ''amd64'' = Inr asset \<and> verified_binary sample_ctx asset d"
    using update_installs_only_verified [OF run f rm b] ev(1) unfolding os(2,3) by (elim disjE exE conjE) blast+
  then show ?thesis using run ev by blast
qed

text \<open>The union of two indexes has every version once, and the entry of the first index that has it.\<close>

lemma combine_loop_versions:
  assumes "set seen = re_Version ` set out" and "distinct (map re_Version out)"
  shows "case combine_loop seen out rs of (seen', out') \<Rightarrow>
    set seen' = re_Version ` set out' \<and> distinct (map re_Version out')
    \<and> re_Version ` set out' = re_Version ` (set out \<union> set rs) \<and> set out \<subseteq> set out' \<and> set out' \<subseteq> set out \<union> set rs"
  using assms
proof (induction seen out rs rule: combine_loop.induct)
  case (2 seen out r rs)
  show ?case
  proof (cases "re_Version r \<in> set seen")
    case True
    with "2.IH"(1) "2.prems" show ?thesis by (auto split: prod.splits)
  next
    case False
    with "2.IH"(2) "2.prems" show ?thesis by (auto split: prod.splits)
  qed
qed simp

lemma CombineReleases_versions:
  "distinct (map re_Version (CombineReleases (Some a) (Some b)))"
  "re_Version ` set (CombineReleases (Some a) (Some b)) = re_Version ` (set (ci_Releases a) \<union> set (ci_Releases b))"
proof -
  obtain s1 o1 where 1: "combine_loop [] [] (ci_Releases a) = (s1, o1)" by force
  obtain s2 o2 where 2: "combine_loop s1 o1 (ci_Releases b) = (s2, o2)" by force
  have a: "set s1 = re_Version ` set o1" "distinct (map re_Version o1)" "re_Version ` set o1 = re_Version ` set (ci_Releases a)"
    using combine_loop_versions [of "[]" "[]" "ci_Releases a"] 1 by simp_all
  with combine_loop_versions [of s1 o1 "ci_Releases b"] 2
  show "distinct (map re_Version (CombineReleases (Some a) (Some b)))"
    "re_Version ` set (CombineReleases (Some a) (Some b)) = re_Version ` (set (ci_Releases a) \<union> set (ci_Releases b))"
    using 1 by (simp_all add: CombineReleases_def combine_index_def image_Un)
qed

text \<open>What \<^verbatim>\<open>sort.Slice\<close> promises, for a comparison that is a strict weak order.\<close>

definition strict_weak :: "('a \<Rightarrow> 'a \<Rightarrow> bool) \<Rightarrow> bool" where
  "strict_weak lt \<longleftrightarrow> (\<forall>a b. lt a b \<longrightarrow> \<not> lt b a) \<and> (\<forall>a b c. lt a b \<longrightarrow> lt a c \<or> lt c b)"

definition sorts :: "sorter \<Rightarrow> bool" where
  "sorts s \<longleftrightarrow> (\<forall>lt xs. mset (s lt xs) = mset xs \<and> (strict_weak lt \<longrightarrow> sorted_wrt (\<lambda>a b. \<not> lt b a) (s lt xs)))"

definition tagged :: "VersionMetadata \<Rightarrow> string \<Rightarrow> MergedEntry list" where
  "tagged m cat = (case vm_Changes m of None \<Rightarrow> [] | Some ch \<Rightarrow> map (\<lambda>e. \<lparr>me_Entry = e, me_Version = vm_Version m\<rparr>) (ch cat))"

lemma MergeChanges_eq: "MergeChanges metas = (\<lambda>cat. concat (map (\<lambda>m. tagged m cat) metas))"
proof -
  have "fold merge_meta metas acc = (\<lambda>cat. acc cat @ concat (map (\<lambda>m. tagged m cat) metas))" for acc
    by (induction metas arbitrary: acc) (auto simp: merge_meta_def tagged_def fun_eq_iff)
  then show ?thesis by (simp add: MergeChanges_def)
qed

text \<open>The metadata of a release that the target's changelog needs.\<close>

definition notes_of :: "release_client \<Rightarrow> VersionMetadata \<Rightarrow> ReleaseEntry \<Rightarrow> VersionMetadata \<Rightarrow> bool" where
  "notes_of c meta r m \<longleftrightarrow> vm_Changes m \<noteq> None
     \<and> (if re_Version r = vm_Version meta then m = meta else FetchVersionMetadata c (re_Version r) = Inr m)"

lemma collect_metas_Some: "collect_metas c meta rs = Some ms \<Longrightarrow> list_all2 (notes_of c meta) rs ms"
proof (induction c meta rs arbitrary: ms rule: collect_metas.induct)
  case (2 c meta r rs)
  from "2.prems" obtain vm ms' where vm: "(if re_Version r = vm_Version meta then Inr meta else FetchVersionMetadata c (re_Version r)) = Inr vm"
    and ms: "vm_Changes vm \<noteq> None" "collect_metas c meta rs = Some ms'" "ms = vm # ms'"
    by (auto split: sum.splits if_splits)
  from "2.IH" [OF vm _ ms(2)] ms(1) have "list_all2 (notes_of c meta) rs ms'" by blast
  moreover have "notes_of c meta r vm" using vm ms(1) by (simp add: notes_of_def split: if_splits)
  ultimately show ?case using ms(3) by simp
qed simp

text \<open>
  A changelog that is announced as covering several releases covers them all: its entries are, for every category,
  the entries of exactly the releases of the index that are newer than the running version and not newer than the
  target, each tagged with its version, newest release first. Otherwise the changelog of the target is shown.
\<close>

lemma merged_changelog_complete:
  assumes sorter: "sorts (uc_sorter u)" and order: "strict_weak (newer (uc_semver u))"
    and shown: "updateChangelog u idx current meta = (log, merged)"
  shows "if \<not> merged then log = vm_Changelog meta
    else \<exists>i rng metas. idx = Some i \<and> \<not> IsDevBuild (uc_semver u) current
      \<and> mset rng = filter_mset (in_range (uc_semver u) current (vm_Version meta)) (mset (ci_Releases i))
      \<and> sorted_wrt (\<lambda>a b. sv_Compare (uc_semver u) (addV (re_Version b)) (addV (re_Version a)) \<le> 0) rng
      \<and> list_all2 (notes_of (uc_client u) meta) rng metas
      \<and> log = RenderMerged (\<lambda>cat. concat (map (\<lambda>m. tagged m cat) metas))"
proof (cases merged)
  case False
  with shown show ?thesis by (auto simp: updateChangelog_def Let_def split: option.splits if_splits)
next
  case True
  then obtain i ms where i: "idx = Some i" "\<not> IsDevBuild (uc_semver u) current"
    and ms: "collect_metas (uc_client u) meta (ReleasesBetween (uc_semver u) (uc_sorter u) i current (vm_Version meta)) = Some ms"
    and t: "log = RenderMerged (MergeChanges ms)"
    using shown by (auto simp: updateChangelog_def Let_def split: option.splits if_splits)
  let ?rng = "ReleasesBetween (uc_semver u) (uc_sorter u) i current (vm_Version meta)"
  have "mset ?rng = filter_mset (in_range (uc_semver u) current (vm_Version meta)) (mset (ci_Releases i))"
    using sorter by (simp add: ReleasesBetween_def sorts_def mset_filter)
  moreover have "sorted_wrt (\<lambda>a b. sv_Compare (uc_semver u) (addV (re_Version b)) (addV (re_Version a)) \<le> 0) ?rng"
  proof -
    have "sorted_wrt (\<lambda>a b. \<not> newer (uc_semver u) b a) ?rng"
      using sorter order unfolding ReleasesBetween_def sorts_def by blast
    then show ?thesis by (simp add: newer_def not_less)
  qed
  ultimately show ?thesis
    using i collect_metas_Some [OF ms] t True MergeChanges_eq [of ms] by auto
qed

text \<open>Insertion sort is such a function.\<close>

definition put_sorted :: "('a \<Rightarrow> 'a \<Rightarrow> bool) \<Rightarrow> 'a \<Rightarrow> 'a list \<Rightarrow> 'a list" where
  "put_sorted lt x ys = takeWhile (\<lambda>y. lt y x) ys @ x # dropWhile (\<lambda>y. lt y x) ys"

definition insertion_sorter :: sorter where
  "insertion_sorter lt xs = foldr (put_sorted lt) xs []"

lemma mset_put_sorted [simp]: "mset (put_sorted lt x ys) = add_mset x (mset ys)"
proof -
  have "mset (takeWhile (\<lambda>y. lt y x) ys @ dropWhile (\<lambda>y. lt y x) ys) = mset ys" by (simp only: takeWhile_dropWhile_id)
  then show ?thesis by (simp only: put_sorted_def mset_append mset.simps union_mset_add_mset_right)
qed

lemma put_sorted_sorted:
  assumes lt: "strict_weak lt" and ys: "sorted_wrt (\<lambda>a b. \<not> lt b a) ys"
  shows "sorted_wrt (\<lambda>a b. \<not> lt b a) (put_sorted lt x ys)"
proof -
  define t d where "t = takeWhile (\<lambda>y. lt y x) ys" and "d = dropWhile (\<lambda>y. lt y x) ys"
  have "ys = t @ d" by (simp add: t_def d_def)
  with ys have s: "sorted_wrt (\<lambda>a b. \<not> lt b a) t" "sorted_wrt (\<lambda>a b. \<not> lt b a) d" "\<forall>a\<in>set t. \<forall>b\<in>set d. \<not> lt b a"
    by (auto simp: sorted_wrt_append)
  have before: "\<not> lt x a" if "a \<in> set t" for a using that lt by (auto simp: t_def strict_weak_def dest: set_takeWhileD)
  have after: "\<not> lt b x" if b: "b \<in> set d" for b
  proof (cases d)
    case (Cons z zs)
    have z: "\<not> lt z x" using Cons by (simp add: d_def dropWhile_eq_Cons_conv)
    have "b = z \<or> \<not> lt b z" using s(2) b Cons by auto
    with z lt show ?thesis unfolding strict_weak_def by blast
  qed (use b in simp)
  have "sorted_wrt (\<lambda>a b. \<not> lt b a) (t @ x # d)"
    unfolding sorted_wrt_append sorted_wrt.simps using s before after by auto
  then show ?thesis by (simp add: put_sorted_def t_def d_def)
qed

lemma insertion_sorter_sorts: "sorts insertion_sorter"
proof -
  have "mset (foldr (put_sorted lt) xs []) = mset xs" for lt :: "ReleaseEntry \<Rightarrow> ReleaseEntry \<Rightarrow> bool" and xs
    by (induction xs) auto
  moreover have "sorted_wrt (\<lambda>a b. \<not> lt b a) (foldr (put_sorted lt) xs [])"
    if "strict_weak lt" for lt :: "ReleaseEntry \<Rightarrow> ReleaseEntry \<Rightarrow> bool" and xs
    by (induction xs) (auto intro: put_sorted_sorted [OF that])
  ultimately show ?thesis by (simp add: sorts_def insertion_sorter_def)
qed

definition length_semver :: semver_lib where
  "length_semver = \<lparr>sv_IsValid = (\<lambda>_. True), sv_Canonical = (\<lambda>v. v), sv_Prerelease = (\<lambda>_. []),
     sv_Compare = (\<lambda>a b. int (length a) - int (length b))\<rparr>"

definition notes_meta :: "string \<Rightarrow> VersionMetadata" where
  "notes_meta v = \<lparr>vm_Version = v, vm_Timestamp = [], vm_Changelog = ''notes'',
     vm_Changes = Some (\<lambda>cat. if cat = ''added'' then [\<lparr>ce_Msg = ''x'', ce_PR = [], ce_Issue = []\<rparr>] else []), vm_Assets = []\<rparr>"

definition notes_index :: ChannelIndex where
  "notes_index = \<lparr>ci_Latest = ''333'', ci_Releases =
     [\<lparr>re_Version = ''22'', re_Timestamp = []\<rparr>, \<lparr>re_Version = ''1'', re_Timestamp = []\<rparr>, \<lparr>re_Version = ''333'', re_Timestamp = []\<rparr>]\<rparr>"

definition notes_ctx :: update_ctx where
  "notes_ctx = sample_ctx\<lparr>uc_semver := length_semver, uc_sorter := insertion_sorter,
     uc_client := (uc_client sample_ctx)\<lparr>rc_meta := (\<lambda>_. Inr (notes_meta ''22''))\<rparr>\<rparr>"

lemma merged_changelog_complete_witness:
  "\<exists>log rng metas. updateChangelog notes_ctx (Some notes_index) ''1'' (notes_meta ''333'') = (log, True)
     \<and> mset rng = filter_mset (in_range length_semver ''1'' ''333'') (mset (ci_Releases notes_index))
     \<and> log = RenderMerged (\<lambda>cat. concat (map (\<lambda>m. tagged m cat) metas)) \<and> length metas = length rng"
proof -
  obtain log merged where r: "updateChangelog notes_ctx (Some notes_index) ''1'' (notes_meta ''333'') = (log, merged)" by force
  have "snd (updateChangelog notes_ctx (Some notes_index) ''1'' (notes_meta ''333''))" by code_simp
  then have m: merged using r by simp
  have s: "sorts (uc_sorter notes_ctx)" by (simp add: notes_ctx_def insertion_sorter_sorts)
  have o: "strict_weak (newer (uc_semver notes_ctx))" by (auto simp: notes_ctx_def strict_weak_def newer_def length_semver_def)
  have "uc_semver notes_ctx = length_semver" "vm_Version (notes_meta ''333'') = ''333''" by (simp_all add: notes_ctx_def notes_meta_def)
  with merged_changelog_complete [OF s o r] m obtain rng metas
    where "mset rng = filter_mset (in_range length_semver ''1'' ''333'') (mset (ci_Releases notes_index))"
      "list_all2 (notes_of (uc_client notes_ctx) (notes_meta ''333'')) rng metas"
      "log = RenderMerged (\<lambda>cat. concat (map (\<lambda>m. tagged m cat) metas))"
    by auto
  with r m show ?thesis using list_all2_lengthD by (metis (full_types))
qed

section \<open>Image verification\<close>

lemma verify_image_cases:
  assumes "verify_image im issuer subject ref cache = (None, cache')"
  shows "isDigestVerified cache ref \<and> cache' = cache
    \<or> im_verify im ref issuer subject = None \<and> cache' = cacheVerifiedDigest im cache ref"
  using assms by (auto simp: verify_image_def split: if_splits option.splits)

text \<open>A digest is taken as verified exactly when it was in the cache or has been put there.\<close>

lemma isDigestVerified_cache:
  assumes "im_append im" and ref: "ref \<noteq> []" "\<forall>c\<in>set ref. \<not> is_space c" "\<forall>c\<in>set d. \<not> is_space c"
    and ends: "\<forall>t. cache = Some t \<longrightarrow> t = [] \<or> has_suffix [newline] t"
  shows "isDigestVerified (cacheVerifiedDigest im cache ref) d \<longleftrightarrow> d = ref \<or> isDigestVerified cache d"
proof -
  have nl: "newline \<notin> set ref" using ref(2) by (auto simp: is_space_def newline_def)
  have tr: "trim_space ref = ref" using trim_space_word [of ref "[]" "[]"] ref by simp
  have one: "split_on newline (ref @ [newline]) = [ref, []]" using nl by (simp add: split_on_append_sep)
  show ?thesis
  proof (cases "\<exists>s. cache = Some (s @ [newline])")
    case True
    then obtain s where s: "cache = Some (s @ [newline])" by blast
    have "split_on newline (s @ [newline]) = split_on newline s @ [[]]" by (simp add: split_on_append_sep_any)
    moreover have "split_on newline (s @ newline # ref @ [newline]) = split_on newline s @ [ref, []]"
      using split_on_append_sep_any [of newline s "ref @ [newline]"] one by simp
    ultimately show ?thesis using assms(1) s tr
      by (auto simp: isDigestVerified_def cacheVerifiedDigest_def Let_def butlast_append)
  next
    case False
    then have "cache = None \<or> cache = Some []" using ends by (cases cache) (auto simp: has_suffix_iff)
    then show ?thesis using assms(1) one tr by (auto simp: isDigestVerified_def cacheVerifiedDigest_def Let_def)
  qed
qed

lemma images_reported_verified:
  assumes "runImageUpdate im cache = (r, out, cache')" and "ImagesUpdated \<in> set out"
  shows "\<exists>img ref pref c1. im_user im = Inr img \<and> im_digest im img = Inr ref \<and> im_digest im ProxyImage = Inr pref
    \<and> (isDigestVerified cache ref \<and> c1 = cache
        \<or> im_verify im ref OIDCIssuer ImageSANRegex = None \<and> c1 = cacheVerifiedDigest im cache ref)
    \<and> (isDigestVerified c1 pref \<or> im_verify im pref ProxyImageOIDCIssuer ProxyImageSubject = None)"
proof -
  obtain img ref pref c1 where *: "im_user im = Inr img" "im_digest im img = Inr ref" "im_digest im ProxyImage = Inr pref"
      "VerifyImage im ref cache = (None, c1)" "VerifyProxyImage im pref c1 = (None, cache')"
    using assms by (auto simp: runImageUpdate_def split: sum.splits option.splits prod.splits)
  then show ?thesis
    using verify_image_cases [of im OIDCIssuer ImageSANRegex ref cache c1]
      verify_image_cases [of im ProxyImageOIDCIssuer ProxyImageSubject pref c1 cache']
    by (intro exI [of _ img] exI [of _ ref] exI [of _ pref] exI [of _ c1]) (auto simp: VerifyImage_def VerifyProxyImage_def)
qed

end
