(* ===== verification/Container.thy ===== *)
theory Container
  imports Config Update_Command
begin

text \<open>
  The container client, \<^verbatim>\<open>container/client.go\<close>: the calls that it makes to the Docker API and their
  arguments, for networks, the proxy and sandbox containers, volumes and images, and its queries.

  The Docker daemon is a parameter, \<open>docker_api\<close>: what each call answers. An operation returns its result and
  the list of its effects, the calls that succeeded with their arguments; the third component of an action
  are the resources that the caller has taken over for a later cleanup. An early return is \<open>act_bind\<close>: what follows a failed
  step is not executed, and the effects before it stay.
\<close>

section \<open>Effects\<close>

record container_spec =
  sp_Image :: string
  sp_Cmd :: "string list"
  sp_Entrypoint :: "string list"
  sp_Env :: "string list"
  sp_Labels :: "(string \<times> string) list"
  sp_Hostname :: string
  sp_Tty :: bool
  sp_OpenStdin :: bool
  sp_WorkingDir :: string
  sp_ExposedPorts :: "string list"
  sp_NetworkMode :: string
  sp_Binds :: "string list"
  sp_ExtraHosts :: "string list"
  sp_PortBindings :: "(string \<times> string \<times> string) list"
  sp_RestartUnlessStopped :: bool
  sp_DNS :: "string list"
  sp_Init :: bool
  sp_ReadonlyRootfs :: bool
  sp_CapDrop :: "string list"
  sp_SecurityOpt :: "string list"
  sp_Tmpfs :: "(string \<times> string) list"
  sp_Endpoints :: "(string \<times> string) list"

datatype host_error =
    DockerError string
  | StepFailed string string
  | ProxyNotStarted string string
  | CredentialsNotWritten string
  | SessionExists string
  | HomeDirectory
  | NotReady

text \<open>The resources that a session holds on the host.\<close>

datatype resource = Network string | TempFile string | Credentials string | Container string

datatype host_effect =
    Acquired resource
  | Released resource
  | NetworkMade string string bool string string
  | ContainerMade string string container_spec
  | NetworkJoined string string string
  | ContainerStarted string
  | ContainerStopped string
  | VolumeMade string string string
  | ImagePulled string
  | ImageVerified string
  | ConfigWritten string MergedConfig
  | FileWritten string string
  | ProjectFileChanged "string option"
  | DigestCache "string option"

type_synonym 'a act = "(host_error + 'a) \<times> host_effect list \<times> resource list"

definition act_ret :: "'a \<Rightarrow> 'a act" where "act_ret x = (Inr x, [], [])"
definition act_fail :: "host_error \<Rightarrow> 'a act" where "act_fail e = (Inl e, [], [])"
definition act_emit :: "host_effect list \<Rightarrow> unit act" where "act_emit es = (Inr (), es, [])"
definition act_defer :: "resource \<Rightarrow> unit act" where "act_defer r = (Inr (), [], [r])"

definition act_bind :: "'a act \<Rightarrow> ('a \<Rightarrow> 'b act) \<Rightarrow> 'b act" where
  "act_bind m f =
     (case m of
        (Inl e, es, rs) \<Rightarrow> (Inl e, es, rs)
      | (Inr x, es, rs) \<Rightarrow> (case f x of (r, es', rs') \<Rightarrow> (r, es @ es', rs @ rs')))"

text \<open>The answer of a call: its value, or its error wrapped with the text of the step.\<close>

definition act_call :: "string \<Rightarrow> string + 'a \<Rightarrow> 'a act" where
  "act_call step r = (case r of Inl e \<Rightarrow> act_fail (StepFailed step e) | Inr x \<Rightarrow> act_ret x)"

definition act_check :: "string \<Rightarrow> string option \<Rightarrow> unit act" where
  "act_check step r = (case r of Some e \<Rightarrow> act_fail (StepFailed step e) | None \<Rightarrow> act_ret ())"

section \<open>The Docker API\<close>

record container_summary =
  cn_ID :: string
  cn_Names :: "string list"
  cn_Labels :: "(string \<times> string) list"
  cn_Created :: int

record container_details =
  cd_Labels :: "(string \<times> string) list"
  cd_Ports :: "(string \<times> string list) list"
  cd_IPs :: "string list"
  cd_State :: "string \<times> int"

text \<open>What is read from the answer to a pull, up to its end: a progress message, a message with an error, a text that is not a message,
  a failure of the transport.\<close>

datatype pull_event = PullProgress | PullError string | PullGarbled string | PullCut string

record docker_api =
  da_ImageList :: "string \<Rightarrow> string + string list"
  da_ImagePull :: "string \<Rightarrow> string + pull_event list"
  da_RepoDigests :: "string \<Rightarrow> string + string list"
  da_ContainerList :: "bool \<Rightarrow> (string \<times> string option) list \<Rightarrow> string + container_summary list"
  da_ContainerInspect :: "string \<Rightarrow> string + container_details"
  da_NetworkCreate :: "string \<Rightarrow> string + string"
  da_NetworkRemove :: "string \<Rightarrow> string option"
  da_NetworkConnect :: "string \<Rightarrow> string \<Rightarrow> string option"
  da_ContainerCreate :: "string \<Rightarrow> string + string"
  da_ContainerStart :: "string \<Rightarrow> string option"
  da_ContainerRemove :: "string \<Rightarrow> string option"
  da_VolumeList :: "string \<Rightarrow> string + string list"
  da_VolumeCreate :: "string \<Rightarrow> string option"
  da_VolumeRemove :: "string \<Rightarrow> string option"
  da_localtime :: bool
  da_mkdir :: "string \<Rightarrow> string option"
  da_write :: "string \<Rightarrow> string option"

definition LabelVibepit :: string where "LabelVibepit = ''vibepit''"
definition LabelRole :: string where "LabelRole = ''vibepit.role''"
definition LabelUID :: string where "LabelUID = ''vibepit.uid''"
definition LabelUser :: string where "LabelUser = ''vibepit.user''"
definition LabelVolumeHome :: string where "LabelVolumeHome = ''vibepit.volume.home''"
definition LabelVolumeLinuxbrew :: string where "LabelVolumeLinuxbrew = ''vibepit.volume.linuxbrew''"
definition LabelProjectDir :: string where "LabelProjectDir = ''vibepit.project.dir''"
definition LabelSessionID :: string where "LabelSessionID = ''vibepit.session-id''"
definition LabelControlPort :: string where "LabelControlPort = ''vibepit.control-port''"
definition RoleProxy :: string where "RoleProxy = ''proxy''"
definition RoleSandbox :: string where "RoleSandbox = ''sandbox''"
definition ProxyBinaryPath :: string where "ProxyBinaryPath = ''/vibepit''"
definition SandboxBinaryPath :: string where "SandboxBinaryPath = ''/vibed''"
definition ProxyConfigPath :: string where "ProxyConfigPath = ''/config.json''"
definition HomeMountPath :: string where "HomeMountPath = ''/home/code''"
definition LinuxbrewMountPath :: string where "LinuxbrewMountPath = ''/home/linuxbrew''"
definition ContainerHostname :: string where "ContainerHostname = ''vibes''"
definition SSHContainerPort :: string where "SSHContainerPort = ''2222/tcp''"
definition SSHHostKeyPath :: string where "SSHHostKeyPath = ''/etc/vibepit/sshd/host-key''"
definition SSHHostPubPath :: string where "SSHHostPubPath = ''/etc/vibepit/sshd/host-key.pub''"
definition SSHPubKeyEnv :: string where "SSHPubKeyEnv = ''VIBEPIT_SSH_PUBKEY''"

text \<open>A label of a container, empty when absent, as the index of a Go map.\<close>

definition label :: "(string \<times> string) list \<Rightarrow> string \<Rightarrow> string" where
  "label ls k = (case map_of ls k of None \<Rightarrow> [] | Some v \<Rightarrow> v)"

text \<open>\<^verbatim>\<open>filepath.Join\<close> of a clean directory and a name.\<close>

definition path_join :: "string \<Rightarrow> string \<Rightarrow> string" where
  "path_join dir name = (if dir = [] then name else dir @ ''/'' @ name)"

section \<open>Connecting to the daemon\<close>

text \<open>
  The daemon that the environment names, when it answers a ping; the home directory and the user id; and which socket
  can be opened and answers a ping.
\<close>

record daemon_env =
  de_env :: "string option"
  de_user :: "string + string \<times> string"
  de_ping :: "string \<Rightarrow> bool"

fun findSocket :: "(string \<Rightarrow> bool) \<Rightarrow> string list \<Rightarrow> string + string" where
  "findSocket ping [] = Inl ''couldn't find a Docker socket''"
| "findSocket ping (path # paths) = (if ping path then Inr path else findSocket ping paths)"

definition NewClient :: "daemon_env \<Rightarrow> string act" where
  "NewClient de =
     (case de_env de of
        Some host \<Rightarrow> act_ret host
      | None \<Rightarrow>
          act_bind (act_call ''cannot determine current user'' (de_user de)) (\<lambda>(home, uid).
            act_call [] (findSocket (de_ping de)
              [''unix://'' @ home @ ''/.docker/run/docker.sock'', ''unix:///run/user/'' @ uid @ ''/podman/podman.sock''])))"

section \<open>Images and volumes\<close>

fun displayPullProgress :: "pull_event list \<Rightarrow> string option" where
  "displayPullProgress [] = None"
| "displayPullProgress (PullProgress # ms) = displayPullProgress ms"
| "displayPullProgress (PullError e # ms) = Some e"
| "displayPullProgress (PullGarbled e # ms) = Some e"
| "displayPullProgress (PullCut e # ms) = Some e"

fun copy_discard :: "pull_event list \<Rightarrow> string option" where
  "copy_discard [] = None"
| "copy_discard (PullCut e # ms) = Some e"
| "copy_discard (_ # ms) = copy_discard ms"

definition PullImage :: "docker_api \<Rightarrow> string \<Rightarrow> bool \<Rightarrow> unit act" where
  "PullImage api ref quiet =
     act_bind (act_call (''pull image '' @ ref) (da_ImagePull api ref)) (\<lambda>reader.
     act_bind (act_check (''pull image '' @ ref) (if quiet then copy_discard reader else displayPullProgress reader)) (\<lambda>_.
       act_emit [ImagePulled ref]))"

definition EnsureImage :: "docker_api \<Rightarrow> string \<Rightarrow> bool \<Rightarrow> bool act" where
  "EnsureImage api ref quiet =
     act_bind (act_call ''list images'' (da_ImageList api ref)) (\<lambda>images.
       if images \<noteq> [] then act_ret False
       else act_bind (PullImage api ref quiet) (\<lambda>_. act_ret True))"

definition ref_repo :: "string \<Rightarrow> string" where
  "ref_repo ref =
     (case last_index CHR '':'' ref of
        Some idx \<Rightarrow> if idx > 0 \<and> \<not> contains_sub ''/'' (drop idx ref) then take idx ref else ref
      | None \<Rightarrow> ref)"

definition ImageRepoDigest :: "docker_api \<Rightarrow> string \<Rightarrow> string act" where
  "ImageRepoDigest api ref =
     act_bind (act_call (''inspect image '' @ ref) (da_RepoDigests api ref)) (\<lambda>digests.
       if digests = [] then act_fail (StepFailed ref ''no repo digests'')
       else case find (\<lambda>rd. has_prefix (ref_repo ref @ ''@'') rd) digests of
              Some rd \<Rightarrow> act_ret rd
            | None \<Rightarrow> act_ret (hd digests))"

definition EnsureVolume :: "docker_api \<Rightarrow> string \<Rightarrow> int \<Rightarrow> string \<Rightarrow> unit act" where
  "EnsureVolume api name uid user =
     act_bind (act_call ''list volumes'' (da_VolumeList api name)) (\<lambda>vols.
       if name \<in> set vols then act_ret ()
       else act_bind (act_check ''create volume'' (da_VolumeCreate api name)) (\<lambda>_. act_emit [VolumeMade name (show_int uid) user]))"

definition RemoveVolume :: "docker_api \<Rightarrow> string \<Rightarrow> unit act" where
  "RemoveVolume api name = act_check ''remove volume'' (da_VolumeRemove api name)"

section \<open>Networks\<close>

record NetworkInfo =
  ni_ID :: string
  ni_ProxyIP :: string
  ni_SandboxIP :: string

definition randomSubnet :: "byte \<times> byte \<Rightarrow> string \<times> IP" where
  "randomSubnet b =
     (''10.'' @ show_nat (unat (fst b)) @ ''.'' @ show_nat (unat (snd b)) @ ''.0/24'',
      v4InV6Prefix @ [10, fst b, snd b, 1])"

definition be_uint32 :: "IP \<Rightarrow> uint32" where
  "be_uint32 ip = foldl (\<lambda>n b. push_bit 8 n + ucast b) 0 ip"

definition put_uint32 :: "uint32 \<Rightarrow> IP" where
  "put_uint32 n = [ucast (drop_bit 24 n), ucast (drop_bit 16 n), ucast (drop_bit 8 n), ucast n]"

text \<open>\<^term>\<open>None\<close> is the nil slice of an address that is not IPv4.\<close>

definition nextIP :: "IP \<Rightarrow> IP option" where
  "nextIP ip = (case To4 ip of None \<Rightarrow> None | Some v4 \<Rightarrow> Some (put_uint32 (be_uint32 v4 + 1)))"

definition IP_text :: "IP option \<Rightarrow> string" where
  "IP_text ip = (case ip of None \<Rightarrow> ''<nil>'' | Some i \<Rightarrow> IP_String i)"

definition CreateNetwork :: "docker_api \<Rightarrow> string + byte \<times> byte \<Rightarrow> string \<Rightarrow> NetworkInfo act" where
  "CreateNetwork api random name =
     act_bind (act_call ''generate subnet'' random) (\<lambda>b.
       let (subnet, gateway) = randomSubnet b in
       act_bind (act_call ''create network'' (da_NetworkCreate api name)) (\<lambda>nid.
       act_bind (act_emit [NetworkMade nid name True subnet (IP_String gateway), Acquired (Network nid)]) (\<lambda>_.
         let proxyIP = nextIP gateway; sandboxIP = (case proxyIP of None \<Rightarrow> None | Some p \<Rightarrow> nextIP p) in
         act_ret \<lparr>ni_ID = nid, ni_ProxyIP = IP_text proxyIP, ni_SandboxIP = IP_text sandboxIP\<rparr>)))"

definition RemoveNetwork :: "docker_api \<Rightarrow> string \<Rightarrow> unit act" where
  "RemoveNetwork api nid = act_bind (act_check ''remove network'' (da_NetworkRemove api nid)) (\<lambda>_. act_emit [Released (Network nid)])"

section \<open>Containers\<close>

record ProxyContainerConfig =
  px_BinaryPath :: string
  px_ConfigPath :: string
  px_NetworkID :: string
  px_ProxyIP :: string
  px_ControlAPIPort :: int
  px_Name :: string
  px_SessionID :: string
  px_TLSKeyPEM :: string
  px_TLSCertPEM :: string
  px_CACertPEM :: string
  px_ProjectDir :: string
  px_NoRestart :: bool
  px_SSHPort :: int
  px_ExtraHosts :: "string list"

definition proxy_spec :: "ProxyContainerConfig \<Rightarrow> container_spec" where
  "proxy_spec cfg =
     (let portStr = show_int (px_ControlAPIPort cfg); containerPort = portStr @ ''/tcp'' in
      \<lparr>sp_Image = ProxyImage, sp_Cmd = [ProxyBinaryPath, ''proxy'', ''--config'', ProxyConfigPath], sp_Entrypoint = [],
       sp_Env = (if px_TLSKeyPEM cfg \<noteq> [] then
                   [''VIBEPIT_PROXY_TLS_KEY='' @ px_TLSKeyPEM cfg, ''VIBEPIT_PROXY_TLS_CERT='' @ px_TLSCertPEM cfg,
                    ''VIBEPIT_PROXY_CA_CERT='' @ px_CACertPEM cfg] else []),
       sp_Labels = [(LabelVibepit, ''true''), (LabelRole, RoleProxy), (LabelProjectDir, px_ProjectDir cfg), (LabelControlPort, portStr)]
                   @ (if px_SessionID cfg \<noteq> [] then [(LabelSessionID, px_SessionID cfg)] else []),
       sp_Hostname = [], sp_Tty = False, sp_OpenStdin = False, sp_WorkingDir = ''/'',
       sp_ExposedPorts = containerPort # (if px_SSHPort cfg > 0 then [SSHContainerPort] else []),
       sp_NetworkMode = ''bridge'',
       sp_Binds = [px_BinaryPath cfg @ '':'' @ ProxyBinaryPath @ '':ro'', px_ConfigPath cfg @ '':'' @ ProxyConfigPath @ '':ro''],
       sp_ExtraHosts = ''host-gateway:host-gateway'' # px_ExtraHosts cfg,
       sp_PortBindings = (containerPort, ''127.0.0.1'', portStr)
                         # (if px_SSHPort cfg > 0 then [(SSHContainerPort, ''127.0.0.1'', [])] else []),
       sp_RestartUnlessStopped = (\<not> px_NoRestart cfg), sp_DNS = [], sp_Init = False, sp_ReadonlyRootfs = False,
       sp_CapDrop = [], sp_SecurityOpt = [], sp_Tmpfs = [], sp_Endpoints = []\<rparr>)"

text \<open>
  A container that was created but could not be connected or started is not removed here. The error carries its
  identifier for the statements about it.
\<close>

definition StartProxyContainer :: "docker_api \<Rightarrow> ProxyContainerConfig \<Rightarrow> (string \<times> string) act" where
  "StartProxyContainer api cfg =
     act_bind (act_call ''create proxy container'' (da_ContainerCreate api (px_Name cfg))) (\<lambda>cid.
     act_bind (act_emit [ContainerMade cid (px_Name cfg) (proxy_spec cfg), Acquired (Container cid)]) (\<lambda>_.
     case da_NetworkConnect api (px_NetworkID cfg) cid of
       Some e \<Rightarrow> act_fail (ProxyNotStarted cid e)
     | None \<Rightarrow>
         act_bind (act_emit [NetworkJoined cid (px_NetworkID cfg) (px_ProxyIP cfg)]) (\<lambda>_.
         case da_ContainerStart api cid of
           Some e \<Rightarrow> act_fail (ProxyNotStarted cid e)
         | None \<Rightarrow> act_bind (act_emit [ContainerStarted cid]) (\<lambda>_. act_ret (cid, show_int (px_ControlAPIPort cfg))))))"

record SandboxContainerConfig =
  sb_Image :: string
  sb_ProjectDir :: string
  sb_WorkDir :: string
  sb_RuntimeDir :: string
  sb_HomeVolumeName :: string
  sb_LinuxbrewVolumeName :: string
  sb_NetworkID :: string
  sb_ProxyIP :: string
  sb_SandboxIP :: string
  sb_ProxyPort :: int
  sb_Name :: string
  sb_Term :: string
  sb_ColorTerm :: string
  sb_UID :: int
  sb_User :: string
  sb_SessionID :: string
  sb_Daemon :: bool
  sb_DaemonBinaryPath :: string
  sb_DaemonHostKeyPath :: string
  sb_DaemonHostPubPath :: string
  sb_DaemonAuthorizedKey :: string
  sb_DaemonEntrypoint :: "string list"

definition ProjectConfigDirName :: string where "ProjectConfigDirName = ''.vibepit''"

definition proxy_url :: "string \<Rightarrow> int \<Rightarrow> string" where
  "proxy_url ip port = ''http://'' @ JoinHostPort ip (show_int port)"

definition MavenSettings :: "string \<Rightarrow> int \<Rightarrow> string" where
  "MavenSettings host port = concat (map (\<lambda>l. l @ [newline])
     [''<settings>'', ''  <proxies>'', ''    <proxy>'', ''      <id>vibepit-proxy</id>'', ''      <active>true</active>'',
      ''      <protocol>https</protocol>'', ''      <host>'' @ host @ ''</host>'', ''      <port>'' @ show_int port @ ''</port>'',
      ''    </proxy>'', ''  </proxies>'', ''</settings>''])"

definition sandbox_env :: "SandboxContainerConfig \<Rightarrow> string list" where
  "sandbox_env cfg =
     (let proxyURL = proxy_url (sb_ProxyIP cfg) (sb_ProxyPort cfg); port = show_int (sb_ProxyPort cfg); ip = sb_ProxyIP cfg in
      [''TERM='' @ sb_Term cfg, ''LANG=en_US.UTF-8'', ''LC_ALL=en_US.UTF-8'', ''VIBEPIT_PROJECT_DIR='' @ sb_ProjectDir cfg,
       ''HTTP_PROXY='' @ proxyURL, ''HTTPS_PROXY='' @ proxyURL, ''http_proxy='' @ proxyURL, ''https_proxy='' @ proxyURL,
       ''grpc_proxy='' @ proxyURL, ''NODE_USE_ENV_PROXY=1'', ''NO_PROXY=localhost,127.0.0.1'', ''no_proxy=localhost,127.0.0.1'',
       ''JAVA_TOOL_OPTIONS=-Dhttps.proxyHost='' @ ip @ '' -Dhttps.proxyPort='' @ port @ '' -Dhttp.proxyHost='' @ ip @ '' -Dhttp.proxyPort='' @ port]
      @ (if sb_ColorTerm cfg \<noteq> [] then [''COLORTERM='' @ sb_ColorTerm cfg] else [])
      @ [''MAVEN_ARGS=--global-settings=/etc/vibepit/maven-settings.xml'']
      @ (if sb_Daemon cfg then [SSHPubKeyEnv @ ''='' @ sb_DaemonAuthorizedKey cfg] else []))"

definition maven_path :: "SandboxContainerConfig \<Rightarrow> string" where
  "maven_path cfg = path_join (path_join (sb_RuntimeDir cfg) ''maven'') ''settings.xml''"

definition sandbox_binds :: "bool \<Rightarrow> SandboxContainerConfig \<Rightarrow> string list" where
  "sandbox_binds localtime cfg =
     [sb_HomeVolumeName cfg @ '':'' @ HomeMountPath, sb_LinuxbrewVolumeName cfg @ '':'' @ LinuxbrewMountPath,
      sb_ProjectDir cfg @ '':'' @ sb_ProjectDir cfg,
      path_join (sb_RuntimeDir cfg) ProjectConfigDirName @ '':'' @ path_join (sb_ProjectDir cfg) ProjectConfigDirName @ '':ro'',
      maven_path cfg @ '':/etc/vibepit/maven-settings.xml:ro'']
     @ (if localtime then [''/etc/localtime:/etc/localtime:ro''] else [])
     @ (if sb_Daemon cfg then
          [sb_DaemonBinaryPath cfg @ '':'' @ SandboxBinaryPath @ '':ro'', sb_DaemonHostKeyPath cfg @ '':'' @ SSHHostKeyPath @ '':ro'',
           sb_DaemonHostPubPath cfg @ '':'' @ SSHHostPubPath @ '':ro''] else [])"

definition sandbox_spec :: "bool \<Rightarrow> SandboxContainerConfig \<Rightarrow> container_spec" where
  "sandbox_spec localtime cfg =
     \<lparr>sp_Image = sb_Image cfg, sp_Cmd = [], sp_Entrypoint = (if sb_Daemon cfg then sb_DaemonEntrypoint cfg else []),
      sp_Env = sandbox_env cfg,
      sp_Labels = [(LabelVibepit, ''true''), (LabelRole, RoleSandbox), (LabelUID, show_int (sb_UID cfg)), (LabelUser, sb_User cfg),
                   (LabelVolumeHome, sb_HomeVolumeName cfg), (LabelVolumeLinuxbrew, sb_LinuxbrewVolumeName cfg),
                   (LabelProjectDir, sb_ProjectDir cfg), (LabelSessionID, sb_SessionID cfg)],
      sp_Hostname = ContainerHostname, sp_Tty = (\<not> sb_Daemon cfg), sp_OpenStdin = (\<not> sb_Daemon cfg), sp_WorkingDir = sb_WorkDir cfg,
      sp_ExposedPorts = [], sp_NetworkMode = [], sp_Binds = sandbox_binds localtime cfg, sp_ExtraHosts = [], sp_PortBindings = [],
      sp_RestartUnlessStopped = False, sp_DNS = [sb_ProxyIP cfg], sp_Init = True, sp_ReadonlyRootfs = True, sp_CapDrop = [''ALL''],
      sp_SecurityOpt = [''no-new-privileges''], sp_Tmpfs = [(''/tmp'', ''exec'')], sp_Endpoints = [(sb_NetworkID cfg, sb_SandboxIP cfg)]\<rparr>"

definition CreateSandboxContainer :: "docker_api \<Rightarrow> SandboxContainerConfig \<Rightarrow> string act" where
  "CreateSandboxContainer api cfg =
     act_bind (act_check ''create fake config dir'' (da_mkdir api (path_join (sb_ProjectDir cfg) ProjectConfigDirName))) (\<lambda>_.
     act_bind (act_check ''create maven config dir'' (da_mkdir api (path_join (sb_RuntimeDir cfg) ''maven''))) (\<lambda>_.
     act_bind (act_check ''write maven settings'' (da_write api (maven_path cfg))) (\<lambda>_.
     act_bind (act_emit [FileWritten (maven_path cfg) (MavenSettings (sb_ProxyIP cfg) (sb_ProxyPort cfg))]) (\<lambda>_.
     act_bind (act_call ''create sandbox container'' (da_ContainerCreate api (sb_Name cfg))) (\<lambda>cid.
     act_bind (act_emit [ContainerMade cid (sb_Name cfg) (sandbox_spec (da_localtime api) cfg), Acquired (Container cid)]) (\<lambda>_.
       act_ret cid))))))"

definition StartContainer :: "docker_api \<Rightarrow> string \<Rightarrow> unit act" where
  "StartContainer api cid = act_bind (act_check ''start container'' (da_ContainerStart api cid)) (\<lambda>_. act_emit [ContainerStarted cid])"

text \<open>The error of the stop is ignored.\<close>

definition StopAndRemove :: "docker_api \<Rightarrow> string \<Rightarrow> unit act" where
  "StopAndRemove api cid =
     act_bind (act_emit [ContainerStopped cid]) (\<lambda>_.
     act_bind (act_check ''remove container'' (da_ContainerRemove api cid)) (\<lambda>_. act_emit [Released (Container cid)]))"

section \<open>Queries\<close>

record RunningSession =
  rn_ContainerID :: string
  rn_SessionID :: string
  rn_ProjectDir :: string

definition FindRunningSession :: "docker_api \<Rightarrow> string \<Rightarrow> RunningSession option act" where
  "FindRunningSession api projectDir =
     act_bind (act_call ''list'' (da_ContainerList api False [(LabelProjectDir, Some projectDir), (LabelRole, Some RoleSandbox)])) (\<lambda>cs.
       case cs of
         [] \<Rightarrow> act_ret None
       | c # _ \<Rightarrow> act_ret (Some \<lparr>rn_ContainerID = cn_ID c, rn_SessionID = label (cn_Labels c) LabelSessionID, rn_ProjectDir = projectDir\<rparr>))"

definition FindAnySessionContainer :: "docker_api \<Rightarrow> string \<Rightarrow> string act" where
  "FindAnySessionContainer api projectDir =
     act_bind (act_call ''list'' (da_ContainerList api True [(LabelProjectDir, Some projectDir), (LabelSessionID, None)])) (\<lambda>cs.
       case cs of [] \<Rightarrow> act_ret [] | c # _ \<Rightarrow> act_ret (label (cn_Labels c) LabelSessionID))"

record SessionContainer =
  sn_ID :: string
  sn_Name :: string
  sn_Role :: string

definition SessionContainers :: "docker_api \<Rightarrow> string \<Rightarrow> SessionContainer list act" where
  "SessionContainers api sessionID =
     act_bind (act_call ''list'' (da_ContainerList api True [(LabelSessionID, Some sessionID)])) (\<lambda>cs.
       act_ret (map (\<lambda>c. \<lparr>sn_ID = cn_ID c, sn_Name = (case cn_Names c of [] \<Rightarrow> [] | n # _ \<Rightarrow> trim_prefix ''/'' n),
                          sn_Role = label (cn_Labels c) LabelRole\<rparr>) cs))"

definition FindProxyContainerID :: "docker_api \<Rightarrow> string \<Rightarrow> string act" where
  "FindProxyContainerID api sessionID =
     act_bind (act_call ''list'' (da_ContainerList api True [(LabelSessionID, Some sessionID), (LabelRole, Some RoleProxy)])) (\<lambda>cs.
       case cs of [] \<Rightarrow> act_fail (StepFailed ''no proxy container found for session'' sessionID) | c # _ \<Rightarrow> act_ret (cn_ID c))"

definition SessionIDFromContainer :: "docker_api \<Rightarrow> string \<Rightarrow> string act" where
  "SessionIDFromContainer api cid =
     act_bind (act_call ''inspect'' (da_ContainerInspect api cid)) (\<lambda>info.
       case map_of (cd_Labels info) LabelSessionID of
         None \<Rightarrow> act_fail (StepFailed ''container has no session ID label'' [])
       | Some sid \<Rightarrow> act_ret sid)"

text \<open>\<open>cd_IPs\<close> are the addresses of the container in the order in which the map of its networks is traversed.\<close>

definition FindProxyIP :: "docker_api \<Rightarrow> string act" where
  "FindProxyIP api =
     act_bind (act_call ''list'' (da_ContainerList api False [(LabelVibepit, Some ''true''), (LabelRole, Some RoleProxy)])) (\<lambda>cs.
       case cs of
         [] \<Rightarrow> act_fail (StepFailed ''no running vibepit proxy container found'' [])
       | c # _ \<Rightarrow>
           act_bind (act_call ''inspect'' (da_ContainerInspect api (cn_ID c))) (\<lambda>info.
             case find (\<lambda>ip. ip \<noteq> []) (cd_IPs info) of
               None \<Rightarrow> act_fail (StepFailed ''proxy container has no IP address'' [])
             | Some ip \<Rightarrow> act_ret ip))"

text \<open>\<^verbatim>\<open>fmt.Sscanf(s, "%d", &port)\<close>: leading white space, a sign and the digits that follow.\<close>

definition sscanf_d :: "string \<Rightarrow> int option" where
  "sscanf_d s =
     (let t = dropWhile (\<lambda>c. is_space c \<and> c \<noteq> newline) s;
          (sign, ds) = (case t of c # cs \<Rightarrow> if c = CHR ''-'' then (''-'', cs) else if c = CHR ''+'' then ([], cs) else ([], t) | [] \<Rightarrow> ([], []))
      in parse_int 64 (sign @ takeWhile is_digit ds))"

definition publishedPort :: "container_details \<Rightarrow> string \<Rightarrow> int act" where
  "publishedPort info containerPort =
     (case map_of (cd_Ports info) containerPort of
        None \<Rightarrow> act_fail (StepFailed ''port not published'' containerPort)
      | Some [] \<Rightarrow> act_fail (StepFailed ''port not published'' containerPort)
      | Some (hp # _) \<Rightarrow> (case sscanf_d hp of None \<Rightarrow> act_fail (StepFailed ''parse host port'' hp) | Some p \<Rightarrow> act_ret p))"

definition FindPublishedPort :: "docker_api \<Rightarrow> string \<Rightarrow> string \<Rightarrow> int act" where
  "FindPublishedPort api cid containerPort =
     act_bind (act_call ''inspect container'' (da_ContainerInspect api cid)) (\<lambda>info. publishedPort info containerPort)"

definition FindControlPort :: "docker_api \<Rightarrow> string \<Rightarrow> int act" where
  "FindControlPort api cid =
     act_bind (act_call ''inspect container'' (da_ContainerInspect api cid)) (\<lambda>info.
       let portStr = label (cd_Labels info) LabelControlPort in
       if portStr = [] then act_fail (StepFailed ''control port not found'' []) else publishedPort info (portStr @ ''/tcp''))"

record ProxySession =
  ps_ContainerID :: string
  ps_SessionID :: string
  ps_ControlPort :: string
  ps_ProjectDir :: string
  ps_StartedAt :: int

text \<open>The start of a session is in nanoseconds, as \<^verbatim>\<open>time.Unix(ctr.Created, 0)\<close>.\<close>

definition ListProxySessions :: "docker_api \<Rightarrow> ProxySession list act" where
  "ListProxySessions api =
     act_bind (act_call ''list'' (da_ContainerList api False [(LabelVibepit, Some ''true''), (LabelRole, Some RoleProxy)])) (\<lambda>cs.
       act_ret (map (\<lambda>c.
         let controlPort = label (cn_Labels c) LabelControlPort in
         \<lparr>ps_ContainerID = cn_ID c, ps_SessionID = label (cn_Labels c) LabelSessionID,
          ps_ControlPort = (case FindPublishedPort api (cn_ID c) (controlPort @ ''/tcp'') of (Inr p, _) \<Rightarrow> show_int p | (Inl _, _) \<Rightarrow> controlPort),
          ps_ProjectDir = label (cn_Labels c) LabelProjectDir, ps_StartedAt = cn_Created c * 1000000000\<rparr>) cs))"

definition ContainerStatus :: "docker_api \<Rightarrow> string \<Rightarrow> string" where
  "ContainerStatus api cid =
     (case da_ContainerInspect api cid of
        Inl _ \<Rightarrow> ''unknown''
      | Inr info \<Rightarrow>
          (case cd_State info of (status, code) \<Rightarrow>
             if code \<noteq> 0 then status @ '' (exit '' @ show_int code @ '')'' else status))"

section \<open>The addresses of a session network\<close>

lemma byte_sum:
  fixes a b c d :: int
  assumes "0 \<le> a" "a < 256" "0 \<le> b" "b < 256" "0 \<le> c" "c < 256" "0 \<le> d" "d < 256"
  shows "0 \<le> ((a * 256 + b) * 256 + c) * 256 + d" "((a * 256 + b) * 256 + c) * 256 + d < 4294967296"
    "(((a * 256 + b) * 256 + c) * 256 + d) div 16777216 mod 256 = a"
    "(((a * 256 + b) * 256 + c) * 256 + d) div 65536 mod 256 = b"
    "(((a * 256 + b) * 256 + c) * 256 + d) div 256 mod 256 = c"
    "(((a * 256 + b) * 256 + c) * 256 + d) mod 256 = d"
proof -
  let ?n = "((a * 256 + b) * 256 + c) * 256 + d"
  show "0 \<le> ?n" using assms by simp
  have step: "x * 256 + y < m * 256" if "x < m" "y < 256" for x y m :: int using that by linarith
  have "?n < 256 * 256 * 256 * 256" by (intro step assms)
  then show "?n < 4294967296" by simp
  have 3: "?n div 256 = (a * 256 + b) * 256 + c" using assms by simp
  have 2: "((a * 256 + b) * 256 + c) div 256 = a * 256 + b" using assms by simp
  have 1: "(a * 256 + b) div 256 = a" using assms by simp
  have "?n div 65536 = ?n div 256 div 256" "?n div 16777216 = ?n div 256 div 256 div 256"
    by (simp_all only: div_mult2_eq [symmetric] zdiv_zmult2_eq [symmetric]) simp_all
  then have e: "?n div 65536 = a * 256 + b" "?n div 16777216 = a" unfolding 3 2 1 .
  have md: "(x * 256 + y) mod 256 = y" if "0 \<le> y" "y < 256" for x y :: int using that by simp
  show "?n div 16777216 mod 256 = a" unfolding e using assms by simp
  show "?n div 65536 mod 256 = b" unfolding e by (rule md; fact)
  show "?n div 256 mod 256 = c" unfolding 3 by (rule md; fact)
  show "?n mod 256 = d" by (rule md; fact)
qed

lemma be_uint: "uint (be_uint32 [a, b, c, d]) = ((uint a * 256 + uint b) * 256 + uint c) * 256 + uint d"
proof -
  have u: "0 \<le> uint x" "uint x < 256" for x :: "8 word" using uint_lt2p [of x] by simp_all
  have w: "(ucast x :: 32 word) = of_int (uint x)" for x :: "8 word" by (simp add: word_uint_eq_iff unsigned_ucast_eq uint_word_of_int_eq)
  have p: "push_bit 8 n = n * 256" for n :: "32 word" by (simp add: push_bit_eq_mult)
  have eq: "be_uint32 [a, b, c, d] = of_int (((uint a * 256 + uint b) * 256 + uint c) * 256 + uint d)"
    by (simp only: be_uint32_def foldl.simps w p mult_zero_left add_0 of_int_add of_int_mult of_int_numeral)
  have i: "uint (of_int k :: 32 word) = k" if "0 \<le> k" "k < 4294967296" for k
    using that by (simp add: uint_word_of_int_eq take_bit_eq_mod)
  show ?thesis unfolding eq
    by (rule i [OF byte_sum(1) byte_sum(2)]) (rule u)+
qed

lemma uint_byte_of: "uint (ucast (drop_bit k w) :: 8 word) = uint w div 2 ^ k mod 256" for w :: "32 word"
proof -
  have "uint (drop_bit k w) = uint w div 2 ^ k"
    unfolding drop_bit_eq_div [symmetric] by transfer (simp add: drop_bit_take_bit)
  then show ?thesis by (simp only: unsigned_ucast_eq take_bit_eq_mod) simp
qed

lemma put_be: "put_uint32 (be_uint32 [a, b, c, d]) = [a, b, c, d]"
proof -
  have u: "0 \<le> uint x" "uint x < 256" for x :: "8 word" using uint_lt2p [of x] by simp_all
  note s = byte_sum [OF u u u u, of a b c d]
  have p: "(2 :: int) ^ 24 = 16777216" "(2 :: int) ^ 16 = 65536" "(2 :: int) ^ 8 = 256" "n div (2 :: int) ^ 0 = n" for n :: int by simp_all
  let ?w = "be_uint32 [a, b, c, d]"
  have "(ucast (drop_bit 24 ?w) :: 8 word) = a" unfolding word_uint_eq_iff uint_byte_of be_uint p(1) by (rule s(3))
  moreover have "(ucast (drop_bit 16 ?w) :: 8 word) = b" unfolding word_uint_eq_iff uint_byte_of be_uint p(2) by (rule s(4))
  moreover have "(ucast (drop_bit 8 ?w) :: 8 word) = c" unfolding word_uint_eq_iff uint_byte_of be_uint p(3) by (rule s(5))
  moreover have "(ucast (drop_bit 0 ?w) :: 8 word) = d" unfolding word_uint_eq_iff uint_byte_of be_uint p(4) by (rule s(6))
  ultimately show ?thesis by (simp add: put_uint32_def)
qed

lemma be_Suc: "be_uint32 [a, b, c, 1] + 1 = be_uint32 [a, b, c, 2]" "be_uint32 [a, b, c, 2] + 1 = be_uint32 [a, b, c, 3]"
  by (simp_all add: be_uint32_def)

lemma network_addresses:
  "nextIP (snd (randomSubnet b)) = Some [10, fst b, snd b, 2]" "nextIP [10, fst b, snd b, 2] = Some [10, fst b, snd b, 3]"
  by (simp_all add: nextIP_def To4_def randomSubnet_def v4InV6Prefix_def be_Suc put_be)

end
