(* ===== verification/Sandbox_Start.thy ===== *)
theory Sandbox_Start
  imports Container Config_Setup
begin

text \<open>
  Starting and stopping a session, \<^verbatim>\<open>cmd/bootstrap.go\<close>, \<^verbatim>\<open>cmd/up.go\<close>, \<^verbatim>\<open>cmd/run.go\<close>, \<^verbatim>\<open>cmd/down.go\<close> and the credentials
  of \<^verbatim>\<open>cmd/session.go\<close>: configuration, volumes, images and their verification, the network, ports, the configuration file of the
  proxy, the credentials, the proxy container and the sandbox container, and the cleanups of a start that fails.

  A cleanup function of the code is the resource that it gives back. What the process learns from outside is the
  record \<open>host_env\<close>.
\<close>

section \<open>Model\<close>

record mtls_credentials =
  ml_ServerKeyPEM :: string
  ml_ServerCertPEM :: string
  ml_CACertPEM :: string
  ml_ClientKeyPEM :: string
  ml_ClientCertPEM :: string

record os_user =
  ou_Uid :: string
  ou_Gid :: string
  ou_Username :: string
  ou_HomeDir :: string

record userInfo =
  us_Username :: string
  us_HomeDir :: string
  us_UID :: int
  us_Image :: string

record sandbox_flags =
  sf_local :: bool
  sf_allow :: "string list"
  sf_preset :: "string list"
  sf_reconfigure :: bool

datatype path_stat = Exists | NotExist | StatError

record host_env =
  he_arg :: string
  he_cwd :: "string + string"
  he_abs :: "string \<Rightarrow> string + string"
  he_git :: "string \<Rightarrow> string option"
  he_stat :: "string option"
  he_user :: "string + os_user"
  he_presets :: "Preset list"
  he_global :: "GlobalConfig config_file"
  he_project :: "string option"
  he_decode :: "string \<Rightarrow> string + ProjectConfig"
  he_io :: project_io
  he_selector :: "string list \<Rightarrow> string list \<Rightarrow> string + string list"
  he_detected :: "string list"
  he_daemon :: daemon_env
  he_api :: docker_api
  he_images :: image_env
  he_cache :: "string option"
  he_self :: "string + string"
  he_eval :: "string \<Rightarrow> string + string"
  he_darwin :: bool
  he_embedded :: "string + string"
  he_xid :: string
  he_random :: "string + byte \<times> byte"
  he_draw :: "nat \<Rightarrow> string + byte \<times> byte"
  he_draw2 :: "nat \<Rightarrow> string + byte \<times> byte"
  he_marshal :: "string option"
  he_temp :: "string + string"
  he_tempwrite :: "string option"
  he_tempclose :: "string option"
  he_temprm :: "string option"
  he_mtls :: "string + mtls_credentials"
  he_state_home :: string
  he_runtime_dir :: string
  he_path :: "string \<Rightarrow> path_stat"
  he_mkdir :: "string option"
  he_credwrite :: "string \<Rightarrow> string option"
  he_credrm :: "string option"
  he_order :: "(string \<times> string) list \<Rightarrow> (string \<times> string) list"
  he_keys :: "(string + string \<times> string) \<times> (string + string \<times> string)"
  he_term :: string
  he_colorterm :: string
  he_status :: "string list"
  he_polls :: "(bool \<times> string) list"

text \<open>
  \<open>he_git\<close> is the output of \<^verbatim>\<open>git rev-parse --show-toplevel\<close> when it succeeds; \<open>he_order\<close> is the order in which a Go map of files
  is traversed; \<open>he_status\<close> and \<open>he_polls\<close> are the later answers of the daemon: the state of the
  sandbox shortly after its start, and for every turn of the waiting loop whether the SSH banner was read and the state after it.
\<close>

definition imageRevision :: string where "imageRevision = ''r2''"
definition homeVolumeName :: string where "homeVolumeName = ''vibepit-home''"
definition linuxbrewVolumeName :: string where "linuxbrewVolumeName = ''vibepit-linuxbrew''"
definition networkNamePrefix :: string where "networkNamePrefix = ''vibepit-net-''"
definition localImage :: string where "localImage = ''vibepit:latest''"

definition FindProjectRoot :: "host_env \<Rightarrow> string \<Rightarrow> string act" where
  "FindProjectRoot h path =
     act_bind (act_call ''abs'' (he_abs h path)) (\<lambda>abspath.
       case he_git h abspath of
         Some out \<Rightarrow> if trim_space out \<noteq> [] then act_ret (trim_space out) else act_ret abspath
       | None \<Rightarrow> act_ret abspath)"

definition resolveProjectRoot :: "host_env \<Rightarrow> string act" where
  "resolveProjectRoot h =
     act_bind (if he_arg h = [] then act_call ''getwd'' (he_cwd h) else act_ret (he_arg h)) (\<lambda>path.
     act_bind (act_call ''abs'' (he_abs h path)) (\<lambda>projectRoot. FindProjectRoot h projectRoot))"

definition imageName :: "string \<Rightarrow> string \<Rightarrow> string" where
  "imageName uid gid = ''ghcr.io/bernd/vibepit:'' @ imageRevision @ ''-uid-'' @ uid @ ''-gid-'' @ gid"

definition currentUserInfo :: "host_env \<Rightarrow> userInfo act" where
  "currentUserInfo h =
     act_bind (act_call ''cannot determine current user'' (he_user h)) (\<lambda>u.
       act_ret \<lparr>us_Username = ou_Username u, us_HomeDir = ou_HomeDir u, us_UID = parse_int64_value (ou_Uid u),
                us_Image = imageName (ou_Uid u) (ou_Gid u)\<rparr>)"

definition containerTerm :: "string \<Rightarrow> string" where
  "containerTerm t = (if t = [] then ''linux'' else if t = ''xterm-ghostty'' then ''xterm-256color'' else t)"

definition resolveProjectAndUser :: "host_env \<Rightarrow> sandbox_flags \<Rightarrow> (string \<times> userInfo) act" where
  "resolveProjectAndUser h fl =
     act_bind (resolveProjectRoot h) (\<lambda>projectRoot.
     act_bind (act_check ''project folder'' (he_stat h)) (\<lambda>_.
     act_bind (currentUserInfo h) (\<lambda>u.
       if projectRoot = us_HomeDir u then act_fail HomeDirectory
       else act_ret (projectRoot, if sf_local fl then u\<lparr>us_Image := localImage\<rparr> else u))))"

text \<open>Loading the configuration, with the interactive setup when it is asked for or no project file exists.\<close>

definition load_config :: "host_env \<Rightarrow> string option \<Rightarrow> Config act" where
  "load_config h f =
     (case loadFile (he_global h) zero_GlobalConfig of
        Inl e \<Rightarrow> act_fail (StepFailed ''config'' e)
      | Inr g \<Rightarrow>
          (case load_project (he_decode h) f of
             Inl e \<Rightarrow> act_fail (StepFailed ''config'' e)
           | Inr p \<Rightarrow> act_ret \<lparr>cf_Global = g, cf_Project = p\<rparr>))"

definition setup_config :: "host_env \<Rightarrow> sandbox_flags \<Rightarrow> Config act" where
  "setup_config h fl =
     act_bind (load_config h (he_project h)) (\<lambda>cfg.
       if sf_reconfigure fl then
         (case RunReconfigure (he_io h) (he_decode h) (he_selector h) (he_detected h) (he_project h) of
            (Inl _, f) \<Rightarrow> act_bind (act_emit [ProjectFileChanged f]) (\<lambda>_. act_fail (StepFailed ''reconfigure'' []))
          | (Inr _, f) \<Rightarrow> act_bind (act_emit [ProjectFileChanged f]) (\<lambda>_. load_config h f))
       else if he_project h = None then
         (case RunFirstTimeSetup (he_io h) (he_selector h) (he_detected h) (he_project h) of
            (Inl _, f) \<Rightarrow> act_bind (act_emit [ProjectFileChanged f]) (\<lambda>_. act_fail (StepFailed ''setup'' []))
          | (Inr _, f) \<Rightarrow> act_bind (act_emit [ProjectFileChanged f]) (\<lambda>_. load_config h f))
       else act_ret cfg)"

definition merged_config :: "host_env \<Rightarrow> sandbox_flags \<Rightarrow> MergedConfig act" where
  "merged_config h fl =
     act_bind (setup_config h fl) (\<lambda>cfg.
       case Merge (he_presets h) cfg (sf_allow fl) (sf_preset fl) of
         Inl _ \<Rightarrow> act_fail (StepFailed ''config'' [])
       | Inr m \<Rightarrow> act_ret m)"

text \<open>The path of the binary that is mounted into the containers; an error of \<^verbatim>\<open>EvalSymlinks\<close> leaves it empty.\<close>

definition self_binary :: "host_env \<Rightarrow> string act" where
  "self_binary h =
     act_bind (act_call ''cannot find own binary'' (he_self h)) (\<lambda>exe.
       let selfBinary = (case he_eval h exe of Inl _ \<Rightarrow> [] | Inr p \<Rightarrow> p) in
       if he_darwin h then act_call ''macOS support'' (he_embedded h) else act_ret selfBinary)"

definition verify_step :: "string \<Rightarrow> string \<Rightarrow> string option \<times> string option \<Rightarrow> string option act" where
  "verify_step step ref r =
     (case r of
        (Some e, cache) \<Rightarrow> act_fail (StepFailed step e)
      | (None, cache) \<Rightarrow> act_bind (act_emit [ImageVerified ref, DigestCache cache]) (\<lambda>_. act_ret cache))"

definition prepare_images :: "host_env \<Rightarrow> sandbox_flags \<Rightarrow> userInfo \<Rightarrow> unit act" where
  "prepare_images h fl u =
     act_bind (EnsureImage (he_api h) (us_Image u) False) (\<lambda>_.
     act_bind (if sf_local fl then act_ret (he_cache h)
               else act_bind (ImageRepoDigest (he_api h) (us_Image u)) (\<lambda>digestRef.
                      verify_step ''sandbox image verification'' digestRef (VerifyImage (he_images h) digestRef (he_cache h)))) (\<lambda>cache.
     act_bind (EnsureImage (he_api h) ProxyImage False) (\<lambda>_.
     act_bind (ImageRepoDigest (he_api h) ProxyImage) (\<lambda>proxyDigestRef.
     act_bind (verify_step ''proxy image verification'' proxyDigestRef (VerifyProxyImage (he_images h) proxyDigestRef cache)) (\<lambda>_.
       act_ret ())))))"

definition choose_port :: "string \<Rightarrow> (nat \<Rightarrow> string + byte \<times> byte) \<Rightarrow> int list \<Rightarrow> int act" where
  "choose_port step draw excluded =
     (case RandomProxyPort draw excluded of Inl _ \<Rightarrow> act_fail (StepFailed step []) | Inr p \<Rightarrow> act_ret p)"

definition remove_temp :: "host_env \<Rightarrow> string \<Rightarrow> host_effect list" where
  "remove_temp h path = (if he_temprm h = None then [Released (TempFile path)] else [])"

text \<open>The proxy configuration is written to a temporary file, which is removed when that fails.\<close>

definition write_proxy_config :: "host_env \<Rightarrow> MergedConfig \<Rightarrow> string act" where
  "write_proxy_config h merged =
     act_bind (act_check ''marshal proxy config'' (he_marshal h)) (\<lambda>_.
     act_bind (act_call ''create temp file'' (he_temp h)) (\<lambda>path.
     act_bind (act_emit [Acquired (TempFile path)]) (\<lambda>_.
     case he_tempwrite h of
       Some e \<Rightarrow> act_bind (act_emit (remove_temp h path)) (\<lambda>_. act_fail (StepFailed ''write proxy config'' e))
     | None \<Rightarrow>
         act_bind (act_emit [ConfigWritten path merged]) (\<lambda>_.
         case he_tempclose h of
           Some e \<Rightarrow> act_bind (act_emit (remove_temp h path)) (\<lambda>_. act_fail (StepFailed ''close proxy config'' e))
         | None \<Rightarrow> act_ret path))))"

text \<open>
  \<^verbatim>\<open>WriteSessionCredentials\<close>: the directory of the session, then its files. The order of the files is that of a Go map,
  any order; a failed write leaves the directory.
\<close>

definition RuntimeDirName :: string where "RuntimeDirName = ''vibepit''"

definition sessionBaseDir :: "host_env \<Rightarrow> string" where
  "sessionBaseDir h = path_join (path_join (he_state_home h) RuntimeDirName) ''sessions''"

definition legacySessionBaseDir :: "host_env \<Rightarrow> string" where
  "legacySessionBaseDir h = path_join (he_runtime_dir h) RuntimeDirName"

definition sessionDir :: "host_env \<Rightarrow> string \<Rightarrow> string" where
  "sessionDir h sessionID =
     (let dir = path_join (sessionBaseDir h) sessionID; legacy = path_join (legacySessionBaseDir h) sessionID in
      if he_path h dir = NotExist \<and> he_path h legacy = Exists then legacy else dir)"

definition CleanupSessionCredentials :: "host_env \<Rightarrow> string \<Rightarrow> host_effect list" where
  "CleanupSessionCredentials h sessionID = (if he_credrm h = None then [Released (Credentials sessionID)] else [])"

fun write_files :: "(string \<Rightarrow> host_error) \<Rightarrow> (string \<Rightarrow> string option) \<Rightarrow> string \<Rightarrow> (string \<times> string) list \<Rightarrow> unit act" where
  "write_files mk err dir [] = act_ret ()"
| "write_files mk err dir ((name, data) # fs) =
     (case err name of
        Some e \<Rightarrow> act_fail (mk name)
      | None \<Rightarrow> act_bind (act_emit [FileWritten (path_join dir name) data]) (\<lambda>_. write_files mk err dir fs))"

definition ensureSessionDir :: "host_env \<Rightarrow> string \<Rightarrow> string act" where
  "ensureSessionDir h sessionID =
     act_bind (act_check ''create session dir'' (he_mkdir h)) (\<lambda>_. act_ret (sessionDir h sessionID))"

definition WriteSessionCredentials :: "host_env \<Rightarrow> string \<Rightarrow> mtls_credentials \<Rightarrow> string act" where
  "WriteSessionCredentials h sessionID creds =
     act_bind (ensureSessionDir h sessionID) (\<lambda>dir.
     act_bind (act_emit [Acquired (Credentials sessionID)]) (\<lambda>_.
     act_bind (write_files CredentialsNotWritten (he_credwrite h) dir (he_order h
        [(''ca.pem'', ml_CACertPEM creds), (''client-key.pem'', ml_ClientKeyPEM creds), (''client-cert.pem'', ml_ClientCertPEM creds)])) (\<lambda>_.
       act_ret dir)))"

record sessionInfra =
  in_SessionID :: string
  in_SessionDir :: string
  in_SelfBinary :: string
  in_UID :: int
  in_NetworkInfo :: NetworkInfo
  in_Merged :: MergedConfig
  in_ProxyContainerID :: string

text \<open>The steps of \<^verbatim>\<open>startSessionInfra\<close> from the creation of the network on.\<close>

definition start_network :: "host_env \<Rightarrow> bool \<Rightarrow> MergedConfig \<Rightarrow> (NetworkInfo \<times> MergedConfig) act" where
  "start_network h daemon merged =
     act_bind (CreateNetwork (he_api h) (he_random h) (networkNamePrefix @ he_xid h)) (\<lambda>netInfo.
     act_bind (act_defer (Network (ni_ID netInfo))) (\<lambda>_.
     act_bind (choose_port ''proxy port'' (he_draw h) (mc_AllowHostPorts merged)) (\<lambda>proxyPort.
     act_bind (choose_port ''control API port'' (he_draw2 h) (mc_AllowHostPorts merged @ [proxyPort])) (\<lambda>controlAPIPort.
       act_ret (netInfo, merged\<lparr>mc_ProxyIP := ni_ProxyIP netInfo, mc_HostGateway := ''host-gateway'',
         mc_ProxyPort := proxyPort, mc_ControlAPIPort := controlAPIPort,
         mc_SSHForwardAddr := (if daemon then ni_SandboxIP netInfo @ '':2222'' else mc_SSHForwardAddr merged)\<rparr>)))))"

definition proxy_container_config ::
  "host_env \<Rightarrow> bool \<Rightarrow> string \<Rightarrow> string \<Rightarrow> string \<Rightarrow> NetworkInfo \<Rightarrow> MergedConfig \<Rightarrow> mtls_credentials \<Rightarrow> ProxyContainerConfig" where
  "proxy_container_config h daemon projectRoot selfBinary path netInfo merged creds =
     \<lparr>px_BinaryPath = selfBinary, px_ConfigPath = path, px_NetworkID = ni_ID netInfo, px_ProxyIP = ni_ProxyIP netInfo,
      px_ControlAPIPort = mc_ControlAPIPort merged, px_Name = ''vibepit-proxy-'' @ he_xid h, px_SessionID = he_xid h,
      px_TLSKeyPEM = ml_ServerKeyPEM creds, px_TLSCertPEM = ml_ServerCertPEM creds, px_CACertPEM = ml_CACertPEM creds,
      px_ProjectDir = projectRoot, px_NoRestart = daemon, px_SSHPort = (if daemon then 2222 else 0), px_ExtraHosts = mc_ExtraHosts merged\<rparr>"

definition start_proxy ::
  "host_env \<Rightarrow> bool \<Rightarrow> string \<Rightarrow> string \<Rightarrow> NetworkInfo \<Rightarrow> MergedConfig \<Rightarrow> (string \<times> string) act" where
  "start_proxy h daemon projectRoot selfBinary netInfo merged =
     act_bind (write_proxy_config h merged) (\<lambda>path.
     act_bind (act_defer (TempFile path)) (\<lambda>_.
     act_bind (act_call ''generating mTLS credentials'' (he_mtls h)) (\<lambda>creds.
     act_bind (WriteSessionCredentials h (he_xid h) creds) (\<lambda>sessDir.
     act_bind (act_defer (Credentials (he_xid h))) (\<lambda>_.
     act_bind (StartProxyContainer (he_api h) (proxy_container_config h daemon projectRoot selfBinary path netInfo merged creds)) (\<lambda>(cid, _).
     act_bind (act_defer (Container cid)) (\<lambda>_.
       act_ret (sessDir, cid))))))))"

definition startSessionInfra :: "host_env \<Rightarrow> sandbox_flags \<Rightarrow> bool \<Rightarrow> string \<Rightarrow> userInfo \<Rightarrow> sessionInfra act" where
  "startSessionInfra h fl daemon projectRoot u =
     act_bind (merged_config h fl) (\<lambda>merged.
     act_bind (EnsureVolume (he_api h) homeVolumeName (us_UID u) (us_Username u)) (\<lambda>_.
     act_bind (EnsureVolume (he_api h) linuxbrewVolumeName (us_UID u) (us_Username u)) (\<lambda>_.
     act_bind (self_binary h) (\<lambda>selfBinary.
     act_bind (prepare_images h fl u) (\<lambda>_.
     act_bind (start_network h daemon merged) (\<lambda>(netInfo, merged).
     act_bind (start_proxy h daemon projectRoot selfBinary netInfo merged) (\<lambda>(sessDir, cid).
       act_ret \<lparr>in_SessionID = he_xid h, in_SessionDir = sessDir, in_SelfBinary = selfBinary, in_UID = us_UID u,
                in_NetworkInfo = netInfo, in_Merged = merged, in_ProxyContainerID = cid\<rparr>)))))))"

definition baseSandboxConfig :: "host_env \<Rightarrow> sessionInfra \<Rightarrow> string \<Rightarrow> userInfo \<Rightarrow> SandboxContainerConfig" where
  "baseSandboxConfig h infra projectRoot u =
     \<lparr>sb_Image = us_Image u, sb_ProjectDir = projectRoot, sb_WorkDir = projectRoot, sb_RuntimeDir = in_SessionDir infra,
      sb_HomeVolumeName = homeVolumeName, sb_LinuxbrewVolumeName = linuxbrewVolumeName, sb_NetworkID = ni_ID (in_NetworkInfo infra),
      sb_ProxyIP = ni_ProxyIP (in_NetworkInfo infra), sb_SandboxIP = [], sb_ProxyPort = mc_ProxyPort (in_Merged infra),
      sb_Name = ''vibepit-sandbox-'' @ in_SessionID infra, sb_Term = containerTerm (he_term h), sb_ColorTerm = he_colorterm h,
      sb_UID = in_UID infra, sb_User = us_Username u, sb_SessionID = in_SessionID infra, sb_Daemon = False,
      sb_DaemonBinaryPath = [], sb_DaemonHostKeyPath = [], sb_DaemonHostPubPath = [], sb_DaemonAuthorizedKey = [], sb_DaemonEntrypoint = []\<rparr>"

text \<open>A cleanup: its error is printed or ignored, the next one runs in any case.\<close>

definition cleanup :: "host_env \<Rightarrow> resource \<Rightarrow> host_effect list" where
  "cleanup h r =
     (case r of
        Network nid \<Rightarrow> fst (snd (RemoveNetwork (he_api h) nid))
      | TempFile path \<Rightarrow> remove_temp h path
      | Credentials sid \<Rightarrow> CleanupSessionCredentials h sid
      | Container cid \<Rightarrow> fst (snd (StopAndRemove (he_api h) cid)))"

definition runCleanups :: "host_env \<Rightarrow> resource list \<Rightarrow> host_effect list" where
  "runCleanups h rs = concat (map (cleanup h) (rev rs))"

section \<open>The commands\<close>

definition SSHClientPrivFile :: string where "SSHClientPrivFile = ''ssh-key''"
definition SSHClientPubFile :: string where "SSHClientPubFile = ''ssh-key.pub''"
definition SSHHostPrivFile :: string where "SSHHostPrivFile = ''host-key''"
definition SSHHostPubFile :: string where "SSHHostPubFile = ''host-key.pub''"

definition WriteSSHCredentials :: "host_env \<Rightarrow> string \<Rightarrow> string \<times> string \<Rightarrow> string \<times> string \<Rightarrow> unit act" where
  "WriteSSHCredentials h sessionID client host =
     act_bind (ensureSessionDir h sessionID) (\<lambda>dir.
       write_files (StepFailed ''write SSH credentials'') (he_credwrite h) dir (he_order h
         [(SSHClientPrivFile, fst client), (SSHClientPubFile, snd client), (SSHHostPrivFile, fst host), (SSHHostPubFile, snd host)]))"

text \<open>The loop that waits for the SSH banner, until the deadline.\<close>

fun wait_ready :: "(bool \<times> string) list \<Rightarrow> unit act" where
  "wait_ready [] = act_fail NotReady"
| "wait_ready ((ready, status) # ps) =
     (if ready then act_ret ()
      else if status \<noteq> ''running'' then act_fail (StepFailed ''sandbox container exited during startup'' status)
      else wait_ready ps)"

definition daemon_sandbox_config :: "host_env \<Rightarrow> sessionInfra \<Rightarrow> string \<Rightarrow> userInfo \<Rightarrow> string \<Rightarrow> SandboxContainerConfig" where
  "daemon_sandbox_config h infra projectRoot u clientPub =
     (baseSandboxConfig h infra projectRoot u)
       \<lparr>sb_SandboxIP := ni_SandboxIP (in_NetworkInfo infra), sb_Daemon := True, sb_DaemonBinaryPath := in_SelfBinary infra,
        sb_DaemonHostKeyPath := path_join (in_SessionDir infra) SSHHostPrivFile,
        sb_DaemonHostPubPath := path_join (in_SessionDir infra) SSHHostPubFile,
        sb_DaemonAuthorizedKey := clientPub, sb_DaemonEntrypoint := [''/vibed'']\<rparr>"

definition up_sandbox :: "host_env \<Rightarrow> string \<Rightarrow> userInfo \<Rightarrow> sessionInfra \<Rightarrow> unit act" where
  "up_sandbox h projectRoot u infra =
     act_bind (act_call ''generate client SSH keypair'' (fst (he_keys h))) (\<lambda>client.
     act_bind (act_call ''generate host SSH keypair'' (snd (he_keys h))) (\<lambda>host.
     act_bind (WriteSSHCredentials h (in_SessionID infra) client host) (\<lambda>_.
     act_bind (CreateSandboxContainer (he_api h) (daemon_sandbox_config h infra projectRoot u (snd client))) (\<lambda>cid.
     act_bind (act_defer (Container cid)) (\<lambda>_.
     act_bind (StartContainer (he_api h) cid) (\<lambda>_.
     act_bind (case he_status h of
                 s # _ \<Rightarrow> if s \<noteq> ''running'' then act_fail (StepFailed ''sandbox container exited immediately'' s) else act_ret ()
               | [] \<Rightarrow> act_fail (StepFailed ''sandbox container exited immediately'' ''unknown'')) (\<lambda>_.
     act_bind (FindPublishedPort (he_api h) (in_ProxyContainerID infra) SSHContainerPort) (\<lambda>sshPort.
       wait_ready (he_polls h)))))))))"

definition up_session :: "host_env \<Rightarrow> sandbox_flags \<Rightarrow> string \<Rightarrow> userInfo \<Rightarrow> unit act" where
  "up_session h fl projectRoot u = act_bind (startSessionInfra h fl True projectRoot u) (up_sandbox h projectRoot u)"

definition with_cleanups_on_error :: "host_env \<Rightarrow> 'a act \<Rightarrow> 'a act" where
  "with_cleanups_on_error h m =
     (case m of (Inr x, es, rs) \<Rightarrow> (Inr x, es, []) | (Inl e, es, rs) \<Rightarrow> (Inl e, es @ runCleanups h rs, []))"

definition with_cleanups :: "host_env \<Rightarrow> 'a act \<Rightarrow> 'a act" where
  "with_cleanups h m = (case m of (r, es, rs) \<Rightarrow> (r, es @ runCleanups h rs, []))"

text \<open>\<open>True\<close> when a new session was started, \<open>False\<close> when one was running.\<close>

definition UpAction :: "host_env \<Rightarrow> sandbox_flags \<Rightarrow> bool act" where
  "UpAction h fl =
     act_bind (resolveProjectAndUser h fl) (\<lambda>(projectRoot, u).
     act_bind (NewClient (he_daemon h)) (\<lambda>_.
     act_bind (FindRunningSession (he_api h) projectRoot) (\<lambda>existing.
       if existing \<noteq> None then act_ret False
       else act_bind (FindAnySessionContainer (he_api h) projectRoot) (\<lambda>orphanedSessionID.
         if orphanedSessionID \<noteq> [] then act_fail (SessionExists orphanedSessionID)
         else act_bind (with_cleanups_on_error h (up_session h fl projectRoot u)) (\<lambda>_. act_ret True)))))"

text \<open>The terminal session itself, and its exit code, are not part of the model.\<close>

definition run_session :: "host_env \<Rightarrow> sandbox_flags \<Rightarrow> string \<Rightarrow> userInfo \<Rightarrow> unit act" where
  "run_session h fl projectRoot u =
     act_bind (startSessionInfra h fl False projectRoot u) (\<lambda>infra.
     act_bind (CreateSandboxContainer (he_api h) (baseSandboxConfig h infra projectRoot u)) (\<lambda>cid.
     act_bind (act_defer (Container cid)) (\<lambda>_.
       StartContainer (he_api h) cid)))"

definition RunAction :: "host_env \<Rightarrow> sandbox_flags \<Rightarrow> bool act" where
  "RunAction h fl =
     act_bind (resolveProjectAndUser h fl) (\<lambda>(projectRoot, u).
     act_bind (NewClient (he_daemon h)) (\<lambda>_.
     act_bind (FindRunningSession (he_api h) projectRoot) (\<lambda>existing.
       if existing \<noteq> None then act_ret False
       else act_bind (with_cleanups h (run_session h fl projectRoot u)) (\<lambda>_. act_ret True))))"

text \<open>\<^verbatim>\<open>down\<close>: every container of the session, the network by its name, then the credentials unless a container is left.\<close>

fun stop_all :: "docker_api \<Rightarrow> SessionContainer list \<Rightarrow> bool \<times> host_effect list" where
  "stop_all api [] = (False, [])"
| "stop_all api (c # cs) =
     (case StopAndRemove api (sn_ID c) of
        (r, es, _) \<Rightarrow> (case stop_all api cs of (failed, es') \<Rightarrow> (isl r \<or> failed, es @ es')))"

definition down_session_id :: "host_env \<Rightarrow> string \<Rightarrow> string act" where
  "down_session_id h projectRoot =
     act_bind (FindRunningSession (he_api h) projectRoot) (\<lambda>session.
       case session of
         Some s \<Rightarrow> act_ret (rn_SessionID s)
       | None \<Rightarrow> act_bind (FindAnySessionContainer (he_api h) projectRoot) (\<lambda>sid.
           if sid = [] then act_fail (StepFailed ''no running session found'' projectRoot) else act_ret sid))"

definition DownAction :: "host_env \<Rightarrow> unit act" where
  "DownAction h =
     act_bind (NewClient (he_daemon h)) (\<lambda>_.
     act_bind (resolveProjectRoot h) (\<lambda>projectRoot.
     act_bind (down_session_id h projectRoot) (\<lambda>sessionID.
     act_bind (SessionContainers (he_api h) sessionID) (\<lambda>containers.
       case stop_all (he_api h) containers of
         (failed, es) \<Rightarrow>
           act_bind (act_emit (es @ fst (snd (RemoveNetwork (he_api h) (networkNamePrefix @ sessionID))))) (\<lambda>_.
             if failed then act_fail (StepFailed ''some containers could not be removed'' [])
             else act_emit (CleanupSessionCredentials h sessionID))))))"

section \<open>Lemmas on actions\<close>

lemma act_bind_Inr:
  "act_bind m f = (Inr y, es, rs) \<longleftrightarrow>
     (\<exists>x es1 rs1 es2 rs2. m = (Inr x, es1, rs1) \<and> f x = (Inr y, es2, rs2) \<and> es = es1 @ es2 \<and> rs = rs1 @ rs2)"
  by (auto simp: act_bind_def split: prod.splits sum.splits)

lemma act_bind_Inl:
  "act_bind m f = (Inl e, es, rs) \<longleftrightarrow>
     m = (Inl e, es, rs)
     \<or> (\<exists>x es1 rs1 es2 rs2. m = (Inr x, es1, rs1) \<and> f x = (Inl e, es2, rs2) \<and> es = es1 @ es2 \<and> rs = rs1 @ rs2)"
  by (auto simp: act_bind_def split: prod.splits sum.splits)

lemma act_simple [simp]:
  "act_ret x = (Inr y, es, rs) \<longleftrightarrow> y = x \<and> es = [] \<and> rs = []" "act_ret x \<noteq> (Inl e, es, rs)"
  "act_fail e' = (Inl e, es, rs) \<longleftrightarrow> e = e' \<and> es = [] \<and> rs = []" "act_fail e' \<noteq> (Inr y, es, rs)"
  "act_emit fs = (Inr u, es, rs) \<longleftrightarrow> es = fs \<and> rs = []" "act_emit fs \<noteq> (Inl e, es, rs)"
  "act_defer r = (Inr u, es, rs) \<longleftrightarrow> es = [] \<and> rs = [r]" "act_defer r \<noteq> (Inl e, es, rs)"
  by (auto simp: act_ret_def act_fail_def act_emit_def act_defer_def)

lemma act_call_simps [simp]:
  "act_call step r = (Inr y, es, rs) \<longleftrightarrow> r = Inr y \<and> es = [] \<and> rs = []"
  "act_call step r = (Inl e, es, rs) \<longleftrightarrow> (\<exists>s. r = Inl s \<and> e = StepFailed step s) \<and> es = [] \<and> rs = []"
  "act_check step c = (Inr u, es, rs) \<longleftrightarrow> c = None \<and> es = [] \<and> rs = []"
  "act_check step c = (Inl e, es, rs) \<longleftrightarrow> (\<exists>s. c = Some s \<and> e = StepFailed step s) \<and> es = [] \<and> rs = []"
  by (auto simp: act_call_def act_check_def split: sum.splits option.splits)

text \<open>The resources held after a list of effects.\<close>

fun held :: "resource set \<Rightarrow> host_effect list \<Rightarrow> resource set" where
  "held S [] = S"
| "held S (Acquired r # es) = held (insert r S) es"
| "held S (Released r # es) = held (S - {r}) es"
| "held S (_ # es) = held S es"

lemma held_append [simp]: "held S (es @ es') = held (held S es) es'"
  by (induction S es rule: held.induct) auto

text \<open>The effects that decide what can talk to what.\<close>

fun wires :: "host_effect \<Rightarrow> bool" where
  "wires (NetworkMade _ _ _ _ _) = True"
| "wires (ContainerMade _ _ _) = True"
| "wires (NetworkJoined _ _ _) = True"
| "wires _ = False"

definition wiring :: "host_effect list \<Rightarrow> host_effect list" where "wiring es = filter wires es"

lemma wiring_simps [simp]:
  "wiring [] = []" "wiring (e # es) = (if wires e then e # wiring es else wiring es)" "wiring (es @ es') = wiring es @ wiring es'"
  by (simp_all add: wiring_def)

text \<open>What a failed start leaves behind besides the resources it has handed over for cleanup.\<close>

definition leak :: "host_env \<Rightarrow> host_error \<Rightarrow> resource set" where
  "leak h e =
     (case e of
        ProxyNotStarted cid _ \<Rightarrow> {Container cid}
      | CredentialsNotWritten _ \<Rightarrow> {Credentials (he_xid h)}
      | _ \<Rightarrow> {})"

definition holds :: "host_env \<Rightarrow> resource set \<Rightarrow> 'a act \<Rightarrow> bool" where
  "holds h S m \<longleftrightarrow>
     (case m of (r, es, rs) \<Rightarrow> set rs \<inter> S = {} \<and> distinct rs
        \<and> (case r of
             Inr x \<Rightarrow> held S es = S \<union> set rs
           | Inl e \<Rightarrow> held S es = S \<union> set rs \<union> leak h e \<and> leak h e \<inter> (S \<union> set rs) = {}))"

lemma holds_bind:
  assumes m: "holds h S m" and f: "\<And>x es rs. m = (Inr x, es, rs) \<Longrightarrow> holds h (S \<union> set rs) (f x)"
  shows "holds h S (act_bind m f)"
proof -
  obtain r es rs where r: "m = (r, es, rs)" by (cases m) auto
  show ?thesis
  proof (cases r)
    case (Inl e)
    then show ?thesis using m r by (simp add: act_bind_def holds_def)
  next
    case (Inr x)
    obtain r' es' rs' where r': "f x = (r', es', rs')" by (cases "f x") auto
    have "holds h (S \<union> set rs) (f x)" using f r Inr by blast
    moreover have "held S es = S \<union> set rs" "set rs \<inter> S = {}" "distinct rs" using m r Inr by (simp_all add: holds_def)
    ultimately show ?thesis using r Inr r' by (cases r') (auto simp: act_bind_def holds_def)
  qed
qed

text \<open>An action that acquires one resource, which the caller then takes over.\<close>

definition acquires :: "host_env \<Rightarrow> resource set \<Rightarrow> 'a act \<Rightarrow> ('a \<Rightarrow> resource) \<Rightarrow> bool" where
  "acquires h S m res \<longleftrightarrow>
     (case m of (r, es, rs) \<Rightarrow> rs = []
        \<and> (case r of
             Inr x \<Rightarrow> held S es = insert (res x) S \<and> res x \<notin> S
           | Inl e \<Rightarrow> held S es = S \<union> leak h e \<and> leak h e \<inter> S = {}))"

lemma holds_acquire:
  assumes m: "acquires h S m res" and k: "\<And>x es rs. m = (Inr x, es, rs) \<Longrightarrow> holds h (insert (res x) S) (k x)"
  shows "holds h S (act_bind m (\<lambda>x. act_bind (act_defer (res x)) (\<lambda>_. k x)))"
proof -
  obtain r es rs where r: "m = (r, es, rs)" by (cases m) auto
  show ?thesis
  proof (cases r)
    case (Inl e)
    then show ?thesis using m r by (simp add: act_bind_def acquires_def holds_def)
  next
    case (Inr x)
    obtain r' es' rs' where r': "k x = (r', es', rs')" by (cases "k x") auto
    have "holds h (insert (res x) S) (k x)" using k r Inr by blast
    moreover have "held S es = insert (res x) S" "rs = []" "res x \<notin> S" using m r Inr by (simp_all add: acquires_def)
    ultimately show ?thesis using r Inr r' by (cases r') (auto simp: act_bind_def act_defer_def holds_def)
  qed
qed

text \<open>An action without effect on resources and wiring.\<close>

definition neutral :: "'a act \<Rightarrow> bool" where
  "neutral m \<longleftrightarrow> (case m of (r, es, rs) \<Rightarrow> rs = [] \<and> (\<forall>S. held S es = S) \<and> wiring es = [] \<and> (\<forall>e h. r = Inl e \<longrightarrow> leak h e = {}))"

lemma neutral_holds: "neutral m \<Longrightarrow> holds h S m"
  by (auto simp: neutral_def holds_def split: prod.splits sum.splits)

lemma neutral_bind:
  assumes "neutral m" and "\<And>x. neutral (f x)"
  shows "neutral (act_bind m f)"
proof -
  obtain r es rs where r: "m = (r, es, rs)" by (cases m) auto
  show ?thesis
  proof (cases r)
    case (Inr x)
    with assms(2) [of x] assms(1) r show ?thesis by (auto simp: act_bind_def neutral_def split: prod.splits)
  qed (use assms(1) r in \<open>auto simp: act_bind_def neutral_def\<close>)
qed

lemma neutral_basic:
  "neutral (act_ret x)" "neutral (act_call step r)" "neutral (act_check step c)"
  "neutral (act_fail (StepFailed s t))" "neutral (act_fail NotReady)" "neutral (act_fail HomeDirectory)" "neutral (act_fail (SessionExists s))"
  by (auto simp: neutral_def act_ret_def act_call_def act_check_def act_fail_def leak_def split: sum.splits option.splits)

lemma neutral_emit: "(\<And>S. held S es = S) \<Longrightarrow> wiring es = [] \<Longrightarrow> neutral (act_emit es)"
  by (simp add: neutral_def act_emit_def)

lemmas neutral_rules = neutral_bind neutral_basic neutral_emit

lemma neutral_images:
  "neutral (EnsureImage api ref quiet)" "neutral (ImageRepoDigest api ref)" "neutral (EnsureVolume api name uid user)"
  unfolding EnsureImage_def ImageRepoDigest_def EnsureVolume_def PullImage_def
  by (auto intro!: neutral_rules split: option.splits)

lemma neutral_config: "neutral (merged_config h fl)"
proof -
  have l: "neutral (load_config h f)" for f
    unfolding load_config_def by (auto intro!: neutral_rules split: sum.splits)
  then have s: "neutral (setup_config h fl)"
    unfolding setup_config_def by (auto intro!: neutral_rules split: prod.splits sum.splits)
  show ?thesis
    unfolding merged_config_def by (auto intro!: neutral_bind [OF s] neutral_basic split: sum.splits)
qed

lemma neutral_prepare: "neutral (prepare_images h fl u)" "neutral (self_binary h)"
proof -
  have v: "neutral (verify_step step ref r)" for step ref r
    unfolding verify_step_def by (auto intro!: neutral_rules split: prod.splits option.splits)
  show "neutral (prepare_images h fl u)"
    unfolding prepare_images_def by (auto intro!: neutral_rules neutral_images v)
  show "neutral (self_binary h)"
    unfolding self_binary_def Let_def by (auto intro!: neutral_rules)
qed

lemma neutral_queries:
  "neutral (FindRunningSession api d)" "neutral (FindAnySessionContainer api d)" "neutral (FindPublishedPort api cid port)"
  "neutral (choose_port step draw ex)" "neutral (wait_ready ps)" "neutral (StartContainer api cid)"
  "neutral (resolveProjectRoot h)" "neutral (resolveProjectAndUser h fl)" "neutral (NewClient de)"
proof -
  show "neutral (FindRunningSession api d)" "neutral (FindAnySessionContainer api d)"
    unfolding FindRunningSession_def FindAnySessionContainer_def by (auto intro!: neutral_rules split: list.splits)
  show "neutral (FindPublishedPort api cid port)"
    unfolding FindPublishedPort_def publishedPort_def by (auto intro!: neutral_rules split: list.splits option.splits)
  show "neutral (choose_port step draw ex)"
    unfolding choose_port_def by (auto intro!: neutral_rules split: sum.splits)
  show "neutral (wait_ready ps)" by (induction ps rule: wait_ready.induct) (auto intro!: neutral_rules)
  show "neutral (StartContainer api cid)" unfolding StartContainer_def by (auto intro!: neutral_rules)
  show root: "neutral (resolveProjectRoot h)"
    unfolding resolveProjectRoot_def FindProjectRoot_def by (auto intro!: neutral_rules split: option.splits)
  show "neutral (resolveProjectAndUser h fl)"
    unfolding resolveProjectAndUser_def currentUserInfo_def by (auto intro!: neutral_rules root)
  show "neutral (NewClient de)" unfolding NewClient_def by (auto intro!: neutral_rules split: option.splits)
qed

lemma neutral_files: "(\<And>n h. leak h (mk n) = {}) \<Longrightarrow> neutral (write_files mk err dir fs)"
proof (induction mk err dir fs rule: write_files.induct)
  case (2 mk err dir name data fs)
  then show ?case
    by (cases "err name") (auto intro!: neutral_rules, auto simp: neutral_def act_fail_def)
qed (simp add: neutral_basic)

lemma neutral_ssh: "neutral (WriteSSHCredentials h sid client host)"
  unfolding WriteSSHCredentials_def ensureSessionDir_def by (intro neutral_bind neutral_basic neutral_files) (simp add: leak_def)

section \<open>Every started resource is handed over\<close>

text \<open>New identifiers: what the daemon, the file system and the session name generator hand out is not in use.\<close>

definition fresh_session :: "host_env \<Rightarrow> resource set \<Rightarrow> bool" where
  "fresh_session h S \<longleftrightarrow>
     (\<forall>n nid. da_NetworkCreate (he_api h) n = Inr nid \<longrightarrow> Network nid \<notin> S)
     \<and> (\<forall>path. he_temp h = Inr path \<longrightarrow> TempFile path \<notin> S) \<and> Credentials (he_xid h) \<notin> S
     \<and> (\<forall>n cid. da_ContainerCreate (he_api h) n = Inr cid \<longrightarrow> Container cid \<notin> S)
     \<and> (\<forall>n n' cid. da_ContainerCreate (he_api h) n = Inr cid \<longrightarrow> da_ContainerCreate (he_api h) n' = Inr cid \<longrightarrow> n = n')"

lemma network_acquires:
  assumes "\<And>nid. da_NetworkCreate api n = Inr nid \<Longrightarrow> Network nid \<notin> S"
  shows "acquires h S (CreateNetwork api random n) (\<lambda>x. Network (ni_ID x))"
  using assms
  by (auto simp: acquires_def CreateNetwork_def act_bind_def act_call_def act_emit_def act_ret_def act_fail_def leak_def Let_def
      split: prod.splits sum.splits)

lemma temp_acquires:
  assumes "\<And>path. he_temp h = Inr path \<Longrightarrow> TempFile path \<notin> S" and "he_temprm h = None"
  shows "acquires h S (write_proxy_config h m) TempFile"
  using assms
  by (auto simp: acquires_def write_proxy_config_def remove_temp_def act_bind_def act_call_def act_check_def act_emit_def act_ret_def act_fail_def leak_def
      split: sum.splits option.splits)

lemma write_files_held:
  "write_files mk err dir fs = (r, es, rs) \<Longrightarrow> rs = [] \<and> held S es = S \<and> wiring es = [] \<and> (\<forall>e. r = Inl e \<longrightarrow> (\<exists>n. e = mk n))"
proof (induction mk err dir fs arbitrary: r es rs rule: write_files.induct)
  case (2 mk err dir name data fs)
  show ?case
  proof (cases "err name")
    case None
    obtain r' es' rs' where w: "write_files mk err dir fs = (r', es', rs')" by (cases "write_files mk err dir fs") auto
    show ?thesis using "2.prems" None "2.IH" [OF None w] w by (auto simp: act_bind_def act_emit_def)
  qed (use "2.prems" in \<open>auto simp: act_fail_def\<close>)
qed (auto simp: act_ret_def)

lemma credentials_acquires:
  assumes "Credentials (he_xid h) \<notin> S"
  shows "acquires h S (WriteSessionCredentials h (he_xid h) creds) (\<lambda>_. Credentials (he_xid h))"
proof (cases "he_mkdir h")
  case None
  let ?fs = "he_order h [(''ca.pem'', ml_CACertPEM creds), (''client-key.pem'', ml_ClientKeyPEM creds), (''client-cert.pem'', ml_ClientCertPEM creds)]"
  obtain r es rs where w: "write_files CredentialsNotWritten (he_credwrite h) (sessionDir h (he_xid h)) ?fs = (r, es, rs)"
    by (metis prod_cases3)
  have w': "rs = []" "\<And>S. held S es = S" "\<And>e. r = Inl e \<Longrightarrow> \<exists>n. e = CredentialsNotWritten n"
    using write_files_held [OF w] by blast+
  have "WriteSessionCredentials h (he_xid h) creds =
      (map_sum id (\<lambda>_. sessionDir h (he_xid h)) r, Acquired (Credentials (he_xid h)) # es, [])"
    by (cases r) (simp_all add: WriteSessionCredentials_def ensureSessionDir_def None w w'(1) act_bind_def act_check_def act_emit_def act_ret_def)
  then show ?thesis
    using w'(2,3) assms by (cases r) (fastforce simp: acquires_def leak_def)+
qed (simp add: acquires_def WriteSessionCredentials_def ensureSessionDir_def act_bind_def act_check_def act_fail_def leak_def)

lemma proxy_acquires:
  assumes "\<And>cid. da_ContainerCreate api (px_Name cfg) = Inr cid \<Longrightarrow> Container cid \<notin> S"
  shows "acquires h S (StartProxyContainer api cfg) (\<lambda>x. Container (fst x))"
  using assms
  by (auto simp: acquires_def StartProxyContainer_def act_bind_def act_call_def act_emit_def act_ret_def act_fail_def leak_def
      split: sum.splits option.splits)

lemma sandbox_acquires:
  assumes "\<And>cid. da_ContainerCreate api (sb_Name cfg) = Inr cid \<Longrightarrow> Container cid \<notin> S"
  shows "acquires h S (CreateSandboxContainer api cfg) Container"
  using assms
  by (auto simp: acquires_def CreateSandboxContainer_def act_bind_def act_call_def act_check_def act_emit_def act_ret_def act_fail_def leak_def
      split: sum.splits option.splits)

lemma start_network_holds:
  assumes "fresh_session h S"
  shows "holds h S (start_network h daemon merged)"
  unfolding start_network_def
  by (rule holds_acquire [OF network_acquires])
    (use assms in \<open>auto simp: fresh_session_def intro!: neutral_holds neutral_bind neutral_queries neutral_basic\<close>)

lemma start_proxy_holds:
  assumes "fresh_session h S0" and rm: "he_temprm h = None" and S: "S \<subseteq> insert (Network nid) S0"
  shows "holds h S (start_proxy h daemon projectRoot selfBinary netInfo merged)"
proof -
  have proxy: "holds h S' (act_bind (StartProxyContainer (he_api h) cfg) (\<lambda>(cid, _). act_bind (act_defer (Container cid)) (\<lambda>_. act_ret (sessDir, cid))))"
    if "S' \<subseteq> {Network nid, TempFile path, Credentials (he_xid h)} \<union> S0" for S' path cfg sessDir
  proof -
    have "holds h S' (act_bind (StartProxyContainer (he_api h) cfg)
        (\<lambda>x. act_bind (act_defer (Container (fst x))) (\<lambda>_. act_ret (sessDir, fst x))))"
      by (rule holds_acquire [OF proxy_acquires])
        (use that assms(1) in \<open>auto simp: fresh_session_def intro: neutral_holds neutral_basic\<close>)
    then show ?thesis by (simp only: case_prod_beta')
  qed
  show ?thesis
    unfolding start_proxy_def
  proof (rule holds_acquire [where res = TempFile])
    show "acquires h S (write_proxy_config h merged) TempFile"
      by (rule temp_acquires) (use assms(1) rm S in \<open>auto simp: fresh_session_def\<close>)
    fix path :: string
    let ?S = "insert (TempFile path) S"
    show "holds h ?S (act_bind (act_call ''generating mTLS credentials'' (he_mtls h)) (\<lambda>creds.
        act_bind (WriteSessionCredentials h (he_xid h) creds) (\<lambda>sessDir.
        act_bind (act_defer (Credentials (he_xid h))) (\<lambda>_.
        act_bind (StartProxyContainer (he_api h) (proxy_container_config h daemon projectRoot selfBinary path netInfo merged creds)) (\<lambda>(cid, _).
        act_bind (act_defer (Container cid)) (\<lambda>_. act_ret (sessDir, cid)))))))"
    proof (rule holds_bind)
      show "holds h ?S (act_call ''generating mTLS credentials'' (he_mtls h))" by (intro neutral_holds neutral_basic)
      fix creds es rs
      assume "act_call ''generating mTLS credentials'' (he_mtls h) = (Inr creds, es, rs)"
      then have rs: "rs = []" by simp
      show "holds h (?S \<union> set rs) (act_bind (WriteSessionCredentials h (he_xid h) creds) (\<lambda>sessDir.
        act_bind (act_defer (Credentials (he_xid h))) (\<lambda>_.
        act_bind (StartProxyContainer (he_api h) (proxy_container_config h daemon projectRoot selfBinary path netInfo merged creds)) (\<lambda>(cid, _).
        act_bind (act_defer (Container cid)) (\<lambda>_. act_ret (sessDir, cid))))))"
        by (rule holds_acquire [where res = "\<lambda>_. Credentials (he_xid h)", OF credentials_acquires], (use assms rs in \<open>auto simp: fresh_session_def\<close>) [1],
            rule proxy, use S rs in auto)
    qed
  qed
qed

lemma start_network_Inr:
  assumes "start_network h daemon m = (Inr (ni, m'), es, rs)"
  shows "\<exists>b pp cp. he_random h = Inr b \<and> da_NetworkCreate (he_api h) (networkNamePrefix @ he_xid h) = Inr (ni_ID ni)
    \<and> ni_ProxyIP ni = IP_text (nextIP (snd (randomSubnet b)))
    \<and> ni_SandboxIP ni = IP_text (case nextIP (snd (randomSubnet b)) of None \<Rightarrow> None | Some p \<Rightarrow> nextIP p)
    \<and> es = [NetworkMade (ni_ID ni) (networkNamePrefix @ he_xid h) True (fst (randomSubnet b)) (IP_String (snd (randomSubnet b))),
            Acquired (Network (ni_ID ni))]
    \<and> rs = [Network (ni_ID ni)]
    \<and> RandomProxyPort (he_draw h) (mc_AllowHostPorts m) = Inr pp \<and> RandomProxyPort (he_draw2 h) (mc_AllowHostPorts m @ [pp]) = Inr cp
    \<and> m' = m\<lparr>mc_ProxyIP := ni_ProxyIP ni, mc_HostGateway := ''host-gateway'', mc_ProxyPort := pp, mc_ControlAPIPort := cp,
             mc_SSHForwardAddr := (if daemon then ni_SandboxIP ni @ '':2222'' else mc_SSHForwardAddr m)\<rparr>"
  using assms
  by (auto simp: start_network_def CreateNetwork_def choose_port_def act_bind_Inr Let_def case_prod_beta split: sum.splits)

lemma start_proxy_Inr:
  assumes "start_proxy h daemon root self ni m = (Inr (dir, cid), es, rs)"
  shows "dir = sessionDir h (he_xid h) \<and> (\<exists>path creds. he_temp h = Inr path \<and> he_mtls h = Inr creds
    \<and> da_ContainerCreate (he_api h) (''vibepit-proxy-'' @ he_xid h) = Inr cid
    \<and> ConfigWritten path m \<in> set es
    \<and> wiring es = [ContainerMade cid (''vibepit-proxy-'' @ he_xid h) (proxy_spec (proxy_container_config h daemon root self path ni m creds)),
         NetworkJoined cid (ni_ID ni) (ni_ProxyIP ni)]
    \<and> ContainerStarted cid \<in> set es
    \<and> rs = [TempFile path, Credentials (he_xid h), Container cid])"
proof -
  obtain path creds es1 rs1 es2 rs2 es3 rs3 where
      1: "write_proxy_config h m = (Inr path, es1, rs1)" and 2: "he_mtls h = Inr creds"
    and 3: "WriteSessionCredentials h (he_xid h) creds = (Inr dir, es2, rs2)"
    and 4: "\<exists>p. StartProxyContainer (he_api h) (proxy_container_config h daemon root self path ni m creds) = (Inr (cid, p), es3, rs3)"
    and es: "es = es1 @ es2 @ es3" "rs = rs1 @ [TempFile path] @ rs2 @ [Credentials (he_xid h)] @ rs3 @ [Container cid]"
    using assms by (auto simp: start_proxy_def act_bind_Inr)
  have a: "he_temp h = Inr path" "rs1 = []" "ConfigWritten path m \<in> set es1" "wiring es1 = []"
    using 1 by (auto simp: write_proxy_config_def act_bind_Inr act_bind_Inl split: option.splits)
  have b1: "rs2 = []" using credentials_acquires [of h "{}" creds] unfolding 3 by (simp add: acquires_def)
  have b2: "dir = sessionDir h (he_xid h)"
    using 3 by (auto simp: WriteSessionCredentials_def ensureSessionDir_def act_bind_Inr simp del: write_files.simps)
  have b3: "wiring es2 = []"
    using 3 by (auto simp: WriteSessionCredentials_def ensureSessionDir_def act_bind_Inr dest: write_files_held simp del: write_files.simps)
  note b = b1 b2 b3
  have c: "da_ContainerCreate (he_api h) (''vibepit-proxy-'' @ he_xid h) = Inr cid" "rs3 = []"
      "wiring es3 = [ContainerMade cid (''vibepit-proxy-'' @ he_xid h) (proxy_spec (proxy_container_config h daemon root self path ni m creds)),
         NetworkJoined cid (ni_ID ni) (ni_ProxyIP ni)]" "ContainerStarted cid \<in> set es3"
    using 4 by (auto simp: StartProxyContainer_def act_bind_Inr proxy_container_config_def split: option.splits)
  show ?thesis using a b c 2 es by auto
qed

lemma startSessionInfra_Inr:
  assumes "startSessionInfra h fl daemon root u = (Inr infra, es, rs)"
  shows "\<exists>m0 ni m self es0 es1 es2 rs1 rs2 dir cid.
      (\<exists>esm. merged_config h fl = (Inr m0, esm, [])) \<and> (\<exists>esp. prepare_images h fl u = (Inr (), esp, []) \<and> set esp \<subseteq> set es0) \<and> wiring es0 = []
    \<and> start_network h daemon m0 = (Inr (ni, m), es1, rs1)
    \<and> start_proxy h daemon root self ni m = (Inr (dir, cid), es2, rs2)
    \<and> infra = \<lparr>in_SessionID = he_xid h, in_SessionDir = dir, in_SelfBinary = self, in_UID = us_UID u, in_NetworkInfo = ni,
         in_Merged = m, in_ProxyContainerID = cid\<rparr>
    \<and> es = es0 @ es1 @ es2 \<and> rs = rs1 @ rs2"
proof -
  have n: "rs = [] \<and> wiring es = []" if "neutral x" "x = (r, es, rs)" for x :: "'a act" and r es rs using that by (simp add: neutral_def)
  obtain m0 esm rsm e1 r1 e2 r2 self e3 r3 e4 r4 ni m es1 rs1 dir cid es2 rs2 where
      1: "merged_config h fl = (Inr m0, esm, rsm)"
    and 2: "EnsureVolume (he_api h) homeVolumeName (us_UID u) (us_Username u) = (Inr (), e1, r1)"
    and 3: "EnsureVolume (he_api h) linuxbrewVolumeName (us_UID u) (us_Username u) = (Inr (), e2, r2)"
    and 4: "self_binary h = (Inr self, e3, r3)" and 5: "prepare_images h fl u = (Inr (), e4, r4)"
    and 6: "start_network h daemon m0 = (Inr (ni, m), es1, rs1)" and 7: "start_proxy h daemon root self ni m = (Inr (dir, cid), es2, rs2)"
    and i: "infra = \<lparr>in_SessionID = he_xid h, in_SessionDir = dir, in_SelfBinary = self, in_UID = us_UID u, in_NetworkInfo = ni,
         in_Merged = m, in_ProxyContainerID = cid\<rparr>"
    and es: "es = esm @ e1 @ e2 @ e3 @ e4 @ es1 @ es2" "rs = rsm @ r1 @ r2 @ r3 @ r4 @ rs1 @ rs2"
    using assms unfolding startSessionInfra_def act_bind_Inr by (auto simp: act_bind_Inr)
  have e: "rsm = []" "r1 = []" "r2 = []" "r3 = []" "r4 = []"
      "wiring esm = []" "wiring e1 = []" "wiring e2 = []" "wiring e3 = []" "wiring e4 = []"
    using n [OF neutral_config 1] n [OF neutral_images(3) 2] n [OF neutral_images(3) 3] n [OF neutral_prepare(2) 4] n [OF neutral_prepare(1) 5] by auto
  show ?thesis
    by (rule exI [of _ m0], rule exI [of _ ni], rule exI [of _ m], rule exI [of _ self], rule exI [of _ "esm @ e1 @ e2 @ e3 @ e4"],
        rule exI [of _ es1], rule exI [of _ es2], rule exI [of _ rs1], rule exI [of _ rs2], rule exI [of _ dir], rule exI [of _ cid])
      (use 1 5 6 7 i es e in auto)
qed

lemma startSessionInfra_holds:
  assumes "fresh_session h S" and rm: "he_temprm h = None"
  shows "holds h S (startSessionInfra h fl daemon root u)"
proof -
  have net: "holds h S (act_bind (start_network h daemon m) (\<lambda>(ni, m).
      act_bind (start_proxy h daemon root self ni m) (\<lambda>(dir, cid). act_ret (k ni m dir cid))))" for m self k
  proof (rule holds_bind [OF start_network_holds [OF assms(1)]])
    fix x es rs assume r: "start_network h daemon m = (Inr x, es, rs)"
    obtain ni m' where x: "x = (ni, m')" by force
    have rs: "rs = [Network (ni_ID ni)]" using start_network_Inr r x by blast
    have "holds h (S \<union> set rs) (act_bind (start_proxy h daemon root self ni m') (\<lambda>(dir, cid). act_ret (k ni m' dir cid)))"
      by (rule holds_bind [OF start_proxy_holds [OF assms, of _ "ni_ID ni"]]) (auto simp: rs intro: neutral_holds neutral_basic)
    then show "holds h (S \<union> set rs) (case x of (ni, m) \<Rightarrow> act_bind (start_proxy h daemon root self ni m) (\<lambda>(dir, cid). act_ret (k ni m dir cid)))"
      by (simp add: x)
  qed
  have step: "holds h S (act_bind m f)" if "neutral m" "\<And>x. holds h S (f x)" for m :: "'c act" and f :: "'c \<Rightarrow> 'd act"
    by (rule holds_bind [OF neutral_holds [OF that(1)]]) (use that in \<open>auto simp: neutral_def\<close>)
  show ?thesis
    unfolding startSessionInfra_def by (intro step neutral_config neutral_images neutral_prepare net)
qed

lemma sandbox_fresh:
  assumes fresh: "fresh_session h S0" and cid: "da_ContainerCreate (he_api h) (''vibepit-proxy-'' @ he_xid h) = Inr cid"
    and sandbox: "da_ContainerCreate (he_api h) (''vibepit-sandbox-'' @ he_xid h) = Inr cid'"
  shows "Container cid' \<notin> {Network nid, TempFile path, Credentials xid, Container cid} \<union> S0"
proof -
  have "''vibepit-proxy-'' @ he_xid h \<noteq> ''vibepit-sandbox-'' @ he_xid h" by simp
  moreover have "\<And>n n' c. da_ContainerCreate (he_api h) n = Inr c \<Longrightarrow> da_ContainerCreate (he_api h) n' = Inr c \<Longrightarrow> n = n'"
    using fresh unfolding fresh_session_def by blast
  ultimately have "cid' \<noteq> cid" using cid sandbox by metis
  moreover have "Container cid' \<notin> S0" using fresh sandbox unfolding fresh_session_def by blast
  ultimately show ?thesis by simp
qed

lemma infra_resources:
  assumes "startSessionInfra h fl daemon root u = (Inr infra, es, rs)"
  shows "\<exists>nid path. rs = [Network nid, TempFile path, Credentials (he_xid h), Container (in_ProxyContainerID infra)]
    \<and> da_ContainerCreate (he_api h) (''vibepit-proxy-'' @ he_xid h) = Inr (in_ProxyContainerID infra) \<and> in_SessionID infra = he_xid h"
proof -
  obtain m0 ni m self es1 es2 rs1 rs2 dir cid where n: "start_network h daemon m0 = (Inr (ni, m), es1, rs1)"
      and p: "start_proxy h daemon root self ni m = (Inr (dir, cid), es2, rs2)"
      and i: "in_SessionID infra = he_xid h" "in_ProxyContainerID infra = cid" "rs = rs1 @ rs2"
    using startSessionInfra_Inr [OF assms] by auto
  have "rs1 = [Network (ni_ID ni)]" using start_network_Inr [OF n] by blast
  with start_proxy_Inr [OF p] i show ?thesis by auto
qed

lemma holds_neutral_bind:
  assumes "neutral m" and "\<And>x. holds h S (f x)"
  shows "holds h S (act_bind m f)"
  by (rule holds_bind [OF neutral_holds [OF assms(1)]]) (use assms in \<open>auto simp: neutral_def\<close>)

lemma up_session_holds:
  assumes "fresh_session h S" and rm: "he_temprm h = None"
  shows "holds h S (up_session h fl root u)"
  unfolding up_session_def
proof (rule holds_bind [OF startSessionInfra_holds [OF assms]])
  fix infra es rs assume "startSessionInfra h fl True root u = (Inr infra, es, rs)"
  from infra_resources [OF this] obtain nid path where
      rs: "rs = [Network nid, TempFile path, Credentials (he_xid h), Container (in_ProxyContainerID infra)]"
    and cid: "da_ContainerCreate (he_api h) (''vibepit-proxy-'' @ he_xid h) = Inr (in_ProxyContainerID infra)"
    and sid: "in_SessionID infra = he_xid h" by blast
  have status: "neutral (case he_status h of
       s # _ \<Rightarrow> if s \<noteq> ''running'' then act_fail (StepFailed ''sandbox container exited immediately'' s) else act_ret ()
     | [] \<Rightarrow> act_fail (StepFailed ''sandbox container exited immediately'' ''unknown''))"
    by (auto intro: neutral_basic split: list.splits)
  have acq: "acquires h (S \<union> set rs) (CreateSandboxContainer (he_api h) (daemon_sandbox_config h infra root u pub)) Container" for pub
    by (rule sandbox_acquires)
      (use sandbox_fresh [OF assms(1) cid, of _ nid path "he_xid h"] sid rs in \<open>auto simp: daemon_sandbox_config_def baseSandboxConfig_def\<close>)
  show "holds h (S \<union> set rs) (up_sandbox h root u infra)"
    unfolding up_sandbox_def
    by (intro holds_neutral_bind neutral_basic neutral_ssh holds_acquire [OF acq] neutral_holds neutral_bind neutral_queries status)
qed

lemma run_session_holds:
  assumes "fresh_session h S" and rm: "he_temprm h = None"
  shows "holds h S (run_session h fl root u)"
  unfolding run_session_def
proof (rule holds_bind [OF startSessionInfra_holds [OF assms]])
  fix infra es rs assume "startSessionInfra h fl False root u = (Inr infra, es, rs)"
  from infra_resources [OF this] obtain nid path where
      rs: "rs = [Network nid, TempFile path, Credentials (he_xid h), Container (in_ProxyContainerID infra)]"
    and cid: "da_ContainerCreate (he_api h) (''vibepit-proxy-'' @ he_xid h) = Inr (in_ProxyContainerID infra)"
    and sid: "in_SessionID infra = he_xid h" by blast
  have acq: "acquires h (S \<union> set rs) (CreateSandboxContainer (he_api h) (baseSandboxConfig h infra root u)) Container"
    by (rule sandbox_acquires)
      (use sandbox_fresh [OF assms(1) cid, of _ nid path "he_xid h"] sid rs in \<open>auto simp: baseSandboxConfig_def\<close>)
  show "holds h (S \<union> set rs) (act_bind (CreateSandboxContainer (he_api h) (baseSandboxConfig h infra root u)) (\<lambda>cid.
      act_bind (act_defer (Container cid)) (\<lambda>_. StartContainer (he_api h) cid)))"
    by (intro holds_acquire [OF acq] neutral_holds neutral_queries)
qed

text \<open>The daemon and the file system carry out the removals they are asked for.\<close>

definition removes_ok :: "host_env \<Rightarrow> bool" where
  "removes_ok h \<longleftrightarrow> (\<forall>n. da_NetworkRemove (he_api h) n = None) \<and> (\<forall>c. da_ContainerRemove (he_api h) c = None)
     \<and> he_temprm h = None \<and> he_credrm h = None"

lemma runCleanups_held:
  assumes "removes_ok h"
  shows "held S (runCleanups h rs) = S - set rs"
proof -
  have c: "held S (cleanup h r) = S - {r}" for S r
    using assms by (cases r)
      (simp_all add: cleanup_def remove_temp_def CleanupSessionCredentials_def RemoveNetwork_def StopAndRemove_def act_bind_def act_check_def act_emit_def act_ret_def removes_ok_def)
  have "held S (concat (map (cleanup h) qs)) = S - set qs" for S qs
    by (induction qs arbitrary: S) (auto simp: c)
  then show ?thesis by (simp add: runCleanups_def)
qed

lemma cleaned_on_error:
  assumes "holds h S m" and "removes_ok h" and "m = (Inl e, es, rs)"
  shows "held S (es @ runCleanups h rs) = S \<union> leak h e"
  using assms by (auto simp: holds_def runCleanups_held)

lemma neutral_held: "neutral m \<Longrightarrow> m = (r, es, rs) \<Longrightarrow> rs = [] \<and> held S es = S \<and> (\<forall>e. r = Inl e \<longrightarrow> leak h e = {})"
  by (simp add: neutral_def)

text \<open>An action that, when it ends with a result in \<open>P\<close>, holds what it held before and the leak of its error.\<close>

definition cleans :: "host_env \<Rightarrow> resource set \<Rightarrow> (host_error + 'a \<Rightarrow> bool) \<Rightarrow> 'a act \<Rightarrow> bool" where
  "cleans h S P m \<longleftrightarrow>
     (\<forall>r es rs. m = (r, es, rs) \<longrightarrow> P r \<longrightarrow> held S es = S \<union> (case r of Inl e \<Rightarrow> leak h e | Inr _ \<Rightarrow> {}))"

lemma cleans_bind:
  assumes "neutral m" and "\<And>x. cleans h S P (f x)"
  shows "cleans h S P (act_bind m f)"
proof -
  obtain r es rs where r: "m = (r, es, rs)" by (cases m) auto
  have n: "rs = []" "held S es = S" "\<And>e. r = Inl e \<Longrightarrow> leak h e = {}"
    using assms(1) r by (auto simp: neutral_def)
  show ?thesis
  proof (cases r)
    case (Inr x)
    with assms(2) [of x] r n show ?thesis by (auto simp: act_bind_def cleans_def split: prod.splits)
  qed (use r n in \<open>auto simp: act_bind_def cleans_def\<close>)
qed

lemma cleans_simple: "neutral m \<Longrightarrow> cleans h S P m"
  by (auto simp: neutral_def cleans_def split: sum.splits)

lemma cleans_up:
  assumes "holds h S m" and "removes_ok h"
  shows "cleans h S isl (act_bind (with_cleanups_on_error h m) (\<lambda>_. act_ret True))"
proof -
  obtain r es rs where r: "m = (r, es, rs)" by (cases m) auto
  then show ?thesis
    using assms by (cases r) (auto simp: cleans_def act_bind_def with_cleanups_on_error_def act_ret_def holds_def runCleanups_held)
qed

lemma cleans_run:
  assumes "holds h S m" and "removes_ok h"
  shows "cleans h S (\<lambda>_. True) (act_bind (with_cleanups h m) (\<lambda>_. act_ret True))"
proof -
  obtain r es rs where r: "m = (r, es, rs)" by (cases m) auto
  then show ?thesis
    using assms by (cases r) (auto simp: cleans_def act_bind_def with_cleanups_def act_ret_def holds_def runCleanups_held)
qed

text \<open>
  C18. A start that fails cleans up. When removals are carried out, a failed \<^verbatim>\<open>up\<close> and a \<^verbatim>\<open>run\<close>, however it ends,
  give back every network, temporary file, credentials directory and container they have made, at whichever step they
  stop, with two exceptions: a proxy container that could be created but not connected or started, and the directory
  of credentials that could not be written.
\<close>

theorem failed_start_cleans_up:
  assumes fresh: "fresh_session h S" and ok: "removes_ok h"
  shows "(\<forall>e es rs. UpAction h fl = (Inl e, es, rs) \<longrightarrow> held S es = S \<union> leak h e)
    \<and> (\<forall>r es rs. RunAction h fl = (r, es, rs) \<longrightarrow> held S es = S \<union> (case r of Inl e \<Rightarrow> leak h e | Inr _ \<Rightarrow> {}))"
proof -
  have rm: "he_temprm h = None" using ok by (simp add: removes_ok_def)
  have "cleans h S isl (UpAction h fl)"
    unfolding UpAction_def
    by (auto intro!: cleans_bind neutral_queries cleans_simple [OF neutral_basic(1)] cleans_simple [OF neutral_basic(7)]
        cleans_up [OF up_session_holds [OF fresh rm] ok])
  moreover have "cleans h S (\<lambda>_. True) (RunAction h fl)"
    unfolding RunAction_def
    by (auto intro!: cleans_bind neutral_queries cleans_simple [OF neutral_basic(1)] cleans_run [OF run_session_holds [OF fresh rm] ok])
  ultimately show ?thesis by (auto simp: cleans_def)
qed

text \<open>A concrete host, on which everything works up to the answers to the SSH probe.\<close>

definition ex_api :: docker_api where
  "ex_api = \<lparr>da_ImageList = \<lambda>_. Inr [''img''], da_ImagePull = \<lambda>_. Inr [], da_RepoDigests = \<lambda>ref. Inr [ref @ ''@sha256:1''],
     da_ContainerList = \<lambda>_ _. Inr [],
     da_ContainerInspect = \<lambda>_. Inr \<lparr>cd_Labels = [], cd_Ports = [(SSHContainerPort, [''40000''])], cd_IPs = [], cd_State = (''running'', 0)\<rparr>,
     da_NetworkCreate = \<lambda>n. Inr n, da_NetworkRemove = \<lambda>_. None, da_NetworkConnect = \<lambda>_ _. None,
     da_ContainerCreate = \<lambda>n. Inr n, da_ContainerStart = \<lambda>_. None, da_ContainerRemove = \<lambda>_. None,
     da_VolumeList = \<lambda>n. Inr [n], da_VolumeCreate = \<lambda>_. None, da_VolumeRemove = \<lambda>_. None, da_localtime = False, da_mkdir = \<lambda>_. None, da_write = \<lambda>_. None\<rparr>"

definition ex_env :: "(bool \<times> string) list \<Rightarrow> host_env" where
  "ex_env polls = \<lparr>he_arg = ''/p'', he_cwd = Inr ''/p'', he_abs = \<lambda>p. Inr p, he_git = \<lambda>_. None, he_stat = None,
     he_user = Inr \<lparr>ou_Uid = ''1000'', ou_Gid = ''1000'', ou_Username = ''u'', ou_HomeDir = ''/h''\<rparr>,
     he_presets = [], he_global = Missing, he_project = Some [], he_decode = \<lambda>_. Inr zero_ProjectConfig,
     he_io = \<lparr>pi_mkdir = None, pi_read = None, pi_write = None, pi_torn = None\<rparr>,
     he_selector = \<lambda>_ _. Inr [], he_detected = [], he_daemon = \<lparr>de_env = Some ''unix:///run/docker.sock'', de_user = Inl [], de_ping = \<lambda>_. False\<rparr>, he_api = ex_api,
     he_images = \<lparr>im_user = Inr ''img'', im_client = None, im_pull = \<lambda>_. None, im_digest = \<lambda>r. Inr r, im_parse = \<lambda>_. None,
                  im_root = None, im_verify = \<lambda>_ _ _. None, im_append = False\<rparr>,
     he_cache = None, he_self = Inr ''/bin/vibepit'', he_eval = \<lambda>p. Inr p, he_darwin = False, he_embedded = Inl [], he_xid = ''x'',
     he_random = Inr (0, 0), he_draw = \<lambda>_. Inr (0, 1), he_draw2 = \<lambda>_. Inr (0, 2), he_marshal = None, he_temp = Inr ''/tmp/c'',
     he_tempwrite = None, he_tempclose = None, he_temprm = None,
     he_mtls = Inr \<lparr>ml_ServerKeyPEM = ''k'', ml_ServerCertPEM = ''c'', ml_CACertPEM = ''a'', ml_ClientKeyPEM = ''k'', ml_ClientCertPEM = ''c''\<rparr>,
     he_state_home = ''/s'', he_runtime_dir = ''/r'', he_path = \<lambda>_. NotExist, he_mkdir = None, he_credwrite = \<lambda>_. None, he_credrm = None,
     he_order = \<lambda>fs. fs, he_keys = (Inr (''k'', ''p''), Inr (''k'', ''p'')),
     he_term = [], he_colorterm = [], he_status = [''running''], he_polls = polls\<rparr>"

definition ex_flags :: sandbox_flags where
  "ex_flags = \<lparr>sf_local = True, sf_allow = [], sf_preset = [''none''], sf_reconfigure = False\<rparr>"

lemma ex_env_ok: "fresh_session (ex_env polls) {}" "removes_ok (ex_env polls)"
  by (simp_all add: fresh_session_def removes_ok_def ex_env_def ex_api_def)

lemma ex_port: "RandomProxyPort (\<lambda>_. Inr b) ex = Inr (port_of_bytes b)" if "port_of_bytes b \<notin> set ex"
proof -
  have "(100::nat) = Suc 99" by simp
  then show ?thesis using that by (simp only: RandomProxyPort_def random_port_loop.simps) simp
qed

lemma ex_resolve: "resolveProjectAndUser (ex_env polls) ex_flags =
    (Inr (''/p'', \<lparr>us_Username = ''u'', us_HomeDir = ''/h'', us_UID = parse_int64_value ''1000'', us_Image = localImage\<rparr>), [], [])"
  by (simp add: resolveProjectAndUser_def resolveProjectRoot_def FindProjectRoot_def currentUserInfo_def ex_env_def ex_flags_def
      act_bind_def act_call_def act_check_def act_ret_def)

definition ex_merged :: MergedConfig where
  "ex_merged = \<lparr>mc_AllowHTTP = [], mc_AllowDNS = [], mc_BlockCIDR = [], mc_AllowCIDR = [], mc_ExtraHosts = [],
     mc_UpstreamDNS = [], mc_AllowHostPorts = [], mc_ProxyIP = [], mc_HostGateway = [], mc_ProxyPort = 0, mc_ControlAPIPort = 0,
     mc_SSHForwardAddr = []\<rparr>"

lemma ex_Merge: "Merge [] \<lparr>cf_Global = zero_GlobalConfig, cf_Project = zero_ProjectConfig\<rparr> [] [''none''] = Inr ex_merged"
proof -
  have "Expand (NewPresetRegistry []) [''none''] = Some []" by code_simp
  moreover have "dedup [[], [], []] = ([] :: string list)" "dedup [[], []] = ([] :: string list)" "ValidateHTTPEntries [] = None" "ValidateDNSEntries [] = None"
    by code_simp+
  ultimately show ?thesis
    by (simp add: Merge_def Let_def zero_GlobalConfig_def zero_ProjectConfig_def ex_merged_def)
qed

lemma ex_config: "merged_config (ex_env polls) ex_flags = (Inr ex_merged, [], [])"
  by (simp add: merged_config_def setup_config_def load_config_def ex_env_def ex_flags_def act_bind_def act_ret_def loadFile_def load_project_def
      ex_Merge)

lemma ex_network: "\<exists>ni m es. start_network (ex_env polls) True ex_merged = (Inr (ni, m), es, [Network (ni_ID ni)])"
  by (simp add: start_network_def CreateNetwork_def choose_port_def ex_env_def ex_api_def act_bind_def act_ret_def act_call_def act_emit_def
     act_defer_def Let_def case_prod_beta ex_port ex_merged_def port_of_bytes_def)

lemma ex_proxy: "\<exists>es rs. start_proxy (ex_env polls) True root self ni m = (Inr (''/s/vibepit/sessions/x'', ''vibepit-proxy-x''), es, rs)"
  by (simp add: start_proxy_def write_proxy_config_def WriteSessionCredentials_def ensureSessionDir_def sessionDir_def sessionBaseDir_def
     RuntimeDirName_def path_join_def StartProxyContainer_def proxy_container_config_def
     ex_env_def ex_api_def act_bind_def act_ret_def act_call_def act_emit_def act_check_def act_defer_def)

lemma ex_images: "\<exists>es. prepare_images (ex_env polls) ex_flags u = (Inr (), es, [])"
  by (simp add: prepare_images_def EnsureImage_def ImageRepoDigest_def verify_step_def VerifyProxyImage_def verify_image_def
     isDigestVerified_def cacheVerifiedDigest_def ex_flags_def
     ex_env_def ex_api_def act_bind_def act_ret_def act_call_def act_emit_def act_check_def act_defer_def split: option.splits)

lemma ex_infra: "\<exists>infra es rs. startSessionInfra (ex_env polls) ex_flags True root u = (Inr infra, es, rs)"
proof -
  obtain ni m es rs where n: "start_network (ex_env polls) True ex_merged = (Inr (ni, m), es, rs)" using ex_network by blast
  obtain es1 where i: "prepare_images (ex_env polls) ex_flags u = (Inr (), es1, [])" using ex_images by blast
  obtain es2 rs2 where p: "start_proxy (ex_env polls) True root ''/bin/vibepit'' ni m = (Inr (''/s/vibepit/sessions/x'', ''vibepit-proxy-x''), es2, rs2)" using ex_proxy by blast
  have s: "self_binary (ex_env polls) = (Inr ''/bin/vibepit'', [], [])"
    by (simp add: self_binary_def ex_env_def act_bind_def act_call_def act_ret_def)
  have v: "EnsureVolume (he_api (ex_env polls)) name uid user = (Inr (), [], [])" for name uid user
    by (simp add: EnsureVolume_def ex_env_def ex_api_def act_bind_def act_call_def act_ret_def)
  show ?thesis unfolding startSessionInfra_def ex_config v s by (simp add: act_bind_def n i p act_ret_def)
qed

lemma ex_sandbox: "\<exists>es rs. up_sandbox (ex_env polls) root u infra = (fst (wait_ready polls), es, rs)"
proof -
  have p: "FindPublishedPort ex_api cid SSHContainerPort = (Inr 40000, [], [])" for cid
    by (simp add: FindPublishedPort_def publishedPort_def ex_api_def act_bind_def act_call_def act_ret_def) code_simp
  show ?thesis
  by (simp add: up_sandbox_def WriteSSHCredentials_def ensureSessionDir_def CreateSandboxContainer_def StartContainer_def p
     ex_env_def act_bind_def act_ret_def act_call_def act_emit_def act_check_def act_defer_def split: prod.splits sum.splits) (simp add: ex_api_def)
qed

lemma ex_up: "fst (UpAction (ex_env polls) ex_flags) = map_sum id (\<lambda>_. True) (fst (wait_ready polls))"
proof -
  have f: "FindRunningSession (he_api (ex_env polls)) d = (Inr None, [], [])" "FindAnySessionContainer (he_api (ex_env polls)) d = (Inr [], [], [])" for d
    by (simp_all add: FindRunningSession_def FindAnySessionContainer_def ex_env_def ex_api_def act_bind_def act_call_def act_ret_def)
  have c: "NewClient (he_daemon (ex_env polls)) = (Inr ''unix:///run/docker.sock'', [], [])"
    by (simp add: NewClient_def ex_env_def act_ret_def)
  let ?u = "\<lparr>us_Username = ''u'', us_HomeDir = ''/h'', us_UID = parse_int64_value ''1000'', us_Image = localImage\<rparr>"
  obtain infra es rs where i: "startSessionInfra (ex_env polls) ex_flags True ''/p'' ?u = (Inr infra, es, rs)" using ex_infra by blast
  obtain es' rs' where s: "up_sandbox (ex_env polls) ''/p'' ?u infra = (fst (wait_ready polls), es', rs')" using ex_sandbox by blast
  show ?thesis
    unfolding UpAction_def ex_resolve
    by (cases "fst (wait_ready polls)") (simp_all add: act_bind_def c f up_session_def i s with_cleanups_on_error_def act_ret_def)
qed

text \<open>Here the whole session is set up and then given back, because the SSH banner never appears.\<close>

theorem failed_start_cleans_up_witness:
  "\<exists>es rs. UpAction (ex_env []) ex_flags = (Inl NotReady, es, rs) \<and> held {} es = {}"
proof -
  obtain r es rs where u: "UpAction (ex_env []) ex_flags = (r, es, rs)" by (metis prod_cases3)
  moreover have "r = Inl NotReady" using ex_up [of "[]"] u by (simp add: act_fail_def)
  ultimately show ?thesis
    using failed_start_cleans_up [OF ex_env_ok, of "[]" ex_flags] by (auto simp: leak_def)
qed

section \<open>A session that is up\<close>

text \<open>What the sandbox of a session must look like.\<close>

definition isolated :: "string \<Rightarrow> string \<Rightarrow> string \<Rightarrow> int \<Rightarrow> container_spec \<Rightarrow> bool" where
  "isolated nid ip proxyIP port sp \<longleftrightarrow>
     sp_Endpoints sp = [(nid, ip)] \<and> sp_NetworkMode sp = [] \<and> sp_PortBindings sp = [] \<and> sp_ExtraHosts sp = []
     \<and> sp_DNS sp = [proxyIP] \<and> sp_ReadonlyRootfs sp \<and> sp_CapDrop sp = [''ALL''] \<and> sp_SecurityOpt sp = [''no-new-privileges'']
     \<and> (\<forall>v \<in> {''HTTP_PROXY'', ''HTTPS_PROXY'', ''http_proxy'', ''https_proxy''}. v @ ''='' @ proxy_url proxyIP port \<in> set (sp_Env sp))"

lemma sandbox_isolated:
  "isolated (sb_NetworkID cfg) (sb_SandboxIP cfg) (sb_ProxyIP cfg) (sb_ProxyPort cfg) (sandbox_spec lt cfg)"
  by (simp add: isolated_def sandbox_spec_def sandbox_env_def Let_def)

lemma up_sandbox_Inr:
  assumes "up_sandbox h root u infra = (Inr (), es, rs)"
  shows "\<exists>cid client. da_ContainerCreate (he_api h) (''vibepit-sandbox-'' @ in_SessionID infra) = Inr cid
    \<and> wiring es = [ContainerMade cid (''vibepit-sandbox-'' @ in_SessionID infra)
         (sandbox_spec (da_localtime (he_api h)) (daemon_sandbox_config h infra root u client))]
    \<and> ContainerStarted cid \<in> set es \<and> rs = [Container cid]"
proof -
  have n: "rs = []" "wiring es = []" if "neutral x" "x = (r, es, rs)" for x :: "'a act" and r es rs using that by (simp_all add: neutral_def)
  obtain client host es1 rs1 cid es2 rs2 es3 rs3 port es4 rs4 es5 rs5 where
      1: "WriteSSHCredentials h (in_SessionID infra) client host = (Inr (), es1, rs1)"
    and 2: "CreateSandboxContainer (he_api h) (daemon_sandbox_config h infra root u (snd client)) = (Inr cid, es2, rs2)"
    and 3: "StartContainer (he_api h) cid = (Inr (), es3, rs3)"
    and 4: "FindPublishedPort (he_api h) (in_ProxyContainerID infra) SSHContainerPort = (Inr port, es4, rs4)"
    and 5: "wait_ready (he_polls h) = (Inr (), es5, rs5)"
    and es: "es = es1 @ es2 @ es3 @ es4 @ es5" "rs = rs1 @ rs2 @ [Container cid] @ rs3 @ rs4 @ rs5"
    using assms unfolding up_sandbox_def act_bind_Inr
    by (auto simp: act_bind_Inr split: list.splits if_splits)
  have c: "da_ContainerCreate (he_api h) (''vibepit-sandbox-'' @ in_SessionID infra) = Inr cid" "rs2 = []"
    "wiring es2 = [ContainerMade cid (''vibepit-sandbox-'' @ in_SessionID infra)
         (sandbox_spec (da_localtime (he_api h)) (daemon_sandbox_config h infra root u (snd client)))]"
    using 2 by (auto simp: CreateSandboxContainer_def act_bind_Inr daemon_sandbox_config_def baseSandboxConfig_def)
  have s: "ContainerStarted cid \<in> set es3" using 3 by (auto simp: StartContainer_def act_bind_Inr)
  show ?thesis
    using c s es n [OF neutral_ssh 1] n [OF neutral_queries(6) 3] n [OF neutral_queries(3) 4] n [OF neutral_queries(5) 5] by auto
qed

lemma UpAction_Inr:
  assumes "UpAction h fl = (Inr True, es, rs)"
  obtains root u infra es0 es1 es2 rs1 rs2 where "wiring es0 = []" "es = es0 @ es1 @ es2"
    "startSessionInfra h fl True root u = (Inr infra, es1, rs1)" "up_sandbox h root u infra = (Inr (), es2, rs2)"
proof -
  have n: "wiring es = []" if "neutral x" "x = (r, es, rs)" for x :: "'a act" and r es rs using that by (simp_all add: neutral_def)
  obtain root u esa rsa host esb rsb esc rsc esd rsd ese rse where
      1: "resolveProjectAndUser h fl = (Inr (root, u), esa, rsa)" and 2: "NewClient (he_daemon h) = (Inr host, esb, rsb)"
    and 3: "FindRunningSession (he_api h) root = (Inr None, esc, rsc)" and 4: "FindAnySessionContainer (he_api h) root = (Inr [], esd, rsd)"
    and 5: "with_cleanups_on_error h (up_session h fl root u) = (Inr (), ese, rse)" and es: "es = esa @ esb @ esc @ esd @ ese"
    using assms unfolding UpAction_def act_bind_Inr by (auto simp: act_bind_Inr split: if_splits)
  obtain rs' where "up_session h fl root u = (Inr (), ese, rs')"
    using 5 by (auto simp: with_cleanups_on_error_def split: prod.splits sum.splits)
  then obtain infra es1 rs1 es2 rs2 where "startSessionInfra h fl True root u = (Inr infra, es1, rs1)"
      "up_sandbox h root u infra = (Inr (), es2, rs2)" "ese = es1 @ es2"
    by (auto simp: up_session_def act_bind_Inr)
  then show ?thesis
    using n [OF neutral_queries(8) 1] n [OF neutral_queries(9) 2] n [OF neutral_queries(1) 3] n [OF neutral_queries(2) 4] es
    by (intro that [of "esa @ esb @ esc @ esd" es1 es2]) auto
qed

lemma merged_config_Inr:
  assumes "merged_config h fl = (Inr m, es, rs)"
  obtains cfg where "Merge (he_presets h) cfg (sf_allow fl) (sf_preset fl) = Inr m"
proof -
  obtain cfg es1 rs1 es2 rs2 where "(case Merge (he_presets h) cfg (sf_allow fl) (sf_preset fl) of
      Inl _ \<Rightarrow> act_fail (StepFailed ''config'' []) | Inr m \<Rightarrow> act_ret m) = (Inr m, es2, rs2)"
    using assms unfolding merged_config_def act_bind_Inr by blast
  then show ?thesis by (cases "Merge (he_presets h) cfg (sf_allow fl) (sf_preset fl)") (auto intro: that)
qed

lemma verify_step_Inr: "verify_step step ref r = (Inr c, es, rs) \<Longrightarrow> ImageVerified ref \<in> set es \<and> fst r = None"
  by (auto simp: verify_step_def act_bind_Inr split: prod.splits option.splits)

lemma prepare_images_Inr:
  assumes "prepare_images h fl u = (Inr (), es, rs)"
  obtains ref cache es' rs' where "ImageRepoDigest (he_api h) ProxyImage = (Inr ref, es', rs')"
    "fst (VerifyProxyImage (he_images h) ref cache) = None"
    "\<not> sf_local fl \<Longrightarrow> \<exists>ref es' rs'. ImageRepoDigest (he_api h) (us_Image u) = (Inr ref, es', rs') \<and> fst (VerifyImage (he_images h) ref (he_cache h)) = None"
  using assms unfolding prepare_images_def act_bind_Inr
  by (auto simp: act_bind_Inr dest!: verify_step_Inr split: if_splits)

lemma infra_is_wired:
  assumes i: "startSessionInfra h fl True root u = (Inr infra, es, rs)"
  obtains b path m0 creds where "he_random h = Inr b" "in_SessionID infra = he_xid h"
    "ni_ProxyIP (in_NetworkInfo infra) = IP_String [10, fst b, snd b, 2]" "ni_SandboxIP (in_NetworkInfo infra) = IP_String [10, fst b, snd b, 3]"
    "wiring es = [NetworkMade (ni_ID (in_NetworkInfo infra)) (networkNamePrefix @ he_xid h) True (fst (randomSubnet b)) (IP_String [10, fst b, snd b, 1]),
        ContainerMade (in_ProxyContainerID infra) (''vibepit-proxy-'' @ he_xid h)
          (proxy_spec (proxy_container_config h True root (in_SelfBinary infra) path (in_NetworkInfo infra) (in_Merged infra) creds)),
        NetworkJoined (in_ProxyContainerID infra) (ni_ID (in_NetworkInfo infra)) (IP_String [10, fst b, snd b, 2])]"
    "{ContainerStarted (in_ProxyContainerID infra), ConfigWritten path (in_Merged infra)} \<subseteq> set es"
    "\<exists>cfg. Merge (he_presets h) cfg (sf_allow fl) (sf_preset fl) = Inr m0"
    "\<exists>pp cp. RandomProxyPort (he_draw h) (mc_AllowHostPorts m0) = Inr pp \<and> RandomProxyPort (he_draw2 h) (mc_AllowHostPorts m0 @ [pp]) = Inr cp
       \<and> in_Merged infra = m0\<lparr>mc_ProxyIP := IP_String [10, fst b, snd b, 2], mc_HostGateway := ''host-gateway'', mc_ProxyPort := pp,
           mc_ControlAPIPort := cp, mc_SSHForwardAddr := IP_String [10, fst b, snd b, 3] @ '':2222''\<rparr>"
proof -
  from startSessionInfra_Inr [OF i] obtain m0 ni m self ea eb ec ra rb dir pid em where
      mc: "merged_config h fl = (Inr m0, em, [])" and ea: "wiring ea = []"
    and n: "start_network h True m0 = (Inr (ni, m), eb, ra)" and p: "start_proxy h True root self ni m = (Inr (dir, pid), ec, rb)"
    and infra: "infra = \<lparr>in_SessionID = he_xid h, in_SessionDir = dir, in_SelfBinary = self, in_UID = us_UID u, in_NetworkInfo = ni,
         in_Merged = m, in_ProxyContainerID = pid\<rparr>" and es: "es = ea @ eb @ ec" by blast
  obtain cfg where cfg: "Merge (he_presets h) cfg (sf_allow fl) (sf_preset fl) = Inr m0" using mc by (rule merged_config_Inr)
  from start_network_Inr [OF n, unfolded if_True] obtain b pp cp where b: "he_random h = Inr b"
    and ip': "ni_ProxyIP ni = IP_text (nextIP (snd (randomSubnet b)))"
      "ni_SandboxIP ni = IP_text (case nextIP (snd (randomSubnet b)) of None \<Rightarrow> None | Some p \<Rightarrow> nextIP p)"
    and eb: "eb = [NetworkMade (ni_ID ni) (networkNamePrefix @ he_xid h) True (fst (randomSubnet b)) (IP_String (snd (randomSubnet b))),
            Acquired (Network (ni_ID ni))]"
    and ports: "RandomProxyPort (he_draw h) (mc_AllowHostPorts m0) = Inr pp" "RandomProxyPort (he_draw2 h) (mc_AllowHostPorts m0 @ [pp]) = Inr cp"
    and m: "m = m0\<lparr>mc_ProxyIP := ni_ProxyIP ni, mc_HostGateway := ''host-gateway'', mc_ProxyPort := pp, mc_ControlAPIPort := cp,
             mc_SSHForwardAddr := ni_SandboxIP ni @ '':2222''\<rparr>"
    by blast
  have ip: "ni_ProxyIP ni = IP_String [10, fst b, snd b, 2]" "ni_SandboxIP ni = IP_String [10, fst b, snd b, 3]"
    using ip' by (simp_all add: network_addresses IP_text_def)
  have gw: "IP_String (snd (randomSubnet b)) = IP_String [10, fst b, snd b, 1]"
    by (simp add: IP_String_def To4_def randomSubnet_def v4InV6Prefix_def)
  from start_proxy_Inr [OF p] obtain path creds where
      ec: "wiring ec = [ContainerMade pid (''vibepit-proxy-'' @ he_xid h) (proxy_spec (proxy_container_config h True root self path ni m creds)),
         NetworkJoined pid (ni_ID ni) (ni_ProxyIP ni)]" "ContainerStarted pid \<in> set ec" "ConfigWritten path m \<in> set ec" by blast
  have "\<exists>cfg. Merge (he_presets h) cfg (sf_allow fl) (sf_preset fl) = Inr m0" using cfg ..
  then show ?thesis
    by (rule that [of b path creds m0, rotated 6]) (use infra b ip es ea eb ec gw ports m in simp_all)
qed

text \<open>
  C8. A session that is up is wired as intended. Whatever the answers of the host, when \<^verbatim>\<open>up\<close> succeeds it has made
  one network without a route to the outside and two containers and no other connection: the proxy, which joins this network at
  the second address of its subnet and publishes ports on the loopback interface only; and the sandbox, whose only
  endpoint is this network, without published ports, capabilities and a writable root, and whose DNS server and HTTP proxy
  are the proxy. The configuration file that the proxy reads is the merged configuration with these
  addresses and two different unused ports, and the proxy starts with it.
\<close>

theorem session_is_wired:
  assumes up: "UpAction h fl = (Inr True, es, rs)"
  shows "\<exists>b nid pid sid path m ps sp net.
      he_random h = Inr b
    \<and> wiring es = [NetworkMade nid net True (fst (randomSubnet b)) (IP_String [10, fst b, snd b, 1]),
        ContainerMade pid (''vibepit-proxy-'' @ he_xid h) ps, NetworkJoined pid nid (IP_String [10, fst b, snd b, 2]),
        ContainerMade sid (''vibepit-sandbox-'' @ he_xid h) sp]
    \<and> {ContainerStarted pid, ContainerStarted sid, ConfigWritten path m} \<subseteq> set es
    \<and> isolated nid (IP_String [10, fst b, snd b, 3]) (IP_String [10, fst b, snd b, 2]) (mc_ProxyPort m) sp
    \<and> sp_Cmd ps = [''/vibepit'', ''proxy'', ''--config'', ''/config.json''] \<and> path @ '':/config.json:ro'' \<in> set (sp_Binds ps)
    \<and> (\<forall>(_, ip, _) \<in> set (sp_PortBindings ps). ip = ''127.0.0.1'')
    \<and> (\<exists>cfg m0. Merge (he_presets h) cfg (sf_allow fl) (sf_preset fl) = Inr m0
         \<and> m = m0\<lparr>mc_ProxyIP := IP_String [10, fst b, snd b, 2], mc_HostGateway := ''host-gateway'', mc_ProxyPort := mc_ProxyPort m,
                 mc_ControlAPIPort := mc_ControlAPIPort m, mc_SSHForwardAddr := IP_String [10, fst b, snd b, 3] @ '':2222''\<rparr>)
    \<and> (\<exists>r. Run (proxy_config m) = Inr r)
    \<and> {mc_ProxyPort m, mc_ControlAPIPort m} \<subseteq> {49152..65535} - set (mc_AllowHostPorts m) \<and> mc_ProxyPort m \<noteq> mc_ControlAPIPort m"
proof -
  obtain root u infra es0 es1 es2 rs1 rs2 where e: "wiring es0 = []" "es = es0 @ es1 @ es2"
      and i: "startSessionInfra h fl True root u = (Inr infra, es1, rs1)" and s: "up_sandbox h root u infra = (Inr (), es2, rs2)"
    using up by (rule UpAction_Inr)
  let ?m = "in_Merged infra" and ?ni = "in_NetworkInfo infra" and ?pid = "in_ProxyContainerID infra"
  from infra_is_wired [OF i] obtain b path m0 creds where b: "he_random h = Inr b" and sid: "in_SessionID infra = he_xid h"
    and ip: "ni_ProxyIP ?ni = IP_String [10, fst b, snd b, 2]" "ni_SandboxIP ?ni = IP_String [10, fst b, snd b, 3]"
    and w1: "wiring es1 = [NetworkMade (ni_ID ?ni) (networkNamePrefix @ he_xid h) True (fst (randomSubnet b)) (IP_String [10, fst b, snd b, 1]),
        ContainerMade ?pid (''vibepit-proxy-'' @ he_xid h) (proxy_spec (proxy_container_config h True root (in_SelfBinary infra) path ?ni ?m creds)),
        NetworkJoined ?pid (ni_ID ?ni) (IP_String [10, fst b, snd b, 2])]"
    and st1: "{ContainerStarted ?pid, ConfigWritten path ?m} \<subseteq> set es1"
    and mrg: "\<exists>cfg. Merge (he_presets h) cfg (sf_allow fl) (sf_preset fl) = Inr m0"
    and pts: "\<exists>pp cp. RandomProxyPort (he_draw h) (mc_AllowHostPorts m0) = Inr pp \<and> RandomProxyPort (he_draw2 h) (mc_AllowHostPorts m0 @ [pp]) = Inr cp
       \<and> ?m = m0\<lparr>mc_ProxyIP := IP_String [10, fst b, snd b, 2], mc_HostGateway := ''host-gateway'', mc_ProxyPort := pp,
           mc_ControlAPIPort := cp, mc_SSHForwardAddr := IP_String [10, fst b, snd b, 3] @ '':2222''\<rparr>" .
  from mrg pts obtain cfg pp cp where cfg: "Merge (he_presets h) cfg (sf_allow fl) (sf_preset fl) = Inr m0"
    and pp: "RandomProxyPort (he_draw h) (mc_AllowHostPorts m0) = Inr pp" and cp: "RandomProxyPort (he_draw2 h) (mc_AllowHostPorts m0 @ [pp]) = Inr cp"
    and m: "?m = m0\<lparr>mc_ProxyIP := IP_String [10, fst b, snd b, 2], mc_HostGateway := ''host-gateway'', mc_ProxyPort := pp,
           mc_ControlAPIPort := cp, mc_SSHForwardAddr := IP_String [10, fst b, snd b, 3] @ '':2222''\<rparr>" by blast
  from up_sandbox_Inr [OF s, unfolded sid] obtain cid client where
      w2: "wiring es2 = [ContainerMade cid (''vibepit-sandbox-'' @ he_xid h) (sandbox_spec (da_localtime (he_api h)) (daemon_sandbox_config h infra root u client))]"
        "ContainerStarted cid \<in> set es2" by blast
  let ?ps = "proxy_spec (proxy_container_config h True root (in_SelfBinary infra) path ?ni ?m creds)"
  let ?sp = "sandbox_spec (da_localtime (he_api h)) (daemon_sandbox_config h infra root u client)"
  have iso: "isolated (ni_ID ?ni) (IP_String [10, fst b, snd b, 3]) (IP_String [10, fst b, snd b, 2]) (mc_ProxyPort ?m) ?sp"
    using sandbox_isolated [of "daemon_sandbox_config h infra root u client"] ip by (simp add: daemon_sandbox_config_def baseSandboxConfig_def)
  have mp: "mc_ProxyPort ?m = pp" "mc_ControlAPIPort ?m = cp" "mc_AllowHostPorts ?m = mc_AllowHostPorts m0" by (simp_all add: m)
  have pr: "{mc_ProxyPort ?m, mc_ControlAPIPort ?m} \<subseteq> {49152..65535} - set (mc_AllowHostPorts ?m)" "mc_ProxyPort ?m \<noteq> mc_ControlAPIPort ?m"
    unfolding mp using random_port_loop_Inr [OF pp [unfolded RandomProxyPort_def]] random_port_loop_Inr [OF cp [unfolded RandomProxyPort_def]] by auto
  have run: "\<exists>r. Run (proxy_config ?m) = Inr r" unfolding m by (rule Merge_starts_Run [OF cfg])
  have ps: "sp_Cmd ?ps = [''/vibepit'', ''proxy'', ''--config'', ''/config.json'']" "path @ '':/config.json:ro'' \<in> set (sp_Binds ?ps)"
      "\<forall>(_, ip, _) \<in> set (sp_PortBindings ?ps). ip = ''127.0.0.1''"
    by (auto simp: proxy_spec_def proxy_container_config_def Let_def ProxyBinaryPath_def ProxyConfigPath_def)
  show ?thesis
    by (rule exI [of _ b], rule exI [of _ "ni_ID ?ni"], rule exI [of _ ?pid], rule exI [of _ cid], rule exI [of _ path], rule exI [of _ ?m],
        rule exI [of _ ?ps], rule exI [of _ ?sp], rule exI [of _ "networkNamePrefix @ he_xid h"])
      (intro conjI b iso ps run pr exI [of _ cfg] exI [of _ m0] cfg, use e w1 w2 st1 m mp in simp_all)
qed

theorem session_is_wired_witness:
  "\<exists>es rs. UpAction (ex_env [(True, ''running'')]) ex_flags = (Inr True, es, rs) \<and> length (wiring es) = 4 \<and> hd (wiring es) \<noteq> last (wiring es)"
proof -
  obtain r es rs where u: "UpAction (ex_env [(True, ''running'')]) ex_flags = (r, es, rs)" by (metis prod_cases3)
  moreover have "r = Inr True" using ex_up [of "[(True, ''running'')]"] u by (simp add: act_ret_def)
  ultimately have "UpAction (ex_env [(True, ''running'')]) ex_flags = (Inr True, es, rs)" by simp
  from this session_is_wired [OF this] show ?thesis by auto
qed

end
