(* ===== verification/MTLS.thy ===== *)
theory MTLS
  imports Net_Addr
begin

text \<open>
  Mutual TLS of the control API, \<^verbatim>\<open>proxy/mtls.go\<close>: the credentials of a session and the TLS configurations made from them.
  Keys and signatures are symbolic: a certificate carries the public key that its signature verifies under. Of
  \<^verbatim>\<open>crypto/x509\<close> and \<^verbatim>\<open>crypto/tls\<close> the checks that decide a handshake are modelled: validity, chains of issuers
  with their rights to sign, extended key usages, the address of the server, and possession of the private key. PEM is a
  parameter. Times are in seconds.
\<close>

section \<open>Keys and certificates\<close>

datatype private_key = Private nat
datatype public_key = Public nat

fun public_of :: "private_key \<Rightarrow> public_key" where "public_of (Private n) = Public n"

datatype ext_key_usage = ServerAuth | ClientAuth

record certificate =
  ct_SerialNumber :: int
  ct_Subject :: string
  ct_Issuer :: string
  ct_NotBefore :: int
  ct_NotAfter :: int
  ct_IsCA :: bool
  ct_BasicConstraintsValid :: bool
  ct_CertSign :: bool
  ct_DigitalSignature :: bool
  ct_ExtKeyUsage :: "ext_key_usage list"
  ct_IPAddresses :: "IP list"
  ct_PublicKey :: "public_key option"
  ct_SignedBy :: "public_key option"

text \<open>
  \<^verbatim>\<open>x509.CreateCertificate\<close>, followed by \<^verbatim>\<open>x509.ParseCertificate\<close> of its result. A template has no public key; the key of a
  parsed parent must be that of the signer.
\<close>

definition CreateCertificate :: "certificate \<Rightarrow> certificate \<Rightarrow> public_key \<Rightarrow> private_key \<Rightarrow> string + certificate" where
  "CreateCertificate template parent pub priv =
     (if ct_SerialNumber template < 0 then Inl ''serial number must be positive''
      else if ct_PublicKey parent \<noteq> None \<and> ct_PublicKey parent \<noteq> Some (public_of priv)
      then Inl ''provided PrivateKey doesn't match parent's PublicKey''
      else Inr (template\<lparr>ct_Issuer := ct_Subject parent, ct_PublicKey := Some pub, ct_SignedBy := Some (public_of priv)\<rparr>))"

section \<open>The credentials of a session\<close>

record MTLSCredentials =
  cr_CACert :: certificate
  cr_ServerCert :: certificate
  cr_serverKey :: private_key
  cr_ClientCert :: certificate
  cr_clientKey :: private_key

text \<open>The random source: the keys and the serial numbers that are drawn, in order.\<close>

record mtls_random =
  mr_key :: "nat \<Rightarrow> string + private_key"
  mr_serial :: "nat \<Rightarrow> string + int"

definition template :: "int \<Rightarrow> string \<Rightarrow> int \<Rightarrow> int \<Rightarrow> certificate" where
  "template serial name now notAfter =
     \<lparr>ct_SerialNumber = serial, ct_Subject = name, ct_Issuer = [], ct_NotBefore = now, ct_NotAfter = notAfter, ct_IsCA = False,
      ct_BasicConstraintsValid = False, ct_CertSign = False, ct_DigitalSignature = False, ct_ExtKeyUsage = [], ct_IPAddresses = [],
      ct_PublicKey = None, ct_SignedBy = None\<rparr>"

definition caTemplate :: "int \<Rightarrow> int \<Rightarrow> int \<Rightarrow> certificate" where
  "caTemplate serial now notAfter =
     (template serial ''Vibepit Ephemeral CA'' now notAfter)\<lparr>ct_IsCA := True, ct_BasicConstraintsValid := True, ct_CertSign := True\<rparr>"

definition serverTemplate :: "int \<Rightarrow> int \<Rightarrow> int \<Rightarrow> certificate" where
  "serverTemplate serial now notAfter =
     (template serial ''vibepit proxy'' now notAfter)
       \<lparr>ct_DigitalSignature := True, ct_ExtKeyUsage := [ServerAuth], ct_IPAddresses := [[127, 0, 0, 1]]\<rparr>"

definition clientTemplate :: "int \<Rightarrow> int \<Rightarrow> int \<Rightarrow> certificate" where
  "clientTemplate serial now notAfter =
     (template serial ''vibepit CLI'' now notAfter)\<lparr>ct_DigitalSignature := True, ct_ExtKeyUsage := [ClientAuth]\<rparr>"

text \<open>One key, one serial number and one certificate; \<open>n\<close> counts the draws.\<close>

definition issue ::
  "mtls_random \<Rightarrow> nat \<Rightarrow> string \<Rightarrow> (int \<Rightarrow> certificate) \<Rightarrow> (certificate \<times> private_key) option \<Rightarrow> string + (certificate \<times> private_key)" where
  "issue r n name tmpl ca =
     (case mr_key r n of
        Inl e \<Rightarrow> Inl (''generate '' @ name @ '' key: '' @ e)
      | Inr priv \<Rightarrow>
          (case mr_serial r n of
             Inl e \<Rightarrow> Inl (''generate serial: '' @ e)
           | Inr serial \<Rightarrow>
               let t = tmpl serial; (parent, signer) = (case ca of None \<Rightarrow> (t, priv) | Some p \<Rightarrow> p) in
               (case CreateCertificate t parent (public_of priv) signer of
                  Inl e \<Rightarrow> Inl (''create '' @ name @ '' cert: '' @ e)
                | Inr c \<Rightarrow> Inr (c, priv))))"

definition GenerateMTLSCredentials :: "mtls_random \<Rightarrow> int \<Rightarrow> int \<Rightarrow> string + MTLSCredentials" where
  "GenerateMTLSCredentials r now lifetime =
     (let notAfter = now + lifetime in
      case issue r 0 ''CA'' (\<lambda>s. caTemplate s now notAfter) None of Inl e \<Rightarrow> Inl e | Inr ca \<Rightarrow>
      (case issue r 1 ''server'' (\<lambda>s. serverTemplate s now notAfter) (Some ca) of Inl e \<Rightarrow> Inl e | Inr server \<Rightarrow>
      (case issue r 2 ''client'' (\<lambda>s. clientTemplate s now notAfter) (Some ca) of Inl e \<Rightarrow> Inl e | Inr client \<Rightarrow>
         Inr \<lparr>cr_CACert = fst ca, cr_ServerCert = fst server, cr_serverKey = snd server, cr_ClientCert = fst client, cr_clientKey = snd client\<rparr>)))"

section \<open>PEM and TLS configurations\<close>

record pem_lib =
  pl_cert :: "certificate \<Rightarrow> string"
  pl_key :: "private_key \<Rightarrow> string"
  pl_parse_cert :: "string \<Rightarrow> certificate option"
  pl_parse_key :: "string \<Rightarrow> private_key option"

definition CACertPEM :: "pem_lib \<Rightarrow> MTLSCredentials \<Rightarrow> string" where "CACertPEM pl c = pl_cert pl (cr_CACert c)"
definition ServerCertPEM :: "pem_lib \<Rightarrow> MTLSCredentials \<Rightarrow> string" where "ServerCertPEM pl c = pl_cert pl (cr_ServerCert c)"
definition ServerKeyPEM :: "pem_lib \<Rightarrow> MTLSCredentials \<Rightarrow> string" where "ServerKeyPEM pl c = pl_key pl (cr_serverKey c)"
definition ClientCertPEM :: "pem_lib \<Rightarrow> MTLSCredentials \<Rightarrow> string" where "ClientCertPEM pl c = pl_cert pl (cr_ClientCert c)"
definition ClientKeyPEM :: "pem_lib \<Rightarrow> MTLSCredentials \<Rightarrow> string" where "ClientKeyPEM pl c = pl_key pl (cr_clientKey c)"

record tls_config =
  tc_Certificate :: certificate
  tc_Key :: private_key
  tc_RequireClientCert :: bool
  tc_ClientCAs :: "certificate list"
  tc_RootCAs :: "certificate list"

definition X509KeyPair :: "pem_lib \<Rightarrow> string \<Rightarrow> string \<Rightarrow> string + certificate \<times> private_key" where
  "X509KeyPair pl certPEM keyPEM =
     (case pl_parse_cert pl certPEM of
        None \<Rightarrow> Inl ''failed to find any PEM data in certificate input''
      | Some c \<Rightarrow>
          (case pl_parse_key pl keyPEM of
             None \<Rightarrow> Inl ''failed to find any PEM data in key input''
           | Some k \<Rightarrow> if ct_PublicKey c = Some (public_of k) then Inr (c, k) else Inl ''private key does not match public key''))"

definition ServerTLSConfig :: "pem_lib \<Rightarrow> MTLSCredentials \<Rightarrow> string + tls_config" where
  "ServerTLSConfig pl c =
     (case X509KeyPair pl (ServerCertPEM pl c) (ServerKeyPEM pl c) of
        Inl e \<Rightarrow> Inl (''load server keypair: '' @ e)
      | Inr (cert, key) \<Rightarrow>
          Inr \<lparr>tc_Certificate = cert, tc_Key = key, tc_RequireClientCert = True, tc_ClientCAs = [cr_CACert c], tc_RootCAs = []\<rparr>)"

definition ClientTLSConfig :: "pem_lib \<Rightarrow> MTLSCredentials \<Rightarrow> string + tls_config" where
  "ClientTLSConfig pl c =
     (case X509KeyPair pl (ClientCertPEM pl c) (ClientKeyPEM pl c) of
        Inl e \<Rightarrow> Inl (''load client keypair: '' @ e)
      | Inr (cert, key) \<Rightarrow>
          Inr \<lparr>tc_Certificate = cert, tc_Key = key, tc_RequireClientCert = False, tc_ClientCAs = [], tc_RootCAs = [cr_CACert c]\<rparr>)"

definition EnvProxyTLSKey :: string where "EnvProxyTLSKey = ''VIBEPIT_PROXY_TLS_KEY''"
definition EnvProxyTLSCert :: string where "EnvProxyTLSCert = ''VIBEPIT_PROXY_TLS_CERT''"
definition EnvProxyCACert :: string where "EnvProxyCACert = ''VIBEPIT_PROXY_CA_CERT''"

definition LoadServerTLSConfigFromEnv :: "pem_lib \<Rightarrow> (string \<Rightarrow> string) \<Rightarrow> string + tls_config" where
  "LoadServerTLSConfigFromEnv pl getenv =
     (let keyPEM = getenv EnvProxyTLSKey; certPEM = getenv EnvProxyTLSCert; caPEM = getenv EnvProxyCACert in
      if keyPEM = [] \<or> certPEM = [] \<or> caPEM = [] then Inl ''all three TLS env vars must be set''
      else case X509KeyPair pl certPEM keyPEM of
             Inl e \<Rightarrow> Inl (''load server keypair from env: '' @ e)
           | Inr (cert, key) \<Rightarrow>
               (case pl_parse_cert pl caPEM of
                  None \<Rightarrow> Inl ''failed to parse CA certificate''
                | Some ca \<Rightarrow>
                    Inr \<lparr>tc_Certificate = cert, tc_Key = key, tc_RequireClientCert = True, tc_ClientCAs = [ca], tc_RootCAs = []\<rparr>))"

section \<open>The handshake\<close>

definition valid_at :: "int \<Rightarrow> certificate \<Rightarrow> bool" where
  "valid_at now c = (ct_NotBefore c \<le> now \<and> now \<le> ct_NotAfter c)"

definition usable_for :: "ext_key_usage \<Rightarrow> certificate \<Rightarrow> bool" where
  "usable_for u c = (ct_ExtKeyUsage c = [] \<or> u \<in> set (ct_ExtKeyUsage c))"

definition issued_by :: "certificate \<Rightarrow> certificate \<Rightarrow> bool" where
  "issued_by c p = (ct_Issuer c = ct_Subject p \<and> ct_PublicKey p \<noteq> None \<and> ct_SignedBy c = ct_PublicKey p
     \<and> ct_BasicConstraintsValid p \<and> ct_IsCA p \<and> (ct_DigitalSignature p \<longrightarrow> ct_CertSign p))"

text \<open>A certificate that a chain to a root leads to; the peer chooses the intermediate certificates.\<close>

inductive authority :: "certificate list \<Rightarrow> certificate list \<Rightarrow> int \<Rightarrow> ext_key_usage \<Rightarrow> certificate \<Rightarrow> bool"
  for roots inters now u where
  root: "p \<in> set roots \<Longrightarrow> valid_at now p \<Longrightarrow> usable_for u p \<Longrightarrow> authority roots inters now u p"
| intermediate: "p \<in> set inters \<Longrightarrow> valid_at now p \<Longrightarrow> usable_for u p \<Longrightarrow> issued_by p q \<Longrightarrow> authority roots inters now u q
    \<Longrightarrow> authority roots inters now u p"

definition verified :: "certificate list \<Rightarrow> certificate list \<Rightarrow> int \<Rightarrow> ext_key_usage \<Rightarrow> certificate \<Rightarrow> bool" where
  "verified roots inters now u c \<longleftrightarrow>
     valid_at now c \<and> usable_for u c \<and> (c \<in> set roots \<or> (\<exists>p. authority roots inters now u p \<and> issued_by c p))"

text \<open>What a peer shows: its certificate, intermediate certificates, and the private key that it signs the handshake with.\<close>

record tls_peer =
  tp_cert :: certificate
  tp_inters :: "certificate list"
  tp_key :: private_key

definition proves_key :: "tls_peer \<Rightarrow> bool" where
  "proves_key p = (ct_PublicKey (tp_cert p) = Some (public_of (tp_key p)))"

definition accepts_client :: "tls_config \<Rightarrow> int \<Rightarrow> tls_peer option \<Rightarrow> bool" where
  "accepts_client cfg now peer \<longleftrightarrow>
     (case peer of
        None \<Rightarrow> \<not> tc_RequireClientCert cfg
      | Some p \<Rightarrow> proves_key p \<and> verified (tc_ClientCAs cfg) (tp_inters p) now ClientAuth (tp_cert p))"

definition accepts_server :: "tls_config \<Rightarrow> int \<Rightarrow> IP \<Rightarrow> tls_peer \<Rightarrow> bool" where
  "accepts_server cfg now addr p \<longleftrightarrow>
     proves_key p \<and> verified (tc_RootCAs cfg) (tp_inters p) now ServerAuth (tp_cert p) \<and> addr \<in> set (ct_IPAddresses (tp_cert p))"

definition tls_self :: "tls_config \<Rightarrow> tls_peer" where
  "tls_self cfg = \<lparr>tp_cert = tc_Certificate cfg, tp_inters = [], tp_key = tc_Key cfg\<rparr>"

section \<open>Lemmas\<close>

lemma public_of_inj [simp]: "public_of k = public_of k' \<longleftrightarrow> k = k'"
  by (cases k; cases k') simp

lemmas template_defs = caTemplate_def serverTemplate_def clientTemplate_def template_def

text \<open>What the three certificates of a session are.\<close>

definition session_certs :: "int \<Rightarrow> int \<Rightarrow> private_key \<Rightarrow> MTLSCredentials \<Rightarrow> bool" where
  "session_certs now notAfter caKey c \<longleftrightarrow>
     (\<exists>s0 s1 s2. cr_CACert c = (caTemplate s0 now notAfter)\<lparr>ct_Issuer := ''Vibepit Ephemeral CA'', ct_PublicKey := Some (public_of caKey),
          ct_SignedBy := Some (public_of caKey)\<rparr>
      \<and> cr_ServerCert c = (serverTemplate s1 now notAfter)\<lparr>ct_Issuer := ''Vibepit Ephemeral CA'', ct_PublicKey := Some (public_of (cr_serverKey c)),
          ct_SignedBy := Some (public_of caKey)\<rparr>
      \<and> cr_ClientCert c = (clientTemplate s2 now notAfter)\<lparr>ct_Issuer := ''Vibepit Ephemeral CA'', ct_PublicKey := Some (public_of (cr_clientKey c)),
          ct_SignedBy := Some (public_of caKey)\<rparr>)"

lemma GenerateMTLSCredentials_Inr:
  assumes "GenerateMTLSCredentials r now lifetime = Inr c"
  obtains caKey where "mr_key r 0 = Inr caKey" "mr_key r 1 = Inr (cr_serverKey c)" "mr_key r 2 = Inr (cr_clientKey c)"
    "session_certs now (now + lifetime) caKey c"
  using assms
  by (auto simp: GenerateMTLSCredentials_def issue_def CreateCertificate_def Let_def session_certs_def template_defs
      split: sum.splits if_splits)

lemma leaf_issued_by_ca:
  assumes "session_certs now notAfter caKey c"
  shows "issued_by (cr_ServerCert c) (cr_CACert c)" "issued_by (cr_ClientCert c) (cr_CACert c)"
  using assms by (auto simp: session_certs_def issued_by_def template_defs)

lemma session_valid:
  assumes "session_certs now notAfter caKey c" and "now \<le> t" "t \<le> notAfter"
  shows "valid_at t (cr_CACert c)" "valid_at t (cr_ServerCert c)" "valid_at t (cr_ClientCert c)"
  using assms by (auto simp: session_certs_def valid_at_def template_defs)

lemma session_usable:
  assumes "session_certs now notAfter caKey c"
  shows "usable_for u (cr_CACert c)" "usable_for u (cr_ServerCert c) \<longleftrightarrow> u = ServerAuth" "usable_for u (cr_ClientCert c) \<longleftrightarrow> u = ClientAuth"
  using assms by (auto simp: session_certs_def usable_for_def template_defs)

text \<open>
  Signatures cannot be forged: a certificate whose signature verifies under the key of the authority was made with its private key, which
  signed three certificates and was then dropped.
\<close>

definition unforged :: "MTLSCredentials \<Rightarrow> certificate list \<Rightarrow> bool" where
  "unforged c certs \<longleftrightarrow>
     (\<forall>x \<in> set certs. ct_SignedBy x = ct_PublicKey (cr_CACert c) \<longrightarrow> x \<in> {cr_CACert c, cr_ServerCert c, cr_ClientCert c})"

lemma authority_is_ca:
  assumes "authority [cr_CACert c] inters now u p" and "unforged c inters" and "session_certs t0 t1 caKey c"
  shows "p = cr_CACert c \<or> \<not> ct_IsCA p"
  using assms
proof (induction rule: authority.induct)
  case (intermediate p q)
  then have "q = cr_CACert c" by (auto simp: issued_by_def)
  then have "p \<in> {cr_CACert c, cr_ServerCert c, cr_ClientCert c}" using intermediate by (auto simp: unforged_def issued_by_def)
  then show ?case using intermediate.prems(2) by (auto simp: session_certs_def template_defs)
qed simp

lemma verified_leaf:
  assumes v: "verified [cr_CACert c] inters now u x" and "unforged c (x # inters)" and s: "session_certs t0 t1 caKey c"
  shows "x = cr_CACert c \<or> x = cr_ServerCert c \<and> u = ServerAuth \<or> x = cr_ClientCert c \<and> u = ClientAuth"
proof (cases "x = cr_CACert c")
  case False
  then obtain p where p: "authority [cr_CACert c] inters now u p" "issued_by x p" using v by (auto simp: verified_def)
  have "p = cr_CACert c" using authority_is_ca [OF p(1) _ s] assms(2) p(2) by (auto simp: unforged_def issued_by_def)
  then have "x \<in> {cr_CACert c, cr_ServerCert c, cr_ClientCert c}" using assms(2) p(2) by (auto simp: unforged_def issued_by_def)
  then show ?thesis using v session_usable [OF s] by (auto simp: verified_def)
qed simp

lemma verified_key:
  assumes "verified [cr_CACert c] (tp_inters p) now u (tp_cert p)" and "unforged c (tp_cert p # tp_inters p)" and "session_certs t0 t1 caKey c"
    and "proves_key p" and "tp_key p \<noteq> caKey"
  shows "tp_key p = (case u of ServerAuth \<Rightarrow> cr_serverKey c | ClientAuth \<Rightarrow> cr_clientKey c)"
  using verified_leaf [OF assms(1-3)] assms(3-5) by (auto simp: proves_key_def session_certs_def split: ext_key_usage.splits)

end
