(* ===== verification/Control_Channel.thy ===== *)
theory Control_Channel
  imports Sandbox_Start MTLS
begin

text \<open>
  The credentials of a session on their way: the proxy gets its part in the environment of its container, the commands read theirs from the
  session directory, \<^verbatim>\<open>cmd/session.go\<close>. The theorem of this theory joins both ways and says who can use the
  control API.
\<close>

section \<open>Model\<close>

definition LoadSessionTLSConfig :: "pem_lib \<Rightarrow> (string \<Rightarrow> string + string) \<Rightarrow> host_env \<Rightarrow> string \<Rightarrow> string + tls_config" where
  "LoadSessionTLSConfig pl read h sessionID =
     (let dir = sessionDir h sessionID in
      case read (path_join dir ''ca.pem'') of Inl e \<Rightarrow> Inl (''read CA cert: '' @ e) | Inr caCert \<Rightarrow>
      (case read (path_join dir ''client-cert.pem'') of Inl e \<Rightarrow> Inl (''read client cert: '' @ e) | Inr clientCert \<Rightarrow>
      (case read (path_join dir ''client-key.pem'') of Inl e \<Rightarrow> Inl (''read client key: '' @ e) | Inr clientKey \<Rightarrow>
      (case X509KeyPair pl clientCert clientKey of Inl e \<Rightarrow> Inl (''load client keypair: '' @ e) | Inr (cert, key) \<Rightarrow>
      (case pl_parse_cert pl caCert of None \<Rightarrow> Inl ''failed to parse CA certificate'' | Some ca \<Rightarrow>
         Inr \<lparr>tc_Certificate = cert, tc_Key = key, tc_RequireClientCert = False, tc_ClientCAs = [], tc_RootCAs = [ca]\<rparr>)))))"

definition pem_credentials :: "pem_lib \<Rightarrow> MTLSCredentials \<Rightarrow> mtls_credentials" where
  "pem_credentials pl c =
     \<lparr>ml_ServerKeyPEM = ServerKeyPEM pl c, ml_ServerCertPEM = ServerCertPEM pl c, ml_CACertPEM = CACertPEM pl c,
      ml_ClientKeyPEM = ClientKeyPEM pl c, ml_ClientCertPEM = ClientCertPEM pl c\<rparr>"

text \<open>\<^verbatim>\<open>os.Getenv\<close> in a process with this environment: the first definition counts.\<close>

fun getenv :: "string list \<Rightarrow> string \<Rightarrow> string" where
  "getenv [] name = []"
| "getenv (e # es) name = (if has_prefix (name @ ''='') e then drop (length name + 1) e else getenv es name)"

text \<open>The content of a file after a list of effects.\<close>

fun file_of :: "host_effect list \<Rightarrow> string \<Rightarrow> string option" where
  "file_of [] path = None"
| "file_of (FileWritten p d # es) path = (case file_of es path of Some d' \<Rightarrow> Some d' | None \<Rightarrow> if p = path then Some d else None)"
| "file_of (_ # es) path = file_of es path"

definition read_file :: "host_effect list \<Rightarrow> string \<Rightarrow> string + string" where
  "read_file es path = (case file_of es path of None \<Rightarrow> Inl ''no such file or directory'' | Some d \<Rightarrow> Inr d)"

section \<open>Lemmas\<close>

lemma write_files_Inr:
  "write_files mk err dir fs = (Inr u, es, rs) \<Longrightarrow> es = map (\<lambda>(n, d). FileWritten (path_join dir n) d) fs"
  by (induction mk err dir fs arbitrary: es rs rule: write_files.induct) (auto simp: act_bind_Inr split: option.splits)

lemma file_of_written:
  assumes "distinct (map fst fs)" and "(n, d) \<in> set fs"
  shows "file_of (map (\<lambda>(n, d). FileWritten (path_join dir n) d) fs) (path_join dir n) = Some d"
proof -
  have inj: "path_join dir a = path_join dir b \<longleftrightarrow> a = b" for a b by (simp add: path_join_def)
  have none: "file_of (map (\<lambda>(n, d). FileWritten (path_join dir n) d) gs) (path_join dir n) = None" if "n \<notin> fst ` set gs" for gs
    using that by (induction gs) (auto simp: inj)
  show ?thesis using assms
  proof (induction fs)
    case (Cons f fs)
    then show ?case using none [of fs] by (cases f) (auto simp: inj image_iff split: option.splits)
  qed simp
qed

lemma credentials_files:
  assumes w: "WriteSessionCredentials h sid creds = (Inr dir, es, rs)" and order: "\<And>fs. mset (he_order h fs) = mset fs"
  shows "dir = sessionDir h sid" "file_of es (path_join dir ''ca.pem'') = Some (ml_CACertPEM creds)"
    "file_of es (path_join dir ''client-key.pem'') = Some (ml_ClientKeyPEM creds)"
    "file_of es (path_join dir ''client-cert.pem'') = Some (ml_ClientCertPEM creds)"
proof -
  let ?fs = "[(''ca.pem'', ml_CACertPEM creds), (''client-key.pem'', ml_ClientKeyPEM creds), (''client-cert.pem'', ml_ClientCertPEM creds)]"
  have m: "set (he_order h ?fs) = set ?fs" using order [of ?fs] by (metis set_mset_mset)
  have "mset (map fst (he_order h ?fs)) = mset (map fst ?fs)" using order [of ?fs] by (simp only: mset_map)
  moreover have "distinct (map fst ?fs)" by simp
  ultimately have d: "distinct (map fst (he_order h ?fs))" by (metis mset_eq_imp_distinct_iff)
  have es: "dir = sessionDir h sid"
    "es = Acquired (Credentials sid) # map (\<lambda>(n, d). FileWritten (path_join (sessionDir h sid) n) d) (he_order h ?fs)"
    using w by (auto simp: WriteSessionCredentials_def ensureSessionDir_def act_bind_Inr dest!: write_files_Inr simp del: write_files.simps)
  have f: "file_of es (path_join dir n) = Some x" if "(n, x) \<in> set ?fs" for n x
    using file_of_written [OF d, of n x "sessionDir h sid"] that m es by simp
  show "dir = sessionDir h sid" by (fact es)
  show "file_of es (path_join dir ''ca.pem'') = Some (ml_CACertPEM creds)" by (rule f) simp
  show "file_of es (path_join dir ''client-key.pem'') = Some (ml_ClientKeyPEM creds)" by (rule f) simp
  show "file_of es (path_join dir ''client-cert.pem'') = Some (ml_ClientCertPEM creds)" by (rule f) simp
qed

text \<open>The PEM texts of the credentials can be read back.\<close>

definition pem_ok :: "pem_lib \<Rightarrow> MTLSCredentials \<Rightarrow> bool" where
  "pem_ok pl c \<longleftrightarrow>
     (\<forall>x \<in> {cr_CACert c, cr_ServerCert c, cr_ClientCert c}. pl_parse_cert pl (pl_cert pl x) = Some x \<and> pl_cert pl x \<noteq> [])
     \<and> (\<forall>k \<in> {cr_serverKey c, cr_clientKey c}. pl_parse_key pl (pl_key pl k) = Some k \<and> pl_key pl k \<noteq> [])"

lemma proxy_environment:
  assumes "px_TLSKeyPEM cfg \<noteq> []"
  shows "getenv (sp_Env (proxy_spec cfg)) EnvProxyTLSKey = px_TLSKeyPEM cfg"
    "getenv (sp_Env (proxy_spec cfg)) EnvProxyTLSCert = px_TLSCertPEM cfg" "getenv (sp_Env (proxy_spec cfg)) EnvProxyCACert = px_CACertPEM cfg"
  using assms by (simp_all add: proxy_spec_def Let_def EnvProxyTLSKey_def EnvProxyTLSCert_def EnvProxyCACert_def has_prefix_def)

lemma server_config_loaded:
  assumes s: "session_certs now notAfter caKey c" and pem: "pem_ok pl c"
    and env: "env EnvProxyTLSKey = ServerKeyPEM pl c" "env EnvProxyTLSCert = ServerCertPEM pl c" "env EnvProxyCACert = CACertPEM pl c"
  shows "LoadServerTLSConfigFromEnv pl env
    = Inr \<lparr>tc_Certificate = cr_ServerCert c, tc_Key = cr_serverKey c, tc_RequireClientCert = True, tc_ClientCAs = [cr_CACert c], tc_RootCAs = []\<rparr>"
proof -
  have "ct_PublicKey (cr_ServerCert c) = Some (public_of (cr_serverKey c))" using s by (auto simp: session_certs_def)
  with pem show ?thesis
    by (simp add: LoadServerTLSConfigFromEnv_def env X509KeyPair_def ServerKeyPEM_def ServerCertPEM_def CACertPEM_def pem_ok_def Let_def)
qed

lemma client_config_loaded:
  assumes s: "session_certs now notAfter caKey c" and pem: "pem_ok pl c"
    and read: "read (path_join (sessionDir h sid) ''ca.pem'') = Inr (CACertPEM pl c)"
      "read (path_join (sessionDir h sid) ''client-cert.pem'') = Inr (ClientCertPEM pl c)"
      "read (path_join (sessionDir h sid) ''client-key.pem'') = Inr (ClientKeyPEM pl c)"
  shows "LoadSessionTLSConfig pl read h sid
    = Inr \<lparr>tc_Certificate = cr_ClientCert c, tc_Key = cr_clientKey c, tc_RequireClientCert = False, tc_ClientCAs = [], tc_RootCAs = [cr_CACert c]\<rparr>"
proof -
  have "ct_PublicKey (cr_ClientCert c) = Some (public_of (cr_clientKey c))" using s by (auto simp: session_certs_def)
  with pem show ?thesis
    by (simp add: LoadSessionTLSConfig_def read X509KeyPair_def ClientKeyPEM_def ClientCertPEM_def CACertPEM_def pem_ok_def Let_def)
qed

lemma session_verified:
  assumes s: "session_certs now notAfter caKey c" and t: "now \<le> t" "t \<le> notAfter"
  shows "verified [cr_CACert c] [] t ServerAuth (cr_ServerCert c)" "verified [cr_CACert c] [] t ClientAuth (cr_ClientCert c)"
proof -
  have a: "authority [cr_CACert c] [] t u (cr_CACert c)" for u
    by (rule authority.root) (use session_valid [OF s t] session_usable [OF s] in auto)
  show "verified [cr_CACert c] [] t ServerAuth (cr_ServerCert c)" "verified [cr_CACert c] [] t ClientAuth (cr_ClientCert c)"
    using a leaf_issued_by_ca [OF s] session_valid [OF s t] session_usable [OF s] unfolding verified_def by blast+
qed

section \<open>Properties\<close>

text \<open>
  C10. Only the holder of the session's client key uses the control API. The credentials that a session
  generates reach the proxy through the environment of its container and the commands through the session directory, whatever the order in
  which the files are written. With them each side accepts the other during the lifetime. At no time does the
  proxy accept a connection without a certificate or, if signatures cannot be forged and the
  authority's key is gone, one whose key is not the client key: the key in the proxy container does not suffice. Nor do the commands take
  anything for the proxy that does not hold the server key.
\<close>

theorem control_channel_authenticates:
  assumes gen: "GenerateMTLSCredentials r now lifetime = Inr c" and pem: "pem_ok pl c"
    and written: "WriteSessionCredentials h sid (pem_credentials pl c) = (Inr dir, es, rs)" and order: "\<And>fs. mset (he_order h fs) = mset fs"
  shows "\<exists>scfg ccfg.
      LoadServerTLSConfigFromEnv pl (getenv (sp_Env (proxy_spec (proxy_container_config h daemon root self path ni m (pem_credentials pl c))))) = Inr scfg
    \<and> LoadSessionTLSConfig pl (read_file es) h sid = Inr ccfg
    \<and> (\<forall>t. now \<le> t \<and> t \<le> now + lifetime \<longrightarrow> accepts_client scfg t (Some (tls_self ccfg)) \<and> accepts_server ccfg t [127, 0, 0, 1] (tls_self scfg))
    \<and> (\<forall>t. \<not> accepts_client scfg t None)
    \<and> (\<forall>t p. unforged c (tp_cert p # tp_inters p) \<longrightarrow> mr_key r 0 \<noteq> Inr (tp_key p) \<longrightarrow>
        (accepts_client scfg t (Some p) \<longrightarrow> tp_key p = cr_clientKey c) \<and> (\<forall>addr. accepts_server ccfg t addr p \<longrightarrow> tp_key p = cr_serverKey c))"
proof -
  obtain caKey where ca: "mr_key r 0 = Inr caKey" and s: "session_certs now (now + lifetime) caKey c"
    using gen by (rule GenerateMTLSCredentials_Inr)
  let ?cfg = "proxy_container_config h daemon root self path ni m (pem_credentials pl c)"
  let ?scfg = "\<lparr>tc_Certificate = cr_ServerCert c, tc_Key = cr_serverKey c, tc_RequireClientCert = True, tc_ClientCAs = [cr_CACert c], tc_RootCAs = []\<rparr>"
  let ?ccfg = "\<lparr>tc_Certificate = cr_ClientCert c, tc_Key = cr_clientKey c, tc_RequireClientCert = False, tc_ClientCAs = [], tc_RootCAs = [cr_CACert c]\<rparr>"
  have px: "px_TLSKeyPEM ?cfg = ServerKeyPEM pl c" "px_TLSCertPEM ?cfg = ServerCertPEM pl c" "px_CACertPEM ?cfg = CACertPEM pl c"
    by (simp_all add: proxy_container_config_def pem_credentials_def)
  have "px_TLSKeyPEM ?cfg \<noteq> []" using pem unfolding px by (simp add: ServerKeyPEM_def pem_ok_def)
  from proxy_environment [OF this] have "LoadServerTLSConfigFromEnv pl (getenv (sp_Env (proxy_spec ?cfg))) = Inr ?scfg"
    unfolding px by (rule server_config_loaded [OF s pem])
  moreover have "LoadSessionTLSConfig pl (read_file es) h sid = Inr ?ccfg"
    using credentials_files [OF written order] by (intro client_config_loaded [OF s pem]) (auto simp: read_file_def pem_credentials_def)
  moreover have "accepts_client ?scfg t (Some (tls_self ?ccfg))" "accepts_server ?ccfg t [127, 0, 0, 1] (tls_self ?scfg)"
    if "now \<le> t" "t \<le> now + lifetime" for t
    using session_verified [OF s that] s
    by (auto simp: accepts_client_def accepts_server_def tls_self_def proves_key_def session_certs_def template_defs)
  moreover have "tp_key p = cr_clientKey c" if "unforged c (tp_cert p # tp_inters p)" "mr_key r 0 \<noteq> Inr (tp_key p)" "accepts_client ?scfg t (Some p)" for t p
    using verified_key [of c p t ClientAuth, OF _ that(1) s] that ca by (auto simp: accepts_client_def)
  moreover have "tp_key p = cr_serverKey c" if "unforged c (tp_cert p # tp_inters p)" "mr_key r 0 \<noteq> Inr (tp_key p)" "accepts_server ?ccfg t addr p" for t p addr
    using verified_key [of c p t ServerAuth, OF _ that(1) s] that ca by (auto simp: accepts_server_def)
  moreover have "\<not> accepts_client ?scfg t None" for t by (simp add: accepts_client_def)
  ultimately show ?thesis by (intro exI [of _ ?scfg] exI [of _ ?ccfg]) blast
qed

definition ex_random :: mtls_random where
  "ex_random = \<lparr>mr_key = \<lambda>n. Inr (Private n), mr_serial = \<lambda>n. Inr (int n)\<rparr>"

definition ex_credentials :: MTLSCredentials where
  "ex_credentials = projr (GenerateMTLSCredentials ex_random 0 100)"

definition ex_pem :: pem_lib where
  "ex_pem = \<lparr>pl_cert = ct_Subject, pl_key = \<lambda>k. if k = cr_serverKey ex_credentials then ''s'' else ''c'',
     pl_parse_cert = \<lambda>t. find (\<lambda>x. ct_Subject x = t) [cr_CACert ex_credentials, cr_ServerCert ex_credentials, cr_ClientCert ex_credentials],
     pl_parse_key = \<lambda>t. if t = ''s'' then Some (cr_serverKey ex_credentials) else Some (cr_clientKey ex_credentials)\<rparr>"

theorem control_channel_authenticates_witness:
  "\<exists>es dir rs scfg ccfg. WriteSessionCredentials (ex_env []) ''x'' (pem_credentials ex_pem ex_credentials) = (Inr dir, es, rs)
    \<and> LoadSessionTLSConfig ex_pem (read_file es) (ex_env []) ''x'' = Inr ccfg
    \<and> accepts_client scfg 50 (Some (tls_self ccfg)) \<and> \<not> accepts_client scfg 50 None
    \<and> \<not> accepts_client scfg 50 (Some \<lparr>tp_cert = cr_ServerCert ex_credentials, tp_inters = [cr_CACert ex_credentials], tp_key = Private 1\<rparr>)"
proof -
  have gen: "GenerateMTLSCredentials ex_random 0 100 = Inr ex_credentials"
    by (simp add: ex_credentials_def GenerateMTLSCredentials_def issue_def CreateCertificate_def ex_random_def template_defs)
  have pem: "pem_ok ex_pem ex_credentials" by code_simp
  have keys: "cr_clientKey ex_credentials = Private 2" by code_simp
  obtain dir es rs where w: "WriteSessionCredentials (ex_env []) ''x'' (pem_credentials ex_pem ex_credentials) = (Inr dir, es, rs)"
    by (simp add: WriteSessionCredentials_def ensureSessionDir_def ex_env_def act_bind_def act_check_def act_emit_def act_ret_def)
  have order: "mset (he_order (ex_env []) fs) = mset fs" for fs by (simp add: ex_env_def)
  have u: "unforged ex_credentials [cr_ServerCert ex_credentials, cr_CACert ex_credentials]" by (simp add: unforged_def)
  have k: "mr_key ex_random 0 \<noteq> Inr (Private 1)" by (simp add: ex_random_def)
  note t = control_channel_authenticates [OF gen pem w order, of True "''/p''" "''/b''" "''/c''"
      "\<lparr>ni_ID = [], ni_ProxyIP = [], ni_SandboxIP = []\<rparr>" ex_merged]
  from t obtain scfg ccfg where a: "LoadSessionTLSConfig ex_pem (read_file es) (ex_env []) ''x'' = Inr ccfg" "\<not> accepts_client scfg 50 None"
      "accepts_client scfg 50 (Some (tls_self ccfg))"
      "\<And>p. unforged ex_credentials (tp_cert p # tp_inters p) \<Longrightarrow> mr_key ex_random 0 \<noteq> Inr (tp_key p) \<Longrightarrow> accepts_client scfg 50 (Some p)
        \<Longrightarrow> tp_key p = cr_clientKey ex_credentials"
    by fastforce
  have "\<not> accepts_client scfg 50 (Some \<lparr>tp_cert = cr_ServerCert ex_credentials, tp_inters = [cr_CACert ex_credentials], tp_key = Private 1\<rparr>)"
    using a(4) [of "\<lparr>tp_cert = cr_ServerCert ex_credentials, tp_inters = [cr_CACert ex_credentials], tp_key = Private 1\<rparr>"] u k keys by auto
  with w a(1-3) show ?thesis by blast
qed

end
