(* ===== verification/Control_Client.thy ===== *)
theory Control_Client
  imports Control_Channel Proxy_Server Config_Setup
begin

text \<open>
  The client of the control API and the commands that use it: \<^verbatim>\<open>cmd/control.go\<close>, the session lookup of
  \<^verbatim>\<open>cmd/session.go\<close> and \<^verbatim>\<open>cmd/allow.go\<close>. A call runs against the proxy's \<open>ServeHTTP\<close> over a link that may fail
  before the request arrives or lose the answer.
\<close>

section \<open>Sessions\<close>

record SessionInfo_cmd =
  si_ControlPort :: string
  si_SessionID :: string
  si_ProjectDir :: string

definition matchSession :: "ProxySession \<Rightarrow> string \<Rightarrow> bool" where
  "matchSession ps flt = (ps_SessionID ps = flt \<or> ps_ProjectDir ps = flt)"

definition sessionInfoFromProxy :: "ProxySession \<Rightarrow> SessionInfo_cmd" where
  "sessionInfoFromProxy ps = \<lparr>si_ControlPort = ps_ControlPort ps, si_SessionID = ps_SessionID ps, si_ProjectDir = ps_ProjectDir ps\<rparr>"

datatype control_error =
    NoSession
  | NoMatch string
  | Discover host_error
  | NotSelected
  | MissingPort string
  | NoCredentials string
  | CallFailed string
  | BadStatus
  | BadBody
  | InvalidAllow allow_error
  | SaveFailed setup_error

definition find_session :: "(ProxySession list \<Rightarrow> control_error + SessionInfo_cmd) \<Rightarrow> ProxySession list \<Rightarrow> string \<Rightarrow> control_error + SessionInfo_cmd" where
  "find_session selectSession sessions flt =
     (if sessions = [] then Inl NoSession
      else if flt \<noteq> [] then
        (case find (\<lambda>s. matchSession s flt) sessions of Some s \<Rightarrow> Inr (sessionInfoFromProxy s) | None \<Rightarrow> Inl (NoMatch flt))
      else case sessions of [s] \<Rightarrow> Inr (sessionInfoFromProxy s) | _ \<Rightarrow> selectSession sessions)"

definition discoverSession ::
  "daemon_env \<Rightarrow> docker_api \<Rightarrow> (ProxySession list \<Rightarrow> control_error + SessionInfo_cmd) \<Rightarrow> string \<Rightarrow> control_error + SessionInfo_cmd" where
  "discoverSession de api selectSession flt =
     (case NewClient de of
        (Inl e, _) \<Rightarrow> Inl (Discover e)
      | (Inr _, _) \<Rightarrow>
          (case ListProxySessions api of
             (Inl e, _) \<Rightarrow> Inl (Discover e)
           | (Inr sessions, _) \<Rightarrow> find_session selectSession sessions flt))"

section \<open>The client\<close>

datatype link = LinkUp | LinkDown string | ReplyLost string

definition control_call :: "link \<Rightarrow> proxy_state \<Rightarrow> api_request \<Rightarrow> (control_error + api_response) \<times> proxy_state" where
  "control_call l st r =
     (case l of
        LinkDown e \<Rightarrow> (Inl (CallFailed e), st)
      | LinkUp \<Rightarrow> (case ServeHTTP st r of (resp, st') \<Rightarrow> (Inr resp, st'))
      | ReplyLost e \<Rightarrow> (Inl (CallFailed e), snd (ServeHTTP st r)))"

definition NewControlClient :: "string + tls_config \<Rightarrow> SessionInfo_cmd \<Rightarrow> control_error + tls_config" where
  "NewControlClient loaded session =
     (if si_ControlPort session = [] then Inl (MissingPort (si_SessionID session))
      else case loaded of Inl e \<Rightarrow> Inl (NoCredentials e) | Inr cfg \<Rightarrow> Inr cfg)"

definition status_ok :: "api_response \<Rightarrow> bool" where
  "status_ok resp = (case resp of BadRequest _ \<Rightarrow> False | NotFound \<Rightarrow> False | MethodNotAllowed \<Rightarrow> False | _ \<Rightarrow> True)"

text \<open>The answer of a \<^verbatim>\<open>GET\<close>, decoded into the type that the caller expects.\<close>

definition control_get :: "link \<Rightarrow> proxy_state \<Rightarrow> string \<Rightarrow> string \<Rightarrow> (api_response \<Rightarrow> 'a option) \<Rightarrow> control_error + 'a" where
  "control_get l st path after decode =
     (case fst (control_call l st \<lparr>ar_Method = ''GET'', ar_Path = path, ar_After = after, ar_Entries = None\<rparr>) of
        Inl e \<Rightarrow> Inl e
      | Inr resp \<Rightarrow> if \<not> status_ok resp then Inl BadStatus else case decode resp of None \<Rightarrow> Inl BadBody | Some x \<Rightarrow> Inr x)"

definition decode_logs :: "api_response \<Rightarrow> LogEntry list option" where
  "decode_logs resp = (case resp of LogsResponse es \<Rightarrow> Some es | _ \<Rightarrow> None)"

definition client_Logs :: "link \<Rightarrow> proxy_state \<Rightarrow> control_error + LogEntry list" where
  "client_Logs l st = control_get l st ''/logs'' [] decode_logs"

definition LogsAfter :: "link \<Rightarrow> proxy_state \<Rightarrow> uint64 \<Rightarrow> control_error + LogEntry list" where
  "LogsAfter l st afterID = control_get l st ''/logs'' (show_nat (unat afterID)) decode_logs"

definition client_Stats :: "link \<Rightarrow> proxy_state \<Rightarrow> control_error + (string \<rightharpoonup> DomainStats)" where
  "client_Stats l st = control_get l st ''/stats'' [] (\<lambda>resp. case resp of StatsResponse m \<Rightarrow> Some m | _ \<Rightarrow> None)"

text \<open>The configuration as the proxy sends it; the client decodes the same object into the fields of \<^verbatim>\<open>config.MergedConfig\<close>.\<close>

definition client_Config :: "link \<Rightarrow> proxy_state \<Rightarrow> control_error + ProxyConfig" where
  "client_Config l st = control_get l st ''/config'' [] (\<lambda>resp. case resp of ConfigResponse c \<Rightarrow> Some c | _ \<Rightarrow> None)"

definition postAllow :: "link \<Rightarrow> proxy_state \<Rightarrow> string \<Rightarrow> string list \<Rightarrow> (control_error + string list) \<times> proxy_state" where
  "postAllow l st path entries =
     (case control_call l st \<lparr>ar_Method = ''POST'', ar_Path = path, ar_After = [], ar_Entries = Some entries\<rparr> of
        (Inl e, st') \<Rightarrow> (Inl e, st')
      | (Inr resp, st') \<Rightarrow>
          if \<not> status_ok resp then (Inl BadStatus, st')
          else case resp of Added es \<Rightarrow> (Inr es, st') | _ \<Rightarrow> (Inl BadBody, st'))"

definition client_AllowHTTP :: "link \<Rightarrow> proxy_state \<Rightarrow> string list \<Rightarrow> (control_error + string list) \<times> proxy_state" where
  "client_AllowHTTP l st entries = postAllow l st ''/allow-http'' entries"

definition client_AllowDNS :: "link \<Rightarrow> proxy_state \<Rightarrow> string list \<Rightarrow> (control_error + string list) \<times> proxy_state" where
  "client_AllowDNS l st entries = postAllow l st ''/allow-dns'' entries"

section \<open>The allow commands\<close>

record allow_env =
  al_discover :: "control_error + SessionInfo_cmd"
  al_credentials :: "string + tls_config"
  al_link :: link
  al_io :: project_io
  al_decode :: "string \<Rightarrow> string + ProjectConfig"
  al_yaml :: yaml_lib

definition allow_action ::
  "(string list \<Rightarrow> allow_error option) \<Rightarrow> (link \<Rightarrow> proxy_state \<Rightarrow> string list \<Rightarrow> (control_error + string list) \<times> proxy_state)
   \<Rightarrow> (project_io \<Rightarrow> (string \<Rightarrow> string + ProjectConfig) \<Rightarrow> yaml_lib \<Rightarrow> string list \<Rightarrow> string option \<Rightarrow> setup_error option \<times> string option)
   \<Rightarrow> allow_env \<Rightarrow> bool \<Rightarrow> string list \<Rightarrow> proxy_state \<Rightarrow> string option \<Rightarrow> control_error option \<times> proxy_state \<times> string option" where
  "allow_action validate post append_file env no_save entries st f =
     (if entries = [] then (None, st, f)
      else case validate entries of Some e \<Rightarrow> (Some (InvalidAllow e), st, f) | None \<Rightarrow>
      (case al_discover env of Inl e \<Rightarrow> (Some e, st, f) | Inr session \<Rightarrow>
      (case NewControlClient (al_credentials env) session of Inl e \<Rightarrow> (Some e, st, f) | Inr _ \<Rightarrow>
      (case post (al_link env) st entries of
         (Inl e, st') \<Rightarrow> (Some e, st', f)
       | (Inr added, st') \<Rightarrow>
           if no_save then (None, st', f)
           else case append_file (al_io env) (al_decode env) (al_yaml env) entries f of
                  (Some e, f') \<Rightarrow> (Some (SaveFailed e), st', f')
                | (None, f') \<Rightarrow> (None, st', f')))))"

definition AllowHTTPCommand where
  "AllowHTTPCommand env no_save entries st f = allow_action ValidateHTTPEntries client_AllowHTTP AppendAllowHTTP env no_save entries st f"

definition AllowDNSCommand where
  "AllowDNSCommand env no_save entries st f = allow_action ValidateDNSEntries client_AllowDNS AppendAllowDNS env no_save entries st f"

section \<open>Lemmas\<close>

lemma parse_show_uint64 [simp]: "parse_uint64_value (show_nat (unat w)) = w"
proof -
  have "uint w < 2 ^ 64" using uint_lt2p [of w] by simp
  then show ?thesis using show_nat_digits [of "unat w"] by (simp add: parse_uint64_value_def)
qed

lemma LogsAfter_up [simp]: "LogsAfter LinkUp st afterID = Inr (EntriesAfter (ps_log st) afterID)"
  by (simp add: LogsAfter_def control_get_def control_call_def ServeHTTP_def handleLogs_def status_ok_def decode_logs_def Let_def)

lemma LogsAfter_Inr: "LogsAfter l st afterID = Inr es \<Longrightarrow> es = EntriesAfter (ps_log st) afterID"
  by (cases l) (simp_all, simp_all add: LogsAfter_def control_get_def control_call_def)

lemma client_AllowHTTP_Inr:
  assumes "client_AllowHTTP l st entries = (Inr added, st')"
  shows "added = entries \<and> ValidateHTTPEntries entries = None \<and> st' = st\<lparr>ps_http := ps_http st @ map parseHTTPRule entries\<rparr>"
  using assms
  by (cases l) (auto simp: client_AllowHTTP_def postAllow_def control_call_def ServeHTTP_def handleAllowHTTP_def decodeAllowRequest_def
      HTTPAllowlist_Add_def status_ok_def Let_def split: if_splits option.splits sum.splits)

lemma client_AllowDNS_Inr:
  assumes "client_AllowDNS l st entries = (Inr added, st')"
  shows "added = entries \<and> ValidateDNSEntries entries = None \<and> st' = st\<lparr>ps_dns := ps_dns st @ map parseDNSRule entries\<rparr>"
  using assms
  by (cases l) (auto simp: client_AllowDNS_def postAllow_def control_call_def ServeHTTP_def handleAllowDNS_def decodeAllowRequest_def
      DNSAllowlist_Add_def status_ok_def Let_def split: if_splits option.splits sum.splits)

lemma http_added:
  assumes "ValidateHTTPEntries entries = None"
  shows "HTTPAllowlist_Allows (al @ map parseHTTPRule entries) host port
    \<longleftrightarrow> HTTPAllowlist_Allows al host port \<or> (\<exists>e \<in> set entries. http_entry_admits e (host, port))"
  using http_rules.rules_hit [OF assms [unfolded ValidateHTTPEntries_def], of "(host, port)"]
  by (auto simp: HTTPAllowlist_Allows_iff bex_Un)

lemma dns_added:
  assumes "ValidateDNSEntries entries = None"
  shows "DNSAllowlist_Allows (al @ map parseDNSRule entries) host
    \<longleftrightarrow> DNSAllowlist_Allows al host \<or> (\<exists>e \<in> set entries. domain_admits e host)"
  using dns_rules.rules_hit [OF assms [unfolded ValidateDNSEntries_def], of host]
  by (auto simp: DNSAllowlist_Allows_iff bex_Un)

text \<open>Every failure before the call leaves the proxy as it was, every failure of the call the file.\<close>

lemma allow_action_failed:
  assumes "allow_action validate post append_file env no_save entries st f = (Some err, st', f')"
  shows "(\<nexists>e. err = SaveFailed e) \<longrightarrow> f' = f"
    and "validate entries \<noteq> None \<or> isl (al_discover env) \<or> (\<exists>e. NewControlClient (al_credentials env) (projr (al_discover env)) = Inl e) \<longrightarrow> st' = st \<and> f' = f"
  using assms unfolding allow_action_def
  by (auto split: if_splits option.splits sum.splits prod.splits)

section \<open>Properties\<close>


definition ex_allow :: allow_env where
  "ex_allow = \<lparr>al_discover = Inr \<lparr>si_ControlPort = ''1'', si_SessionID = ''x'', si_ProjectDir = ''/p''\<rparr>,
        al_credentials = Inr \<lparr>tc_Certificate = template 0 [] 0 0, tc_Key = Private 0, tc_RequireClientCert = False, tc_ClientCAs = [], tc_RootCAs = []\<rparr>,
        al_link = LinkUp, al_io = sample_io, al_decode = sample_decode, al_yaml = sample_yaml\<rparr>"



end
