(* ===== verification/TUI_Header.thy ===== *)
theory TUI_Header
  imports TUI_Cursor
begin

text \<open>
  The header and the banner of the terminal screens, \<^verbatim>\<open>tui/header.go\<close>, and the row style of \<^verbatim>\<open>tui/screen.go\<close>. Styling
  (\<^verbatim>\<open>lipgloss\<close>) and the width of a text on the screen (\<^verbatim>\<open>ansi\<close>) are libraries, given by \<open>ui_lib\<close>; a text is
  its UTF-8 bytes, and a rune the bytes of one character. \<open>single_lines\<close> is what the layout relies on: styling or truncating a text of one line
  gives a text of one line.
\<close>

section \<open>Styles\<close>

datatype ui_color = ColorCyan | ColorPurple | ColorOrange | ColorField | ColorHighlight | Mixed ui_color ui_color int int

definition ColorError :: ui_color where "ColorError = ColorPurple"

record ui_style =
  us_Foreground :: "ui_color option"
  us_Background :: "ui_color option"
  us_Italic :: bool
  us_Bold :: bool
  us_Faint :: bool

definition NewStyle :: ui_style where
  "NewStyle = \<lparr>us_Foreground = None, us_Background = None, us_Italic = False, us_Bold = False, us_Faint = False\<rparr>"

definition Foreground :: "ui_style \<Rightarrow> ui_color \<Rightarrow> ui_style" where
  "Foreground st c = st\<lparr>us_Foreground := Some c\<rparr>"

record ui_lib =
  ul_Render :: "ui_style \<Rightarrow> string \<Rightarrow> string"
  ul_StringWidth :: "string \<Rightarrow> int"
  ul_Truncate :: "string \<Rightarrow> int \<Rightarrow> string \<Rightarrow> string"
  ul_Format :: "int \<Rightarrow> string"
  ul_HOME :: string

definition repeat_text :: "string \<Rightarrow> int \<Rightarrow> string" where
  "repeat_text s n = concat (replicate (nat n) s)"

abbreviation nl :: char where "nl \<equiv> CHR 0x0A"

definition join_lines :: "string list \<Rightarrow> string" where
  "join_lines = join_with [nl]"

definition LineStyle :: "ui_lib \<Rightarrow> bool \<Rightarrow> ui_style \<times> string" where
  "LineStyle ui highlighted =
     (if \<not> highlighted then (NewStyle, ''  '')
      else let base = NewStyle\<lparr>us_Background := Some ColorHighlight\<rparr> in
        (base, ul_Render ui ((Foreground NewStyle ColorCyan)\<lparr>us_Background := Some ColorHighlight\<rparr>) [CHR 0xE2, CHR 0x9E, CHR 0x94] @ ul_Render ui base '' ''))"

section \<open>Wordmark\<close>

type_synonym rune = string

definition full_block :: rune where "full_block = [CHR 0xE2, CHR 0x96, CHR 0x88]"
definition upper_half :: rune where "upper_half = [CHR 0xE2, CHR 0x96, CHR 0x80]"
definition lower_half :: rune where "lower_half = [CHR 0xE2, CHR 0x96, CHR 0x84]"

text \<open>The rows of a letter are drawn with \<^verbatim>\<open>#\<close> for the full block, \<^verbatim>\<open>^\<close> for the upper half and \<^verbatim>\<open>_\<close> for the lower half.\<close>

definition draw :: "string \<Rightarrow> rune list" where
  "draw = map (\<lambda>c. if c = CHR ''#'' then full_block else if c = CHR ''^'' then upper_half else if c = CHR ''_'' then lower_half else [c])"

definition glyphs :: "(char \<times> string \<times> string \<times> string) list" where
  "glyphs =
     [(CHR ''V'', ''#   #'', ''^_ _^'', '' ^#^ ''),
      (CHR ''I'', ''^#^'', '' # '', ''_#_''),
      (CHR ''B'', ''#^^_'', ''#__^'', ''#__^''),
      (CHR ''E'', ''#^^^'', ''#__ '', ''#___''),
      (CHR ''P'', ''#^^_'', ''#__^'', ''#   ''),
      (CHR ''T'', ''^^#^^'', ''  #  '', ''  #  '')]"

fun wordmark_from :: "nat \<Rightarrow> string \<Rightarrow> rune list \<times> rune list \<times> rune list \<Rightarrow> rune list \<times> rune list \<times> rune list" where
  "wordmark_from i [] rows = rows"
| "wordmark_from i (ch # word) rows =
     (case map_of glyphs ch of
        None \<Rightarrow> wordmark_from (Suc i) word rows
      | Some (t, m, b) \<Rightarrow>
          let sp = (if i > 0 then ['' ''] else []) @ ['' '', '' ''] in
          wordmark_from (Suc i) word (fst rows @ sp @ draw t, fst (snd rows) @ sp @ draw m, snd (snd rows) @ sp @ draw b))"

definition buildWordmark :: "string \<Rightarrow> rune list list" where
  "buildWordmark word = (case wordmark_from 0 word ([], [], []) of (a, b, c) \<Rightarrow> [a, b, c])"

definition applyGradient :: "ui_lib \<Rightarrow> rune list \<Rightarrow> ui_color \<Rightarrow> ui_color \<Rightarrow> string" where
  "applyGradient ui s colorA colorB =
     concat (map (\<lambda>(i, r). if r = '' '' then r
        else ul_Render ui (Foreground NewStyle (Mixed colorA colorB (int i) (max (int (length s) - 1) 1))) r) (enumerate 0 s))"

section \<open>Header\<close>

definition CompactHeaderThreshold :: int where "CompactHeaderThreshold = 15"
definition defaultBannerWidth :: int where "defaultBannerWidth = 80"

record HeaderInfo =
  hi_ProjectDir :: string
  hi_SessionID :: string

definition ProjectDirWithHome :: "string \<Rightarrow> HeaderInfo \<Rightarrow> string" where
  "ProjectDirWithHome home info =
     (if home \<noteq> [] \<and> has_prefix home (hi_ProjectDir info) then ''$HOME'' @ drop (length home) (hi_ProjectDir info) else hi_ProjectDir info)"

definition slash_rune :: rune where "slash_rune = [CHR 0xE2, CHR 0x95, CHR 0xB1]"

definition fieldChar :: "ui_lib \<Rightarrow> string" where
  "fieldChar ui = ul_Render ui (Foreground NewStyle ColorField) slash_rune"

definition render_tagline :: "ui_lib \<Rightarrow> string \<Rightarrow> string" where
  "render_tagline ui s = ul_Render ui ((Foreground NewStyle ColorOrange)\<lparr>us_Italic := True\<rparr>) s"

definition render_session :: "ui_lib \<Rightarrow> HeaderInfo \<Rightarrow> string" where
  "render_session ui info =
     ul_Render ui (Foreground NewStyle ColorField)
       (ProjectDirWithHome (ul_HOME ui) info @ '' '' @ slash_rune @ slash_rune @ '' '' @ hi_SessionID info)"

definition RenderNameWithGradient :: "ui_lib \<Rightarrow> string" where
  "RenderNameWithGradient ui = applyGradient ui (map (\<lambda>c. [c]) ''VIBEPIT'') ColorCyan ColorPurple"

definition renderCompactHeader :: "ui_lib \<Rightarrow> HeaderInfo \<Rightarrow> int \<Rightarrow> string" where
  "renderCompactHeader ui info width =
     (let sessionInfo = render_session ui info;
          pad = repeat_text (fieldChar ui) 3;
          fixedWidth = 3 + 1 + ul_StringWidth ui ''VIBEPIT'' + 2 + ul_StringWidth ui ''I PITY THE VIBES'' + 1 + 1 + ul_StringWidth ui sessionInfo + 1 + 3;
          fieldFill = repeat_text (fieldChar ui) (max (width - fixedWidth) 1)
      in pad @ '' '' @ RenderNameWithGradient ui @ ''  '' @ render_tagline ui ''I pity the vibes'' @ '' '' @ fieldFill @ '' '' @ sessionInfo @ '' '' @ pad)"

definition leftPadLen :: int where "leftPadLen = 3 + 2"

definition wordmark_lines :: "ui_lib \<Rightarrow> int \<Rightarrow> string list" where
  "wordmark_lines ui width =
     (let rows = buildWordmark ''VIBEPIT''; wordmarkWidth = ul_StringWidth ui (concat (rows ! 0)) in
      map (\<lambda>row. repeat_text (fieldChar ui) 3 @ applyGradient ui row ColorCyan ColorPurple @ ''  ''
                 @ repeat_text (fieldChar ui) (max (width - wordmarkWidth - leftPadLen) 0)) rows)"

definition RenderHeader :: "ui_lib \<Rightarrow> HeaderInfo \<Rightarrow> int \<Rightarrow> int \<Rightarrow> string" where
  "RenderHeader ui info width0 height =
     (let width = (if width0 < 40 then 40 else width0) in
      if 0 < height \<and> height < CompactHeaderThreshold then renderCompactHeader ui info width
      else let tagline = render_tagline ui ''I PITY THE VIBES''; sessionInfo = render_session ui info;
               gap = max (width - leftPadLen - ul_StringWidth ui tagline - ul_StringWidth ui sessionInfo) 2
           in join_lines (wordmark_lines ui width @ [repeat_text '' '' leftPadLen @ tagline @ repeat_text '' '' gap @ sessionInfo]))"

section \<open>Banner\<close>

definition renderCompactBanner :: "ui_lib \<Rightarrow> int \<Rightarrow> string" where
  "renderCompactBanner ui width =
     (let pad = repeat_text (fieldChar ui) 3;
          fixedWidth = 3 + 1 + ul_StringWidth ui ''VIBEPIT'' + 2 + ul_StringWidth ui ''I pity the vibes'' + 1 + 3
      in pad @ '' '' @ RenderNameWithGradient ui @ ''  '' @ render_tagline ui ''I pity the vibes'' @ '' ''
         @ repeat_text (fieldChar ui) (max (width - fixedWidth) 1) @ pad)"

definition renderFullBanner :: "ui_lib \<Rightarrow> int \<Rightarrow> string" where
  "renderFullBanner ui width =
     join_lines (wordmark_lines ui width @ [repeat_text '' '' leftPadLen @ render_tagline ui ''I PITY THE VIBES''])"

definition RenderBanner :: "ui_lib \<Rightarrow> int \<Rightarrow> int \<Rightarrow> string" where
  "RenderBanner ui width0 height =
     (let width = (if width0 < 40 then 40 else width0) in
      if 0 < height \<and> height < CompactHeaderThreshold then renderCompactBanner ui width else renderFullBanner ui width)"

definition normalizeBannerSize :: "int \<Rightarrow> int \<Rightarrow> bool \<Rightarrow> int \<times> int" where
  "normalizeBannerSize width height err =
     (if err \<or> width \<le> 0 then defaultBannerWidth else width, if err \<or> height \<le> 0 then 0 else height)"

definition writeBanner :: "ui_lib \<Rightarrow> int \<Rightarrow> int \<Rightarrow> string" where
  "writeBanner ui width height = RenderBanner ui width height @ [nl, nl]"

text \<open>What \<^verbatim>\<open>PrintHeader\<close> writes, from the size that the terminal reports, or none.\<close>

definition PrintHeader :: "ui_lib \<Rightarrow> (int \<times> int) option \<Rightarrow> string" where
  "PrintHeader ui reported =
     (case (case reported of None \<Rightarrow> normalizeBannerSize 0 0 True | Some (w, h) \<Rightarrow> normalizeBannerSize w h False) of
        (width, height) \<Rightarrow> writeBanner ui width height)"

section \<open>Lines\<close>

text \<open>The number of lines of a text, as \<^verbatim>\<open>strings.Count(s, "\n") + 1\<close>.\<close>

definition line_count :: "string \<Rightarrow> int" where
  "line_count s = int (count_list s nl) + 1"

definition single_lines :: "ui_lib \<Rightarrow> bool" where
  "single_lines ui \<longleftrightarrow> (\<forall>st s. nl \<notin> set s \<longrightarrow> nl \<notin> set (ul_Render ui st s))
     \<and> (\<forall>s n t. nl \<notin> set s \<longrightarrow> nl \<notin> set t \<longrightarrow> nl \<notin> set (ul_Truncate ui s n t))"

definition one_line_info :: "HeaderInfo \<Rightarrow> bool" where
  "one_line_info info \<longleftrightarrow> nl \<notin> set (hi_ProjectDir info) \<and> nl \<notin> set (hi_SessionID info)"

lemma count_join_lines:
  "ls \<noteq> [] \<Longrightarrow> int (count_list (join_lines ls) nl) = (\<Sum>l\<leftarrow>ls. int (count_list l nl)) + int (length ls) - 1"
proof (induction ls)
  case (Cons l ls)
  then show ?case by (cases ls) (simp_all add: join_lines_def)
qed simp

lemma line_count_join: "ls \<noteq> [] \<Longrightarrow> line_count (join_lines ls) = (\<Sum>l\<leftarrow>ls. line_count l)"
  by (simp add: line_count_def count_join_lines sum_list_addf sum_list_triv)

lemma line_count_one: "nl \<notin> set s \<longleftrightarrow> line_count s = 1"
  by (simp add: line_count_def count_list_0_iff)

lemma single_Render: "single_lines ui \<Longrightarrow> nl \<notin> set s \<Longrightarrow> nl \<notin> set (ul_Render ui st s)"
  by (simp add: single_lines_def)

lemma single_repeat: "nl \<notin> set s \<Longrightarrow> nl \<notin> set (repeat_text s n)"
  by (auto simp: repeat_text_def)

lemma single_gradient:
  assumes "single_lines ui" and "\<forall>r \<in> set s. nl \<notin> set r"
  shows "nl \<notin> set (applyGradient ui s a b)"
  using assms by (auto simp: applyGradient_def in_set_enumerate_eq single_Render split: if_splits)

lemma single_wordmark: "row \<in> set (buildWordmark ''VIBEPIT'') \<Longrightarrow> r \<in> set row \<Longrightarrow> nl \<notin> set r"
proof -
  have "list_all (list_all (\<lambda>r. nl \<notin> set r)) (buildWordmark ''VIBEPIT'')" by code_simp
  then show "row \<in> set (buildWordmark ''VIBEPIT'') \<Longrightarrow> r \<in> set row \<Longrightarrow> nl \<notin> set r" by (auto simp: list_all_iff)
qed

lemma single_field: "single_lines ui \<Longrightarrow> nl \<notin> set (fieldChar ui)"
  by (simp add: fieldChar_def single_Render slash_rune_def)

lemma single_name: "single_lines ui \<Longrightarrow> nl \<notin> set (RenderNameWithGradient ui)"
  unfolding RenderNameWithGradient_def by (rule single_gradient) auto

lemma single_tagline: "single_lines ui \<Longrightarrow> nl \<notin> set (render_tagline ui ''I pity the vibes'')"
    "single_lines ui \<Longrightarrow> nl \<notin> set (render_tagline ui ''I PITY THE VIBES'')"
  by (simp_all add: render_tagline_def single_Render)

lemma single_session:
  assumes "single_lines ui" and "one_line_info info"
  shows "nl \<notin> set (render_session ui info)"
  using assms unfolding render_session_def one_line_info_def
  by (intro single_Render) (auto simp: ProjectDirWithHome_def slash_rune_def dest: in_set_dropD)

lemma wordmark_lines_three: "single_lines ui \<Longrightarrow> length (wordmark_lines ui width) = 3 \<and> (\<forall>l \<in> set (wordmark_lines ui width). nl \<notin> set l)"
  using single_wordmark
  by (auto simp: wordmark_lines_def Let_def buildWordmark_def single_field single_repeat single_gradient split: prod.splits)

lemmas single_parts = single_field single_repeat single_name single_tagline single_session

lemma lines_all_single: "\<forall>l \<in> set ls. nl \<notin> set l \<Longrightarrow> ls \<noteq> [] \<Longrightarrow> line_count (join_lines ls) = int (length ls)"
  by (simp add: line_count_join line_count_one sum_list_triv cong: map_cong)

lemma header_line_count:
  assumes "single_lines ui" and "one_line_info info"
  shows "line_count (RenderHeader ui info width height) = (if 0 < height \<and> height < CompactHeaderThreshold then 1 else 4)"
proof (cases "0 < height \<and> height < CompactHeaderThreshold")
  case True
  then show ?thesis
    using assms by (simp add: RenderHeader_def renderCompactHeader_def Let_def single_parts flip: line_count_one)
next
  case False
  then show ?thesis
    using assms wordmark_lines_three [OF assms(1)]
    by (auto simp: RenderHeader_def Let_def lines_all_single single_parts)
qed

lemma banner_line_count:
  assumes "single_lines ui"
  shows "line_count (RenderBanner ui width height) = (if 0 < height \<and> height < CompactHeaderThreshold then 1 else 4)"
proof (cases "0 < height \<and> height < CompactHeaderThreshold")
  case True
  then show ?thesis
    using assms by (simp add: RenderBanner_def renderCompactBanner_def Let_def single_parts flip: line_count_one)
next
  case False
  then show ?thesis
    using assms wordmark_lines_three [OF assms(1)]
    by (auto simp: RenderBanner_def renderFullBanner_def Let_def lines_all_single single_parts)
qed

end
