(* ===== verification/TUI_Window.thy ===== *)
theory TUI_Window
  imports TUI_Header
begin

text \<open>
  The window that shows one screen, \<^verbatim>\<open>tui/window.go\<close>, and the status lines of \<^verbatim>\<open>tui/status.go\<close>. A message is what the event
  loop delivers, the key of a key message its \<^verbatim>\<open>String()\<close>; a command is what the loop is asked to do. Messages and commands of the screens
  are type parameters. Time is in milliseconds. The locale \<open>tui_screen\<close> is the contract of the interface \<^verbatim>\<open>Screen\<close>: an
  update keeps the invariant of the screen, which speaks of the height that the screen was told, and leaves the size of the window alone.
\<close>

section \<open>Window\<close>

record Window =
  wn_header :: HeaderInfo
  wn_width :: int
  wn_height :: int
  wn_vpHeight :: int
  wn_tickFrame :: int
  wn_flash :: string
  wn_flashExp :: int
  wn_err :: "string option"

definition NewWindow :: "HeaderInfo \<Rightarrow> Window" where
  "NewWindow header = \<lparr>wn_header = header, wn_width = 0, wn_height = 0, wn_vpHeight = 0, wn_tickFrame = 0, wn_flash = [], wn_flashExp = 0, wn_err = None\<rparr>"

definition TickInterval :: int where "TickInterval = 250"

definition IntervalElapsed :: "Window \<Rightarrow> int \<Rightarrow> bool" where
  "IntervalElapsed w interval = (let n = interval div TickInterval in if n \<le> 1 then True else wn_tickFrame w mod n = 0)"

definition SetFlash :: "int \<Rightarrow> Window \<Rightarrow> string \<Rightarrow> Window" where
  "SetFlash now w msg = w\<lparr>wn_flash := msg, wn_flashExp := now + 2000\<rparr>"

definition SetHeader :: "Window \<Rightarrow> HeaderInfo \<Rightarrow> Window" where
  "SetHeader w info = w\<lparr>wn_header := info\<rparr>"

definition SetError :: "Window \<Rightarrow> string \<Rightarrow> Window" where
  "SetError w err = w\<lparr>wn_err := Some err\<rparr>"

definition ClearError :: "Window \<Rightarrow> Window" where
  "ClearError w = w\<lparr>wn_err := None\<rparr>"

definition headerHeight :: "ui_lib \<Rightarrow> Window \<Rightarrow> int" where
  "headerHeight ui w = line_count (RenderHeader ui (wn_header w) (wn_width w) (wn_height w))"

section \<open>Update\<close>

datatype 'm ui_msg = KeyPressMsg string | WindowSizeMsg int int | TickMsg | ScreenMsg 'm

datatype 'c ui_cmd = Quit | DoTick | ScreenCmd 'c

definition window_frame :: "ui_lib \<Rightarrow> int \<Rightarrow> Window \<Rightarrow> 'm ui_msg \<Rightarrow> Window \<times> 'c ui_cmd list" where
  "window_frame ui now w msg =
     (case msg of
        WindowSizeMsg width height \<Rightarrow>
          let w1 = w\<lparr>wn_width := width, wn_height := height\<rparr> in (w1\<lparr>wn_vpHeight := max (height - headerHeight ui w1 - 1) 1\<rparr>, [])
      | TickMsg \<Rightarrow>
          (w\<lparr>wn_tickFrame := wn_tickFrame w + 1, wn_flash := (if wn_flash w \<noteq> [] \<and> wn_flashExp w < now then [] else wn_flash w)\<rparr>, [DoTick])
      | _ \<Rightarrow> (w, []))"

text \<open>An update of the screen gives the screen to show, whether it is another one, a command and the window.\<close>

type_synonym ('s, 'm, 'c) screen_update = "int \<Rightarrow> 's \<Rightarrow> 'm ui_msg \<Rightarrow> Window \<Rightarrow> 's \<times> bool \<times> 'c ui_cmd option \<times> Window"

definition option_list :: "'a option \<Rightarrow> 'a list" where
  "option_list x = (case x of None \<Rightarrow> [] | Some y \<Rightarrow> [y])"

definition window_Update ::
  "ui_lib \<Rightarrow> ('s, 'm, 'c) screen_update \<Rightarrow> int \<Rightarrow> 's \<times> Window \<Rightarrow> 'm ui_msg \<Rightarrow> ('s \<times> Window) \<times> 'c ui_cmd list" where
  "window_Update ui upd now sw msg =
     (let (w, cmds) = window_frame ui now (snd sw) msg;
          (sc, replaced, cmd, w) = upd now (fst sw) msg w;
          cmds = cmds @ option_list cmd
      in if \<not> replaced then ((sc, w), cmds)
         else let (sc, _, cmd2, w) = upd now sc (WindowSizeMsg (wn_width w) (wn_height w)) w
              in ((sc, w), cmds @ option_list cmd2))"

text \<open>The event loop: messages with the time of their delivery, until a command to quit.\<close>

fun run_window ::
  "ui_lib \<Rightarrow> ('s, 'm, 'c) screen_update \<Rightarrow> 's \<times> Window \<Rightarrow> (int \<times> 'm ui_msg) list \<Rightarrow> 's \<times> Window" where
  "run_window ui upd sw [] = sw"
| "run_window ui upd sw ((now, m) # ms) =
     (case window_Update ui upd now sw m of (sw', cmds) \<Rightarrow> if Quit \<in> set cmds then sw' else run_window ui upd sw' ms)"

section \<open>View\<close>

definition renderFooter :: "ui_lib \<Rightarrow> int \<Rightarrow> Window \<Rightarrow> string \<Rightarrow> (string \<times> string) list \<Rightarrow> string" where
  "renderFooter ui now w screenStatus footerKeys =
     (let windowStatus =
            (case wn_err w of
               Some e \<Rightarrow> ul_Render ui (Foreground NewStyle ColorError) (''connection error: '' @ e)
             | None \<Rightarrow> if wn_flash w \<noteq> [] \<and> now < wn_flashExp w then ul_Render ui (Foreground NewStyle ColorOrange) (wn_flash w) else []);
          left = (if screenStatus \<noteq> [] \<and> windowStatus \<noteq> [] then screenStatus @ '' '' @ windowStatus else screenStatus @ windowStatus);
          keys = map (\<lambda>(k, d). ul_Render ui (Foreground NewStyle ColorCyan) k @ '' '' @ ul_Render ui (Foreground NewStyle ColorField) d)
                   (footerKeys @ [(''q'', ''quit'')]);
          right = join_with ''  '' keys;
          gap = max (wn_width w - ul_StringWidth ui left - ul_StringWidth ui right) 2
      in ul_Truncate ui (left @ repeat_text '' '' gap @ right) (wn_width w) [])"

definition window_View :: "ui_lib \<Rightarrow> int \<Rightarrow> Window \<Rightarrow> string \<Rightarrow> string \<Rightarrow> (string \<times> string) list \<Rightarrow> string" where
  "window_View ui now w content screenStatus footerKeys =
     (if wn_width w = 0 then ''Starting...''
      else RenderHeader ui (wn_header w) (wn_width w) (wn_height w) @ [nl] @ content @ [nl]
           @ renderFooter ui now w screenStatus footerKeys)"

text \<open>The keys of a cursor that the footer shows, with the arrows up and down.\<close>

definition cursor_FooterKeys :: "(string \<times> string) list" where
  "cursor_FooterKeys =
     [([CHR 0xE2, CHR 0x86, CHR 0x91] @ ''/'' @ [CHR 0xE2, CHR 0x86, CHR 0x93] @ '' k/j'', ''navigate''), (''Home/End g/G'', ''jump'')]"

text \<open>The lines of a list: the rows from the offset, then empty lines up to the height of the viewport.\<close>

definition viewport_rows :: "Cursor \<Rightarrow> int \<Rightarrow> int \<Rightarrow> int list" where
  "viewport_rows c rows n = [cu_Offset c..min (cu_Offset c + rows) n - 1]"

definition pad_lines :: "int \<Rightarrow> string list \<Rightarrow> string list" where
  "pad_lines n lines = lines @ replicate (nat (n - int (length lines))) []"

section \<open>Status lines\<close>

definition pad_left :: "nat \<Rightarrow> string \<Rightarrow> string" where
  "pad_left n s = replicate (n - length s) CHR '' '' @ s"

definition pad_right :: "nat \<Rightarrow> string \<Rightarrow> string" where
  "pad_right n s = s @ replicate (n - length s) CHR '' ''"

definition writeStatus :: "ui_lib \<Rightarrow> string \<Rightarrow> ui_style \<Rightarrow> string \<Rightarrow> string" where
  "writeStatus ui verb style msg = ul_Render ui style (pad_left 12 verb) @ '' '' @ msg @ [nl]"

definition bold_style :: "ui_color \<Rightarrow> ui_style" where
  "bold_style c = (Foreground NewStyle c)\<lparr>us_Bold := True\<rparr>"

definition tui_Status :: "ui_lib \<Rightarrow> string \<Rightarrow> string \<Rightarrow> string" where
  "tui_Status ui verb msg = writeStatus ui verb (bold_style ColorCyan) msg"

definition tui_Error :: "ui_lib \<Rightarrow> string \<Rightarrow> string" where
  "tui_Error ui msg = writeStatus ui ''error'' (bold_style ColorOrange) msg"

definition tui_Debug :: "ui_lib \<Rightarrow> string \<Rightarrow> string" where
  "tui_Debug ui msg = writeStatus ui ''debug'' (bold_style ColorPurple) msg"

section \<open>The contract of a screen\<close>

definition same_size :: "Window \<Rightarrow> Window \<Rightarrow> bool" where
  "same_size w w' \<longleftrightarrow> wn_width w' = wn_width w \<and> wn_height w' = wn_height w \<and> wn_vpHeight w' = wn_vpHeight w"

lemma same_size_refl [simp]: "same_size w w" "same_size w (SetFlash now w f)" "same_size w (SetHeader w i)" "same_size w (SetError w e)"
    "same_size w (ClearError w)"
  by (simp_all add: same_size_def SetFlash_def SetHeader_def SetError_def ClearError_def)

definition header_rows :: "int \<Rightarrow> int" where
  "header_rows height = (if 0 < height \<and> height < CompactHeaderThreshold then 1 else 4)"

definition frame_ok :: "Window \<Rightarrow> bool" where
  "frame_ok w \<longleftrightarrow> (wn_width w = 0 \<or> wn_vpHeight w = max (wn_height w - header_rows (wn_height w) - 1) 1) \<and> 0 \<le> wn_vpHeight w"

lemma frame_ok_NewWindow [simp]: "frame_ok (NewWindow h)"
  by (simp add: frame_ok_def NewWindow_def)

lemma headerHeight_rows: "single_lines ui \<Longrightarrow> one_line_info (wn_header w) \<Longrightarrow> headerHeight ui w = header_rows (wn_height w)"
  by (simp add: headerHeight_def header_line_count header_rows_def)

lemma window_frame_ok:
  assumes "frame_ok w" "single_lines ui" "one_line_info (wn_header w)" "window_frame ui now w msg = (w', cmds)"
  shows "frame_ok w' \<and> wn_header w' = wn_header w"
proof -
  have "headerHeight ui (w\<lparr>wn_width := a, wn_height := b\<rparr>) = header_rows b" for a b
    using headerHeight_rows [OF assms(2), of "w\<lparr>wn_width := a, wn_height := b\<rparr>"] assms(3) by simp
  then show ?thesis using assms(1,4) by (auto simp: window_frame_def frame_ok_def Let_def split: ui_msg.splits)
qed

lemma frame_ok_same: "same_size w w' \<Longrightarrow> frame_ok w \<Longrightarrow> frame_ok w'"
  by (simp add: same_size_def frame_ok_def)

locale tui_screen =
  fixes upd :: "('s, 'm, 'c) screen_update" and ok :: "'s \<Rightarrow> int \<Rightarrow> bool" and msg_ok :: "'m ui_msg \<Rightarrow> bool"
  assumes upd_ok: "ok s v \<Longrightarrow> 0 \<le> wn_vpHeight w \<Longrightarrow> \<forall>a b. msg \<noteq> WindowSizeMsg a b \<Longrightarrow> upd now s msg w = (s', replaced, cmd, w')
      \<Longrightarrow> ok s' (if replaced then 0 else v) \<and> same_size w w'"
    and upd_size: "ok s v \<Longrightarrow> 0 \<le> wn_vpHeight w \<Longrightarrow> upd now s (WindowSizeMsg a b) w = (s', replaced, cmd, w')
      \<Longrightarrow> ok s' (wn_vpHeight w) \<and> \<not> replaced \<and> w' = w"
    and upd_header: "upd now s msg w = (s', replaced, cmd, w') \<Longrightarrow> msg_ok msg \<Longrightarrow> one_line_info (wn_header w) \<Longrightarrow> one_line_info (wn_header w')"
begin

definition shown :: "'s \<times> Window \<Rightarrow> bool" where
  "shown sw \<longleftrightarrow> ok (fst sw) (wn_vpHeight (snd sw)) \<and> frame_ok (snd sw) \<and> one_line_info (wn_header (snd sw))"

lemma update_ok:
  assumes "shown sw" "single_lines ui" "msg_ok msg" and "window_Update ui upd now sw msg = (sw', cmds)"
  shows "shown sw'"
proof -
  obtain w cs where f: "window_frame ui now (snd sw) msg = (w, cs :: 'c ui_cmd list)" by force
  have w: "frame_ok w" "one_line_info (wn_header w)"
    using window_frame_ok [OF _ assms(2) _ f] assms(1) by (auto simp: shown_def)
  then have vp: "0 \<le> wn_vpHeight w" by (simp add: frame_ok_def)
  obtain sc repl cmd v where u: "upd now (fst sw) msg w = (sc, repl, cmd, v)" by (metis prod_cases4)
  have 1: "ok sc (if repl then 0 else wn_vpHeight v) \<and> same_size w v"
  proof (cases "\<exists>a b. msg = WindowSizeMsg a b")
    case True
    then obtain a b where u': "upd now (fst sw) (WindowSizeMsg a b) w = (sc, repl, cmd, v)" using u by blast
    show ?thesis using upd_size [OF _ vp u', of "wn_vpHeight (snd sw)"] assms(1) by (simp add: shown_def)
  next
    case False
    then have "wn_vpHeight w = wn_vpHeight (snd sw)" using f by (auto simp: window_frame_def split: ui_msg.splits)
    then show ?thesis using upd_ok [of "fst sw" "wn_vpHeight w", OF _ vp _ u] False assms(1) by (auto simp: shown_def same_size_def split: if_splits)
  qed
  then have v: "frame_ok v" "one_line_info (wn_header v)" using w upd_header [OF u assms(3)] frame_ok_same by auto
  then have vv: "0 \<le> wn_vpHeight v" by (simp add: frame_ok_def)
  obtain sc2 repl2 cmd2 v2 where u2: "upd now sc (WindowSizeMsg (wn_width v) (wn_height v)) v = (sc2, repl2, cmd2, v2)" by (metis prod_cases4)
  have "repl \<Longrightarrow> ok sc2 (wn_vpHeight v) \<and> v2 = v" using upd_size [OF _ vv u2] 1 by auto
  then show ?thesis using 1 v assms(4) by (auto simp: shown_def window_Update_def Let_def f u u2 split: if_splits)
qed

lemma run_ok:
  assumes "shown sw" "single_lines ui" "\<forall>(now, m) \<in> set ms. msg_ok m"
  shows "shown (run_window ui upd sw ms)"
  using assms
proof (induction ms arbitrary: sw)
  case (Cons nm ms)
  obtain now m where nm: "nm = (now, m)" by force
  obtain sw' cmds where u: "window_Update ui upd now sw m = (sw', cmds)" by (metis surj_pair)
  have "shown sw'" by (rule update_ok [OF Cons.prems(1,2) _ u]) (use Cons.prems(3) nm in auto)
  then show ?case using Cons.IH [of sw'] Cons.prems(2,3) by (simp add: nm u)
qed simp

lemma started: "ok sc 0 \<Longrightarrow> one_line_info h \<Longrightarrow> shown (sc, NewWindow h)"
  using frame_ok_NewWindow [of h] by (simp add: shown_def) (simp add: NewWindow_def)

lemmas from_start = run_ok [OF started]

end

section \<open>Lines of the view\<close>

lemma single_join_with: "\<forall>l \<in> set ls. nl \<notin> set l \<Longrightarrow> nl \<notin> set sep \<Longrightarrow> nl \<notin> set (join_with sep ls)"
  by (induction sep ls rule: join_with.induct) auto

definition one_line_keys :: "(string \<times> string) list \<Rightarrow> bool" where
  "one_line_keys ks \<longleftrightarrow> (\<forall>(k, d) \<in> set ks. nl \<notin> set k \<and> nl \<notin> set d)"

lemma single_footer:
  assumes "single_lines ui" "nl \<notin> set status" "nl \<notin> set (wn_flash w)" "\<forall>e. wn_err w = Some e \<longrightarrow> nl \<notin> set e" "one_line_keys ks"
  shows "nl \<notin> set (renderFooter ui now w status ks)"
proof -
  have tr: "nl \<notin> set (ul_Truncate ui s n [])" if "nl \<notin> set s" for s n
    using assms(1) that by (simp add: single_lines_def)
  have keys: "nl \<notin> set (join_with ''  '' (map (\<lambda>(k, d). ul_Render ui st k @ '' '' @ ul_Render ui st' d) (ks @ [(''q'', ''quit'')])))" for st st'
    using assms(1,5) by (intro single_join_with) (auto simp: one_line_keys_def single_Render)
  show ?thesis
    unfolding renderFooter_def Let_def
    by (rule tr) (use assms keys in \<open>auto simp del: map_append simp: single_Render single_repeat split: option.splits\<close>)
qed

lemma view_lines:
  assumes "single_lines ui" "one_line_info (wn_header w)" "frame_ok w" "wn_width w \<noteq> 0" "nl \<notin> set (renderFooter ui now w status ks)"
    and "line_count content = wn_vpHeight w" and "header_rows (wn_height w) + 2 \<le> wn_height w"
  shows "line_count (window_View ui now w content status ks) = wn_height w"
proof -
  have "line_count (a @ [nl] @ b @ [nl] @ c) = line_count a + line_count b + line_count c" for a b c
    by (simp add: line_count_def)
  then have "line_count (window_View ui now w content status ks)
      = line_count (RenderHeader ui (wn_header w) (wn_width w) (wn_height w)) + line_count content + line_count (renderFooter ui now w status ks)"
    using assms(4) by (simp add: window_View_def)
  moreover have "line_count (RenderHeader ui (wn_header w) (wn_width w) (wn_height w)) = header_rows (wn_height w)"
    using header_line_count [OF assms(1,2)] by (simp add: header_rows_def)
  moreover have "line_count (renderFooter ui now w status ks) = 1" using assms(5) by (simp add: line_count_one)
  ultimately show ?thesis using assms(3,4,6,7) by (simp add: frame_ok_def)
qed

lemma length_viewport_rows: "0 \<le> rows \<Longrightarrow> int (length (viewport_rows c rows n)) \<le> rows"
  by (simp add: viewport_rows_def min_def)

lemma pad_lines_length: "int (length lines) \<le> n \<Longrightarrow> int (length (pad_lines n lines)) = n"
  by (simp add: pad_lines_def)

lemma padded_view_lines:
  assumes "int (length lines) \<le> n" and "0 < n" and "\<forall>l \<in> set lines. nl \<notin> set l"
  shows "line_count (join_lines (pad_lines n lines)) = n"
proof -
  have "pad_lines n lines \<noteq> []" using pad_lines_length [OF assms(1)] assms(2) by auto
  moreover have "\<forall>l \<in> set (pad_lines n lines). nl \<notin> set l" using assms(3) by (auto simp: pad_lines_def)
  ultimately show ?thesis using lines_all_single pad_lines_length [OF assms(1)] by simp
qed

section \<open>The cursor of a screen\<close>

lemma HandleKey_height [simp]: "cu_VpHeight (snd (HandleKey c key)) = cu_VpHeight c"
  by (simp add: HandleKey_def Let_def)

definition cursor_ok :: "Cursor \<Rightarrow> nat \<Rightarrow> bool" where
  "cursor_ok c n \<longleftrightarrow> in_list c \<and> cu_ItemCount c = int n \<and> 0 \<le> cu_Offset c \<and> 0 \<le> cu_VpHeight c \<and> (0 < cu_VpHeight c \<longrightarrow> visible c)"

lemma cursor_ok_key:
  assumes "cursor_ok c n"
  shows "cursor_ok (snd (HandleKey c key)) n"
proof -
  have mv: "cursor_move c (snd (HandleKey c key))" by (rule HandleKey_moves) (use assms in \<open>auto simp: cursor_ok_def\<close>)
  have l: "in_list (snd (HandleKey c key))" "same_frame c (snd (HandleKey c key))"
    using cursor_move_in_list [OF mv] assms by (auto simp: cursor_ok_def)
  have off: "0 \<le> cu_Offset (snd (HandleKey c key))"
    using mv assms by (auto simp: cursor_move_def cursor_ok_def EnsureVisible_def Let_def in_list_def)
  show ?thesis
    using assms l off cursor_move_visible [OF mv] by (auto simp: cursor_ok_def same_frame_def)
qed

lemma cursor_ok_ensure:
  assumes "in_list c" "cu_ItemCount c = int n" "0 \<le> cu_Offset c" "0 \<le> cu_VpHeight c"
  shows "cursor_ok (EnsureVisible c) n"
proof -
  have "in_list (EnsureVisible c)" using assms(1) by (simp add: in_list_def)
  moreover have "0 \<le> cu_Offset (EnsureVisible c)" using assms by (auto simp: EnsureVisible_def Let_def in_list_def)
  ultimately show ?thesis using assms EnsureVisible_visible [of c] by (auto simp: cursor_ok_def in_list_def)
qed

lemma cursor_ok_size: "cursor_ok c n \<Longrightarrow> 0 \<le> h \<Longrightarrow> cursor_ok (EnsureVisible (c\<lparr>cu_VpHeight := h\<rparr>)) n"
  by (rule cursor_ok_ensure) (auto simp: cursor_ok_def in_list_def)

lemma cursor_ok_grow:
  assumes "cursor_ok c n" and "n \<le> m"
  shows "cursor_ok (c\<lparr>cu_ItemCount := int m\<rparr>) m"
  using assms by (auto simp: cursor_ok_def in_list_def visible_def)

end
