(* ===== verification/Monitor_UI.thy ===== *)
theory Monitor_UI
  imports Control_Client TUI_Window "HOL-Library.List_Lexorder" "HOL-Library.Char_ord"
begin

text \<open>
  The monitor, \<^verbatim>\<open>cmd/monitor_ui.go\<close>, the session list, \<^verbatim>\<open>cmd/session_ui.go\<close>, and the command that shows them,
  \<^verbatim>\<open>cmd/monitor.go\<close>. Both are screens of the window of \<^verbatim>\<open>tui/window.go\<close>.
\<close>

section \<open>Messages and commands\<close>

datatype allowStatus = statusNone | statusTemp | statusSaved

datatype screen_msg =
    AllowResultMsg int allowStatus "string option"
  | LogsPollResultMsg "string + LogEntry list"
  | SessionPollResultMsg "string + ProxySession list"
  | SessionErrorMsg string
  | SessionSelectResultMsg SessionInfo_cmd "string option"

datatype screen_cmd =
    AllowCmd int LogEntry bool
  | PollLogsCmd uint64
  | PollSessionsCmd
  | SelectCmd SessionInfo_cmd
  | ErrorCmd string

type_synonym scmd = "screen_cmd ui_cmd option"
type_synonym smsg = "screen_msg ui_msg"

section \<open>The monitor screen\<close>

record logItem =
  it_entry :: LogEntry
  it_status :: allowStatus

record monitorScreen =
  mo_session :: SessionInfo_cmd
  mo_client :: bool
  mo_onBack :: bool
  mo_cursor :: Cursor
  mo_pollCursor :: uint64
  mo_pollInFlight :: bool
  mo_items :: "logItem list"
  mo_newCount :: int
  mo_firstTickSeen :: bool
  mo_disconnectTick :: int

definition newMonitorScreen :: "SessionInfo_cmd \<Rightarrow> bool \<Rightarrow> bool \<Rightarrow> monitorScreen" where
  "newMonitorScreen session client onBack =
     \<lparr>mo_session = session, mo_client = client, mo_onBack = onBack,
      mo_cursor = \<lparr>cu_Pos = 0, cu_Offset = 0, cu_VpHeight = 0, cu_ItemCount = 0\<rparr>, mo_pollCursor = 0, mo_pollInFlight = False,
      mo_items = [], mo_newCount = 0, mo_firstTickSeen = False, mo_disconnectTick = - 1\<rparr>"

definition pollInterval :: int where "pollInterval = 1000"
definition disconnectGracePeriod :: int where "disconnectGracePeriod = 3000"
definition disconnectGraceTicks :: int where "disconnectGraceTicks = disconnectGracePeriod div TickInterval"

definition allowValueForEntry :: "LogEntry \<Rightarrow> string" where
  "allowValueForEntry e = (if le_Source e = SourceProxy \<and> le_Port e \<noteq> [] then le_Domain e @ '':'' @ le_Port e else le_Domain e)"

text \<open>The command behind the keys \<^verbatim>\<open>a\<close> and \<^verbatim>\<open>A\<close>, run against the proxy and the project file.\<close>

definition allowCmd :: "allow_env \<Rightarrow> int \<Rightarrow> LogEntry \<Rightarrow> bool \<Rightarrow> proxy_state \<Rightarrow> string option \<Rightarrow> screen_msg \<times> proxy_state \<times> string option" where
  "allowCmd env index entry save st f =
     (let value = allowValueForEntry entry in
      case (if le_Source entry = SourceDNS then client_AllowDNS (al_link env) st [value] else client_AllowHTTP (al_link env) st [value]) of
        (Inl e, st') \<Rightarrow> (AllowResultMsg index statusNone (Some ''allow''), st', f)
      | (Inr _, st') \<Rightarrow>
          if \<not> save then (AllowResultMsg index statusTemp None, st', f)
          else case (if le_Source entry = SourceDNS then AppendAllowDNS (al_io env) (al_decode env) (al_yaml env) [value] f
                     else AppendAllowHTTP (al_io env) (al_decode env) (al_yaml env) [value] f) of
                 (Some e, f') \<Rightarrow> (AllowResultMsg index statusNone (Some ''save''), st', f')
               | (None, f') \<Rightarrow> (AllowResultMsg index statusSaved None, st', f'))"

text \<open>A screen that stays, with a command and the window; or the way back to the session list.\<close>

datatype ('s) next_screen = Stay 's | Back

definition selectorHeader :: HeaderInfo where "selectorHeader = \<lparr>hi_ProjectDir = ''vibepit'', hi_SessionID = ''session selector''\<rparr>"

definition transitionBack :: "Window \<Rightarrow> 's next_screen \<times> scmd \<times> Window" where
  "transitionBack w = (Back, None, SetHeader w selectorHeader)"

definition monitor_key :: "int \<Rightarrow> monitorScreen \<Rightarrow> string \<Rightarrow> Window \<Rightarrow> monitorScreen next_screen \<times> scmd \<times> Window" where
  "monitor_key now s key w =
     (let c = mo_cursor s in
      if key = ''a'' \<or> key = ''A'' then
        (if 0 \<le> cu_Pos c \<and> cu_Pos c < int (length (mo_items s)) then
           (let item = mo_items s ! nat (cu_Pos c) in
            if le_Action (it_entry item) = ActionBlock \<and> it_status item = statusNone
            then (Stay s, Some (ScreenCmd (AllowCmd (cu_Pos c) (it_entry item) (key = ''A''))), w)
            else (Stay s, None, SetFlash now w ''already allowed''))
         else (Stay s, None, w))
      else if key = ''esc'' then (if mo_onBack s then transitionBack w else (Stay s, None, w))
      else if key = ''q'' \<or> key = ''ctrl+c'' then (Stay s, Some Quit, w)
      else (case HandleKey c key of
              (True, c') \<Rightarrow> (Stay (s\<lparr>mo_cursor := c', mo_newCount := (if \<not> AtEnd c \<and> AtEnd c' then 0 else mo_newCount s)\<rparr>), None, w)
            | (False, c') \<Rightarrow> (Stay (s\<lparr>mo_cursor := c'\<rparr>), None, w)))"

definition monitor_size :: "monitorScreen \<Rightarrow> Window \<Rightarrow> monitorScreen" where
  "monitor_size s w =
     (let c = (mo_cursor s)\<lparr>cu_VpHeight := wn_vpHeight w\<rparr> in
      s\<lparr>mo_cursor := EnsureVisible c,
        mo_newCount := (if int (length (mo_items s)) \<le> cu_Offset c + cu_VpHeight c then 0 else mo_newCount s)\<rparr>)"

definition monitor_allowed :: "int \<Rightarrow> monitorScreen \<Rightarrow> int \<Rightarrow> allowStatus \<Rightarrow> string option \<Rightarrow> Window \<Rightarrow> monitorScreen \<times> Window" where
  "monitor_allowed now s index status err w =
     (case err of
        Some e \<Rightarrow> (s, SetError w e)
      | None \<Rightarrow>
          if 0 \<le> index \<and> index < int (length (mo_items s)) then
            (let i = nat index; domain = le_Domain (it_entry (mo_items s ! i)) in
             (s\<lparr>mo_items := (mo_items s)[i := (mo_items s ! i)\<lparr>it_status := status\<rparr>]\<rparr>,
              case status of
                statusTemp \<Rightarrow> SetFlash now w (''allowed '' @ domain)
              | statusSaved \<Rightarrow> SetFlash now w (''allowed and saved '' @ domain)
              | statusNone \<Rightarrow> w))
          else (s, w))"

definition monitor_logs :: "monitorScreen \<Rightarrow> string + LogEntry list \<Rightarrow> Window \<Rightarrow> monitorScreen \<times> Window" where
  "monitor_logs s0 result w =
     (let s = s0\<lparr>mo_pollInFlight := False\<rparr> in
      case result of
        Inl err \<Rightarrow>
          if mo_onBack s then
            (s\<lparr>mo_disconnectTick := (if mo_disconnectTick s < 0 then 0 else mo_disconnectTick s)\<rparr>,
             SetError w (''session '' @ si_SessionID (mo_session s) @ '' disconnected''))
          else (s, SetError w err)
      | Inr entries \<Rightarrow>
          let wasAtEnd = mo_items s = [] \<or> AtEnd (mo_cursor s);
              items = mo_items s @ map (\<lambda>e. \<lparr>it_entry = e, it_status = statusNone\<rparr>) entries;
              c = (mo_cursor s)\<lparr>cu_ItemCount := int (length items)\<rparr>;
              newCount = (if \<not> wasAtEnd \<and> entries \<noteq> [] \<and> int (length items) > cu_Offset c + cu_VpHeight c
                          then mo_newCount s + int (length entries) else mo_newCount s);
              s1 = s\<lparr>mo_disconnectTick := - 1, mo_items := items,
                     mo_pollCursor := (if entries = [] then mo_pollCursor s else le_ID (last entries)), mo_cursor := c, mo_newCount := newCount\<rparr>
          in (if wasAtEnd \<and> items \<noteq> [] then
                s1\<lparr>mo_cursor := EnsureVisible (c\<lparr>cu_Pos := int (length items) - 1\<rparr>), mo_newCount := 0\<rparr>
              else s1, ClearError w))"

definition monitor_tick :: "monitorScreen \<Rightarrow> Window \<Rightarrow> monitorScreen next_screen \<times> scmd \<times> Window" where
  "monitor_tick s w =
     (if mo_onBack s \<and> 0 \<le> mo_disconnectTick s then
        (let s = s\<lparr>mo_disconnectTick := mo_disconnectTick s + 1\<rparr> in
         if disconnectGraceTicks \<le> mo_disconnectTick s then transitionBack w else (Stay (s\<lparr>mo_firstTickSeen := True\<rparr>), None, w))
      else if (IntervalElapsed w pollInterval \<or> \<not> mo_firstTickSeen s) \<and> \<not> mo_pollInFlight s then
        (let s = s\<lparr>mo_firstTickSeen := True\<rparr> in
         if \<not> mo_client s then (Stay s, None, w)
         else (Stay (s\<lparr>mo_pollInFlight := True\<rparr>), Some (ScreenCmd (PollLogsCmd (mo_pollCursor s))), w))
      else (Stay (s\<lparr>mo_firstTickSeen := True\<rparr>), None, w))"

definition monitor_Update :: "int \<Rightarrow> monitorScreen \<Rightarrow> smsg \<Rightarrow> Window \<Rightarrow> monitorScreen next_screen \<times> scmd \<times> Window" where
  "monitor_Update now s msg w =
     (case msg of
        KeyPressMsg key \<Rightarrow> monitor_key now s key w
      | WindowSizeMsg _ _ \<Rightarrow> (Stay (monitor_size s w), None, w)
      | ScreenMsg (AllowResultMsg index status err) \<Rightarrow> (case monitor_allowed now s index status err w of (s', w') \<Rightarrow> (Stay s', None, w'))
      | ScreenMsg (LogsPollResultMsg result) \<Rightarrow> (case monitor_logs s result w of (s', w') \<Rightarrow> (Stay s', None, w'))
      | TickMsg \<Rightarrow> monitor_tick s w
      | _ \<Rightarrow> (Stay s, None, w))"

text \<open>A row of the log, with the time of day as the library formats it.\<close>

definition renderLogLine :: "ui_lib \<Rightarrow> logItem \<Rightarrow> bool \<Rightarrow> string" where
  "renderLogLine ui item highlighted =
     (let e = it_entry item; (base, marker) = LineStyle ui highlighted; render = ul_Render ui;
          (symbol, sourceColor) =
            (if it_status item = statusTemp then (render (Foreground base ColorOrange) ''a'', ColorOrange)
             else if it_status item = statusSaved then (render ((Foreground base ColorOrange)\<lparr>us_Bold := True\<rparr>) ''A'', ColorOrange)
             else if le_Action e = ActionBlock then (render (Foreground base ColorError) ''x'', ColorError)
             else (render (Foreground base ColorCyan) ''+'', ColorCyan));
          host = (if le_Port e \<noteq> [] then le_Domain e @ '':'' @ le_Port e else le_Domain e);
          sp = render base '' ''
      in marker @ render base ''['' @ render (Foreground base ColorField) (ul_Format ui (le_Time e)) @ render base '']'' @ sp @ symbol @ sp
         @ render (Foreground base sourceColor) (pad_right 5 (le_Source e)) @ sp @ render base host @ sp @ render base (le_Reason e))"

text \<open>The rows that the view draws, by the index of the item.\<close>

definition monitor_View_items :: "monitorScreen \<Rightarrow> int list" where
  "monitor_View_items s = viewport_rows (mo_cursor s) (cu_VpHeight (mo_cursor s)) (int (length (mo_items s)))"

definition monitor_View :: "ui_lib \<Rightarrow> monitorScreen \<Rightarrow> string" where
  "monitor_View ui s =
     join_lines (pad_lines (cu_VpHeight (mo_cursor s))
       (map (\<lambda>i. renderLogLine ui (mo_items s ! nat i) (i = cu_Pos (mo_cursor s))) (monitor_View_items s)))"

text \<open>Ten braille patterns of the spinner, by their last byte.\<close>

definition braille :: "nat \<Rightarrow> string" where "braille b = [CHR 0xE2, CHR 0xA0, char_of b]"

definition spinnerFrames :: "string list" where
  "spinnerFrames = map braille [0x8B, 0x99, 0xB9, 0xB8, 0xBC, 0xB4, 0xA6, 0xA7, 0x87, 0x8F]"

definition monitor_FooterStatus :: "ui_lib \<Rightarrow> monitorScreen \<Rightarrow> Window \<Rightarrow> string" where
  "monitor_FooterStatus ui s w =
     (let isTailing = (mo_items s = [] \<or> AtEnd (mo_cursor s));
          indicator = (if isTailing then ul_Render ui (Foreground NewStyle ColorCyan) (spinnerFrames ! nat (wn_tickFrame w mod int (length spinnerFrames)))
                       else ul_Render ui (Foreground NewStyle ColorField) (braille 0xBF))
      in if mo_newCount s > 0
         then indicator @ '' '' @ ul_Render ui (Foreground NewStyle ColorOrange) ([CHR 0xE2, CHR 0x86, CHR 0x93] @ '' '' @ show_int (mo_newCount s) @ '' new'')
         else indicator)"

definition monitor_FooterKeys :: "monitorScreen \<Rightarrow> (string \<times> string) list" where
  "monitor_FooterKeys s =
     (let c = mo_cursor s in
      (if 0 \<le> cu_Pos c \<and> cu_Pos c < int (length (mo_items s)) then
         (let item = mo_items s ! nat (cu_Pos c) in
          if le_Action (it_entry item) = ActionBlock \<and> it_status item = statusNone then [(''a'', ''allow''), (''A'', ''allow+save'')]
          else if it_status item = statusTemp then [(''A'', ''save'')] else [])
       else [])
      @ (if mo_onBack s then [(''esc'', ''sessions'')] else []) @ cursor_FooterKeys)"

section \<open>The session list\<close>

record sessionScreen =
  ss_Cursor :: Cursor
  ss_sessions :: "ProxySession list"
  ss_selected :: "SessionInfo_cmd option"
  ss_onSelect :: bool
  ss_poll :: bool
  ss_pollInFlight :: bool
  ss_firstTickSeen :: bool
  ss_firstPollDone :: bool
  ss_lastPollErr :: string

definition sortSessions :: "ProxySession list \<Rightarrow> ProxySession list" where
  "sortSessions sessions = sort_key ps_SessionID sessions"

definition newSessionScreen :: "ProxySession list \<Rightarrow> bool \<Rightarrow> bool \<Rightarrow> sessionScreen" where
  "newSessionScreen sessions onSelect poll =
     \<lparr>ss_Cursor = \<lparr>cu_Pos = 0, cu_Offset = 0, cu_VpHeight = 0, cu_ItemCount = int (length sessions)\<rparr>, ss_sessions = sortSessions sessions,
      ss_selected = None, ss_onSelect = onSelect, ss_poll = poll, ss_pollInFlight = False, ss_firstTickSeen = False,
      ss_firstPollDone = (sessions \<noteq> []), ss_lastPollErr = []\<rparr>"

definition session_polled :: "sessionScreen \<Rightarrow> string + ProxySession list \<Rightarrow> Window \<Rightarrow> sessionScreen \<times> Window" where
  "session_polled s0 result w =
     (let s = s0\<lparr>ss_pollInFlight := False\<rparr> in
      case result of
        Inl err \<Rightarrow> if err \<noteq> ss_lastPollErr s then (s\<lparr>ss_lastPollErr := err\<rparr>, SetError w err) else (s, w)
      | Inr sessions \<Rightarrow>
          let n = int (length sessions); c = (ss_Cursor s)\<lparr>cu_ItemCount := n\<rparr>;
              c' = (if n \<le> cu_Pos c then c\<lparr>cu_Pos := max (n - 1) 0\<rparr> else c)
          in (s\<lparr>ss_firstPollDone := True, ss_lastPollErr := [], ss_sessions := sortSessions sessions, ss_Cursor := EnsureVisible c'\<rparr>,
              ClearError w))"

text \<open>
  The last component of the result is the session whose monitor replaces this screen. A selection that could not open its
  session carries the error, which a command then reports.
\<close>

definition session_Update ::
  "sessionScreen \<Rightarrow> smsg \<Rightarrow> Window \<Rightarrow> sessionScreen \<times> scmd \<times> Window \<times> SessionInfo_cmd option" where
  "session_Update s msg w =
     (case msg of
        ScreenMsg (SessionPollResultMsg result) \<Rightarrow> (case session_polled s result w of (s', w') \<Rightarrow> (s', None, w', None))
      | TickMsg \<Rightarrow>
          if ss_poll s \<and> (IntervalElapsed w 1000 \<or> \<not> ss_firstTickSeen s) \<and> \<not> ss_pollInFlight s
          then (s\<lparr>ss_firstTickSeen := True, ss_pollInFlight := True\<rparr>, Some (ScreenCmd PollSessionsCmd), w, None)
          else (s\<lparr>ss_firstTickSeen := True\<rparr>, None, w, None)
      | KeyPressMsg key \<Rightarrow>
          if key = ''enter'' then
            (if 0 \<le> cu_Pos (ss_Cursor s) \<and> cu_Pos (ss_Cursor s) < int (length (ss_sessions s)) then
               (let selected = sessionInfoFromProxy (ss_sessions s ! nat (cu_Pos (ss_Cursor s))); s' = s\<lparr>ss_selected := Some selected\<rparr> in
                if ss_onSelect s then (s', Some (ScreenCmd (SelectCmd selected)), w, None) else (s', Some Quit, w, None))
             else (s, None, w, None))
          else if key = ''q'' \<or> key = ''ctrl+c'' then (s, Some Quit, w, None)
          else (s\<lparr>ss_Cursor := snd (HandleKey (ss_Cursor s) key)\<rparr>, None, w, None)
      | ScreenMsg (SessionErrorMsg err) \<Rightarrow> (s, None, SetError w err, None)
      | ScreenMsg (SessionSelectResultMsg selected err) \<Rightarrow>
          let s' = s\<lparr>ss_selected := Some selected\<rparr> in
          (case err of
             None \<Rightarrow> (s', None, SetHeader w \<lparr>hi_ProjectDir = si_ProjectDir selected, hi_SessionID = si_SessionID selected\<rparr>, Some selected)
           | Some e \<Rightarrow> (s', Some (ScreenCmd (ErrorCmd e)), w, None))
      | WindowSizeMsg _ _ \<Rightarrow> (s\<lparr>ss_Cursor := EnsureVisible ((ss_Cursor s)\<lparr>cu_VpHeight := wn_vpHeight w\<rparr>)\<rparr>, None, w, None)
      | _ \<Rightarrow> (s, None, w, None))"

text \<open>The age of a session, from nanoseconds.\<close>

definition formatUptime :: "int \<Rightarrow> int \<Rightarrow> string" where
  "formatUptime started now =
     (let d = now - started; minute = 60 * 1000000000 in
      if d < minute then ''< 1m''
      else let totalMinutes = d div minute; days = totalMinutes div (60 * 24);
               hours = (totalMinutes mod (60 * 24)) div 60; minutes = totalMinutes mod 60 in
           if days > 0 then show_int days @ ''d '' @ show_int hours @ ''h''
           else if hours > 0 then show_int hours @ ''h '' @ show_int minutes @ ''m''
           else show_int minutes @ ''m'')"

text \<open>A row of the list and the view, at the time \<open>now\<close> in nanoseconds. Two lines of the view are its heading.\<close>

definition renderSessionLine :: "ui_lib \<Rightarrow> ProxySession \<Rightarrow> bool \<Rightarrow> int \<Rightarrow> string" where
  "renderSessionLine ui ps highlighted now =
     (let (base, marker) = LineStyle ui highlighted; sp = ul_Render ui base '' '' in
      marker @ ul_Render ui (Foreground base ColorField) (pad_right 16 (ps_SessionID ps)) @ sp
      @ ul_Render ui (Foreground base ColorOrange) (pad_right 8 (formatUptime (ps_StartedAt ps) now)) @ sp
      @ ul_Render ui (Foreground base ColorCyan) (ps_ProjectDir ps))"

definition session_View_items :: "sessionScreen \<Rightarrow> int list" where
  "session_View_items s = viewport_rows (ss_Cursor s) (cu_VpHeight (ss_Cursor s) - 2) (int (length (ss_sessions s)))"

definition session_View :: "ui_lib \<Rightarrow> int \<Rightarrow> sessionScreen \<Rightarrow> string" where
  "session_View ui now s =
     join_lines (pad_lines (cu_VpHeight (ss_Cursor s))
       (if ss_sessions s = [] then
          (if ss_firstPollDone s then [ul_Render ui (Foreground NewStyle ColorField) ''No sessions running. Waiting...''] else [])
        else [ul_Render ui (Foreground NewStyle ColorField) ''Select a session:'', []]
             @ map (\<lambda>i. renderSessionLine ui (ss_sessions s ! nat i) (i = cu_Pos (ss_Cursor s)) now) (session_View_items s)))"

definition session_FooterKeys :: "sessionScreen \<Rightarrow> (string \<times> string) list" where
  "session_FooterKeys s = (if ss_sessions s \<noteq> [] then [(''enter'', ''select'')] else []) @ cursor_FooterKeys"

definition session_FooterStatus :: "sessionScreen \<Rightarrow> string" where
  "session_FooterStatus s = (if ss_sessions s = [] then ''waiting'' else show_nat (length (ss_sessions s)) @ '' sessions'')"

section \<open>Screens\<close>

datatype screen = MonitorScreen monitorScreen | SessionScreen sessionScreen

definition screen_Update :: "(screen, screen_msg, screen_cmd) screen_update" where
  "screen_Update now sc msg w =
     (case sc of
        MonitorScreen s \<Rightarrow>
          (case monitor_Update now s msg w of
             (Stay s', cmd, w') \<Rightarrow> (MonitorScreen s', False, cmd, w')
           | (Back, cmd, w') \<Rightarrow> (SessionScreen (newSessionScreen [] True True), True, cmd, w'))
      | SessionScreen s \<Rightarrow>
          (case session_Update s msg w of
             (s', cmd, w', None) \<Rightarrow> (SessionScreen s', False, cmd, w')
           | (s', cmd, w', Some i) \<Rightarrow> (MonitorScreen (newMonitorScreen i True True), True, cmd, w')))"

text \<open>\<^verbatim>\<open>selectSession\<close>: the list runs without polling until a command to quit; \<open>msgs\<close> are the messages it gets.\<close>

definition selectSession :: "ui_lib \<Rightarrow> (int \<times> smsg) list \<Rightarrow> ProxySession list \<Rightarrow> control_error + SessionInfo_cmd" where
  "selectSession ui msgs sessions =
     (case run_window ui screen_Update (SessionScreen (newSessionScreen sessions False False), NewWindow selectorHeader) msgs of
        (SessionScreen s, _) \<Rightarrow> (case ss_selected s of None \<Rightarrow> Inl NotSelected | Some i \<Rightarrow> Inr i)
      | (MonitorScreen _, _) \<Rightarrow> Inl NotSelected)"

text \<open>The screen and the header with which the monitor command starts.\<close>

definition MonitorCommand ::
  "(SessionInfo_cmd \<Rightarrow> string + tls_config) \<Rightarrow> daemon_env \<Rightarrow> docker_api \<Rightarrow> string \<Rightarrow> control_error + screen \<times> HeaderInfo" where
  "MonitorCommand creds de api flt =
     (case NewClient de of (Inl e, _) \<Rightarrow> Inl (Discover e) | (Inr _, _) \<Rightarrow>
     (case ListProxySessions api of (Inl e, _) \<Rightarrow> Inl (Discover e) | (Inr sessions, _) \<Rightarrow>
       let open_session = (\<lambda>info. case NewControlClient (creds info) info of
             Inl e \<Rightarrow> Inl e
           | Inr _ \<Rightarrow> Inr (MonitorScreen (newMonitorScreen info True True), \<lparr>hi_ProjectDir = si_ProjectDir info, hi_SessionID = si_SessionID info\<rparr>));
           selector = Inr (SessionScreen (newSessionScreen sessions True True), selectorHeader)
       in if flt \<noteq> [] then
            (case find (\<lambda>ps. matchSession ps flt) sessions of
               Some ps \<Rightarrow> open_session (sessionInfoFromProxy ps) | None \<Rightarrow> Inl (NoMatch flt))
          else case sessions of [ps] \<Rightarrow> open_session (sessionInfoFromProxy ps) | _ \<Rightarrow> selector))"

section \<open>Invariant of the screens\<close>

definition monitor_ok :: "monitorScreen \<Rightarrow> bool" where
  "monitor_ok s \<longleftrightarrow> cursor_ok (mo_cursor s) (length (mo_items s))"

definition session_ok :: "sessionScreen \<Rightarrow> bool" where
  "session_ok s \<longleftrightarrow> cursor_ok (ss_Cursor s) (length (ss_sessions s))"

text \<open>A screen that was told the height \<open>v\<close> of the viewport.\<close>

definition screen_ok :: "screen \<Rightarrow> int \<Rightarrow> bool" where
  "screen_ok sc v =
     (case sc of
        MonitorScreen s \<Rightarrow> monitor_ok s \<and> cu_VpHeight (mo_cursor s) = v
      | SessionScreen s \<Rightarrow> session_ok s \<and> cu_VpHeight (ss_Cursor s) = v)"

lemma monitor_logs_ok:
  assumes "monitor_ok s"
  shows "monitor_ok (fst (monitor_logs s r w))"
proof (cases r)
  case (Inl e)
  then show ?thesis using assms by (simp add: monitor_logs_def monitor_ok_def Let_def)
next
  case (Inr entries)
  define items where "items = mo_items s @ map (\<lambda>e. \<lparr>it_entry = e, it_status = statusNone\<rparr>) entries"
  define c where "c = (mo_cursor s)\<lparr>cu_ItemCount := int (length items)\<rparr>"
  have c: "cursor_ok c (length items)"
    unfolding c_def by (rule cursor_ok_grow [of _ "length (mo_items s)"]) (use assms in \<open>simp_all add: monitor_ok_def items_def\<close>)
  have ne: "items \<noteq> [] \<longleftrightarrow> mo_items s \<noteq> [] \<or> entries \<noteq> []" by (simp add: items_def)
  have e: "cursor_ok (EnsureVisible (c\<lparr>cu_Pos := int (length items) - 1\<rparr>)) (length items)" if "items \<noteq> []"
    by (rule cursor_ok_ensure) (use c that in \<open>auto simp: cursor_ok_def in_list_def Suc_le_eq\<close>)
  show ?thesis
    using c e ne by (simp add: Inr monitor_logs_def Let_def monitor_ok_def flip: items_def c_def)
qed

lemma monitor_Update_ok:
  assumes ok: "monitor_ok s" and vp: "0 \<le> wn_vpHeight w" and u: "monitor_Update now s msg w = (Stay s', cmd, w')"
  shows "monitor_ok s'"
proof (cases msg)
  case (KeyPressMsg key)
  have k: "cursor_ok (snd (HandleKey (mo_cursor s) key)) (length (mo_items s))"
    using cursor_ok_key ok by (simp add: monitor_ok_def)
  obtain b c where hk: "HandleKey (mo_cursor s) key = (b, c)" by (cases "HandleKey (mo_cursor s) key") auto
  show ?thesis
    using u k ok unfolding KeyPressMsg
    by (simp add: monitor_Update_def monitor_key_def Let_def transitionBack_def hk split: if_splits bool.splits) (auto simp: monitor_ok_def)
next
  case (WindowSizeMsg width height)
  then show ?thesis
    using u ok vp cursor_ok_size by (auto simp: monitor_Update_def monitor_size_def Let_def monitor_ok_def)
next
  case TickMsg
  then show ?thesis
    using u ok by (auto simp: monitor_Update_def monitor_tick_def transitionBack_def Let_def monitor_ok_def split: if_splits)
next
  case (ScreenMsg m)
  show ?thesis
  proof (cases m)
    case (AllowResultMsg i st e)
    then show ?thesis
      using u ok ScreenMsg by (auto simp: monitor_Update_def monitor_allowed_def Let_def monitor_ok_def split: option.splits if_splits)
  next
    case (LogsPollResultMsg r)
    then show ?thesis
      using u monitor_logs_ok [OF ok, of r w] ScreenMsg by (auto simp: monitor_Update_def split: prod.splits)
  qed (use u ok ScreenMsg in \<open>auto simp: monitor_Update_def\<close>)
qed

lemma session_polled_ok:
  assumes "session_ok s" and "session_polled s r w = (s', w')"
  shows "session_ok s'"
proof (cases r)
  case (Inl e)
  then show ?thesis using assms by (auto simp: session_polled_def session_ok_def Let_def split: if_splits)
next
  case (Inr sessions)
  let ?n = "int (length sessions)" and ?c = "(ss_Cursor s)\<lparr>cu_ItemCount := int (length sessions)\<rparr>"
  have "cursor_ok (EnsureVisible (if ?n \<le> cu_Pos ?c then ?c\<lparr>cu_Pos := max (?n - 1) 0\<rparr> else ?c)) (length sessions)"
    by (rule cursor_ok_ensure) (use assms(1) in \<open>auto simp: session_ok_def cursor_ok_def in_list_def\<close>)
  then show ?thesis
    using assms(2) Inr by (simp add: session_polled_def session_ok_def Let_def sortSessions_def) auto
qed

lemma session_Update_ok:
  assumes ok: "session_ok s" and vp: "0 \<le> wn_vpHeight w" and u: "session_Update s msg w = (s', cmd, w', i)"
  shows "session_ok s'"
proof (cases msg)
  case (KeyPressMsg key)
  then show ?thesis
    using u ok cursor_ok_key [of "ss_Cursor s" "length (ss_sessions s)" key]
    by (auto simp: session_Update_def session_ok_def Let_def split: if_splits)
next
  case (WindowSizeMsg width height)
  then show ?thesis using u ok vp cursor_ok_size by (auto simp: session_Update_def session_ok_def)
next
  case (ScreenMsg m)
  then show ?thesis
    using u ok session_polled_ok [OF ok]
    by (cases m) (auto simp: session_Update_def session_ok_def Let_def split: if_splits option.splits prod.splits)
qed (use u ok in \<open>auto simp: session_Update_def session_ok_def Let_def split: if_splits\<close>)

lemma new_screens_ok: "monitor_ok (newMonitorScreen i a b)" "session_ok (newSessionScreen ss a b)"
  by (simp_all add: monitor_ok_def newMonitorScreen_def session_ok_def newSessionScreen_def cursor_ok_def in_list_def sortSessions_def)

lemma monitor_Update_window:
  assumes "monitor_Update now s msg w = (s', cmd, w')"
  shows "same_size w w' \<and> (wn_header w' = wn_header w \<or> wn_header w' = selectorHeader)"
  using assms
  by (auto simp: monitor_Update_def monitor_key_def monitor_allowed_def monitor_logs_def monitor_tick_def transitionBack_def same_size_def
      SetFlash_def SetHeader_def SetError_def ClearError_def Let_def
      split: ui_msg.splits screen_msg.splits if_splits prod.splits option.splits sum.splits allowStatus.splits bool.splits)

lemma session_Update_window:
  assumes "session_Update s msg w = (s', cmd, w', i)"
  shows "same_size w w' \<and> (wn_header w' = wn_header w
    \<or> (\<exists>sel. msg = ScreenMsg (SessionSelectResultMsg sel None) \<and> wn_header w' = \<lparr>hi_ProjectDir = si_ProjectDir sel, hi_SessionID = si_SessionID sel\<rparr>))"
  using assms
  by (auto simp: session_Update_def session_polled_def Let_def same_size_def SetHeader_def SetError_def ClearError_def
      split: ui_msg.splits screen_msg.splits if_splits prod.splits option.splits sum.splits)

text \<open>A session whose directory or identifier has a line break would add lines to the header.\<close>

definition msg_ok :: "smsg \<Rightarrow> bool" where
  "msg_ok msg = (case msg of
     ScreenMsg (SessionSelectResultMsg sel _) \<Rightarrow> nl \<notin> set (si_ProjectDir sel) \<and> nl \<notin> set (si_SessionID sel) | _ \<Rightarrow> True)"

lemma one_line_selectorHeader [simp]: "one_line_info selectorHeader"
  by (simp add: one_line_info_def selectorHeader_def)

text \<open>Only a message about the size changes the height.\<close>

lemma monitor_Update_height:
  assumes "\<forall>a b. msg \<noteq> WindowSizeMsg a b" and "monitor_Update now s msg w = (Stay s', cmd, w')"
  shows "cu_VpHeight (mo_cursor s') = cu_VpHeight (mo_cursor s)"
  using assms HandleKey_height [of "mo_cursor s"]
  by (auto simp: monitor_Update_def monitor_key_def monitor_allowed_def monitor_logs_def monitor_tick_def transitionBack_def Let_def
      split: ui_msg.splits screen_msg.splits if_splits prod.splits option.splits sum.splits bool.splits dest!: arg_cong [of _ _ snd])

lemma session_Update_height:
  assumes "\<forall>a b. msg \<noteq> WindowSizeMsg a b" and "session_Update s msg w = (s', cmd, w', i)"
  shows "cu_VpHeight (ss_Cursor s') = cu_VpHeight (ss_Cursor s)"
  using assms
  by (auto simp: session_Update_def session_polled_def Let_def
      split: ui_msg.splits screen_msg.splits if_splits prod.splits option.splits sum.splits)

lemma new_screens_height:
  "screen_ok (MonitorScreen (newMonitorScreen i a b)) 0" "screen_ok (SessionScreen (newSessionScreen ss c d)) 0"
  using new_screens_ok by (simp_all add: screen_ok_def) (simp_all add: newMonitorScreen_def newSessionScreen_def)

lemma screen_ok_height: "screen_ok sc v \<Longrightarrow> 0 \<le> v"
  by (auto simp: screen_ok_def monitor_ok_def session_ok_def cursor_ok_def split: screen.splits)

interpretation screens: tui_screen screen_Update screen_ok msg_ok
proof
  fix sc v w now msg sc' repl cmd w'
  assume ok: "screen_ok sc v" and vp: "0 \<le> wn_vpHeight w" and msg: "\<forall>a b. msg \<noteq> WindowSizeMsg a b"
    and u: "screen_Update now sc msg w = (sc', repl, cmd, w')"
  show "screen_ok sc' (if repl then 0 else v) \<and> same_size w w'"
  proof (cases sc)
    case (MonitorScreen s)
    obtain n c x where m: "monitor_Update now s msg w = (n, c, x)" by (metis prod_cases3)
    show ?thesis
      using MonitorScreen u m ok monitor_Update_window [OF m] monitor_Update_ok [of s w now msg, OF _ vp] monitor_Update_height [OF msg, of now s w]
        new_screens_height(2)
      by (cases n) (auto simp: screen_Update_def screen_ok_def)
  next
    case (SessionScreen s)
    obtain n c x i where m: "session_Update s msg w = (n, c, x, i)" by (metis prod_cases4)
    show ?thesis
      using SessionScreen u m ok session_Update_window [OF m] session_Update_ok [OF _ vp m] session_Update_height [OF msg m] new_screens_height(1)
      by (cases i) (auto simp: screen_Update_def screen_ok_def)
  qed
next
  fix sc v w now a b sc' repl cmd w'
  assume ok: "screen_ok sc v" and vp: "0 \<le> wn_vpHeight w" and u: "screen_Update now sc (WindowSizeMsg a b) w = (sc', repl, cmd, w')"
  show "screen_ok sc' (wn_vpHeight w) \<and> \<not> repl \<and> w' = w"
    using ok u vp cursor_ok_size
    by (auto simp: screen_Update_def monitor_Update_def session_Update_def monitor_size_def Let_def screen_ok_def monitor_ok_def session_ok_def
        split: screen.splits)
next
  fix sc w now msg sc' repl cmd w'
  assume u: "screen_Update now sc msg w = (sc', repl, cmd, w')" and m: "msg_ok msg" and h: "one_line_info (wn_header w)"
  show "one_line_info (wn_header w')"
  proof (cases sc)
    case (MonitorScreen s)
    then show ?thesis
      using u h monitor_Update_window [of now s msg w] by (auto simp: screen_Update_def split: prod.splits next_screen.splits)
  next
    case (SessionScreen s)
    then show ?thesis
      using u h m session_Update_window [of s msg w]
      by (fastforce simp: screen_Update_def msg_ok_def one_line_info_def split: prod.splits option.splits)
  qed
qed

end
