(* ===== verification/Monitor_Log.thy ===== *)
theory Monitor_Log
  imports Monitor_UI
begin

text \<open>
  The monitor beside a running proxy: what it shows of the log, what its keys do to the proxy, and what the user can reach on the screens.
\<close>

section \<open>The log on the screen\<close>

text \<open>
  The monitor beside a running proxy: the log of the proxy grows, the user types, a poll is on the wire as a question or as an answer.
  \<open>sy_history\<close> are the entries logged so far.
\<close>

datatype poll = Asked uint64 | Answered "string + LogEntry list"

record mon_system =
  sy_history :: "LogEntry list"
  sy_proxy :: proxy_state
  sy_screen :: monitorScreen
  sy_wire :: "poll list"

definition poll_of :: "scmd \<Rightarrow> poll list" where
  "poll_of cmd = (case cmd of Some (ScreenCmd (PollLogsCmd a)) \<Rightarrow> [Asked a] | _ \<Rightarrow> [])"

definition answer :: "link \<Rightarrow> proxy_state \<Rightarrow> uint64 \<Rightarrow> string + LogEntry list" where
  "answer l st a = (case LogsAfter l st a of Inl _ \<Rightarrow> Inl ''poll'' | Inr es \<Rightarrow> Inr es)"

inductive mon_step :: "mon_system \<Rightarrow> mon_system \<Rightarrow> bool" where
  logged: "LogBuffer_Add (ps_log (sy_proxy y)) e = Inr b \<Longrightarrow>
    mon_step y (y\<lparr>sy_history := sy_history y @ [e], sy_proxy := (sy_proxy y)\<lparr>ps_log := b\<rparr>\<rparr>)"
| typed: "\<forall>r. msg \<noteq> ScreenMsg (LogsPollResultMsg r) \<Longrightarrow> monitor_Update now (sy_screen y) msg w = (Stay s, cmd, w') \<Longrightarrow>
    mon_step y (y\<lparr>sy_screen := s, sy_wire := sy_wire y @ poll_of cmd\<rparr>)"
| answered: "sy_wire y = xs @ Asked a # ys \<Longrightarrow> mon_step y (y\<lparr>sy_wire := xs @ Answered (answer l (sy_proxy y) a) # ys\<rparr>)"
| delivered: "sy_wire y = xs @ Answered r # ys \<Longrightarrow> monitor_Update now (sy_screen y) (ScreenMsg (LogsPollResultMsg r)) w = (Stay s, cmd, w') \<Longrightarrow>
    mon_step y (y\<lparr>sy_screen := s, sy_wire := xs @ ys @ poll_of cmd\<rparr>)"

inductive mon_reach :: "int \<Rightarrow> mon_system \<Rightarrow> bool" for capacity where
  start: "NewLogBuffer capacity = Inr b \<Longrightarrow> ps_log st = b \<Longrightarrow>
    mon_reach capacity \<lparr>sy_history = [], sy_proxy = st, sy_screen = newMonitorScreen i True onBack, sy_wire = []\<rparr>"
| step: "mon_reach capacity y \<Longrightarrow> mon_step y z \<Longrightarrow> mon_reach capacity z"

text \<open>The entries shown, by their place in the history.\<close>

definition displays :: "nat \<Rightarrow> LogEntry list \<Rightarrow> monitorScreen \<Rightarrow> nat list \<Rightarrow> bool" where
  "displays cap es s ks \<longleftrightarrow>
     map it_entry (mo_items s) = map (\<lambda>k. stamped es ! k) ks \<and> sorted_wrt (<) ks \<and> (\<forall>k \<in> set ks. k < length es)
     \<and> unat (mo_pollCursor s) = (if ks = [] then 0 else Suc (last ks)) \<and> (length es \<le> cap \<longrightarrow> ks = [] \<or> ks = [hd ks..<Suc (last ks)])"

text \<open>An answer to the screen: entries of the history after the last one shown, without a gap when none was dropped.\<close>

definition answers :: "nat \<Rightarrow> LogEntry list \<Rightarrow> nat \<Rightarrow> LogEntry list \<Rightarrow> bool" where
  "answers cap es n p \<longleftrightarrow>
     (\<exists>m j. n \<le> m \<and> j \<le> length es \<and> p = drop m (take j (stamped es)) \<and> (length es \<le> cap \<longrightarrow> 0 < n \<longrightarrow> m = n \<or> j \<le> m))"

definition wire_ok :: "nat \<Rightarrow> LogEntry list \<Rightarrow> monitorScreen \<Rightarrow> poll list \<Rightarrow> bool" where
  "wire_ok cap es s wire \<longleftrightarrow>
     (if mo_pollInFlight s then
        wire = [Asked (mo_pollCursor s)] \<or> (\<exists>e. wire = [Answered (Inl e)])
        \<or> (\<exists>p. wire = [Answered (Inr p)] \<and> answers cap es (unat (mo_pollCursor s)) p)
      else wire = [])"

definition mon_inv :: "nat \<Rightarrow> mon_system \<Rightarrow> bool" where
  "mon_inv cap y \<longleftrightarrow>
     log_rep (ps_log (sy_proxy y)) (sy_history y) \<and> lb_cap (ps_log (sy_proxy y)) = int cap
     \<and> (\<exists>ks. displays cap (sy_history y) (sy_screen y) ks) \<and> wire_ok cap (sy_history y) (sy_screen y) (sy_wire y)"

lemma stamped_nth_snoc: "k < length es \<Longrightarrow> stamped (es @ [e]) ! k = stamped es ! k"
  by (simp add: stamped_snoc nth_append)

lemma displays_snoc: "displays cap es s ks \<Longrightarrow> displays cap (es @ [e]) s ks"
  by (auto simp: displays_def stamped_nth_snoc cong: map_cong)

lemma answers_snoc:
  assumes "answers cap es n p"
  shows "answers cap (es @ [e]) n p"
proof -
  from assms obtain m j where "n \<le> m" "j \<le> length es" "p = drop m (take j (stamped es))" "length es \<le> cap \<longrightarrow> 0 < n \<longrightarrow> m = n \<or> j \<le> m"
    unfolding answers_def by blast
  then show ?thesis
    unfolding answers_def by (intro exI [of _ m] exI [of _ j]) (simp add: stamped_snoc)
qed

lemma sorted_le_last: "sorted_wrt (<) ks \<Longrightarrow> k \<in> set ks \<Longrightarrow> k \<le> last ks" for k :: nat
  by (induction ks) (auto simp: less_imp_le)

lemma drop_take_nth: "j \<le> length xs \<Longrightarrow> drop m (take j xs) = map (\<lambda>k. xs ! k) [m..<j]"
  by (rule nth_equalityI) auto

text \<open>What a message other than an answer leaves alone.\<close>

lemma typed_keeps:
  assumes "\<forall>r. msg \<noteq> ScreenMsg (LogsPollResultMsg r)" and "monitor_Update now s msg w = (Stay s', cmd, w')"
  shows "map it_entry (mo_items s') = map it_entry (mo_items s)" "mo_pollCursor s' = mo_pollCursor s"
    "mo_pollInFlight s' = mo_pollInFlight s \<and> poll_of cmd = []
     \<or> \<not> mo_pollInFlight s \<and> mo_pollInFlight s' \<and> poll_of cmd = [Asked (mo_pollCursor s)]"
proof -
  have upd: "map it_entry (xs[i := (xs ! i)\<lparr>it_status := v\<rparr>]) = map it_entry xs" for xs i v
    by (cases "i < length xs") (simp_all add: map_update list_update_same_conv list_update_beyond)
  note d = monitor_Update_def monitor_key_def monitor_size_def monitor_allowed_def monitor_tick_def transitionBack_def Let_def poll_of_def upd
  note sp = ui_msg.splits screen_msg.splits if_splits prod.splits option.splits bool.splits
  show "map it_entry (mo_items s') = map it_entry (mo_items s)" "mo_pollCursor s' = mo_pollCursor s"
    "mo_pollInFlight s' = mo_pollInFlight s \<and> poll_of cmd = []
     \<or> \<not> mo_pollInFlight s \<and> mo_pollInFlight s' \<and> poll_of cmd = [Asked (mo_pollCursor s)]"
    using assms by (auto simp: d split: sp)
qed

lemma delivered_keeps:
  assumes "monitor_Update now s (ScreenMsg (LogsPollResultMsg r)) w = (Stay s', cmd, w')"
  shows "poll_of cmd = []" "\<not> mo_pollInFlight s'"
    "isl r \<Longrightarrow> mo_items s' = mo_items s \<and> mo_pollCursor s' = mo_pollCursor s"
    "r = Inr p \<Longrightarrow> map it_entry (mo_items s') = map it_entry (mo_items s) @ p
       \<and> mo_pollCursor s' = (if p = [] then mo_pollCursor s else le_ID (last p))"
  using assms by (auto simp: monitor_Update_def monitor_logs_def Let_def poll_of_def o_def split: sum.splits if_splits)

lemma answer_answers:
  assumes rep: "log_rep b es" "lb_cap b = int cap" and n: "n \<le> length es" "length es < 2 ^ 64"
  shows "answers cap es n (EntriesAfter b (of_nat n))"
proof -
  show ?thesis
  proof (cases "n = 0")
    case True
    then have "EntriesAfter b (of_nat n) = drop (max (length es - 25) (length es - cap)) (stamped es)"
      using EntriesAfter_zero_rep [OF rep(1)] rep(2) by simp
    then show ?thesis
      using True unfolding answers_def by (intro exI [of _ "max (length es - 25) (length es - cap)"] exI [of _ "length es"]) simp
  next
    case False
    then have "EntriesAfter b (of_nat n) = drop (max n (length es - cap)) (stamped es)"
      using EntriesAfter_rep [OF rep(1), of n] rep(2) n by simp
    then show ?thesis unfolding answers_def by (intro exI [of _ "max n (length es - cap)"] exI [of _ "length es"]) auto
  qed
qed

lemma displays_delivered:
  assumes s: "displays cap es s ks" and p: "answers cap es (unat (mo_pollCursor s)) p" and len: "length es < 2 ^ 64"
    and items: "map it_entry (mo_items s') = map it_entry (mo_items s) @ p"
    and cursor: "mo_pollCursor s' = (if p = [] then mo_pollCursor s else le_ID (last p))"
  shows "\<exists>ks'. displays cap es s' ks'"
proof -
  let ?n = "unat (mo_pollCursor s)"
  obtain m j where mj: "?n \<le> m" "j \<le> length es" "p = drop m (take j (stamped es))" "length es \<le> cap \<longrightarrow> 0 < ?n \<longrightarrow> m = ?n \<or> j \<le> m"
    using p unfolding answers_def by (elim exE conjE) (rule that)
  have pm: "p = map (\<lambda>k. stamped es ! k) [m..<j]" unfolding mj(3) by (rule drop_take_nth) (use mj(2) in simp)
  have ks: "map it_entry (mo_items s) = map (\<lambda>k. stamped es ! k) ks" "sorted_wrt (<) ks" "\<forall>k \<in> set ks. k < length es"
      "?n = (if ks = [] then 0 else Suc (last ks))" "length es \<le> cap \<longrightarrow> ks = [] \<or> ks = [hd ks..<Suc (last ks)]"
    using s by (auto simp: displays_def)
  show ?thesis
  proof (cases "m < j")
    case False
    then have "p = []" using pm by simp
    then show ?thesis using s items cursor by (intro exI [of _ ks]) (simp add: displays_def)
  next
    case True
    then have ne: "p \<noteq> []" and lst: "last p = stamped es ! (j - 1)" using pm by (auto simp: last_map)
    have "le_ID (last p) = of_nat j" unfolding lst using True mj(2) by (cases j) (simp_all add: stamped_def)
    then have cur: "unat (mo_pollCursor s') = j" using cursor ne mj(2) len by (simp add: unat_of_nat take_bit_eq_mod)
    have lt: "k < m" if "k \<in> set ks" for k
      using sorted_le_last [OF ks(2) that] that ks(4) mj(1) by (auto split: if_splits)
    have cont: "ks @ [m..<j] = [hd (ks @ [m..<j])..<Suc (last (ks @ [m..<j]))]" if "length es \<le> cap"
    proof (cases "ks = []")
      case False
      then have "m = Suc (last ks)" using that mj(4) ks(4) True by simp
      moreover have "ks = [hd ks..<Suc (last ks)]" using ks(5) that False by blast
      moreover have "[hd ks..<m] @ [m..<j] = [hd ks..<j]" if "hd ks \<le> m" using upt_add_eq_append [of "hd ks" m "j - m"] that True by simp
      moreover have "hd ks \<le> m" using lt [of "hd ks"] False by simp
      ultimately show ?thesis using False True by simp
    qed (use True in simp)
    have "displays cap es s' (ks @ [m..<j])"
      unfolding displays_def
      using items pm ks cur True mj(2) less_le_trans [OF lt] cont by (auto simp: sorted_wrt_append)
    then show ?thesis ..
  qed
qed

lemma wire_step:
  assumes "wire_ok cap es s wire" and "wire = xs @ q # ys"
  shows "xs = [] \<and> ys = [] \<and> mo_pollInFlight s"
  using assms by (auto simp: wire_ok_def Cons_eq_append_conv append_eq_Cons_conv split: if_splits)

lemma mon_step_inv:
  assumes "mon_step y z" and "mon_inv cap y" and "length (sy_history z) < 2 ^ 64"
  shows "mon_inv cap z"
  using assms
proof (induction rule: mon_step.induct)
  case (logged y e b)
  then obtain b' where "LogBuffer_Add (ps_log (sy_proxy y)) e = Inr b'" "log_rep b' (sy_history y @ [e])"
    using ring_log.add_rep unfolding mon_inv_def by blast
  moreover have "lb_cap b = lb_cap (ps_log (sy_proxy y))"
    using logged.hyps by (auto simp: LogBuffer_Add_def Let_def split: if_splits)
  moreover have "wire_ok cap (sy_history y @ [e]) (sy_screen y) (sy_wire y)"
    using logged.prems answers_snoc by (fastforce simp: mon_inv_def wire_ok_def split: if_splits)
  ultimately show ?case using logged by (auto simp: mon_inv_def intro: displays_snoc)
next
  case (typed msg now y w s cmd w')
  note k = typed_keeps [OF typed.hyps]
  from typed.prems(1) have d: "\<exists>ks. displays cap (sy_history y) (sy_screen y) ks" and w: "wire_ok cap (sy_history y) (sy_screen y) (sy_wire y)"
    by (simp_all add: mon_inv_def)
  from d k have "\<exists>ks. displays cap (sy_history y) s ks" by (simp add: displays_def)
  moreover have "wire_ok cap (sy_history y) s (sy_wire y @ poll_of cmd)" using w k by (auto simp: wire_ok_def)
  ultimately show ?case using typed.prems(1) by (simp add: mon_inv_def)
next
  case (answered y xs a ys l)
  have w: "wire_ok cap (sy_history y) (sy_screen y) (sy_wire y)" using answered.prems by (simp add: mon_inv_def)
  note e = wire_step [OF w answered.hyps]
  then have a: "a = mo_pollCursor (sy_screen y)" using w answered.hyps by (auto simp: wire_ok_def)
  from answered.prems obtain ks where ks: "displays cap (sy_history y) (sy_screen y) ks" by (auto simp: mon_inv_def)
  then have "unat a \<le> length (sy_history y)" unfolding a displays_def by (auto simp: Suc_le_eq)
  then have ans: "answers cap (sy_history y) (unat a) (EntriesAfter (ps_log (sy_proxy y)) a)"
    using answer_answers [of "ps_log (sy_proxy y)" "sy_history y" cap "unat a"] answered.prems by (simp add: mon_inv_def)
  have "wire_ok cap (sy_history y) (sy_screen y) [Answered (answer l (sy_proxy y) a)]"
    using e ans a by (auto simp: wire_ok_def answer_def dest: LogsAfter_Inr split: sum.splits)
  then show ?case using e answered.prems by (simp add: mon_inv_def)
next
  case (delivered y xs r ys now w s cmd w')
  have w: "wire_ok cap (sy_history y) (sy_screen y) (sy_wire y)" using delivered.prems by (simp add: mon_inv_def)
  note e = wire_step [OF w delivered.hyps(1)] and k = delivered_keeps [OF delivered.hyps(2)]
  from delivered.prems obtain ks where ks: "displays cap (sy_history y) (sy_screen y) ks" by (auto simp: mon_inv_def)
  have "\<exists>ks. displays cap (sy_history y) s ks"
  proof (cases r)
    case (Inl err)
    then show ?thesis using k(3) ks by (intro exI [of _ ks]) (simp add: displays_def)
  next
    case (Inr p)
    have "answers cap (sy_history y) (unat (mo_pollCursor (sy_screen y))) p" using w e delivered.hyps(1) Inr by (auto simp: wire_ok_def)
    then show ?thesis using displays_delivered [OF ks _ _] k(4) [OF Inr] delivered.prems(2) by simp
  qed
  moreover have "wire_ok cap (sy_history y) s (xs @ ys @ poll_of cmd)" using e k(1,2) by (simp add: wire_ok_def)
  ultimately show ?case using delivered.prems(1) by (simp add: mon_inv_def)
qed

lemma mon_reach_inv:
  assumes "mon_reach capacity y" and "0 < capacity" and "length (sy_history y) < 2 ^ 64"
  shows "mon_inv (nat capacity) y"
  using assms
proof (induction rule: mon_reach.induct)
  case (start b st i onBack)
  then have "log_rep b [] \<and> lb_cap b = capacity" using new_buffer_history [of capacity b "[]"] by auto
  with start show ?case
    by (auto simp: mon_inv_def displays_def wire_ok_def newMonitorScreen_def intro: exI [of _ "[]"])
next
  case (step y z)
  have "length (sy_history y) \<le> length (sy_history z)" using step.hyps(2) by (induction rule: mon_step.induct) auto
  with step show ?case by (intro mon_step_inv [OF step.hyps(2)]) auto
qed

section \<open>The keys\<close>

lemma label_glob_refl: "label_glob ls ls"
proof (induction ls)
  case (Cons p ps)
  then show ?case
    by (cases "p = ''*''"; cases "p = ''**''") (auto intro: label_glob.intros)
qed (rule label_glob.intros)

lemma domain_admits_self: "d \<noteq> [] \<Longrightarrow> domain_admits d d"
  by (simp add: domain_admits_def label_glob_refl)

text \<open>An entry that was accepted for a domain and a port has one colon, and admits them.\<close>

lemma entry_admits_self:
  assumes "ValidateHTTPEntries [d @ '':'' @ p] = None"
  shows "http_entry_admits (d @ '':'' @ p) (d, p)"
proof -
  obtain d' p' where e: "d @ CHR '':'' # p = d' @ CHR '':'' # p'" and d: "valid_domain d'" "CHR '':'' \<notin> set d'"
    and p: "p' = ''*'' \<or> p' \<noteq> [] \<and> list_all is_digit p'"
    using assms unfolding ValidateHTTPEntries_def
    by (auto simp: ValidateHTTPEntry_None valid_http_entry_def split: option.splits)
  from p have "CHR '':'' \<notin> set p'" by (auto dest: digits_no_colon_space)
  with e d(2) have "d = d' \<and> p = p'" by (metis append_Cons_eq_iff in_set_conv_decomp_first split_list)
  then show ?thesis
    using d(1) \<open>CHR '':'' \<notin> set p'\<close> domain_admits_self [of d] valid_domain_nonempty by (auto simp: http_entry_admits_def)
qed

definition blocked_item :: "monitorScreen \<Rightarrow> int \<Rightarrow> LogEntry \<Rightarrow> bool" where
  "blocked_item s i e \<longleftrightarrow> 0 \<le> i \<and> i < int (length (mo_items s)) \<and> it_entry (mo_items s ! nat i) = e \<and> le_Action e = ActionBlock
     \<and> it_status (mo_items s ! nat i) = statusNone"

lemma allow_key_blocked:
  assumes "monitor_Update now s (KeyPressMsg key) w = (n, Some (ScreenCmd (AllowCmd i e save)), w')"
  shows "n = Stay s \<and> i = cu_Pos (mo_cursor s) \<and> blocked_item s i e \<and> (save \<longleftrightarrow> key = ''A'')"
  using assms by (auto simp: monitor_Update_def monitor_key_def transitionBack_def blocked_item_def Let_def split: if_splits bool.splits prod.splits)

text \<open>The footer offers to save an entry that was allowed for the session, but the key only says that it is allowed.\<close>

lemma save_hint_dead:
  assumes "0 \<le> cu_Pos (mo_cursor s)" "cu_Pos (mo_cursor s) < int (length (mo_items s))"
    and "it_status (mo_items s ! nat (cu_Pos (mo_cursor s))) = statusTemp"
  shows "(''A'', ''save'') \<in> set (monitor_FooterKeys s)"
    and "monitor_Update now s (KeyPressMsg ''A'') w = (Stay s, None, SetFlash now w ''already allowed'')"
  using assms by (auto simp: monitor_FooterKeys_def monitor_Update_def monitor_key_def Let_def)

section \<open>The view\<close>

definition one_line_entry :: "LogEntry \<Rightarrow> bool" where
  "one_line_entry e \<longleftrightarrow> nl \<notin> set (le_Domain e) \<and> nl \<notin> set (le_Port e) \<and> nl \<notin> set (le_Source e) \<and> nl \<notin> set (le_Reason e)"

definition one_line_texts :: "ui_lib \<Rightarrow> monitorScreen \<Rightarrow> Window \<Rightarrow> bool" where
  "one_line_texts ui s w \<longleftrightarrow> (\<forall>t. nl \<notin> set (ul_Format ui t)) \<and> (\<forall>it \<in> set (mo_items s). one_line_entry (it_entry it))
     \<and> nl \<notin> set (wn_flash w) \<and> (\<forall>e. wn_err w = Some e \<longrightarrow> nl \<notin> set e)"

lemma single_marker: "single_lines ui \<Longrightarrow> nl \<notin> set (snd (LineStyle ui h))"
  by (simp add: LineStyle_def Let_def single_Render)

lemma single_log_line:
  assumes "single_lines ui" "\<forall>t. nl \<notin> set (ul_Format ui t)" "one_line_entry (it_entry item)"
  shows "nl \<notin> set (renderLogLine ui item h)"
  using assms single_marker [OF assms(1), of h]
  by (cases "LineStyle ui h") (auto simp: renderLogLine_def Let_def one_line_entry_def pad_right_def single_Render split: prod.splits)

lemma single_show_int: "nl \<notin> set (show_int n)"
proof -
  have "\<not> is_digit nl" by code_simp
  then show ?thesis using show_nat_digits by (auto simp: show_int_def list_all_iff)
qed

lemma single_monitor_status:
  assumes "single_lines ui"
  shows "nl \<notin> set (monitor_FooterStatus ui s w)"
proof -
  have "list_all (\<lambda>f. nl \<notin> set f) spinnerFrames" "nl \<notin> set (braille 0xBF)" "length spinnerFrames = 10" by code_simp+
  moreover have "nat (wn_tickFrame w mod 10) < 10" by simp
  ultimately have "nl \<notin> set (spinnerFrames ! nat (wn_tickFrame w mod int (length spinnerFrames)))" "nl \<notin> set (braille 0xBF)"
    by (simp_all add: list_all_length)
  then show ?thesis using assms by (auto simp: monitor_FooterStatus_def Let_def single_Render single_show_int)
qed

lemma one_line_monitor_keys: "one_line_keys (monitor_FooterKeys s)"
  by (auto simp: one_line_keys_def monitor_FooterKeys_def cursor_FooterKeys_def Let_def)

lemma monitor_view_lines:
  assumes "single_lines ui" "one_line_texts ui s w" "0 < cu_VpHeight (mo_cursor s)" "0 \<le> cu_Offset (mo_cursor s)"
  shows "line_count (monitor_View ui s) = cu_VpHeight (mo_cursor s)"
proof -
  have "nl \<notin> set (renderLogLine ui (mo_items s ! nat i) h)" if "i \<in> set (monitor_View_items s)" for i h
  proof -
    have "nat i < length (mo_items s)" using that assms(4) by (auto simp: monitor_View_items_def viewport_rows_def)
    then show ?thesis using assms(1,2) by (intro single_log_line) (auto simp: one_line_texts_def)
  qed
  then show ?thesis
    unfolding monitor_View_def
    using assms(3) length_viewport_rows [of "cu_VpHeight (mo_cursor s)" "mo_cursor s" "int (length (mo_items s))"]
    by (intro padded_view_lines) (auto simp: monitor_View_items_def)
qed

section \<open>Properties\<close>

text \<open>
  C21. The monitor shows the log as it happened. While a proxy logs, the user types and polls are asked, answered, fail or are lost in any order,
  the rows of the monitor are entries of the log in their order, none twice, each as it was logged
  with its number; as long as the log has not dropped an entry they are without a gap from the first one shown; and at most one
  poll is under way. The bound is the range of the numbers of the entries.
\<close>

theorem monitor_mirrors_log:
  assumes "mon_reach capacity y" and "0 < capacity" and "length (sy_history y) < 2 ^ 64"
  shows "length (sy_wire y) \<le> 1
    \<and> (\<exists>ks. map it_entry (mo_items (sy_screen y)) = map (\<lambda>k. stamped (sy_history y) ! k) ks \<and> sorted_wrt (<) ks
          \<and> (\<forall>k \<in> set ks. k < length (sy_history y))
          \<and> (int (length (sy_history y)) \<le> capacity \<longrightarrow> ks = [] \<or> ks = [hd ks..<Suc (last ks)]))"
proof -
  have "mon_inv (nat capacity) y" by (rule mon_reach_inv [OF assms])
  then obtain ks where ks: "displays (nat capacity) (sy_history y) (sy_screen y) ks" and w: "wire_ok (nat capacity) (sy_history y) (sy_screen y) (sy_wire y)"
    by (auto simp: mon_inv_def)
  from w have "length (sy_wire y) \<le> 1" by (auto simp: wire_ok_def split: if_splits)
  with ks assms(2) show ?thesis by (intro conjI exI [of _ ks]) (auto simp: displays_def)
qed

definition ex_entry :: LogEntry where
  "ex_entry = zero_LogEntry\<lparr>le_Domain := ''a.org'', le_Action := ActionBlock, le_Source := SourceDNS\<rparr>"

definition ex_shown :: monitorScreen where
  "ex_shown = (newMonitorScreen \<lparr>si_ControlPort = ''1'', si_SessionID = ''x'', si_ProjectDir = ''/p''\<rparr> True True)
     \<lparr>mo_items := [\<lparr>it_entry = ex_entry, it_status = statusNone\<rparr>], mo_cursor := \<lparr>cu_Pos = 0, cu_Offset = 0, cu_VpHeight = 1, cu_ItemCount = 1\<rparr>\<rparr>"

theorem monitor_mirrors_log_witness:
  "\<exists>y ks. mon_reach 4 y \<and> sy_history y = [ex_entry] \<and> ks \<noteq> [] \<and> length (sy_wire y) \<le> 1
     \<and> map it_entry (mo_items (sy_screen y)) = map (\<lambda>k. stamped [ex_entry] ! k) ks"
proof -
  let ?i = "\<lparr>si_ControlPort = ''1'', si_SessionID = ''x'', si_ProjectDir = ''/p''\<rparr>"
  obtain b where b: "NewLogBuffer 4 = Inr b" by (simp add: NewLogBuffer_def)
  obtain st :: proxy_state where st: "ps_log st = b" using that [of "undefined\<lparr>ps_log := b\<rparr>"] by simp
  have rep: "log_rep b [] \<and> lb_cap b = 4" using new_buffer_history [of 4 b "[]"] b by simp
  then obtain b1 where b1: "LogBuffer_Add b ex_entry = Inr b1" "log_rep b1 [ex_entry]" using ring_log.add_rep [of b "[]" ex_entry] by auto
  let ?s = "newMonitorScreen ?i True True"
  let ?s1 = "?s\<lparr>mo_firstTickSeen := True, mo_pollInFlight := True\<rparr>"
  let ?st = "st\<lparr>ps_log := b1\<rparr>"
  have "mon_reach 4 \<lparr>sy_history = [], sy_proxy = st, sy_screen = ?s, sy_wire = []\<rparr>" by (rule mon_reach.start [OF b st])
  from mon_reach.step [OF this mon_step.logged [of _ ex_entry b1]]
  have 1: "mon_reach 4 \<lparr>sy_history = [ex_entry], sy_proxy = ?st, sy_screen = ?s, sy_wire = []\<rparr>" using st b1 by simp
  have t: "monitor_Update 0 ?s TickMsg (NewWindow selectorHeader) = (Stay ?s1, Some (ScreenCmd (PollLogsCmd 0)), NewWindow selectorHeader)"
    by (simp add: monitor_Update_def monitor_tick_def newMonitorScreen_def)
  from mon_reach.step [OF 1 mon_step.typed [of TickMsg 0 _ "NewWindow selectorHeader"]] t
  have 2: "mon_reach 4 \<lparr>sy_history = [ex_entry], sy_proxy = ?st, sy_screen = ?s1, sy_wire = [Asked 0]\<rparr>" by (simp add: poll_of_def)
  from mon_reach.step [OF 2 mon_step.answered [of _ "[]" 0 "[]" LinkUp]]
  have 3: "mon_reach 4 \<lparr>sy_history = [ex_entry], sy_proxy = ?st, sy_screen = ?s1, sy_wire = [Answered (Inr (EntriesAfter b1 0))]\<rparr>"
    by (simp add: answer_def)
  have "lb_cap b1 = 4" using b1(1) rep by (auto simp: LogBuffer_Add_def Let_def split: if_splits)
  then have en: "EntriesAfter b1 0 = stamped [ex_entry]" using EntriesAfter_zero_rep [OF b1(2)] by simp
  obtain s2 cmd w2 where d: "monitor_Update 0 ?s1 (ScreenMsg (LogsPollResultMsg (Inr (EntriesAfter b1 0)))) (NewWindow selectorHeader) = (Stay s2, cmd, w2)"
    using that by (simp add: monitor_Update_def split_beta)
  note k = delivered_keeps(1,4) [OF d]
  from mon_reach.step [OF 3 mon_step.delivered [of _ "[]" "Inr (EntriesAfter b1 0)" "[]"]] d
  have 4: "mon_reach 4 \<lparr>sy_history = [ex_entry], sy_proxy = ?st, sy_screen = s2, sy_wire = []\<rparr>" using k(1) by fastforce
  have "mo_items s2 \<noteq> []" using k(2) [of "EntriesAfter b1 0"] en by (auto simp: stamped_def)
  moreover obtain ks where "map it_entry (mo_items s2) = map (\<lambda>k. stamped [ex_entry] ! k) ks"
    using monitor_mirrors_log [OF 4] by auto
  ultimately show ?thesis using 4 by (intro exI [of _ "\<lparr>sy_history = [ex_entry], sy_proxy = ?st, sy_screen = s2, sy_wire = []\<rparr>"] exI [of _ ks]) auto
qed

text \<open>
  The key to allow unblocks. The keys \<^verbatim>\<open>a\<close> and \<^verbatim>\<open>A\<close> ask for an entry to be allowed only when the row under the
  cursor is that entry, it was blocked and was not allowed from here before, and only \<^verbatim>\<open>A\<close> asks to save it. When that ends without an
  error, the running proxy admits the name, or the host at its port, that it had blocked, and everything it
  admitted before.
\<close>

lemma allow_key_unblocks:
  assumes key: "monitor_Update now s (KeyPressMsg key) w = (n, Some (ScreenCmd (AllowCmd i e save)), w')"
    and ran: "allowCmd env i e save st f = (AllowResultMsg j status None, st', f')"
  shows "blocked_item s (cu_Pos (mo_cursor s)) e \<and> j = cu_Pos (mo_cursor s) \<and> (key = ''A'' \<longleftrightarrow> status = statusSaved) \<and> (key \<noteq> ''A'' \<longrightarrow> f' = f)
    \<and> (le_Source e = SourceDNS \<longrightarrow> DNSAllowlist_Allows (ps_dns st') (le_Domain e))
    \<and> (le_Source e = SourceProxy \<and> le_Port e \<noteq> [] \<longrightarrow> HTTPAllowlist_Allows (ps_http st') (le_Domain e) (le_Port e))
    \<and> (\<forall>host port. HTTPAllowlist_Allows (ps_http st) host port \<longrightarrow> HTTPAllowlist_Allows (ps_http st') host port)
    \<and> (\<forall>host. DNSAllowlist_Allows (ps_dns st) host \<longrightarrow> DNSAllowlist_Allows (ps_dns st') host)"
proof -
  note k = allow_key_blocked [OF key]
  show ?thesis
  proof (cases "le_Source e = SourceDNS")
    case True
    then have v: "allowValueForEntry e = le_Domain e" by (simp add: allowValueForEntry_def SourceDNS_def SourceProxy_def)
    obtain added where a: "client_AllowDNS (al_link env) st [le_Domain e] = (Inr added, st')"
        and r: "j = i" "save \<longleftrightarrow> status = statusSaved" "\<not> save \<longrightarrow> f' = f"
      using ran True by (auto simp: allowCmd_def v Let_def split: prod.splits sum.splits if_splits option.splits)
    note c = client_AllowDNS_Inr [OF a]
    have "le_Domain e \<noteq> []"
      using c by (auto simp: ValidateDNSEntries_def ValidateDNSEntry_None split: option.splits)
    then show ?thesis
      using k r c True dns_added [of "[le_Domain e]" "ps_dns st"] domain_admits_self by (auto simp: SourceDNS_def SourceProxy_def)
  next
    case False
    obtain added where a: "client_AllowHTTP (al_link env) st [allowValueForEntry e] = (Inr added, st')"
        and r: "j = i" "save \<longleftrightarrow> status = statusSaved" "\<not> save \<longrightarrow> f' = f"
      using ran False by (auto simp: allowCmd_def Let_def split: prod.splits sum.splits if_splits option.splits)
    note c = client_AllowHTTP_Inr [OF a]
    have "http_entry_admits (allowValueForEntry e) (le_Domain e, le_Port e)" if "le_Source e = SourceProxy" "le_Port e \<noteq> []"
      using entry_admits_self [of "le_Domain e" "le_Port e"] c that by (simp add: allowValueForEntry_def)
    then show ?thesis
      using k r c False http_added [of "[allowValueForEntry e]" "ps_http st"] by auto
  qed
qed

lemma allow_key_unblocks_witness:
  "\<exists>st st'. fst (allowCmd ex_allow 0 ex_entry False st None) = AllowResultMsg 0 statusTemp None
    \<and> fst (snd (allowCmd ex_allow 0 ex_entry False st None)) = st'
    \<and> \<not> DNSAllowlist_Allows (ps_dns st) ''a.org'' \<and> DNSAllowlist_Allows (ps_dns st') ''a.org''"
proof -
  obtain st :: proxy_state where st: "ps_dns st = []" by (metis proxy_state.select_convs(2))
  let ?w = "NewWindow selectorHeader"
  have key: "monitor_Update 0 ex_shown (KeyPressMsg ''a'') ?w = (Stay ex_shown, Some (ScreenCmd (AllowCmd 0 ex_entry False)), ?w)"
    by (simp add: monitor_Update_def monitor_key_def ex_shown_def ex_entry_def newMonitorScreen_def)
  have v: "ValidateDNSEntries [''a.org''] = None" by code_simp
  let ?st = "st\<lparr>ps_dns := ps_dns st @ map parseDNSRule [''a.org'']\<rparr>"
  have val: "allowValueForEntry ex_entry = ''a.org''" by (simp add: allowValueForEntry_def ex_entry_def SourceDNS_def SourceProxy_def)
  have src: "le_Source ex_entry = SourceDNS" "le_Domain ex_entry = ''a.org''" by (simp_all add: ex_entry_def)
  have "client_AllowDNS LinkUp st [''a.org''] = (Inr [''a.org''], ?st)"
    using v by (simp add: client_AllowDNS_def postAllow_def control_call_def ServeHTTP_def handleAllowDNS_def decodeAllowRequest_def
        DNSAllowlist_Add_def status_ok_def Let_def)
  then have ran: "allowCmd ex_allow 0 ex_entry False st None = (AllowResultMsg 0 statusTemp None, ?st, None)"
    by (simp add: allowCmd_def val src ex_allow_def Let_def)
  have "DNSAllowlist_Allows (ps_dns ?st) ''a.org''" using allow_key_unblocks [OF key ran, unfolded src(2)] src(1) by blast
  moreover have "\<not> DNSAllowlist_Allows (ps_dns st) ''a.org''" using st by (simp add: DNSAllowlist_Allows_iff)
  ultimately show ?thesis using ran by (intro exI [of _ st] exI [of _ ?st]) simp
qed

text \<open>
  C40. The monitor always has the selected row on the screen and fits the terminal. Whatever messages the window got since it started,
  with the monitor or with the list of sessions, when it shows the monitor its cursor counts the
  rows, is on one of them, and the row is among those drawn; and when the terminal has room for the header, a row and the footer, and the texts
  shown are of one line each, what is drawn has exactly as many lines as the terminal.
\<close>

theorem monitor_navigable_and_fits:
  assumes "single_lines ui" "one_line_info h" "\<forall>(now, m) \<in> set ms. msg_ok m"
    and start: "sc = MonitorScreen (newMonitorScreen i a b) \<or> sc = SessionScreen (newSessionScreen ss c d)"
    and run: "run_window ui screen_Update (sc, NewWindow h) ms = (MonitorScreen s, w)"
  shows "cu_ItemCount (mo_cursor s) = int (length (mo_items s))
    \<and> (mo_items s \<noteq> [] \<longrightarrow> 0 \<le> cu_Pos (mo_cursor s) \<and> cu_Pos (mo_cursor s) < int (length (mo_items s)))
    \<and> (mo_items s \<noteq> [] \<longrightarrow> wn_width w \<noteq> 0 \<longrightarrow> cu_Pos (mo_cursor s) \<in> set (monitor_View_items s))
    \<and> (wn_width w \<noteq> 0 \<longrightarrow> header_rows (wn_height w) + 2 \<le> wn_height w \<longrightarrow> one_line_texts ui s w
        \<longrightarrow> line_count (window_View ui now w (monitor_View ui s) (monitor_FooterStatus ui s w) (monitor_FooterKeys s)) = wn_height w)"
proof -
  have "screen_ok sc 0" using start new_screens_height by auto
  from screens.from_start [OF this assms(2,1,3)] run
  have ok: "monitor_ok s" "cu_VpHeight (mo_cursor s) = wn_vpHeight w" and fr: "frame_ok w" "one_line_info (wn_header w)"
    by (auto simp: screens.shown_def screen_ok_def)
  have vp: "wn_width w \<noteq> 0 \<Longrightarrow> 0 < wn_vpHeight w" using fr(1) by (auto simp: frame_ok_def)
  have lines: "line_count (window_View ui now w (monitor_View ui s) (monitor_FooterStatus ui s w) (monitor_FooterKeys s)) = wn_height w"
    if "wn_width w \<noteq> 0" "header_rows (wn_height w) + 2 \<le> wn_height w" "one_line_texts ui s w"
  proof -
    have "line_count (monitor_View ui s) = wn_vpHeight w"
      using monitor_view_lines [OF assms(1) that(3)] vp [OF that(1)] ok by (simp add: monitor_ok_def cursor_ok_def)
    moreover have "nl \<notin> set (renderFooter ui now w (monitor_FooterStatus ui s w) (monitor_FooterKeys s))"
      using that(3) by (intro single_footer assms(1) single_monitor_status one_line_monitor_keys) (auto simp: one_line_texts_def)
    ultimately show ?thesis using view_lines [OF assms(1) fr(2,1) that(1) _ _ that(2)] by blast
  qed
  show ?thesis
    using ok vp lines
    by (auto simp: monitor_ok_def cursor_ok_def in_list_def visible_def monitor_View_items_def viewport_rows_def)
qed

definition ex_ui :: ui_lib where
  "ex_ui = \<lparr>ul_Render = (\<lambda>_ s. s), ul_StringWidth = (\<lambda>s. int (length s)), ul_Truncate = (\<lambda>s n t. take (nat n) s), ul_Format = (\<lambda>_. ''12:00:00''), ul_HOME = []\<rparr>"

lemma single_lines_ex_ui: "single_lines ex_ui"
  by (auto simp: single_lines_def ex_ui_def dest: in_set_takeD)

theorem monitor_navigable_and_fits_witness:
  "\<exists>s w. run_window ex_ui screen_Update (SessionScreen (newSessionScreen [] True True), NewWindow selectorHeader)
       [(0, WindowSizeMsg 80 12), (0, ScreenMsg (SessionSelectResultMsg \<lparr>si_ControlPort = ''1'', si_SessionID = ''x'', si_ProjectDir = ''/p''\<rparr> None)),
        (1, ScreenMsg (LogsPollResultMsg (Inr [ex_entry, ex_entry])))] = (MonitorScreen s, w)
     \<and> cu_Pos (mo_cursor s) = 1 \<and> 1 \<in> set (monitor_View_items s)
     \<and> line_count (window_View ex_ui 2 w (monitor_View ex_ui s) (monitor_FooterStatus ex_ui s w) (monitor_FooterKeys s)) = 12"
proof -
  let ?ms = "[(0, WindowSizeMsg 80 12), (0, ScreenMsg (SessionSelectResultMsg \<lparr>si_ControlPort = ''1'', si_SessionID = ''x'', si_ProjectDir = ''/p''\<rparr> None)),
        (1, ScreenMsg (LogsPollResultMsg (Inr [ex_entry, ex_entry])))] :: (int \<times> smsg) list"
  let ?run = "run_window ex_ui screen_Update (SessionScreen (newSessionScreen [] True True), NewWindow selectorHeader) ?ms"
  have ev: "case ?run of
      (MonitorScreen s, w) \<Rightarrow> cu_Pos (mo_cursor s) = 1 \<and> mo_items s \<noteq> [] \<and> wn_width w = 80 \<and> wn_height w = 12 \<and> wn_flash w = [] \<and> wn_err w = None
        \<and> list_all (\<lambda>it. one_line_entry (it_entry it)) (mo_items s)
    | _ \<Rightarrow> False" by code_simp
  obtain sc w where run: "?run = (sc, w)" by (metis surj_pair)
  obtain s where s: "sc = MonitorScreen s" using ev unfolding run by (cases sc) auto
  have f: "cu_Pos (mo_cursor s) = 1" "mo_items s \<noteq> []" "wn_width w = 80" "wn_height w = 12" "one_line_texts ex_ui s w"
    using ev unfolding run s by (auto simp: one_line_texts_def ex_ui_def list_all_iff)
  have m: "\<forall>(now, m) \<in> set ?ms. msg_ok m" by (simp add: msg_ok_def)
  have h: "header_rows 12 = 1" by code_simp
  show ?thesis
    using monitor_navigable_and_fits [OF single_lines_ex_ui one_line_selectorHeader m disjI2 [OF refl] run [unfolded s], of 2] f h run s
    by (intro exI [of _ s] exI [of _ w]) simp
qed

end
