(* ===== verification/Preset_Screen.thy ===== *)
theory Preset_Screen
  imports TUI_Window Presets Config_Setup
begin

text \<open>
  The preset selector of the interactive setup, \<^verbatim>\<open>config/setup_ui.go\<close>: the sections and presets offered, the
  lines shown of them, and the keys. It is a screen of \<open>TUI_Window\<close>; its maps \<^verbatim>\<open>checked\<close> and \<^verbatim>\<open>expanded\<close> are functions, where a
  missing key is false.
\<close>

section \<open>Items\<close>

record presetItem =
  pt_isHeader :: bool
  pt_section :: string
  pt_presetName :: string
  pt_description :: string
  pt_includes :: "string list"

datatype lineKind = lineSection | linePreset | lineDomain | lineSubGroup

record visibleLine =
  vl_kind :: lineKind
  vl_itemIdx :: int
  vl_text :: string
  vl_presetName :: string

datatype preset_group = DetectedGroup | DefaultGroup | PkgGroup | InfraGroup | NoGroup

definition preset_group :: "string list \<Rightarrow> Preset \<Rightarrow> preset_group" where
  "preset_group detected p =
     (if pr_Name p \<in> set detected then DetectedGroup
      else if pr_Name p = ''default'' then DefaultGroup
      else if pr_Group p = ''Package Managers'' then PkgGroup
      else if pr_Group p = ''Infrastructure'' then InfraGroup
      else NoGroup)"

definition preset_item :: "Preset \<Rightarrow> presetItem" where
  "preset_item p = \<lparr>pt_isHeader = False, pt_section = [], pt_presetName = pr_Name p, pt_description = pr_Description p, pt_includes = pr_Includes p\<rparr>"

definition addSection :: "string \<Rightarrow> Preset list \<Rightarrow> presetItem list" where
  "addSection name entries =
     (if entries = [] then []
      else \<lparr>pt_isHeader = True, pt_section = name, pt_presetName = [], pt_description = [], pt_includes = []\<rparr> # map preset_item entries)"

definition buildPresetItems :: "PresetRegistry \<Rightarrow> string list \<Rightarrow> presetItem list" where
  "buildPresetItems reg detected =
     (let entries = (\<lambda>g. [p \<leftarrow> All reg. preset_group detected p = g]) in
      addSection ''Detected'' (entries DetectedGroup) @ addSection ''Defaults'' (entries DefaultGroup)
      @ addSection ''Package Managers'' (entries PkgGroup) @ addSection ''Infrastructure'' (entries InfraGroup))"

record presetScreen =
  pc_Cursor :: Cursor
  pc_items :: "presetItem list"
  pc_checked :: "string \<Rightarrow> bool"
  pc_expanded :: "string \<Rightarrow> bool"
  pc_registry :: PresetRegistry
  pc_selected :: "string list option"

section \<open>Lines\<close>

definition domain_lines :: "PresetRegistry \<Rightarrow> string \<Rightarrow> visibleLine list" where
  "domain_lines reg name =
     (case Get reg name of
        None \<Rightarrow> []
      | Some p \<Rightarrow> map (\<lambda>d. \<lparr>vl_kind = lineDomain, vl_itemIdx = - 1, vl_text = d, vl_presetName = name\<rparr>) (pr_Domains p))"

definition detail_lines :: "PresetRegistry \<Rightarrow> presetItem \<Rightarrow> visibleLine list" where
  "detail_lines reg item =
     (if pt_includes item \<noteq> [] then
        concat (map (\<lambda>inc.
          if Get reg inc = None then []
          else \<lparr>vl_kind = lineSubGroup, vl_itemIdx = - 1, vl_text = inc, vl_presetName = pt_presetName item\<rparr> # domain_lines reg inc) (pt_includes item))
      else domain_lines reg (pt_presetName item))"

fun visible_from :: "PresetRegistry \<Rightarrow> (string \<Rightarrow> bool) \<Rightarrow> nat \<Rightarrow> string \<Rightarrow> presetItem list \<Rightarrow> visibleLine list" where
  "visible_from reg expanded i currentSection [] = []"
| "visible_from reg expanded i currentSection (item # items) =
     (if pt_isHeader item then
        \<lparr>vl_kind = lineSection, vl_itemIdx = int i, vl_text = [], vl_presetName = []\<rparr> # visible_from reg expanded (Suc i) (pt_section item) items
      else if \<not> expanded currentSection then visible_from reg expanded (Suc i) currentSection items
      else \<lparr>vl_kind = linePreset, vl_itemIdx = int i, vl_text = [], vl_presetName = []\<rparr>
           # (if expanded (pt_presetName item) then detail_lines reg item else []) @ visible_from reg expanded (Suc i) currentSection items)"

definition buildVisibleLines :: "presetScreen \<Rightarrow> visibleLine list" where
  "buildVisibleLines s = visible_from (pc_registry s) (pc_expanded s) 0 [] (pc_items s)"

definition newPresetScreen :: "PresetRegistry \<Rightarrow> string list \<Rightarrow> string list \<Rightarrow> presetScreen" where
  "newPresetScreen reg preChecked detected =
     (let items = buildPresetItems reg detected;
          s = \<lparr>pc_Cursor = \<lparr>cu_Pos = 0, cu_Offset = 0, cu_VpHeight = 0, cu_ItemCount = 0\<rparr>, pc_items = items, pc_checked = (\<lambda>n. n \<in> set preChecked),
               pc_expanded = (\<lambda>n. list_ex (\<lambda>item. pt_isHeader item \<and> pt_section item = n) items), pc_registry = reg, pc_selected = None\<rparr>
      in s\<lparr>pc_Cursor := \<lparr>cu_Pos = 0, cu_Offset = 0, cu_VpHeight = 0, cu_ItemCount = int (length (buildVisibleLines s))\<rparr>\<rparr>)"

section \<open>Update\<close>

definition includedBy :: "presetScreen \<Rightarrow> string \<Rightarrow> string" where
  "includedBy s name =
     (case find (\<lambda>item. \<not> pt_isHeader item \<and> pc_checked s (pt_presetName item) \<and> name \<in> set (pt_includes item)) (pc_items s) of
        Some item \<Rightarrow> pt_presetName item | None \<Rightarrow> [])"

definition sync_cursor :: "Cursor \<Rightarrow> int \<Rightarrow> Cursor" where
  "sync_cursor c0 n =
     (let c = c0\<lparr>cu_ItemCount := n\<rparr>;
          c = (if n \<le> cu_Pos c then c\<lparr>cu_Pos := n - 1\<rparr> else c);
          c = (if cu_Pos c < 0 then c\<lparr>cu_Pos := 0\<rparr> else c);
          maxOffset = n - cu_VpHeight c
      in EnsureVisible (if maxOffset > 0 then (if cu_Offset c > maxOffset then c\<lparr>cu_Offset := maxOffset\<rparr> else c) else c\<lparr>cu_Offset := 0\<rparr>))"

definition syncCursor :: "presetScreen \<Rightarrow> presetScreen" where
  "syncCursor s = s\<lparr>pc_Cursor := sync_cursor (pc_Cursor s) (int (length (buildVisibleLines s)))\<rparr>"

definition setExpanded :: "presetScreen \<Rightarrow> string \<Rightarrow> bool \<Rightarrow> presetScreen" where
  "setExpanded s name b = s\<lparr>pc_expanded := (pc_expanded s)(name := b)\<rparr>"

text \<open>The items of the lines are always in range: only section and preset lines carry an index.\<close>

definition item_of :: "presetScreen \<Rightarrow> visibleLine \<Rightarrow> presetItem" where
  "item_of s l = pc_items s ! nat (vl_itemIdx l)"

definition preset_right :: "presetScreen \<Rightarrow> visibleLine \<Rightarrow> presetScreen" where
  "preset_right s l =
     syncCursor (case vl_kind l of
        lineSection \<Rightarrow> setExpanded s (pt_section (item_of s l)) True
      | linePreset \<Rightarrow> setExpanded s (pt_presetName (item_of s l)) True
      | _ \<Rightarrow> s)"

definition preset_left :: "presetScreen \<Rightarrow> visibleLine list \<Rightarrow> visibleLine \<Rightarrow> presetScreen" where
  "preset_left s lines l =
     syncCursor (case vl_kind l of
        lineSection \<Rightarrow> setExpanded s (pt_section (item_of s l)) False
      | linePreset \<Rightarrow> setExpanded s (pt_presetName (item_of s l)) False
      | _ \<Rightarrow>
          (case find (\<lambda>j. vl_kind (lines ! j) = linePreset) (rev [0..<nat (cu_Pos (pc_Cursor s))]) of
             None \<Rightarrow> s
           | Some j \<Rightarrow>
               (setExpanded s (pt_presetName (item_of s (lines ! j))) False)\<lparr>pc_Cursor := (pc_Cursor s)\<lparr>cu_Pos := int j\<rparr>\<rparr>))"

text \<open>The names confirmed: every checked preset that is not there yet, followed by its includes that are not.\<close>

fun confirm :: "(string \<Rightarrow> bool) \<Rightarrow> presetItem list \<Rightarrow> string list \<Rightarrow> string list" where
  "confirm checked [] selected = selected"
| "confirm checked (item # items) selected =
     confirm checked items
       (if \<not> pt_isHeader item \<and> checked (pt_presetName item) \<and> pt_presetName item \<notin> set selected
        then dedup_onto (selected @ [pt_presetName item]) (pt_includes item) else selected)"

definition preset_key :: "int \<Rightarrow> presetScreen \<Rightarrow> string \<Rightarrow> Window \<Rightarrow> presetScreen \<times> unit ui_cmd option \<times> Window" where
  "preset_key now s key w =
     (let lines = buildVisibleLines s; c = pc_Cursor s; on_line = (0 \<le> cu_Pos c \<and> cu_Pos c < int (length lines)); l = lines ! nat (cu_Pos c) in
      if key = ''space'' then
        (if on_line \<and> vl_kind l = linePreset then
           (let item = item_of s l; parent = includedBy s (pt_presetName item) in
            if parent \<noteq> [] then (s, None, SetFlash now w (''included via '' @ parent))
            else (s\<lparr>pc_checked := (pc_checked s)(pt_presetName item := \<not> pc_checked s (pt_presetName item))\<rparr>, None, w))
         else (s, None, w))
      else if key = ''right'' \<or> key = ''l'' then (if on_line then preset_right s l else s, None, w)
      else if key = ''left'' \<or> key = ''h'' then (if on_line then preset_left s lines l else s, None, w)
      else if key = ''enter'' then
        (let selected = confirm (pc_checked s) (pc_items s) [] in
         (s\<lparr>pc_selected := (if selected = [] then None else Some selected)\<rparr>, Some Quit, w))
      else if key = ''q'' \<or> key = ''ctrl+c'' then (s, Some Quit, w)
      else (case HandleKey c key of (handled, c') \<Rightarrow> (s\<lparr>pc_Cursor := (if handled then EnsureVisible c' else c')\<rparr>, None, w)))"

definition preset_Update :: "(presetScreen, unit, unit) screen_update" where
  "preset_Update now s msg w =
     (case msg of
        KeyPressMsg key \<Rightarrow> (case preset_key now s key w of (s', cmd, w') \<Rightarrow> (s', False, cmd, w'))
      | WindowSizeMsg _ _ \<Rightarrow> (syncCursor (s\<lparr>pc_Cursor := (pc_Cursor s)\<lparr>cu_VpHeight := max (wn_vpHeight w - 2) 1\<rparr>\<rparr>), False, None, w)
      | _ \<Rightarrow> (s, False, None, w))"

section \<open>View\<close>

definition arrow :: "bool \<Rightarrow> string" where
  "arrow expanded = (if expanded then [CHR 0xE2, CHR 0x96, CHR 0xBE] else [CHR 0xE2, CHR 0x96, CHR 0xB8])"

definition dashes :: string where "dashes = [CHR 0xE2, CHR 0x94, CHR 0x80, CHR 0xE2, CHR 0x94, CHR 0x80]"

definition renderSectionLine :: "ui_lib \<Rightarrow> presetScreen \<Rightarrow> visibleLine \<Rightarrow> bool \<Rightarrow> string" where
  "renderSectionLine ui s l highlighted =
     (let item = item_of s l; (base, marker) = LineStyle ui highlighted in
      marker @ ul_Render ui (Foreground base ColorField)
        (arrow (pc_expanded s (pt_section item)) @ '' '' @ dashes @ '' '' @ pt_section item @ '' '' @ dashes))"

definition renderPresetLine :: "ui_lib \<Rightarrow> presetScreen \<Rightarrow> visibleLine \<Rightarrow> bool \<Rightarrow> string" where
  "renderPresetLine ui s l highlighted =
     (let item = item_of s l; via = includedBy s (pt_presetName item);
          (base, marker) = LineStyle ui highlighted; faint = base\<lparr>us_Faint := True\<rparr>; sp = ul_Render ui base '' '';
          arr = ul_Render ui (Foreground base ColorField) (arrow (pc_expanded s (pt_presetName item)));
          (checkbox, name, desc) =
            (if via \<noteq> [] then
               (ul_Render ui faint (''['' @ [CHR 0xC2, CHR 0xB7] @ '']''), ul_Render ui faint (pad_right 16 (pt_presetName item)),
                ul_Render ui faint (pt_description item @ '' (via '' @ via @ '')''))
             else
               (if pc_checked s (pt_presetName item) then ul_Render ui (Foreground base ColorCyan) ''[x]''
                else ul_Render ui (Foreground base ColorField) ''[ ]'',
                ul_Render ui (Foreground base ColorCyan) (pad_right 16 (pt_presetName item)),
                ul_Render ui (Foreground base ColorField) (pt_description item)))
      in marker @ arr @ sp @ checkbox @ sp @ name @ sp @ desc)"

definition renderSubGroupLine :: "ui_lib \<Rightarrow> visibleLine \<Rightarrow> bool \<Rightarrow> string" where
  "renderSubGroupLine ui l highlighted =
     (let (base, marker) = LineStyle ui highlighted in
      marker @ ul_Render ui base ''        '' @ ul_Render ui (Foreground base ColorField) (vl_text l @ '':''))"

definition renderDomainLine :: "ui_lib \<Rightarrow> visibleLine \<Rightarrow> bool \<Rightarrow> string" where
  "renderDomainLine ui l highlighted =
     (let (base, marker) = LineStyle ui highlighted in
      marker @ ul_Render ui base ''          '' @ ul_Render ui (base\<lparr>us_Faint := True\<rparr>) (vl_text l))"

definition renderLine :: "ui_lib \<Rightarrow> presetScreen \<Rightarrow> visibleLine \<Rightarrow> bool \<Rightarrow> string" where
  "renderLine ui s l highlighted =
     (case vl_kind l of
        lineSection \<Rightarrow> renderSectionLine ui s l highlighted
      | linePreset \<Rightarrow> renderPresetLine ui s l highlighted
      | lineSubGroup \<Rightarrow> renderSubGroupLine ui l highlighted
      | lineDomain \<Rightarrow> renderDomainLine ui l highlighted)"

definition preset_View_lines :: "presetScreen \<Rightarrow> int list" where
  "preset_View_lines s = viewport_rows (pc_Cursor s) (cu_VpHeight (pc_Cursor s)) (int (length (buildVisibleLines s)))"

definition preset_View :: "ui_lib \<Rightarrow> presetScreen \<Rightarrow> string" where
  "preset_View ui s =
     ul_Render ui (Foreground NewStyle ColorField) ''Select network presets. Space to toggle, Enter to confirm.'' @ [nl, nl]
     @ join_lines (pad_lines (cu_VpHeight (pc_Cursor s))
         (map (\<lambda>i. renderLine ui s (buildVisibleLines s ! nat i) (i = cu_Pos (pc_Cursor s))) (preset_View_lines s)))"

definition preset_FooterKeys :: "presetScreen \<Rightarrow> (string \<times> string) list" where
  "preset_FooterKeys s =
     (let lines = buildVisibleLines s; p = cu_Pos (pc_Cursor s) in
      (if 0 \<le> p \<and> p < int (length lines) \<and> vl_kind (lines ! nat p) = linePreset then [(''space'', ''toggle'')] else [])
      @ [([CHR 0xE2, CHR 0x86, CHR 0x90] @ ''/'' @ [CHR 0xE2, CHR 0x86, CHR 0x92], ''details''), (''enter'', ''confirm'')] @ cursor_FooterKeys)"

definition selected_count :: "presetScreen \<Rightarrow> nat" where
  "selected_count s =
     length (remdups (concat (map (\<lambda>item. pt_presetName item # pt_includes item)
       [item \<leftarrow> pc_items s. \<not> pt_isHeader item \<and> pc_checked s (pt_presetName item)])))"

definition preset_FooterStatus :: "ui_lib \<Rightarrow> presetScreen \<Rightarrow> string" where
  "preset_FooterStatus ui s = ul_Render ui (Foreground NewStyle ColorField) (show_nat (selected_count s) @ '' selected'')"

text \<open>The selector as the setup runs it, on the messages that the loop delivers.\<close>

definition selector_final :: "ui_lib \<Rightarrow> PresetRegistry \<Rightarrow> (int \<times> unit ui_msg) list \<Rightarrow> string list \<Rightarrow> string list \<Rightarrow> presetScreen \<times> Window" where
  "selector_final ui reg msgs preChecked detected =
     run_window ui preset_Update (newPresetScreen reg preChecked detected, NewWindow \<lparr>hi_ProjectDir = ''vibepit'', hi_SessionID = ''setup''\<rparr>) msgs"

definition runPresetSelectorTUI ::
  "ui_lib \<Rightarrow> PresetRegistry \<Rightarrow> (int \<times> unit ui_msg) list \<Rightarrow> string list \<Rightarrow> string list \<Rightarrow> string + string list" where
  "runPresetSelectorTUI ui reg msgs preChecked detected =
     (case pc_selected (fst (selector_final ui reg msgs preChecked detected)) of
        None \<Rightarrow> Inl ''no presets selected''
      | Some selected \<Rightarrow> Inr selected)"

section \<open>The cursor\<close>

lemma lines_unchanged [simp]:
  "buildVisibleLines (s\<lparr>pc_Cursor := c\<rparr>) = buildVisibleLines s" "buildVisibleLines (s\<lparr>pc_checked := k\<rparr>) = buildVisibleLines s"
  "buildVisibleLines (s\<lparr>pc_selected := x\<rparr>) = buildVisibleLines s"
  by (simp_all add: buildVisibleLines_def)

lemma syncCursor_lines [simp]: "buildVisibleLines (syncCursor s) = buildVisibleLines s"
  by (simp add: syncCursor_def Let_def)

lemma syncCursor_height [simp]: "cu_VpHeight (pc_Cursor (syncCursor s)) = cu_VpHeight (pc_Cursor s)"
  by (simp add: syncCursor_def sync_cursor_def Let_def)

lemma sync_cursor_ok:
  assumes "0 \<le> cu_Offset c" and "0 \<le> cu_VpHeight c"
  shows "cursor_ok (sync_cursor c (int n)) n"
  unfolding sync_cursor_def Let_def by (rule cursor_ok_ensure) (use assms in \<open>auto simp: in_list_def\<close>)

lemma syncCursor_ok:
  assumes "0 \<le> cu_Offset (pc_Cursor s)" and "0 \<le> cu_VpHeight (pc_Cursor s)"
  shows "cursor_ok (pc_Cursor (syncCursor s)) (length (buildVisibleLines s))"
  using sync_cursor_ok [OF assms] by (simp add: syncCursor_def)

definition preset_ok :: "presetScreen \<Rightarrow> int \<Rightarrow> bool" where
  "preset_ok s v \<longleftrightarrow> cursor_ok (pc_Cursor s) (length (buildVisibleLines s))
     \<and> (cu_VpHeight (pc_Cursor s) = max (v - 2) 1 \<or> v = 0 \<and> cu_VpHeight (pc_Cursor s) = 0)"

lemma setExpanded_Cursor [simp]: "pc_Cursor (setExpanded s n b) = pc_Cursor s"
  by (simp add: setExpanded_def)

lemma preset_right_ok: "preset_ok s v \<Longrightarrow> preset_ok (preset_right s l) v"
  using syncCursor_ok by (auto simp: preset_ok_def preset_right_def cursor_ok_def split: lineKind.splits)

lemma preset_left_ok: "preset_ok s v \<Longrightarrow> preset_ok (preset_left s lines l) v"
  using syncCursor_ok by (auto simp: preset_ok_def preset_left_def cursor_ok_def split: lineKind.splits option.splits)

lemma if_both: "P x \<Longrightarrow> P y \<Longrightarrow> P (if b then x else y)"
  by simp

lemma preset_key_ok:
  assumes "preset_ok s v" and "preset_key now s key w = (s', cmd, w')"
  shows "preset_ok s' v \<and> same_size w w'"
proof -
  obtain b c where hk: "HandleKey (pc_Cursor s) key = (b, c)" by force
  have "cursor_ok c (length (buildVisibleLines s))" "cu_VpHeight c = cu_VpHeight (pc_Cursor s)"
    using cursor_ok_key [of "pc_Cursor s" _ key] assms(1) hk HandleKey_height [of "pc_Cursor s" key] by (auto simp: preset_ok_def)
  moreover from this(1) have "cursor_ok (EnsureVisible c) (length (buildVisibleLines s))"
    by (intro cursor_ok_ensure) (auto simp: cursor_ok_def)
  ultimately have c: "preset_ok (s\<lparr>pc_Cursor := c\<rparr>) v" "preset_ok (s\<lparr>pc_Cursor := EnsureVisible c\<rparr>) v"
    using assms(1) by (simp_all add: preset_ok_def)
  then have ce: "preset_ok (s\<lparr>pc_Cursor := if b then EnsureVisible c else c\<rparr>) v" by simp
  have o: "preset_ok (s\<lparr>pc_checked := k\<rparr>) v" "preset_ok (s\<lparr>pc_selected := x\<rparr>) v" for k x using assms(1) by (simp_all add: preset_ok_def)
  have m: "preset_ok (if b then preset_right s l else s) v" "preset_ok (if b then preset_left s ls l else s) v" for l ls b
    using preset_right_ok preset_left_ok assms(1) by simp_all
  have "(\<lambda>r. preset_ok (fst r) v \<and> same_size w (snd (snd r))) (preset_key now s key w)"
    unfolding preset_key_def Let_def hk prod.case
    by (intro if_both [where P = "\<lambda>r. preset_ok (fst r) v \<and> same_size w (snd (snd r))"]) (simp_all only: fst_conv snd_conv c o m assms(1) same_size_refl simp_thms ce)
  then show ?thesis using assms(2) by simp
qed

lemma preset_key_header:
  assumes "preset_key now s key w = (s', cmd, w')"
  shows "wn_header w' = wn_header w"
proof -
  have h: "wn_header (SetFlash now w f) = wn_header w" for f by (simp add: SetFlash_def)
  have "(\<lambda>r. wn_header (snd (snd r)) = wn_header w) (preset_key now s key w)"
    unfolding preset_key_def Let_def split_beta
    by (intro if_both [where P = "\<lambda>r. wn_header (snd (snd r)) = wn_header w"]) (simp_all only: snd_conv h)
  then show ?thesis using assms by simp
qed

interpretation presets: tui_screen preset_Update preset_ok "\<lambda>_. True"
proof
  fix s v w now msg s' repl cmd w'
  assume "preset_ok s v" "\<forall>a b. msg \<noteq> WindowSizeMsg a b" "preset_Update now s msg w = (s', repl, cmd, w')"
  then show "preset_ok s' (if repl then 0 else v) \<and> same_size w w'"
    by (cases msg) (auto simp: preset_Update_def dest: preset_key_ok split: prod.splits)
next
  fix s v w now a b s' repl cmd w'
  assume "preset_ok s v" "0 \<le> wn_vpHeight w" "preset_Update now s (WindowSizeMsg a b) w = (s', repl, cmd, w')"
  then show "preset_ok s' (wn_vpHeight w) \<and> \<not> repl \<and> w' = w"
    using syncCursor_ok [of "s\<lparr>pc_Cursor := (pc_Cursor s)\<lparr>cu_VpHeight := max (wn_vpHeight w - 2) 1\<rparr>\<rparr>"]
    by (auto simp: preset_Update_def preset_ok_def cursor_ok_def)
next
  fix s w now msg s' repl cmd w'
  assume "preset_Update now s msg w = (s', repl, cmd, w')" "one_line_info (wn_header w)"
  then show "one_line_info (wn_header w')"
    by (cases msg) (auto simp: preset_Update_def dest: preset_key_header split: prod.splits)
qed

lemma newPresetScreen_ok: "preset_ok (newPresetScreen reg pre det) 0"
  by (simp add: newPresetScreen_def Let_def preset_ok_def cursor_ok_def in_list_def buildVisibleLines_def)

section \<open>The selection\<close>

definition chosen_items :: "presetScreen \<Rightarrow> presetItem list" where
  "chosen_items s = [item \<leftarrow> pc_items s. \<not> pt_isHeader item \<and> pc_checked s (pt_presetName item)]"

definition chosen :: "presetScreen \<Rightarrow> string list" where
  "chosen s = map pt_presetName (chosen_items s)"

lemma confirm_distinct: "distinct selected \<Longrightarrow> distinct (confirm checked items selected)"
  by (induction items arbitrary: selected) auto

lemma confirm_extends: "set selected \<subseteq> set (confirm checked items selected)"
proof (induction items arbitrary: selected)
  case (Cons item items)
  show ?case using Cons.IH [of selected] Cons.IH [of "dedup_onto (selected @ [pt_presetName item]) (pt_includes item)"] by simp
qed simp

lemma confirm_has:
  "item \<in> set items \<Longrightarrow> \<not> pt_isHeader item \<Longrightarrow> checked (pt_presetName item) \<Longrightarrow> pt_presetName item \<in> set (confirm checked items selected)"
proof (induction items arbitrary: selected)
  case (Cons it items)
  show ?case
  proof (cases "item = it")
    case True
    then show ?thesis
      using Cons.prems confirm_extends [of selected checked items]
        confirm_extends [of "dedup_onto (selected @ [pt_presetName item]) (pt_includes item)" checked items] by auto
  next
    case False
    then show ?thesis using Cons by simp
  qed
qed simp

lemma confirm_only:
  "n \<in> set (confirm checked items selected) \<Longrightarrow>
   n \<in> set selected \<or> (\<exists>item \<in> set items. \<not> pt_isHeader item \<and> checked (pt_presetName item) \<and> (n = pt_presetName item \<or> n \<in> set (pt_includes item)))"
proof (induction items arbitrary: selected)
  case (Cons it items)
  then show ?case by (fastforce split: if_splits)
qed simp

text \<open>An include that is a checked preset itself has no includes: the case in which the footer counts what is confirmed.\<close>

definition flat_includes :: "presetItem list \<Rightarrow> bool" where
  "flat_includes items \<longleftrightarrow> (\<forall>item \<in> set items. \<forall>inc \<in> set (pt_includes item). \<forall>other \<in> set items.
     \<not> pt_isHeader other \<longrightarrow> pt_presetName other = inc \<longrightarrow> pt_includes other = [])"

definition same_named :: "presetItem list \<Rightarrow> bool" where
  "same_named items \<longleftrightarrow> (\<forall>a \<in> set items. \<forall>b \<in> set items. \<not> pt_isHeader a \<longrightarrow> \<not> pt_isHeader b \<longrightarrow> pt_presetName a = pt_presetName b \<longrightarrow> a = b)"

lemma confirm_includes:
  assumes "flat_includes all" "same_named all" "set items \<subseteq> set all"
    and "\<forall>it \<in> set all. \<not> pt_isHeader it \<longrightarrow> pt_presetName it \<in> set selected \<longrightarrow> set (pt_includes it) \<subseteq> set selected"
    and "item \<in> set items" "\<not> pt_isHeader item" "checked (pt_presetName item)"
  shows "set (pt_includes item) \<subseteq> set (confirm checked items selected)"
  using assms(3-)
proof (induction items arbitrary: selected)
  case (Cons it items)
  let ?sel = "if \<not> pt_isHeader it \<and> checked (pt_presetName it) \<and> pt_presetName it \<notin> set selected
        then dedup_onto (selected @ [pt_presetName it]) (pt_includes it) else selected"
  have it: "it \<in> set all" using Cons.prems(1) by simp
  have closed: "\<forall>o' \<in> set all. \<not> pt_isHeader o' \<longrightarrow> pt_presetName o' \<in> set ?sel \<longrightarrow> set (pt_includes o') \<subseteq> set ?sel"
  proof (intro ballI impI)
    fix o' assume o: "o' \<in> set all" "\<not> pt_isHeader o'" "pt_presetName o' \<in> set ?sel"
    have "pt_presetName o' \<in> set (pt_includes it) \<Longrightarrow> pt_includes o' = []" using assms(1) o(1,2) it unfolding flat_includes_def by blast
    moreover have "\<not> pt_isHeader it \<Longrightarrow> pt_presetName o' = pt_presetName it \<Longrightarrow> o' = it" using assms(2) o(1,2) it unfolding same_named_def by blast
    ultimately show "set (pt_includes o') \<subseteq> set ?sel" using Cons.prems(2) o by (auto split: if_splits)
  qed
  show ?case
  proof (cases "item = it")
    case True
    then have "pt_presetName item \<in> set ?sel" using Cons.prems(4,5) by auto
    then have "set (pt_includes item) \<subseteq> set ?sel" using closed it True Cons.prems(4) by blast
    then show ?thesis using confirm_extends [of ?sel checked items] by simp
  next
    case False
    then show ?thesis using Cons.IH [OF _ closed] Cons.prems by simp
  qed
qed simp

section \<open>The items of a registry\<close>

lemma buildPresetItems_presets:
  "item \<in> set (buildPresetItems (NewPresetRegistry ps) det) \<Longrightarrow> \<not> pt_isHeader item \<Longrightarrow> \<exists>p \<in> set ps. item = preset_item p"
  by (auto simp: buildPresetItems_def addSection_def All_def NewPresetRegistry_def Let_def split: if_splits)

lemma Get_distinct:
  assumes "distinct (map pr_Name ps)" "p \<in> set ps"
  shows "Get (NewPresetRegistry ps) (pr_Name p) = Some p"
proof -
  have "pr_Name p \<in> dom (reg_index (NewPresetRegistry ps))"
    using NewPresetRegistry_ok [of ps] assms(2) by (simp add: registry_ok_def) (simp add: NewPresetRegistry_def)
  then obtain q where "Get (NewPresetRegistry ps) (pr_Name p) = Some q" by (auto simp: Get_def)
  then show ?thesis using Get_NewPresetRegistry assms by (metis distinct_map inj_onD)
qed

lemma items_same_named:
  assumes "distinct (map pr_Name ps)"
  shows "same_named (buildPresetItems (NewPresetRegistry ps) det)"
  unfolding same_named_def
proof (intro ballI impI)
  fix a b assume "a \<in> set (buildPresetItems (NewPresetRegistry ps) det)" "b \<in> set (buildPresetItems (NewPresetRegistry ps) det)"
    "\<not> pt_isHeader a" "\<not> pt_isHeader b" "pt_presetName a = pt_presetName b"
  then obtain p q where "p \<in> set ps" "q \<in> set ps" "a = preset_item p" "b = preset_item q" "pr_Name p = pr_Name q"
    using buildPresetItems_presets by (metis preset_item_def presetItem.select_convs(3))
  then show "a = b" using assms by (metis distinct_map inj_onD)
qed

section \<open>A run\<close>

definition confirmed_names :: "presetScreen \<Rightarrow> string list option" where
  "confirmed_names s = (let selected = confirm (pc_checked s) (pc_items s) [] in if selected = [] then None else Some selected)"

lemma preset_key_selected:
  assumes "preset_key now s key w = (s', cmd, w')"
  shows "pc_items s' = pc_items s \<and> (pc_selected s' = pc_selected s \<or> cmd = Some Quit \<and> pc_selected s' = confirmed_names s')"
proof -
  let ?P = "\<lambda>r :: presetScreen \<times> unit ui_cmd option \<times> Window. pc_items (fst r) = pc_items s
    \<and> (pc_selected (fst r) = pc_selected s \<or> fst (snd r) = Some Quit \<and> pc_selected (fst r) = confirmed_names (fst r))"
  have sync: "pc_items (syncCursor x) = pc_items x" "pc_selected (syncCursor x) = pc_selected x" for x by (simp_all add: syncCursor_def)
  have m: "pc_items (preset_right s l) = pc_items s" "pc_selected (preset_right s l) = pc_selected s"
    "pc_items (preset_left s ls l) = pc_items s" "pc_selected (preset_left s ls l) = pc_selected s" for l ls
    by (simp_all add: preset_right_def preset_left_def sync setExpanded_def split: lineKind.splits option.splits)
  have m': "pc_items (if b then x else s) = pc_items s" "pc_selected (if b then x else s) = pc_selected s"
    if "pc_items x = pc_items s" "pc_selected x = pc_selected s" for b x using that by simp_all
  have "?P (preset_key now s key w)"
    unfolding preset_key_def Let_def split_beta
    by (intro if_both [where P = ?P]) (simp_all add: m m' confirmed_names_def Let_def)
  then show ?thesis using assms by simp
qed

lemma run_selected:
  assumes "pc_selected (fst sw) = None"
  shows "pc_items (fst (run_window ui preset_Update sw ms)) = pc_items (fst sw)
    \<and> pc_selected (fst (run_window ui preset_Update sw ms)) \<in> {None, confirmed_names (fst (run_window ui preset_Update sw ms))}"
  using assms
proof (induction ms arbitrary: sw)
  case (Cons nm ms)
  obtain now m where nm: "nm = (now, m)" by force
  obtain w cs where f: "window_frame ui now (snd sw) m = (w, cs :: unit ui_cmd list)" by force
  obtain s' cmd w' where u: "preset_Update now (fst sw) m w = (s', False, cmd, w')"
    by (cases m) (auto simp: preset_Update_def split_beta intro: prod.exhaust)
  have s': "pc_items s' = pc_items (fst sw) \<and> (pc_selected s' = None \<or> cmd = Some Quit \<and> pc_selected s' = confirmed_names s')"
    using u Cons.prems preset_key_selected [of now "fst sw"] by (cases m) (auto simp: preset_Update_def syncCursor_def split: prod.splits)
  have r: "window_Update ui preset_Update now sw m = ((s', w'), cs @ option_list cmd)" by (simp add: window_Update_def f u)
  show ?case
  proof (cases "Quit \<in> set (cs @ option_list cmd)")
    case True
    then show ?thesis using s' by (auto simp: nm r)
  next
    case False
    then have "pc_selected s' = None" using s' by (auto simp: option_list_def)
    then show ?thesis using Cons.IH [of "(s', w')"] False s' by (simp add: nm r)
  qed
qed simp

lemma length_distinct_set: "distinct xs \<Longrightarrow> set xs = set ys \<Longrightarrow> length xs = length (remdups ys)"
  by (simp add: length_remdups_card_conv distinct_card [symmetric])

lemma confirm_counts:
  assumes "flat_includes (pc_items s)" "same_named (pc_items s)"
  shows "length (confirm (pc_checked s) (pc_items s) []) = selected_count s"
  unfolding selected_count_def
proof (intro length_distinct_set confirm_distinct distinct.simps(1) [THEN iffD2] TrueI subset_antisym subsetI)
  fix n assume "n \<in> set (confirm (pc_checked s) (pc_items s) [])"
  then show "n \<in> set (concat (map (\<lambda>item. pt_presetName item # pt_includes item)
      [item \<leftarrow> pc_items s. \<not> pt_isHeader item \<and> pc_checked s (pt_presetName item)]))"
    using confirm_only by fastforce
next
  fix n assume "n \<in> set (concat (map (\<lambda>item. pt_presetName item # pt_includes item)
      [item \<leftarrow> pc_items s. \<not> pt_isHeader item \<and> pc_checked s (pt_presetName item)]))"
  then obtain item where item: "item \<in> set (pc_items s)" "\<not> pt_isHeader item" "pc_checked s (pt_presetName item)"
      "n = pt_presetName item \<or> n \<in> set (pt_includes item)" by auto
  then show "n \<in> set (confirm (pc_checked s) (pc_items s) [])"
    using confirm_has [of item "pc_items s" "pc_checked s" "[]"] confirm_includes [OF assms subset_refl, of "[]" item "pc_checked s"] by auto
qed

text \<open>Whatever keys were pressed, the cursor of the selector is on a line that is drawn.\<close>

lemma preset_selector_navigable:
  assumes "single_lines ui" "selector_final ui reg msgs pre det = (s, w)"
  shows "cu_ItemCount (pc_Cursor s) = int (length (buildVisibleLines s)) \<and> in_list (pc_Cursor s)
    \<and> (wn_width w \<noteq> 0 \<longrightarrow> buildVisibleLines s \<noteq> [] \<longrightarrow> cu_Pos (pc_Cursor s) \<in> set (preset_View_lines s))"
proof -
  have "one_line_info \<lparr>hi_ProjectDir = ''vibepit'', hi_SessionID = ''setup''\<rparr>" by (simp add: one_line_info_def)
  from presets.from_start [OF newPresetScreen_ok this assms(1), of msgs reg pre det] assms(2)
  have "preset_ok s (wn_vpHeight w)" "frame_ok w" by (auto simp: presets.shown_def selector_final_def)
  then show ?thesis
    by (auto simp: preset_ok_def cursor_ok_def frame_ok_def in_list_def visible_def preset_View_lines_def viewport_rows_def)
qed

section \<open>Properties\<close>

text \<open>
  C39. What the preset selector returns is what was checked. For presets of distinct names and any keys, the
  names returned are distinct, contain every preset that is checked on the last screen, and have with the
  includes the same meaning as the checked ones alone: both expand to the same domains. When no include has includes of its own, there
  are as many of them as the footer said. A confirmation with nothing checked is an error, as if the selector was left.
\<close>

theorem selection_means_checked:
  assumes "distinct (map pr_Name ps)" and run: "runPresetSelectorTUI ui (NewPresetRegistry ps) msgs pre det = Inr selected"
    and final: "selector_final ui (NewPresetRegistry ps) msgs pre det = (s, w)"
  shows "distinct selected \<and> selected \<noteq> [] \<and> set (chosen s) \<subseteq> set selected
    \<and> (\<exists>ds es. Expand (NewPresetRegistry ps) selected = Some ds \<and> Expand (NewPresetRegistry ps) (chosen s) = Some es \<and> set ds = set es)
    \<and> (flat_includes (pc_items s) \<longrightarrow> length selected = selected_count s)"
proof -
  let ?r = "NewPresetRegistry ps"
  have items: "pc_items s = buildPresetItems ?r det" and sel: "pc_selected s \<in> {None, confirmed_names s}"
    using run_selected [of "(newPresetScreen ?r pre det, NewWindow \<lparr>hi_ProjectDir = ''vibepit'', hi_SessionID = ''setup''\<rparr>)" ui msgs] final
    by (simp_all add: selector_final_def newPresetScreen_def Let_def)
  have c: "selected = confirm (pc_checked s) (pc_items s) []" "selected \<noteq> []"
    using run sel final by (auto simp: runPresetSelectorTUI_def confirmed_names_def Let_def split: option.splits if_splits)
  have sub: "set (chosen s) \<subseteq> set selected" using confirm_has unfolding c(1) by (auto simp: chosen_def chosen_items_def)
  have rch: "reaches ?r (chosen s) n" if n: "n \<in> set selected" for n
  proof -
    obtain item where item: "item \<in> set (pc_items s)" "\<not> pt_isHeader item" "pc_checked s (pt_presetName item)"
        "n = pt_presetName item \<or> n \<in> set (pt_includes item)" using confirm_only n unfolding c(1) by force
    then have nm: "pt_presetName item \<in> set (chosen s)" by (auto simp: chosen_def chosen_items_def)
    obtain p where "p \<in> set ps" "item = preset_item p" using buildPresetItems_presets item(1,2) unfolding items by blast
    then have "Get ?r (pt_presetName item) = Some p" "pt_includes item = pr_Includes p"
      using Get_distinct [OF assms(1)] by (simp_all add: preset_item_def)
    then show ?thesis using item(4) nm by (metis reaches.intros)
  qed
  have eq: "reaches ?r selected n \<longleftrightarrow> reaches ?r (chosen s) n" for n
    using reaches_mono [OF _ sub] reaches_trans rch by blast
  obtain ds es where "Expand ?r selected = Some ds" "Expand ?r (chosen s) = Some es" "set ds = set es"
    using Expand_reachable [of ps selected] Expand_reachable [of ps "chosen s"] unfolding eq by blast
  moreover have "length selected = selected_count s" if "flat_includes (pc_items s)"
    using confirm_counts [OF that] items_same_named [OF assms(1), of det] unfolding c(1) by (simp add: items)
  ultimately show ?thesis using c sub confirm_distinct [of "[]"] by auto
qed

definition ex_presets :: "Preset list" where
  "ex_presets =
     [\<lparr>pr_Name = ''default'', pr_Group = [], pr_Description = [], pr_Domains = [], pr_Matchers = [], pr_Includes = [''pkg-go'', ''git'']\<rparr>,
      \<lparr>pr_Name = ''pkg-go'', pr_Group = ''Package Managers'', pr_Description = ''Go'', pr_Domains = [''go.dev:443''], pr_Matchers = [], pr_Includes = []\<rparr>,
      \<lparr>pr_Name = ''git'', pr_Group = ''Infrastructure'', pr_Description = [], pr_Domains = [''git.org:443''], pr_Matchers = [], pr_Includes = []\<rparr>]"

definition ex_lib :: ui_lib where
  "ex_lib = \<lparr>ul_Render = (\<lambda>_ s. s), ul_StringWidth = (\<lambda>s. int (length s)), ul_Truncate = (\<lambda>s n t. take (nat n) s), ul_Format = (\<lambda>_. []), ul_HOME = []\<rparr>"

theorem selection_means_checked_witness:
  "runPresetSelectorTUI ex_lib (NewPresetRegistry ex_presets) [(0, KeyPressMsg ''down''), (0, KeyPressMsg ''space''), (0, KeyPressMsg ''enter'')] [] [''pkg-go'']
     = Inr [''pkg-go'']
   \<and> (\<exists>ds. Expand (NewPresetRegistry ex_presets) [''pkg-go''] = Some ds
        \<and> length [''pkg-go''] = selected_count (fst (selector_final ex_lib (NewPresetRegistry ex_presets)
              [(0, KeyPressMsg ''down''), (0, KeyPressMsg ''space''), (0, KeyPressMsg ''enter'')] [] [''pkg-go''])))"
proof -
  let ?ms = "[(0, KeyPressMsg ''down''), (0, KeyPressMsg ''space''), (0, KeyPressMsg ''enter'')] :: (int \<times> unit ui_msg) list"
  let ?f = "selector_final ex_lib (NewPresetRegistry ex_presets) ?ms [] [''pkg-go'']"
  have r: "runPresetSelectorTUI ex_lib (NewPresetRegistry ex_presets) ?ms [] [''pkg-go''] = Inr [''pkg-go'']" by code_simp
  have d: "distinct (map pr_Name ex_presets)" "flat_includes (pc_items (fst ?f))" by code_simp+
  show ?thesis
    using r selection_means_checked [OF d(1) r, of "fst ?f" "snd ?f"] d(2) by auto
qed

end
