(* ===== verification/Selector_Screen.thy ===== *)
theory Selector_Screen
  imports TUI_Window SSHD_Server
begin

text \<open>
  The session selector that an SSH client sees, \<^verbatim>\<open>sshd/selector.go\<close>, in the window of \<open>TUI_Window\<close>: the third instance of the contract of a screen. Its
  state and keys are in \<open>TUI_Cursor\<close>; here are the view, the footer, the run of the program and what the PTY handler of \<open>SSHD_Server\<close> makes of its result.
\<close>

section \<open>Update\<close>

definition selector_screen_Update :: "(selectorScreen, unit, unit) screen_update" where
  "selector_screen_Update now s msg w =
     (case msg of
        KeyPressMsg key \<Rightarrow> (case selector_Update s (KeyPress key) of (s', quit) \<Rightarrow> (s', False, if quit then Some Quit else None, w))
      | WindowSizeMsg width height \<Rightarrow> (fst (selector_Update s (WindowSize (wn_vpHeight w))), False, None, w)
      | _ \<Rightarrow> (s, False, None, w))"

section \<open>View\<close>

definition renderSelectorLine :: "ui_lib \<Rightarrow> SessionInfo \<Rightarrow> bool \<Rightarrow> int \<Rightarrow> string" where
  "renderSelectorLine ui info highlighted now =
     (let (base, marker) = LineStyle ui highlighted;
          ident = ul_Render ui (Foreground base ColorField) (pad_right 16 (si_ID info));
          age = ul_Render ui (Foreground base ColorOrange) (pad_right 8 (formatDuration (now - si_CreatedAt info)));
          detached = ul_Render ui (Foreground base ColorCyan) (''detached '' @ formatDuration (now - si_DetachedAt info) @ '' ago'');
          sp = ul_Render ui base '' '';
          label = Label (si_LastDetachReason info)
      in marker @ ident @ sp @ age @ sp @ detached
         @ (if label \<noteq> [] then sp @ ul_Render ui (Foreground base ColorOrange) (''('' @ label @ '')'') else []))"

definition renderNewSessionLine :: "ui_lib \<Rightarrow> bool \<Rightarrow> string" where
  "renderNewSessionLine ui highlighted =
     (let (base, marker) = LineStyle ui highlighted in marker @ ul_Render ui (Foreground base ColorField) ''[new session]'')"

text \<open>\<open>infos\<close> are the sessions whose identifiers the screen has.\<close>

definition selector_View :: "ui_lib \<Rightarrow> int \<Rightarrow> SessionInfo list \<Rightarrow> selectorScreen \<Rightarrow> string" where
  "selector_View ui now infos s =
     join_lines (pad_lines (cu_VpHeight (sc_cursor s))
       ([ul_Render ui (Foreground NewStyle ColorField) ''Select a session:'', []]
        @ map (\<lambda>i. if i < int (length infos) then renderSelectorLine ui (infos ! nat i) (i = cu_Pos (sc_cursor s)) now
                   else renderNewSessionLine ui (i = cu_Pos (sc_cursor s))) (selector_View_items s)))"

definition selector_FooterKeys :: "(string \<times> string) list" where
  "selector_FooterKeys = [(''enter'', ''select''), (''n'', ''new session'')] @ cursor_FooterKeys"

definition selector_FooterStatus :: "selectorScreen \<Rightarrow> string" where
  "selector_FooterStatus s = show_nat (length (sc_sessions s)) @ '' sessions''"

section \<open>The program\<close>

definition selector_header :: HeaderInfo where
  "selector_header = \<lparr>hi_ProjectDir = ''vibepit'', hi_SessionID = ''session selector''\<rparr>"

text \<open>\<open>msgs\<close> are the messages of the run and \<open>err\<close> its error; the handler reads the result of the screen.\<close>

definition run_selector :: "ui_lib \<Rightarrow> SessionInfo list \<Rightarrow> (int \<times> unit ui_msg) list \<Rightarrow> string option \<Rightarrow> selector_outcome" where
  "run_selector ui infos msgs err =
     (case err of
        Some e \<Rightarrow> SelectorError e
      | None \<Rightarrow>
          (case sc_result (fst (run_window ui selector_screen_Update (newSelectorScreen (map si_ID infos), NewWindow selector_header) msgs)) of
             None \<Rightarrow> SelectorQuit
           | Some None \<Rightarrow> SelectorNew
           | Some (Some sessionID) \<Rightarrow> if sessionID = [] then SelectorNew else SelectorPick sessionID))"

section \<open>Contract\<close>

definition selector_screen_ok :: "selectorScreen \<Rightarrow> int \<Rightarrow> bool" where
  "selector_screen_ok s v \<longleftrightarrow> selector_ok s \<and> cursor_ok (sc_cursor s) (Suc (length (sc_sessions s))) \<and> cu_VpHeight (sc_cursor s) = v"

lemma selector_key_ok:
  assumes "selector_screen_ok s v" "selector_Update s (KeyPress key) = (s', quit)"
  shows "selector_screen_ok s' v"
proof -
  have o: "selector_ok s" "cursor_ok (sc_cursor s) (Suc (length (sc_sessions s)))" "cu_VpHeight (sc_cursor s) = v"
    using assms(1) by (simp_all add: selector_screen_ok_def)
  have "selector_ok s'" "sc_sessions s' = sc_sessions s" using selector_Update_ok [OF o(1), of "KeyPress key"] assms(2) by simp_all
  moreover have "sc_cursor s' = sc_cursor s \<or> sc_cursor s' = snd (HandleKey (sc_cursor s) key)"
    using assms(2) by (auto simp: selector_Update_def split: if_splits)
  ultimately show ?thesis using o cursor_ok_key [OF o(2), of key] by (auto simp: selector_screen_ok_def)
qed

lemma selector_size_ok:
  assumes "selector_screen_ok s v" "0 \<le> h"
  shows "selector_screen_ok (fst (selector_Update s (WindowSize h))) h"
proof -
  have o: "selector_ok s" "cursor_ok (sc_cursor s) (Suc (length (sc_sessions s)))" using assms(1) by (simp_all add: selector_screen_ok_def)
  show ?thesis using selector_Update_ok [OF o(1), of "WindowSize h"] cursor_ok_size [OF o(2) assms(2)] assms(2)
    by (simp add: selector_screen_ok_def) (simp add: selector_Update_def)
qed

interpretation selector: tui_screen selector_screen_Update selector_screen_ok "\<lambda>_. True"
proof
  fix s v w now msg s' repl cmd w'
  assume "selector_screen_ok s v" "\<forall>a b. msg \<noteq> WindowSizeMsg a b" "selector_screen_Update now s msg w = (s', repl, cmd, w')"
  then show "selector_screen_ok s' (if repl then 0 else v) \<and> same_size w w'"
    by (cases msg) (auto simp: selector_screen_Update_def dest: selector_key_ok split: prod.splits)
next
  fix s v w now a b s' repl cmd w'
  assume "selector_screen_ok s v" "0 \<le> wn_vpHeight w" "selector_screen_Update now s (WindowSizeMsg a b) w = (s', repl, cmd, w')"
  then show "selector_screen_ok s' (wn_vpHeight w) \<and> \<not> repl \<and> w' = w"
    using selector_size_ok by (auto simp: selector_screen_Update_def)
next
  fix s w now msg s' repl cmd w'
  assume "selector_screen_Update now s msg w = (s', repl, cmd, w')" "one_line_info (wn_header w)"
  then show "one_line_info (wn_header w')"
    by (cases msg) (auto simp: selector_screen_Update_def split: prod.splits)
qed

lemma newSelectorScreen_ok: "selector_screen_ok (newSelectorScreen ids) 0"
  by (simp add: newSelectorScreen_def selector_screen_ok_def selector_ok_def cursor_ok_def in_list_def)

lemma selector_header_one_line: "one_line_info selector_header"
  by (simp add: selector_header_def one_line_info_def)

text \<open>The sessions of the screen never change.\<close>

lemma selector_sessions: "sc_sessions (fst (selector_Update s msg)) = sc_sessions s"
  by (cases msg) (auto simp: selector_Update_def)

lemma window_Update_sessions:
  "sc_sessions (fst (fst (window_Update ui selector_screen_Update now sw msg))) = sc_sessions (fst sw)"
proof -
  have u: "sc_sessions (fst (selector_screen_Update t s m v)) = sc_sessions s" for t s m v
    using selector_sessions [of s] by (cases m) (auto simp: selector_screen_Update_def case_prod_unfold)
  show ?thesis by (simp add: window_Update_def Let_def case_prod_unfold u)
qed

lemma run_window_sessions: "sc_sessions (fst (run_window ui selector_screen_Update sw ms)) = sc_sessions (fst sw)"
proof (induction ms arbitrary: sw)
  case (Cons m ms)
  obtain now msg where m: "m = (now, msg)" by force
  show ?case using Cons.IH window_Update_sessions [of ui now sw msg] by (auto simp: m case_prod_unfold)
qed simp

text \<open>Whatever is typed, a chosen session is one of those that were offered.\<close>

lemma selector_picks_offered:
  assumes "single_lines ui" "run_selector ui infos msgs err = SelectorPick ident"
  shows "ident \<in> si_ID ` set infos"
proof -
  let ?sw = "run_window ui selector_screen_Update (newSelectorScreen (map si_ID infos), NewWindow selector_header) msgs"
  have "selector.shown ?sw"
    by (rule selector.from_start [OF newSelectorScreen_ok selector_header_one_line assms(1)]) simp
  then have ok: "selector_ok (fst ?sw)" by (simp add: selector.shown_def selector_screen_ok_def)
  have "sc_result (fst ?sw) = Some (Some ident)"
    using assms(2) by (auto simp: run_selector_def split: option.splits if_splits)
  then have "ident \<in> set (sc_sessions (fst ?sw))" using ok by (simp add: selector_ok_def)
  then show ?thesis by (simp add: run_window_sessions newSelectorScreen_def)
qed

text \<open>The view fills its viewport, if it has room for the heading.\<close>

lemma selector_view_fits:
  assumes "single_lines ui" "selector_screen_ok s v" "2 \<le> v" "map si_ID infos = sc_sessions s" "\<forall>info \<in> set infos. nl \<notin> set (si_ID info)"
  shows "line_count (selector_View ui now infos s) = v"
proof -
  let ?lines = "[ul_Render ui (Foreground NewStyle ColorField) ''Select a session:'', []]
        @ map (\<lambda>i. if i < int (length infos) then renderSelectorLine ui (infos ! nat i) (i = cu_Pos (sc_cursor s)) now
                   else renderNewSessionLine ui (i = cu_Pos (sc_cursor s))) (selector_View_items s)"
  have v: "cu_VpHeight (sc_cursor s) = v" "0 \<le> cu_Offset (sc_cursor s)" using assms(2) by (simp_all add: selector_screen_ok_def cursor_ok_def)
  have len: "int (length ?lines) \<le> v" using v assms(3) by (simp add: selector_View_items_def Let_def min_def)
  have d: "nl \<notin> set (show_nat n)" for n using show_nat_digits [of n] by (auto simp: list_all_iff is_digit_def)
  have f: "nl \<notin> set (formatDuration t)" for t
    using d by (auto simp: formatDuration_def show_int_def Let_def)
  have m: "nl \<notin> set (snd (LineStyle ui h))" for h using assms(1) by (auto simp: LineStyle_def Let_def single_Render)
  have l: "nl \<notin> set (Label r)" for r by (cases r) (simp_all add: Label_def)
  have p: "nl \<notin> set (pad_right k t)" if "nl \<notin> set t" for k t using that by (auto simp: pad_right_def)
  have r1: "nl \<notin> set (renderSelectorLine ui info h now)" if "info \<in> set infos" for info h
    using that assms(1,5) m [of h] f l p by (auto simp: renderSelectorLine_def Let_def case_prod_unfold single_Render)
  have r2: "nl \<notin> set (renderNewSessionLine ui h)" for h
    using assms(1) m [of h] by (auto simp: renderNewSessionLine_def Let_def case_prod_unfold single_Render)
  have pos: "i \<in> set (selector_View_items s) \<Longrightarrow> 0 \<le> i" for i using v by (auto simp: selector_View_items_def Let_def)
  have mem: "infos ! nat i \<in> set infos" if "i \<in> set (selector_View_items s)" "i < int (length infos)" for i
    using pos [OF that(1)] that(2) by (intro nth_mem) linarith
  have "\<forall>x \<in> set ?lines. nl \<notin> set x" using assms(1) r1 [OF mem] r2 by (auto simp: single_Render)
  then show ?thesis unfolding selector_View_def v(1) using len assms(3) by (intro padded_view_lines) simp_all
qed

section \<open>The handler\<close>

text \<open>An SSH client is attached only to a session that the handler has just created or to one of the detached sessions.\<close>

lemma attaches_to_own_session:
  assumes "single_lines ui"
    and "pe_selector pe = run_selector ui (filter (\<lambda>info. si_Status info = Detached) (pe_sessions pe)) msgs err"
    and "AttachClient ident cols rows \<in> set (handlePTYSession pe win)"
  shows "pe_create pe = Inr ident \<or> (\<exists>info \<in> set (pe_sessions pe). si_ID info = ident \<and> si_Status info = Detached)"
proof -
  have "ident \<in> si_ID ` set (filter (\<lambda>info. si_Status info = Detached) (pe_sessions pe))" if "pe_selector pe = SelectorPick ident"
    using selector_picks_offered [OF assms(1)] assms(2) that by metis
  then show ?thesis using assms(3)
    by (auto simp: handlePTYSession_def pty_create_def pty_attached_def finishPTY_def stderr_line_def Let_def
        split: if_splits selector_outcome.splits sum.splits)
qed

end
