(* ===== verification/Session_Exit.thy ===== *)
theory Session_Exit
  imports Session_Manager
begin

text \<open>
  The end of a shell session, \<^verbatim>\<open>waitForExit\<close> of \<^verbatim>\<open>session/session.go\<close>, beside the goroutines that it waits for: \<^verbatim>\<open>pump\<close>, which writes to the terminal emulator, and
  \<^verbatim>\<open>drainVTE\<close>, which reads its responses. The emulator is a library whose \<^verbatim>\<open>Close\<close> must not meet a \<^verbatim>\<open>Write\<close> or a \<^verbatim>\<open>Read\<close>. \<open>closable\<close> tells whether its response pipe can
  be closed on its own. What the session records is \<open>record_exit\<close> in \<open>Session\<close>; the expiry of a session that nobody sees is at the end.
\<close>

datatype exit_pc = AwaitShell | KillDescendants | ClosePTY | AwaitPump | CloseVTEPipe | AwaitDrain | CloseVTE | RecordExit | ExitHandled

datatype pump_state = PumpReading | PumpWriting | PumpEnded

record teardown =
  td_pc :: exit_pc
  td_pump :: pump_state
  td_draining :: bool
  td_exited :: bool
  td_ptyClosed :: bool
  td_pipeClosed :: bool
  td_closes :: nat

definition teardown_init :: teardown where
  "teardown_init = \<lparr>td_pc = AwaitShell, td_pump = PumpReading, td_draining = True, td_exited = False, td_ptyClosed = False, td_pipeClosed = False, td_closes = 0\<rparr>"

definition closeVTEPipe :: "bool \<Rightarrow> teardown \<Rightarrow> teardown" where
  "closeVTEPipe closable t = (if closable then t\<lparr>td_pipeClosed := True\<rparr> else t\<lparr>td_closes := td_closes t + 1\<rparr>)"

text \<open>The loop of \<^verbatim>\<open>drainVTE\<close> over the results of its reads: the number of responses read and whether it has ended.\<close>

fun drainVTE :: "(string + string) list \<Rightarrow> nat \<times> bool" where
  "drainVTE [] = (0, False)"
| "drainVTE (Inl err # reads) = (0, True)"
| "drainVTE (Inr response # reads) = (let (n, ended) = drainVTE reads in (Suc n, ended))"

lemma drainVTE_ends: "snd (drainVTE reads) \<longleftrightarrow> list_ex isl reads"
  by (induction reads rule: drainVTE.induct) (simp_all add: case_prod_unfold Let_def)

inductive teardown_step :: "bool \<Rightarrow> teardown \<Rightarrow> teardown \<Rightarrow> bool" for closable where
  td_pump_reads: "td_pump t = PumpReading \<Longrightarrow> \<not> td_ptyClosed t \<Longrightarrow> teardown_step closable t (t\<lparr>td_pump := PumpWriting\<rparr>)"
| td_pump_written: "td_pump t = PumpWriting \<Longrightarrow> teardown_step closable t (t\<lparr>td_pump := PumpReading\<rparr>)"
| td_pump_ends: "td_pump t = PumpReading \<Longrightarrow> teardown_step closable t (t\<lparr>td_pump := PumpEnded, td_exited := True\<rparr>)"
| td_drain_ends: "td_draining t \<Longrightarrow> td_pipeClosed t \<or> 0 < td_closes t \<Longrightarrow> teardown_step closable t (t\<lparr>td_draining := False\<rparr>)"
| td_shell_ends: "td_pc t = AwaitShell \<Longrightarrow> teardown_step closable t (t\<lparr>td_pc := KillDescendants, td_exited := True\<rparr>)"
| td_killed: "td_pc t = KillDescendants \<Longrightarrow> teardown_step closable t (t\<lparr>td_pc := ClosePTY\<rparr>)"
| td_close_pty: "td_pc t = ClosePTY \<Longrightarrow> teardown_step closable t (t\<lparr>td_pc := AwaitPump, td_ptyClosed := True\<rparr>)"
| td_pump_seen: "td_pc t = AwaitPump \<Longrightarrow> td_pump t = PumpEnded \<Longrightarrow> teardown_step closable t (t\<lparr>td_pc := CloseVTEPipe\<rparr>)"
| td_close_pipe: "td_pc t = CloseVTEPipe \<Longrightarrow> teardown_step closable t ((closeVTEPipe closable t)\<lparr>td_pc := AwaitDrain\<rparr>)"
| td_drain_seen: "td_pc t = AwaitDrain \<Longrightarrow> \<not> td_draining t \<Longrightarrow> teardown_step closable t (t\<lparr>td_pc := CloseVTE\<rparr>)"
| td_close_vte: "td_pc t = CloseVTE \<Longrightarrow> teardown_step closable t (t\<lparr>td_pc := RecordExit, td_closes := (if closable then td_closes t + 1 else td_closes t)\<rparr>)"
| td_record: "td_pc t = RecordExit \<Longrightarrow> teardown_step closable t (t\<lparr>td_pc := ExitHandled\<rparr>)"

inductive_cases teardown_stepE: "teardown_step closable t t'"

fun pc_rank :: "exit_pc \<Rightarrow> nat" where
  "pc_rank AwaitShell = 8" | "pc_rank KillDescendants = 7" | "pc_rank ClosePTY = 6" | "pc_rank AwaitPump = 5" | "pc_rank CloseVTEPipe = 4"
| "pc_rank AwaitDrain = 3" | "pc_rank CloseVTE = 2" | "pc_rank RecordExit = 1" | "pc_rank ExitHandled = 0"

definition teardown_ok :: "bool \<Rightarrow> teardown \<Rightarrow> bool" where
  "teardown_ok closable t \<longleftrightarrow>
     (pc_rank (td_pc t) \<le> 4 \<longrightarrow> td_pump t = PumpEnded)
     \<and> (td_ptyClosed t \<longleftrightarrow> pc_rank (td_pc t) \<le> 5)
     \<and> (pc_rank (td_pc t) \<le> 2 \<longrightarrow> \<not> td_draining t)
     \<and> (pc_rank (td_pc t) = 3 \<longrightarrow> td_pipeClosed t \<or> 0 < td_closes t)
     \<and> (td_pc t \<noteq> AwaitShell \<longrightarrow> td_exited t)
     \<and> td_closes t = (if pc_rank (td_pc t) \<le> (if closable then 1 else 3) then 1 else 0)"

lemma teardown_step_ok: "teardown_step closable t t' \<Longrightarrow> teardown_ok closable t \<Longrightarrow> teardown_ok closable t'"
  by (elim teardown_stepE) (auto simp: teardown_ok_def closeVTEPipe_def split: if_splits)

lemma teardown_reach_ok: "(teardown_step closable)\<^sup>*\<^sup>* teardown_init t \<Longrightarrow> teardown_ok closable t"
  by (induction rule: rtranclp_induct) (auto intro: teardown_step_ok, simp add: teardown_ok_def teardown_init_def)

text \<open>
  The emulator is closed once, after the last write of the pump, and where the pipe can be closed on its own, after the last read of its responses.
\<close>

lemma emulator_closed_once:
  assumes "(teardown_step closable)\<^sup>*\<^sup>* teardown_init t"
  shows "td_closes t \<le> 1 \<and> (0 < td_closes t \<longrightarrow> td_pump t = PumpEnded \<and> (closable \<longrightarrow> \<not> td_draining t))
    \<and> (td_pc t = ExitHandled \<longrightarrow> td_closes t = 1 \<and> \<not> td_draining t \<and> td_exited t)"
  using teardown_reach_ok [OF assms] by (cases "td_pc t") (auto simp: teardown_ok_def split: if_splits)

text \<open>
  The sequence never gets stuck, and once the PTY is closed every step brings it nearer to its end, so that it ends.
\<close>

definition steps_left :: "teardown \<Rightarrow> nat" where
  "steps_left t = pc_rank (td_pc t) + (case td_pump t of PumpWriting \<Rightarrow> 2 | PumpReading \<Rightarrow> 1 | PumpEnded \<Rightarrow> 0) + (if td_draining t then 1 else 0)"

lemma teardown_progress:
  assumes "(teardown_step closable)\<^sup>*\<^sup>* teardown_init t"
  shows "td_pc t \<noteq> ExitHandled \<Longrightarrow> \<exists>t'. teardown_step closable t t'"
    and "td_ptyClosed t \<Longrightarrow> teardown_step closable t t' \<Longrightarrow> td_ptyClosed t' \<and> steps_left t' < steps_left t"
proof -
  have ok: "teardown_ok closable t" by (rule teardown_reach_ok [OF assms])
  show "\<exists>t'. teardown_step closable t t'" if "td_pc t \<noteq> ExitHandled"
  proof (cases "td_pc t")
    case AwaitPump
    then show ?thesis using td_pump_seen td_pump_written td_pump_ends by (cases "td_pump t") blast+
  next
    case AwaitDrain
    then have "td_pipeClosed t \<or> 0 < td_closes t" using ok by (auto simp: teardown_ok_def)
    then show ?thesis using AwaitDrain td_drain_seen td_drain_ends by (cases "td_draining t") blast+
  qed (use that in \<open>blast intro: teardown_step.intros\<close>)+
  assume "td_ptyClosed t" "teardown_step closable t t'"
  then show "td_ptyClosed t' \<and> steps_left t' < steps_left t"
    by (elim teardown_stepE) (auto simp: steps_left_def closeVTEPipe_def split: if_splits)
qed

section \<open>Expiry\<close>

text \<open>\<^verbatim>\<open>expireTombstone\<close>: an hour after the start of the sleep the channel is closed, once however many sleepers there are.\<close>

definition expireTombstone :: "int \<Rightarrow> int list \<Rightarrow> bool" where
  "expireTombstone now sleepers = list_ex (\<lambda>start. start + 3600000000000 \<le> now) sleepers"

lemma expiry_monotone: "expireTombstone now sleepers \<Longrightarrow> now \<le> later \<Longrightarrow> expireTombstone later (sleepers @ others)"
  by (auto simp: expireTombstone_def list_ex_iff) (meson UnI1 order_trans)

lemma teardown_bounded:
  assumes "(teardown_step closable)\<^sup>*\<^sup>* teardown_init t" "td_ptyClosed t" "(teardown_step closable ^^ n) t t'"
  shows "n + steps_left t' \<le> steps_left t \<and> td_ptyClosed t' \<and> (teardown_step closable)\<^sup>*\<^sup>* teardown_init t'"
  using assms(3)
proof (induction n arbitrary: t')
  case 0
  then show ?case using assms by simp
next
  case (Suc n)
  then obtain u where u: "(teardown_step closable ^^ n) t u" "teardown_step closable u t'" by auto
  note ih = Suc.IH [OF u(1)]
  then have "td_ptyClosed t' \<and> steps_left t' < steps_left u" using teardown_progress(2) u(2) by blast
  then show ?case using ih u(2) by (auto intro: rtranclp.rtrancl_into_rtrancl)
qed

section \<open>Properties\<close>

text \<open>
  C22. The end of a session completes and tears down safely. In every interleaving of the exit handler, the pump and the reader of
  the emulator's responses: the handler is never stuck; once the PTY is closed at most eight steps are left, whatever their order; the emulator is closed exactly once, never before the pump's last
  write has ended and, where its pipe can be closed on its own, never during a read; and a session whose exit is handled counts as exited.
\<close>

theorem session_exit_completes:
  assumes "(teardown_step closable)\<^sup>*\<^sup>* teardown_init t"
  shows "(td_pc t \<noteq> ExitHandled \<longrightarrow> (\<exists>t'. teardown_step closable t t'))
    \<and> (td_ptyClosed t \<longrightarrow> (\<forall>n t'. (teardown_step closable ^^ n) t t' \<longrightarrow> n \<le> 8))
    \<and> td_closes t \<le> 1
    \<and> (0 < td_closes t \<longrightarrow> td_pump t = PumpEnded \<and> (closable \<longrightarrow> \<not> td_draining t))
    \<and> (td_pc t = ExitHandled \<longrightarrow> td_closes t = 1 \<and> \<not> td_draining t \<and> td_exited t)"
proof -
  have "steps_left t \<le> 8" if "td_ptyClosed t"
    using teardown_reach_ok [OF assms] that by (auto simp: teardown_ok_def steps_left_def split: pump_state.splits)
  then have "n \<le> 8" if "td_ptyClosed t" "(teardown_step closable ^^ n) t t'" for n t'
    using teardown_bounded [OF assms that] that(1) by fastforce
  then show ?thesis using teardown_progress(1) [OF assms] emulator_closed_once [OF assms] by blast
qed

theorem session_exit_completes_witness:
  "\<exists>t. (teardown_step True)\<^sup>*\<^sup>* teardown_init t \<and> td_ptyClosed t \<and> td_pump t = PumpReading
     \<and> (\<exists>t'. teardown_step True t t') \<and> (\<forall>n t'. (teardown_step True ^^ n) t t' \<longrightarrow> n \<le> 8)"
proof -
  let ?a = "teardown_init\<lparr>td_pc := KillDescendants, td_exited := True\<rparr>"
  let ?b = "?a\<lparr>td_pc := ClosePTY\<rparr>"
  let ?c = "?b\<lparr>td_pc := AwaitPump, td_ptyClosed := True\<rparr>"
  have "teardown_step True teardown_init ?a" by (rule td_shell_ends) (simp add: teardown_init_def)
  moreover have "teardown_step True ?a ?b" by (rule td_killed) simp
  moreover have "teardown_step True ?b ?c" by (rule td_close_pty) simp
  ultimately have r: "(teardown_step True)\<^sup>*\<^sup>* teardown_init ?c" by (meson r_into_rtranclp rtranclp.rtrancl_into_rtrancl)
  have p: "td_pump ?c = PumpReading" by (simp add: teardown_init_def)
  show ?thesis using session_exit_completes [OF r] r p by (intro exI [of _ ?c]) simp
qed

end
