(* ===== verification/Proxy_Run.thy ===== *)
theory Proxy_Run
  imports Proxy_Server "HOL-Library.Sublist"
begin

text \<open>
  The running proxy process: the goroutines of \<^verbatim>\<open>Server.Run\<close> in \<^verbatim>\<open>proxy/server.go\<close> with the channel of their errors, the SSH forwarder, and the panic
  recovery of the control API, \<^verbatim>\<open>proxy/api.go\<close>. Which services run and with which addresses is \<open>Run\<close> of \<open>Proxy_Server\<close>. How listening ends is open, and so are the
  bytes of the two ends of a forwarded connection.
\<close>

section \<open>Services\<close>

text \<open>How the serving call of a service ends: an error before serving or later, the closing by \<^verbatim>\<open>Shutdown\<close>, or no error.\<close>

datatype listen_end = ListenFailed string | ServerClosed | ListenReturned

text \<open>What the goroutine of a service sends on \<^verbatim>\<open>errCh\<close>; nothing for \<^term>\<open>None\<close>. The sent error may be nil.\<close>

fun service_report :: "service \<Rightarrow> listen_end \<Rightarrow> string option option" where
  "service_report (DNSService addr) (ListenFailed e) = Some (Some e)"
| "service_report (DNSService addr) _ = Some None"
| "service_report (SSHForwarder addr t) (ListenFailed e) = Some (Some e)"
| "service_report (SSHForwarder addr t) _ = None"
| "service_report _ (ListenFailed e) = Some (Some e)"
| "service_report _ _ = None"

text \<open>The DNS service listens on UDP and TCP and returns with the first end of the two.\<close>

fun DNS_ListenAndServe :: "listen_end list \<Rightarrow> listen_end option" where
  "DNS_ListenAndServe [] = None"
| "DNS_ListenAndServe (e # ends) = Some e"

datatype service_state = Serving | Reported | EndedQuietly

datatype run_end = ServiceEnded service "string option" | RunCancelled

record run_state =
  ru_services :: "(service \<times> service_state) list"
  ru_errCh :: "(service \<times> string option) list"
  ru_cap :: nat
  ru_ctxDone :: bool
  ru_shutdown :: bool
  ru_end :: "run_end option"

definition services_start :: "service list \<Rightarrow> nat \<Rightarrow> run_state" where
  "services_start svcs n =
     \<lparr>ru_services = map (\<lambda>s. (s, Serving)) svcs, ru_errCh = [], ru_cap = n, ru_ctxDone = False, ru_shutdown = False, ru_end = None\<rparr>"

inductive run_step :: "run_state \<Rightarrow> run_state \<Rightarrow> bool" where
  rn_report: "i < length (ru_services r) \<Longrightarrow> ru_services r ! i = (svc, Serving) \<Longrightarrow> service_report svc how = Some v \<Longrightarrow> length (ru_errCh r) < ru_cap r \<Longrightarrow>
    run_step r (r\<lparr>ru_services := (ru_services r)[i := (svc, Reported)], ru_errCh := ru_errCh r @ [(svc, v)]\<rparr>)"
| rn_quiet: "i < length (ru_services r) \<Longrightarrow> ru_services r ! i = (svc, Serving) \<Longrightarrow> service_report svc how = None \<Longrightarrow> (how = ServerClosed \<longrightarrow> ru_shutdown r) \<Longrightarrow>
    run_step r (r\<lparr>ru_services := (ru_services r)[i := (svc, EndedQuietly)]\<rparr>)"
| rn_cancel: "run_step r (r\<lparr>ru_ctxDone := True\<rparr>)"
| rn_error: "ru_end r = None \<Longrightarrow> ru_errCh r = (svc, v) # rest \<Longrightarrow> run_step r (r\<lparr>ru_errCh := rest, ru_end := Some (ServiceEnded svc v)\<rparr>)"
| rn_done: "ru_end r = None \<Longrightarrow> ru_ctxDone r \<Longrightarrow> run_step r (r\<lparr>ru_shutdown := True, ru_end := Some RunCancelled\<rparr>)"

inductive_cases run_stepE: "run_step r r'"

definition reported :: "run_state \<Rightarrow> nat" where
  "reported r = length (filter (\<lambda>x. snd x = Reported) (ru_services r))"

definition received :: "run_state \<Rightarrow> nat" where
  "received r = (case ru_end r of Some (ServiceEnded svc v) \<Rightarrow> 1 | _ \<Rightarrow> 0)"

definition services_ok :: "run_state \<Rightarrow> bool" where
  "services_ok r \<longleftrightarrow> length (ru_services r) = ru_cap r \<and> length (ru_errCh r) + received r = reported r
     \<and> (\<forall>svc v. ru_end r = Some (ServiceEnded svc v) \<longrightarrow> svc \<in> fst ` set (ru_services r) \<and> (\<exists>how. service_report svc how = Some v))
     \<and> (\<forall>(svc, v) \<in> set (ru_errCh r). svc \<in> fst ` set (ru_services r) \<and> (\<exists>how. service_report svc how = Some v))
     \<and> (ru_end r = Some RunCancelled \<longrightarrow> ru_ctxDone r \<and> ru_shutdown r)"

lemma filter_update:
  "i < length xs \<Longrightarrow> xs ! i = (s, Serving) \<Longrightarrow> length (filter (\<lambda>x. snd x = Reported) (xs[i := (s, st)]))
    = length (filter (\<lambda>x. snd x = Reported) xs) + (if st = Reported then 1 else 0)"
proof (induction xs arbitrary: i)
  case (Cons x xs)
  then show ?case by (cases i) auto
qed simp

lemma update_services: "i < length xs \<Longrightarrow> xs ! i = (s, st) \<Longrightarrow> fst ` set (xs[i := (s, st')]) = fst ` set xs"
  by (metis fst_conv list.set_map list_update_id map_update)

lemma run_step_ok:
  assumes "run_step r r'" "services_ok r"
  shows "services_ok r'"
  using assms(1)
proof cases
  case (rn_report i svc how v)
  have "svc \<in> fst ` set (ru_services r)" using rn_report(2,3) by (metis fst_conv image_eqI nth_mem)
  then show ?thesis using assms(2) rn_report filter_update [OF rn_report(2,3)] update_services [OF rn_report(2,3)]
    by (auto simp: services_ok_def reported_def received_def)
next
  case (rn_quiet i svc how)
  then show ?thesis using assms(2) filter_update [OF rn_quiet(2,3)] update_services [OF rn_quiet(2,3)]
    by (auto simp: services_ok_def reported_def received_def)
next
  case (rn_error svc v rest)
  then show ?thesis using assms(2) by (auto simp: services_ok_def reported_def received_def)
qed (use assms(2) in \<open>auto simp: services_ok_def reported_def received_def\<close>)

lemma services_start_ok: "length svcs = n \<Longrightarrow> services_ok (services_start svcs n)"
  by (simp add: services_ok_def services_start_def reported_def received_def filter_map o_def)

lemma run_reach_ok: "run_step\<^sup>*\<^sup>* (services_start svcs (length svcs)) r \<Longrightarrow> services_ok r"
  by (induction rule: rtranclp_induct) (auto intro: run_step_ok services_start_ok)

lemma Run_services: "Run cfg = Inr (st, svcs, n) \<Longrightarrow> length svcs = n"
  by (auto simp: Run_def Let_def split: sum.splits if_splits option.splits)

text \<open>
  No service goroutine blocks on the channel, whatever the others do: a service that still runs finds room for its report. A report makes
  \<^verbatim>\<open>Run\<close> return, and \<^verbatim>\<open>Run\<close> returns only with a report or at the end of its context, then after the shutdown.
\<close>

lemma services_never_block:
  assumes "Run cfg = Inr (st, svcs, n)" "run_step\<^sup>*\<^sup>* (services_start svcs n) r"
  shows "(\<exists>svc. (svc, Serving) \<in> set (ru_services r)) \<Longrightarrow> length (ru_errCh r) < ru_cap r"
    and "reported r > 0 \<Longrightarrow> ru_end r = None \<Longrightarrow> \<exists>svc v rest. ru_errCh r = (svc, v) # rest"
    and "ru_end r = Some (ServiceEnded svc v) \<Longrightarrow> \<exists>how. service_report svc how = Some v"
    and "ru_end r = Some RunCancelled \<Longrightarrow> ru_ctxDone r \<and> ru_shutdown r"
proof -
  have ok: "services_ok r" using run_reach_ok assms Run_services by metis
  show "length (ru_errCh r) < ru_cap r" if e: "\<exists>svc. (svc, Serving) \<in> set (ru_services r)"
  proof -
    obtain svc where "(svc, Serving) \<in> set (ru_services r)" using e by blast
    then have "reported r < length (ru_services r)" unfolding reported_def by (intro length_filter_less) auto
    then show ?thesis using ok by (simp add: services_ok_def)
  qed
  show "\<exists>svc v rest. ru_errCh r = (svc, v) # rest" if "reported r > 0" "ru_end r = None"
    using ok that by (cases "ru_errCh r") (auto simp: services_ok_def received_def)
  show "\<exists>how. service_report svc how = Some v" if "ru_end r = Some (ServiceEnded svc v)" using ok that by (simp add: services_ok_def)
  show "ru_ctxDone r \<and> ru_shutdown r" if "ru_end r = Some RunCancelled" using ok that by (simp add: services_ok_def)
qed

section \<open>The SSH forwarder\<close>

text \<open>
  The accept loop and one forwarded connection: what each end has sent and the other received, whether the ends have closed their
  sending side, and which of the two copies run. \<open>fw_failed\<close> records that a copy ended by an error.
\<close>

fun runSSHForwarder :: "string option \<Rightarrow> (string + nat) list \<Rightarrow> string option \<times> nat list" where
  "runSSHForwarder (Some e) accepts = (Some (''ssh forwarder listen: '' @ e), [])"
| "runSSHForwarder None [] = (None, [])"
| "runSSHForwarder None (Inl e # accepts) = (Some (''ssh forwarder accept: '' @ e), [])"
| "runSSHForwarder None (Inr conn # accepts) = (let (e, conns) = runSSHForwarder None accepts in (e, conn # conns))"

record forward =
  fw_sent :: string
  fw_clientEOF :: bool
  fw_got :: string
  fw_wclosed :: bool
  fw_reply :: string
  fw_targetEOF :: bool
  fw_back :: string
  fw_up :: bool
  fw_down :: bool
  fw_failed :: bool
  fw_closed :: bool

definition forward_init :: "string option \<Rightarrow> forward" where
  "forward_init dial =
     \<lparr>fw_sent = [], fw_clientEOF = False, fw_got = [], fw_wclosed = False, fw_reply = [], fw_targetEOF = False, fw_back = [],
      fw_up = (dial = None), fw_down = (dial = None), fw_failed = (dial \<noteq> None), fw_closed = False\<rparr>"

inductive forward_step :: "forward \<Rightarrow> forward \<Rightarrow> bool" where
  fw_client_sends: "\<not> fw_clientEOF f \<Longrightarrow> \<not> fw_closed f \<Longrightarrow> forward_step f (f\<lparr>fw_sent := fw_sent f @ d\<rparr>)"
| fw_client_closes: "forward_step f (f\<lparr>fw_clientEOF := True\<rparr>)"
| fw_target_sends: "\<not> fw_targetEOF f \<Longrightarrow> \<not> fw_closed f \<Longrightarrow> forward_step f (f\<lparr>fw_reply := fw_reply f @ d\<rparr>)"
| fw_target_closes: "forward_step f (f\<lparr>fw_targetEOF := True\<rparr>)"
| fw_copy_up: "fw_up f \<Longrightarrow> fw_sent f = fw_got f @ d @ rest \<Longrightarrow> d \<noteq> [] \<Longrightarrow> forward_step f (f\<lparr>fw_got := fw_got f @ d\<rparr>)"
| fw_up_eof: "fw_up f \<Longrightarrow> fw_clientEOF f \<Longrightarrow> fw_got f = fw_sent f \<Longrightarrow> forward_step f (f\<lparr>fw_up := False, fw_wclosed := True\<rparr>)"
| fw_up_fails: "fw_up f \<Longrightarrow> fw_targetEOF f \<and> fw_sent f \<noteq> fw_got f \<Longrightarrow> forward_step f (f\<lparr>fw_up := False, fw_wclosed := True, fw_failed := True\<rparr>)"
| fw_copy_down: "fw_down f \<Longrightarrow> fw_reply f = fw_back f @ d @ rest \<Longrightarrow> d \<noteq> [] \<Longrightarrow> forward_step f (f\<lparr>fw_back := fw_back f @ d\<rparr>)"
| fw_down_eof: "fw_down f \<Longrightarrow> fw_targetEOF f \<Longrightarrow> fw_back f = fw_reply f \<Longrightarrow> forward_step f (f\<lparr>fw_down := False\<rparr>)"
| fw_down_fails: "fw_down f \<Longrightarrow> fw_clientEOF f \<and> fw_reply f \<noteq> fw_back f \<Longrightarrow> forward_step f (f\<lparr>fw_down := False, fw_failed := True\<rparr>)"
| fw_both_done: "\<not> fw_up f \<Longrightarrow> \<not> fw_down f \<Longrightarrow> forward_step f (f\<lparr>fw_closed := True\<rparr>)"

inductive_cases forward_stepE: "forward_step f f'"

definition forward_ok :: "forward \<Rightarrow> bool" where
  "forward_ok f \<longleftrightarrow> prefix (fw_got f) (fw_sent f) \<and> prefix (fw_back f) (fw_reply f)
     \<and> (fw_closed f \<longrightarrow> \<not> fw_up f \<and> \<not> fw_down f)
     \<and> (fw_wclosed f \<longrightarrow> \<not> fw_up f)
     \<and> (\<not> fw_failed f \<longrightarrow> (\<not> fw_up f \<longrightarrow> fw_clientEOF f \<and> fw_got f = fw_sent f) \<and> (\<not> fw_down f \<longrightarrow> fw_targetEOF f \<and> fw_back f = fw_reply f))"

lemma forward_step_ok:
  assumes "forward_step f f'" "forward_ok f"
  shows "forward_ok f'"
  using assms(1)
proof cases
  case (fw_copy_up d rest)
  then have "prefix (fw_got f @ d) (fw_sent f)" by (metis append_assoc prefixI)
  moreover have "fw_got f \<noteq> fw_sent f" using fw_copy_up(3,4) by (metis append_is_Nil_conv append_self_conv)
  ultimately show ?thesis using assms(2) fw_copy_up(1,2) by (simp add: forward_ok_def)
next
  case (fw_copy_down d rest)
  then have "prefix (fw_back f @ d) (fw_reply f)" by (metis append_assoc prefixI)
  moreover have "fw_back f \<noteq> fw_reply f" using fw_copy_down(3,4) by (metis append_is_Nil_conv append_self_conv)
  ultimately show ?thesis using assms(2) fw_copy_down(1,2) by (simp add: forward_ok_def)
qed (use assms(2) in \<open>auto simp: forward_ok_def\<close>)

text \<open>
  Bytes pass in order in both directions. Both connections are closed only after both copies have ended, and unless one of them failed, everything
  that was sent has then arrived; the target sees the end of the client's bytes after all of them.
\<close>

lemma forwarder_relays:
  assumes "forward_step\<^sup>*\<^sup>* (forward_init dial) f"
  shows "prefix (fw_got f) (fw_sent f) \<and> prefix (fw_back f) (fw_reply f)
    \<and> (\<not> fw_failed f \<longrightarrow> (fw_wclosed f \<longrightarrow> fw_got f = fw_sent f) \<and> (fw_closed f \<longrightarrow> fw_got f = fw_sent f \<and> fw_back f = fw_reply f))"
proof -
  have "forward_ok f" using assms
    by (induction rule: rtranclp_induct) (auto intro: forward_step_ok, auto simp: forward_ok_def forward_init_def)
  then show ?thesis by (auto simp: forward_ok_def)
qed

text \<open>
  When the target ends, the client is not told: after the last byte was copied back, nothing happens until the client sends or
  closes, although the connection to the target is gone.
\<close>

definition target_gone :: forward where
  "target_gone = (forward_init None)\<lparr>fw_targetEOF := True, fw_down := False\<rparr>"

lemma client_not_told:
  shows "forward_step\<^sup>*\<^sup>* (forward_init None) target_gone"
    and "forward_step target_gone f' \<Longrightarrow> f' \<noteq> target_gone \<Longrightarrow> fw_clientEOF f' \<or> fw_sent f' \<noteq> []"
proof -
  let ?f = "(forward_init None)\<lparr>fw_targetEOF := True\<rparr>"
  have "forward_step (forward_init None) ?f" by (rule fw_target_closes)
  moreover have "forward_step ?f target_gone" unfolding target_gone_def using fw_down_eof [of ?f] by (simp add: forward_init_def)
  ultimately show "forward_step\<^sup>*\<^sup>* (forward_init None) target_gone" by (meson r_into_rtranclp rtranclp.rtrancl_into_rtrancl)
  assume "forward_step target_gone f'" "f' \<noteq> target_gone"
  then show "fw_clientEOF f' \<or> fw_sent f' \<noteq> []" by (elim forward_stepE) (auto simp: target_gone_def forward_init_def)
qed

section \<open>Panics in the control API\<close>

text \<open>\<^verbatim>\<open>responseState\<close>: what a handler has written, and whether it panicked.\<close>

datatype response_write = WriteHeader int | WriteBody string

definition ControlAPI_ServeHTTP :: "response_write list \<times> bool \<Rightarrow> response_write list" where
  "ControlAPI_ServeHTTP handled =
     (let (written, panicked) = handled in
      if panicked \<and> written = [] then [WriteHeader 500, WriteBody (''{\"error\":\"internal server error\"}'' @ [newline])] else written)"

text \<open>Some answer is sent, and a status that a handler has sent is never followed by another one.\<close>

lemma recovered_once:
  "(written \<noteq> [] \<or> panicked \<longrightarrow> ControlAPI_ServeHTTP (written, panicked) \<noteq> [])
   \<and> (length (filter (\<lambda>w. \<exists>c. w = WriteHeader c) written) \<le> 1 \<longrightarrow>
        length (filter (\<lambda>w. \<exists>c. w = WriteHeader c) (ControlAPI_ServeHTTP (written, panicked))) \<le> 1)"
  by (auto simp: ControlAPI_ServeHTTP_def)

end
