(* ===== verification/SSH_Access.thy ===== *)
theory SSH_Access
  imports Control_Channel SSHD_Server Shell_Quote
begin

text \<open>
  The SSH connection into a sandbox: the keys, \<^verbatim>\<open>keygen/keygen.go\<close>, their way into the container, the daemon there,
  \<^verbatim>\<open>cmd/vibed.go\<close> and \<^verbatim>\<open>NewServer\<close> of \<^verbatim>\<open>sshd/server.go\<close>, the client of the commands, \<^verbatim>\<open>cmd/bootstrap_ssh.go\<close>, and
  the command \<^verbatim>\<open>exec\<close>, \<^verbatim>\<open>cmd/exec.go\<close>. Keys are symbolic as in \<open>MTLS\<close>; their encodings and the SSH library are the parameter \<open>ssh_lib\<close>. Of the handshake, the
  checks that both ends have configured are modelled.
\<close>

section \<open>Keys\<close>

record ssh_lib =
  sl_marshal_priv :: "private_key \<Rightarrow> string + string"
  sl_marshal_pub :: "public_key \<Rightarrow> string + string"
  sl_parse_priv :: "string \<Rightarrow> string + private_key"
  sl_parse_pub :: "string \<Rightarrow> string + public_key"

definition GenerateEd25519Keypair :: "ssh_lib \<Rightarrow> string + private_key \<Rightarrow> string + string \<times> string" where
  "GenerateEd25519Keypair sl draw =
     (case draw of Inl e \<Rightarrow> Inl (''generate ed25519 key: '' @ e) | Inr priv \<Rightarrow>
     (case sl_marshal_priv sl priv of Inl e \<Rightarrow> Inl (''marshal private key: '' @ e) | Inr privateKeyPEM \<Rightarrow>
     (case sl_marshal_pub sl (public_of priv) of Inl e \<Rightarrow> Inl (''create ssh public key: '' @ e) | Inr publicKey \<Rightarrow>
        Inr (privateKeyPEM, publicKey))))"

section \<open>The daemon\<close>

record 'v ssh_server =
  sd_HostKey :: private_key
  sd_AuthorizedKey :: public_key
  sd_Server :: Server
  sd_Sessions :: "'v Manager"

definition NewServer_ssh :: "ssh_lib \<Rightarrow> string \<Rightarrow> string \<Rightarrow> 'v Manager \<Rightarrow> string + 'v ssh_server" where
  "NewServer_ssh sl hostKeyPEM authorizedKey sessions =
     (case sl_parse_pub sl authorizedKey of Inl e \<Rightarrow> Inl (''parse authorized key: '' @ e) | Inr pub \<Rightarrow>
     (case sl_parse_priv sl hostKeyPEM of Inl e \<Rightarrow> Inl (''set host key: '' @ e) | Inr hostKey \<Rightarrow>
        Inr \<lparr>sd_HostKey = hostKey, sd_AuthorizedKey = pub, sd_Server = new_Server, sd_Sessions = sessions\<rparr>))"

definition SessionStatePath :: string where
  "SessionStatePath = ''/tmp/vibed-sessions.json''"

text \<open>The server that \<^verbatim>\<open>vibed\<close> runs, from the result of its init script, the files and the environment of its container and the listener.\<close>

definition VibedAction ::
  "ssh_lib \<Rightarrow> string option \<Rightarrow> (string \<Rightarrow> string + string) \<Rightarrow> (string \<Rightarrow> string) \<Rightarrow> string option \<Rightarrow> string + 'v ssh_server" where
  "VibedAction sl init read env listen =
     (case init of Some e \<Rightarrow> Inl (''sandbox init: '' @ e) | None \<Rightarrow>
     (case read SSHHostKeyPath of Inl e \<Rightarrow> Inl (''read host key: '' @ e) | Inr hostKey \<Rightarrow>
      let authorizedKey = env SSHPubKeyEnv in
      if authorizedKey = [] then Inl (SSHPubKeyEnv @ '' not set'')
      else let mgr = SetStateFilePath SessionStatePath (NewManager 50) in
           (case NewServer_ssh sl hostKey authorizedKey mgr of
              Inl e \<Rightarrow> Inl (''create ssh server: '' @ e)
            | Inr srv \<Rightarrow> (case listen of Some e \<Rightarrow> Inl (''listen: '' @ e) | None \<Rightarrow> Inr srv))))"

definition publickey_ok :: "'v ssh_server \<Rightarrow> public_key \<Rightarrow> bool" where
  "publickey_ok srv key \<longleftrightarrow> key = sd_AuthorizedKey srv"

section \<open>The client\<close>

record ssh_client_config =
  sk_Signer :: private_key
  sk_HostKey :: public_key
  sk_Port :: int

text \<open>
  \<^verbatim>\<open>ssh.Dial\<close> to a server that proves the key \<open>host\<close>: the client takes it only with the fixed host key, and the server
  takes the client only with a key that it knows.
\<close>

definition ssh_Dial :: "ssh_client_config \<Rightarrow> 'v ssh_server \<Rightarrow> bool" where
  "ssh_Dial cfg srv \<longleftrightarrow> public_of (sd_HostKey srv) = sk_HostKey cfg \<and> publickey_ok srv (public_of (sk_Signer cfg))"

definition load_ssh_config :: "ssh_lib \<Rightarrow> (string \<Rightarrow> string + string) \<Rightarrow> string \<Rightarrow> int \<Rightarrow> string + ssh_client_config" where
  "load_ssh_config sl read sessDir port =
     (case read (path_join sessDir SSHClientPrivFile) of Inl e \<Rightarrow> Inl (''read ssh key: '' @ e) | Inr privateKey \<Rightarrow>
     (case read (path_join sessDir SSHHostPubFile) of Inl e \<Rightarrow> Inl (''read host key: '' @ e) | Inr hostPubKey \<Rightarrow>
     (case sl_parse_priv sl privateKey of Inl e \<Rightarrow> Inl (''parse private key: '' @ e) | Inr signer \<Rightarrow>
     (case sl_parse_pub sl hostPubKey of Inl e \<Rightarrow> Inl (''parse host key: '' @ e) | Inr hostKey \<Rightarrow>
        Inr \<lparr>sk_Signer = signer, sk_HostKey = hostKey, sk_Port = port\<rparr>))))"

text \<open>\<open>dial\<close> is the result of the connection to the port on the local host.\<close>

definition newSSHClient ::
  "ssh_lib \<Rightarrow> (string \<Rightarrow> string + string) \<Rightarrow> (ssh_client_config \<Rightarrow> string option) \<Rightarrow> host_env \<Rightarrow> (ssh_client_config \<times> RunningSession) act" where
  "newSSHClient sl read dial h =
     act_bind (NewClient (he_daemon h)) (\<lambda>_.
     act_bind (act_call ''getwd'' (he_cwd h)) (\<lambda>wd.
     act_bind (FindProjectRoot h wd) (\<lambda>projectRoot.
     act_bind (FindRunningSession (he_api h) projectRoot) (\<lambda>sandbox.
       case sandbox of
         None \<Rightarrow> act_fail (StepFailed ''no running sandbox found'' projectRoot)
       | Some sandbox \<Rightarrow>
           act_bind (FindProxyContainerID (he_api h) (rn_SessionID sandbox)) (\<lambda>proxyID.
           act_bind (FindPublishedPort (he_api h) proxyID SSHContainerPort) (\<lambda>port.
           act_bind (act_call ''ssh'' (load_ssh_config sl read (sessionDir h (rn_SessionID sandbox)) port)) (\<lambda>cfg.
           act_bind (act_check ''ssh connect'' (dial cfg)) (\<lambda>_.
             act_ret (cfg, sandbox)))))))))"

section \<open>The command exec\<close>

datatype exec_result = ExecOK | CommandExit int | ExecError host_error

text \<open>The outcome of the remote command: the end of the session with a status, or an error of the connection; \<open>session\<close> and \<open>pipe\<close> are the steps before.\<close>

definition ExecAction ::
  "(ssh_client_config \<times> RunningSession) act \<Rightarrow> string option \<Rightarrow> string option \<Rightarrow> (string \<Rightarrow> string + uint32) \<Rightarrow> string list \<Rightarrow> exec_result" where
  "ExecAction conn session pipe run args =
     (case fst conn of Inl e \<Rightarrow> ExecError e | Inr _ \<Rightarrow>
     (case session of Some e \<Rightarrow> ExecError (StepFailed ''ssh session'' e) | None \<Rightarrow>
     (case pipe of Some e \<Rightarrow> ExecError (StepFailed ''stdin pipe'' e) | None \<Rightarrow>
     (case run (buildRemoteCommand args) of
        Inl e \<Rightarrow> ExecError (StepFailed ''ssh'' e)
      | Inr status \<Rightarrow> if status = 0 then ExecOK else CommandExit (uint status)))))"

section \<open>Files in the container\<close>

text \<open>Where a path of the container comes from, by the binds \<^verbatim>\<open>source:target:options\<close>.\<close>

definition bind_of :: "string \<Rightarrow> string \<times> string" where
  "bind_of b = (case split_on CHR '':'' b of src # dst # _ \<Rightarrow> (dst, src) | _ \<Rightarrow> ([], []))"

definition mounted :: "(string \<Rightarrow> string + string) \<Rightarrow> string list \<Rightarrow> string \<Rightarrow> string + string" where
  "mounted read binds path = (case map_of (map bind_of binds) path of None \<Rightarrow> Inl ''not mounted'' | Some src \<Rightarrow> read src)"

lemma bind_of_colons:
  assumes "CHR '':'' \<notin> set src" "CHR '':'' \<notin> set dst"
  shows "bind_of (src @ '':'' @ dst) = (dst, src)" "bind_of (src @ '':'' @ dst @ '':'' @ opts) = (dst, src)"
  using assms by (simp_all add: bind_of_def split_on_append_sep split_on_no_sep)

text \<open>The encodings of a key can be read back.\<close>

definition ssh_ok :: "ssh_lib \<Rightarrow> private_key \<Rightarrow> bool" where
  "ssh_ok sl k \<longleftrightarrow> (\<exists>priv pub. sl_marshal_priv sl k = Inr priv \<and> sl_marshal_pub sl (public_of k) = Inr pub \<and> pub \<noteq> []
     \<and> sl_parse_priv sl priv = Inr k \<and> sl_parse_pub sl pub = Inr (public_of k))"

lemma ssh_files:
  assumes w: "WriteSSHCredentials h sid client host = (Inr (), es, rs)" and order: "\<And>fs. mset (he_order h fs) = mset fs"
  shows "file_of es (path_join (sessionDir h sid) SSHClientPrivFile) = Some (fst client)"
    "file_of es (path_join (sessionDir h sid) SSHHostPubFile) = Some (snd host)"
    "file_of es (path_join (sessionDir h sid) SSHHostPrivFile) = Some (fst host)"
proof -
  let ?fs = "[(SSHClientPrivFile, fst client), (SSHClientPubFile, snd client), (SSHHostPrivFile, fst host), (SSHHostPubFile, snd host)]"
  have m: "set (he_order h ?fs) = set ?fs" using order [of ?fs] by (metis set_mset_mset)
  have "mset (map fst (he_order h ?fs)) = mset (map fst ?fs)" using order [of ?fs] by (simp only: mset_map)
  moreover have "distinct (map fst ?fs)" by (simp add: SSHClientPrivFile_def SSHClientPubFile_def SSHHostPrivFile_def SSHHostPubFile_def)
  ultimately have d: "distinct (map fst (he_order h ?fs))" by (metis mset_eq_imp_distinct_iff)
  have es: "es = map (\<lambda>(n, d). FileWritten (path_join (sessionDir h sid) n) d) (he_order h ?fs)"
    using w by (auto simp: WriteSSHCredentials_def ensureSessionDir_def act_bind_Inr dest!: write_files_Inr simp del: write_files.simps)
  have f: "file_of es (path_join (sessionDir h sid) n) = Some x" if "(n, x) \<in> set ?fs" for n x
    using file_of_written [OF d, of n x "sessionDir h sid"] that m es by simp
  show "file_of es (path_join (sessionDir h sid) SSHClientPrivFile) = Some (fst client)"
    "file_of es (path_join (sessionDir h sid) SSHHostPubFile) = Some (snd host)"
    "file_of es (path_join (sessionDir h sid) SSHHostPrivFile) = Some (fst host)"
    by (rule f, simp)+
qed

lemma file_of_append: "file_of (xs @ ys) p = (case file_of ys p of Some d \<Rightarrow> Some d | None \<Rightarrow> file_of xs p)"
  by (induction xs p rule: file_of.induct) (auto split: option.splits)

definition no_files :: "host_effect list \<Rightarrow> bool" where
  "no_files es \<longleftrightarrow> (\<forall>p d. FileWritten p d \<notin> set es)"

lemma file_of_none: "no_files es \<Longrightarrow> file_of es p = None"
  by (induction es p rule: file_of.induct) (auto simp: no_files_def)

lemma wait_ready_effects: "snd (wait_ready ps) = ([], [])"
  by (induction ps rule: wait_ready.induct) (auto simp: act_ret_def act_fail_def)

lemma mem_last_differs: "last xs \<noteq> last ys \<Longrightarrow> xs \<noteq> ys"
  by auto

text \<open>The paths of a session that Docker can bind: no colon, and the project is not on the key.\<close>

definition bindable :: "string \<Rightarrow> sessionInfra \<Rightarrow> bool" where
  "bindable root infra \<longleftrightarrow> CHR '':'' \<notin> set root \<and> CHR '':'' \<notin> set (in_SessionDir infra) \<and> CHR '':'' \<notin> set (in_SelfBinary infra) \<and> root \<noteq> SSHHostKeyPath"

lemma colon_path_join: "CHR '':'' \<notin> set a \<Longrightarrow> CHR '':'' \<notin> set b \<Longrightarrow> CHR '':'' \<notin> set (path_join a b)"
  by (simp add: path_join_def)

lemma daemon_binds:
  assumes "bindable root infra"
  shows "mounted read (sandbox_binds lt (daemon_sandbox_config h infra root u pub)) SSHHostKeyPath
    = read (path_join (in_SessionDir infra) SSHHostPrivFile)"
proof -
  note b = bind_of_colons
  have c: "CHR '':'' \<notin> set root" "CHR '':'' \<notin> set (in_SessionDir infra)" "CHR '':'' \<notin> set (in_SelfBinary infra)" "root \<noteq> SSHHostKeyPath"
    using assms by (simp_all add: bindable_def)
  have n: "path_join root ''.vibepit'' \<noteq> SSHHostKeyPath" by (rule mem_last_differs) (simp add: path_join_def SSHHostKeyPath_def)
  have j: "CHR '':'' \<notin> set (path_join (in_SessionDir infra) x)" if "CHR '':'' \<notin> set x" for x using colon_path_join c(2) that by blast
  have m: "CHR '':'' \<notin> set (path_join (path_join (in_SessionDir infra) ''maven'') ''settings.xml'')" using colon_path_join j by simp
  have r: "CHR '':'' \<notin> set (path_join root ''.vibepit'')" using colon_path_join c(1) by simp
  have "map bind_of (sandbox_binds lt (daemon_sandbox_config h infra root u pub)) =
    [(HomeMountPath, homeVolumeName), (LinuxbrewMountPath, linuxbrewVolumeName), (root, root),
     (path_join root ''.vibepit'', path_join (in_SessionDir infra) ''.vibepit''),
     (''/etc/vibepit/maven-settings.xml'', path_join (path_join (in_SessionDir infra) ''maven'') ''settings.xml'')]
    @ (if lt then [(''/etc/localtime'', ''/etc/localtime'')] else [])
    @ [(SandboxBinaryPath, in_SelfBinary infra), (SSHHostKeyPath, path_join (in_SessionDir infra) SSHHostPrivFile),
       (SSHHostPubPath, path_join (in_SessionDir infra) SSHHostPubFile)]"
    by (simp add: sandbox_binds_def daemon_sandbox_config_def baseSandboxConfig_def maven_path_def bind_of_def split_on_append_sep split_on_no_sep c j m r homeVolumeName_def linuxbrewVolumeName_def HomeMountPath_def LinuxbrewMountPath_def ProjectConfigDirName_def SSHHostKeyPath_def SSHHostPubPath_def SandboxBinaryPath_def SSHHostPrivFile_def SSHHostPubFile_def)
  then show ?thesis
    using c(4) n by (auto simp: mounted_def HomeMountPath_def LinuxbrewMountPath_def SSHHostKeyPath_def SandboxBinaryPath_def)
qed

lemma daemon_authorized:
  "getenv (sandbox_env (daemon_sandbox_config h infra root u pub)) SSHPubKeyEnv = pub"
  by (simp add: sandbox_env_def daemon_sandbox_config_def baseSandboxConfig_def SSHPubKeyEnv_def has_prefix_def Let_def)

lemma query_effects:
  "no_files (fst (snd (FindPublishedPort api cid p)))" "no_files (fst (snd (StartContainer api cid)))" "no_files (fst (snd (wait_ready ps)))"
  by (auto simp: no_files_def FindPublishedPort_def publishedPort_def StartContainer_def act_bind_def act_call_def act_check_def act_fail_def act_ret_def act_emit_def
      wait_ready_effects split: sum.splits option.splits list.splits)

lemma up_sandbox_keys:
  assumes "up_sandbox h root u infra = (Inr (), es, rs)"
  obtains client host cid es1 rs1 es2 where "he_keys h = (Inr client, Inr host)"
    "WriteSSHCredentials h (in_SessionID infra) client host = (Inr (), es1, rs1)"
    "es = es1 @ [FileWritten (maven_path (daemon_sandbox_config h infra root u (snd client))) (MavenSettings (ni_ProxyIP (in_NetworkInfo infra)) (mc_ProxyPort (in_Merged infra))),
       ContainerMade cid (''vibepit-sandbox-'' @ in_SessionID infra) (sandbox_spec (da_localtime (he_api h)) (daemon_sandbox_config h infra root u (snd client)))] @ es2"
    "no_files es2"
proof -
  obtain client host es1 rs1 cid es2 rs2 es3 rs3 port es4 rs4 es5 rs5 where
      0: "he_keys h = (Inr client, Inr host)"
    and 1: "WriteSSHCredentials h (in_SessionID infra) client host = (Inr (), es1, rs1)"
    and 2: "CreateSandboxContainer (he_api h) (daemon_sandbox_config h infra root u (snd client)) = (Inr cid, es2, rs2)"
    and 3: "StartContainer (he_api h) cid = (Inr (), es3, rs3)"
    and 4: "FindPublishedPort (he_api h) (in_ProxyContainerID infra) SSHContainerPort = (Inr port, es4, rs4)"
    and 5: "wait_ready (he_polls h) = (Inr (), es5, rs5)"
    and es: "es = es1 @ es2 @ es3 @ es4 @ es5"
    using assms unfolding up_sandbox_def act_bind_Inr
    by (cases "he_keys h") (auto simp: act_bind_Inr act_call_def split: list.splits if_splits sum.splits)
  have c: "es2 = [FileWritten (maven_path (daemon_sandbox_config h infra root u (snd client))) (MavenSettings (ni_ProxyIP (in_NetworkInfo infra)) (mc_ProxyPort (in_Merged infra))),
       ContainerMade cid (''vibepit-sandbox-'' @ in_SessionID infra) (sandbox_spec (da_localtime (he_api h)) (daemon_sandbox_config h infra root u (snd client))),
       Acquired (Container cid)]"
    using 2 by (auto simp: CreateSandboxContainer_def act_bind_Inr daemon_sandbox_config_def baseSandboxConfig_def)
  have "no_files (Acquired (Container cid) # es3 @ es4 @ es5)"
    using query_effects(2) [of "he_api h" cid] query_effects(1) [of "he_api h"] query_effects(3) [of "he_polls h"] 3 4 5
    by (simp add: no_files_def) (metis fst_conv snd_conv)
  then show ?thesis using that [OF 0 1] es c by simp
qed

lemma session_files_kept:
  assumes es: "es = es1 @ [FileWritten (maven_path (daemon_sandbox_config h infra root u pub)) x, y] @ es2"
    and y: "no_files [y]" "no_files es2" and dir: "in_SessionDir infra = dir"
    and f: "file_of es1 (path_join dir name) = Some d" and name: "name \<in> {SSHClientPrivFile, SSHHostPubFile, SSHHostPrivFile}"
  shows "read_file es (path_join dir name) = Inr d"
proof -
  have "path_join (path_join dir ''maven'') ''settings.xml'' \<noteq> path_join dir name"
    using name by (auto simp: path_join_def SSHClientPrivFile_def SSHHostPubFile_def SSHHostPrivFile_def)
  moreover have "maven_path (daemon_sandbox_config h infra root u pub) = path_join (path_join dir ''maven'') ''settings.xml''"
    using dir by (simp add: maven_path_def daemon_sandbox_config_def baseSandboxConfig_def)
  ultimately have "file_of [FileWritten (maven_path (daemon_sandbox_config h infra root u pub)) x, y] (path_join dir name) = None"
    using file_of_none [OF y(1)] by simp
  then show ?thesis using f file_of_none [OF y(2)] by (simp add: es read_file_def file_of_append del: append_Cons append_Nil)
qed

section \<open>Properties\<close>

text \<open>
  C11. Only the key of the session opens a shell. After a session was started with two fresh keys, the daemon in the
  sandbox finds the host key through the bind of its container and the client's public key in its environment, and the commands find
  their key and the public host key in the session directory, whatever the order in which the files were written. With them the
  connection succeeds; the daemon takes nobody whose key is not the client key, and the commands connect to nobody whose key is not the host key. Paths with a
  colon, which Docker cannot bind, are left out.
\<close>

theorem ssh_needs_session_keys:
  assumes up: "up_sandbox h root u infra = (Inr (), es, rs)"
    and keys: "he_keys h = (GenerateEd25519Keypair sl (Inr ck), GenerateEd25519Keypair sl (Inr hk))" "ssh_ok sl ck" "ssh_ok sl hk"
    and dir: "in_SessionDir infra = sessionDir h (in_SessionID infra)" "bindable root infra" and order: "\<And>fs. mset (he_order h fs) = mset fs"
  shows "\<exists>cid spec (srv :: 'v ssh_server) cfg. ContainerMade cid (''vibepit-sandbox-'' @ in_SessionID infra) spec \<in> set es
    \<and> VibedAction sl None (mounted (read_file es) (sp_Binds spec)) (getenv (sp_Env spec)) None = Inr srv
    \<and> load_ssh_config sl (read_file es) (sessionDir h (in_SessionID infra)) port = Inr cfg
    \<and> ssh_Dial cfg srv
    \<and> (\<forall>key. publickey_ok srv (public_of key) \<longleftrightarrow> key = ck)
    \<and> (\<forall>other :: 'v ssh_server. ssh_Dial cfg other \<longrightarrow> sd_HostKey other = hk)"
proof -
  obtain client host cid es1 rs1 es2 where k: "he_keys h = (Inr client, Inr host)"
    and w: "WriteSSHCredentials h (in_SessionID infra) client host = (Inr (), es1, rs1)"
    and es: "es = es1 @ [FileWritten (maven_path (daemon_sandbox_config h infra root u (snd client))) (MavenSettings (ni_ProxyIP (in_NetworkInfo infra)) (mc_ProxyPort (in_Merged infra))),
       ContainerMade cid (''vibepit-sandbox-'' @ in_SessionID infra) (sandbox_spec (da_localtime (he_api h)) (daemon_sandbox_config h infra root u (snd client)))] @ es2"
    and nf: "no_files es2"
    using up by (rule up_sandbox_keys)
  let ?spec = "sandbox_spec (da_localtime (he_api h)) (daemon_sandbox_config h infra root u (snd client))"
  let ?dir = "sessionDir h (in_SessionID infra)"
  obtain cp cq where c: "client = (cp, cq)" "cq \<noteq> []" "sl_parse_priv sl cp = Inr ck" "sl_parse_pub sl cq = Inr (public_of ck)"
    using k keys by (auto simp: GenerateEd25519Keypair_def ssh_ok_def)
  obtain hp hq where h: "host = (hp, hq)" "sl_parse_priv sl hp = Inr hk" "sl_parse_pub sl hq = Inr (public_of hk)"
    using k keys by (auto simp: GenerateEd25519Keypair_def ssh_ok_def)
  note f = ssh_files [OF w order]
  have nf1: "no_files [ContainerMade cid n sp]" for n sp by (simp add: no_files_def)
  have r: "read_file es (path_join ?dir SSHClientPrivFile) = Inr cp" "read_file es (path_join ?dir SSHHostPubFile) = Inr hq"
    "read_file es (path_join ?dir SSHHostPrivFile) = Inr hp"
    using session_files_kept [OF es nf1 nf dir(1)] f c(1) h(1) by simp_all
  let ?srv = "\<lparr>sd_HostKey = hk, sd_AuthorizedKey = public_of ck, sd_Server = new_Server, sd_Sessions = SetStateFilePath SessionStatePath (NewManager 50)\<rparr> :: 'v ssh_server"
  let ?cfg = "\<lparr>sk_Signer = ck, sk_HostKey = public_of hk, sk_Port = port\<rparr>"
  have "VibedAction sl None (mounted (read_file es) (sp_Binds ?spec)) (getenv (sp_Env ?spec)) None = Inr ?srv"
    using daemon_binds [OF dir(2)] daemon_authorized c h r(3) dir(1) by (simp add: VibedAction_def NewServer_ssh_def sandbox_spec_def Let_def)
  moreover have "load_ssh_config sl (read_file es) ?dir port = Inr ?cfg" using r c h by (simp add: load_ssh_config_def)
  moreover have "ContainerMade cid (''vibepit-sandbox-'' @ in_SessionID infra) ?spec \<in> set es" unfolding es by simp
  ultimately show ?thesis
    by (intro exI [of _ cid] exI [of _ ?spec] exI [of _ ?srv] exI [of _ ?cfg] conjI) (auto simp: ssh_Dial_def publickey_ok_def)
qed

definition ex_ssh :: ssh_lib where
  "ex_ssh = \<lparr>sl_marshal_priv = (\<lambda>k. case k of Private n \<Rightarrow> Inr (replicate n CHR ''k'')), sl_marshal_pub = (\<lambda>k. case k of Public n \<Rightarrow> Inr (replicate (Suc n) CHR ''p'')),
     sl_parse_priv = (\<lambda>s. Inr (Private (length s))), sl_parse_pub = (\<lambda>s. Inr (Public (length s - 1)))\<rparr>"

definition ex_host :: host_env where
  "ex_host = (ex_env [(True, [])])\<lparr>he_keys := (GenerateEd25519Keypair ex_ssh (Inr (Private 1)), GenerateEd25519Keypair ex_ssh (Inr (Private 2)))\<rparr>"

lemma ex_host_sandbox: "\<exists>es rs. up_sandbox ex_host root u infra = (Inr (), es, rs)"
proof -
  have p: "FindPublishedPort ex_api cid SSHContainerPort = (Inr 40000, [], [])" for cid
    by (simp add: FindPublishedPort_def publishedPort_def ex_api_def act_bind_def act_call_def act_ret_def) code_simp
  show ?thesis
  by (simp add: up_sandbox_def WriteSSHCredentials_def ensureSessionDir_def CreateSandboxContainer_def StartContainer_def p GenerateEd25519Keypair_def ex_ssh_def
     ex_host_def ex_env_def act_bind_def act_ret_def act_call_def act_emit_def act_check_def act_defer_def split: prod.splits sum.splits) (simp add: ex_api_def)
qed

theorem ssh_needs_session_keys_witness:
  "\<exists>es rs (spec :: container_spec) (srv :: unit ssh_server) cfg infra u. up_sandbox ex_host ''/p'' u infra = (Inr (), es, rs)
    \<and> VibedAction ex_ssh None (mounted (read_file es) (sp_Binds spec)) (getenv (sp_Env spec)) None = Inr srv
    \<and> load_ssh_config ex_ssh (read_file es) (sessionDir ex_host ''x'') 40000 = Inr cfg
    \<and> ssh_Dial cfg srv \<and> publickey_ok srv (public_of (Private 1)) \<and> \<not> publickey_ok srv (public_of (Private 2))"
proof -
  obtain i0 :: sessionInfra and u :: userInfo where True by simp
  let ?infra = "i0\<lparr>in_SessionID := ''x'', in_SessionDir := sessionDir ex_host ''x'', in_SelfBinary := ''/bin/vibepit''\<rparr>"
  obtain es rs where up: "up_sandbox ex_host ''/p'' u ?infra = (Inr (), es, rs)" using ex_host_sandbox by blast
  have keys: "he_keys ex_host = (GenerateEd25519Keypair ex_ssh (Inr (Private 1)), GenerateEd25519Keypair ex_ssh (Inr (Private 2)))"
    by (simp add: ex_host_def)
  have ok: "ssh_ok ex_ssh (Private 1)" "ssh_ok ex_ssh (Private 2)" by (simp_all add: ssh_ok_def ex_ssh_def)
  have sid: "in_SessionID ?infra = ''x''" by simp
  have d: "in_SessionDir ?infra = sessionDir ex_host (in_SessionID ?infra)" by simp
  have b: "bindable ''/p'' ?infra"
    by (simp add: bindable_def SSHHostKeyPath_def sessionDir_def ex_host_def ex_env_def sessionBaseDir_def path_join_def RuntimeDirName_def)
  have o: "\<And>fs. mset (he_order ex_host fs) = mset fs" by (simp add: ex_host_def ex_env_def)
  obtain spec :: container_spec and srv :: "unit ssh_server" and cfg where v: "VibedAction ex_ssh None (mounted (read_file es) (sp_Binds spec)) (getenv (sp_Env spec)) None = Inr srv"
    "load_ssh_config ex_ssh (read_file es) (sessionDir ex_host ''x'') 40000 = Inr cfg" "ssh_Dial cfg srv" and k: "\<forall>key. publickey_ok srv (public_of key) \<longleftrightarrow> key = Private 1"
    using ssh_needs_session_keys [OF up keys ok d b o, of 40000] unfolding sid by (elim exE conjE) (rule that)
  have "publickey_ok srv (public_of (Private 1))" "\<not> publickey_ok srv (public_of (Private 2))" using k by (blast, simp del: public_of.simps)
  then show ?thesis
    by (intro exI [of _ es] exI [of _ rs] exI [of _ spec] exI [of _ srv] exI [of _ cfg] exI [of _ ?infra] exI [of _ u] conjI up v)
qed

end
