(* ===== verification/Ward_Bar.thy ===== *)
theory Ward_Bar
  imports Go_Prelude
begin

text \<open>
  The status bar's event loop of \<^verbatim>\<open>ward/wrapper.go\<close> with the types of \<^verbatim>\<open>ward/bar.go\<close>, and the
  input side of command mode, \<^verbatim>\<open>ward/command.go\<close>.

  \<open>bar_step\<close> is one iteration of the loop's \<^verbatim>\<open>select\<close> on an event. The timers, the status channel and the
  stdin goroutine put events into the same channel, which the relation \<open>ward_step\<close> interleaves with the
  loop: a timer that was stopped too late has already put its event there. Times are nanoseconds. The
  cache has what is shown; its rendering is in \<open>Ward_Screen\<close>.
\<close>

section \<open>Types\<close>

record KeyHint =
  kh_Key :: char
  kh_Desc :: string
  kh_RequireAlert :: bool

record StatusUpdate =
  su_Message :: string
  su_Alert :: bool
  su_Timeout :: int
  su_Target :: string
  su_KeyHints :: "KeyHint list"

datatype barMode = BarHidden | BarStatus | BarAlert | BarCleared | BarCommand

record barCache =
  bc_message :: string
  bc_mode :: barMode
  bc_target :: string
  bc_keyHints :: "KeyHint list"

datatype commandState = CommandNone | CommandActive | CommandPending

datatype bar_timer = NilTimer | StoppedTimer | ArmedTimer int

record bar_loop =
  bl_lastStatus :: string
  bl_alertQueue :: "StatusUpdate list"
  bl_activeAlert :: "StatusUpdate option"
  bl_dismissTimer :: bar_timer
  bl_alertStartedAt :: int
  bl_cmdState :: commandState
  bl_commandGen :: uint64
  bl_cmdIdleTimer :: "uint64 option"
  bl_cmdCancel :: bool
  bl_savedAlertRemain :: int
  bl_cache :: barCache

definition bar_init :: bar_loop where
  "bar_init =
     \<lparr>bl_lastStatus = [], bl_alertQueue = [], bl_activeAlert = None, bl_dismissTimer = NilTimer, bl_alertStartedAt = 0,
      bl_cmdState = CommandNone, bl_commandGen = 0, bl_cmdIdleTimer = None, bl_cmdCancel = False, bl_savedAlertRemain = 0,
      bl_cache = \<lparr>bc_message = [], bc_mode = BarHidden, bc_target = [], bc_keyHints = []\<rparr>\<rparr>"

definition DefaultTimeout :: int where "DefaultTimeout = 3000000000"
definition action_flash :: int where "action_flash = 2000000000"
definition maxAlertQueue :: nat where "maxAlertQueue = 64"

section \<open>The event loop\<close>

definition showAlert :: "int \<Rightarrow> StatusUpdate \<Rightarrow> bar_loop \<Rightarrow> bar_loop" where
  "showAlert now su st =
     st\<lparr>bl_activeAlert := Some su, bl_alertStartedAt := now,
        bl_cache := \<lparr>bc_message = su_Message su, bc_mode = BarAlert, bc_target = [], bc_keyHints = []\<rparr>,
        bl_dismissTimer := ArmedTimer (if su_Timeout su \<le> 0 then DefaultTimeout else su_Timeout su)\<rparr>"

definition showStatus :: "string \<Rightarrow> bar_loop \<Rightarrow> bar_loop" where
  "showStatus msg st = st\<lparr>bl_cache := \<lparr>bc_message = msg, bc_mode = BarStatus, bc_target = [], bc_keyHints = []\<rparr>\<rparr>"

definition showCleared :: "bar_loop \<Rightarrow> bar_loop" where
  "showCleared st = st\<lparr>bl_cache := \<lparr>bc_message = [], bc_mode = BarCleared, bc_target = [], bc_keyHints = []\<rparr>\<rparr>"

definition visibleKeys :: "bar_loop \<Rightarrow> char list" where
  "visibleKeys st =
     (case bl_activeAlert st of
        None \<Rightarrow> []
      | Some su \<Rightarrow> map kh_Key (filter (\<lambda>h. \<not> (kh_RequireAlert h \<and> su_Target su = [])) (su_KeyHints su)))"

definition exitCommandMode :: "bar_loop \<Rightarrow> bar_loop" where
  "exitCommandMode st = st\<lparr>bl_cmdIdleTimer := None, bl_cmdCancel := False, bl_cmdState := CommandNone\<rparr>"

text \<open>The common tail of dismissal: the next alert, or the last status, or nothing.\<close>

definition show_next :: "int \<Rightarrow> bar_loop \<Rightarrow> bar_loop" where
  "show_next now st =
     (case bl_alertQueue st of
        nxt # rest \<Rightarrow> showAlert now nxt (st\<lparr>bl_alertQueue := rest\<rparr>)
      | [] \<Rightarrow> if bl_lastStatus st \<noteq> [] then showStatus (bl_lastStatus st) st else showCleared st)"

definition restoreAfterCommand :: "int \<Rightarrow> bar_loop \<Rightarrow> bar_loop" where
  "restoreAfterCommand now st =
     (case bl_activeAlert st of
        Some su \<Rightarrow>
          (let st = showAlert now su st in
           if bl_savedAlertRemain st > 0 then st\<lparr>bl_dismissTimer := ArmedTimer (bl_savedAlertRemain st)\<rparr> else st)
      | None \<Rightarrow> show_next now st)"

definition dismissAfterAction :: "int \<Rightarrow> bar_loop \<Rightarrow> bar_loop" where
  "dismissAfterAction now st = show_next now (st\<lparr>bl_activeAlert := None\<rparr>)"

datatype barEvent =
    BarEventStatus StatusUpdate
  | BarEventAlert StatusUpdate
  | BarEventDismiss
  | BarEventEnterCommand
  | BarEventBeginAction uint64
  | BarEventAction uint64 "string option" string
  | BarEventCancelCommand uint64

datatype bar_reply = NoReply | CommandResponse string "char list" uint64 | Ack bool

definition enter_command :: "int \<Rightarrow> bar_loop \<Rightarrow> bar_loop \<times> bar_reply" where
  "enter_command now st =
     (let st = st\<lparr>bl_commandGen := bl_commandGen st + 1, bl_cmdState := CommandActive\<rparr>;
          st = (if bl_dismissTimer st \<noteq> NilTimer
                then let elapsed = now - bl_alertStartedAt st;
                         timeout = (case bl_activeAlert st of
                                      Some su \<Rightarrow> if su_Timeout su > 0 then su_Timeout su else DefaultTimeout
                                    | None \<Rightarrow> DefaultTimeout)
                     in st\<lparr>bl_dismissTimer := StoppedTimer, bl_savedAlertRemain := max (timeout - elapsed) 0\<rparr>
                else st);
          st = st\<lparr>bl_cmdIdleTimer := Some (bl_commandGen st), bl_cmdCancel := True\<rparr>;
          target = (case bl_activeAlert st of Some su \<Rightarrow> su_Target su | None \<Rightarrow> []);
          hints = (case bl_activeAlert st of Some su \<Rightarrow> su_KeyHints su | None \<Rightarrow> [])
      in (st\<lparr>bl_cache := \<lparr>bc_message = target, bc_mode = BarCommand, bc_target = target, bc_keyHints = hints\<rparr>\<rparr>,
          CommandResponse target (visibleKeys st) (bl_commandGen st)))"

definition finish_action :: "int \<Rightarrow> string option \<Rightarrow> string \<Rightarrow> bar_loop \<Rightarrow> bar_loop" where
  "finish_action now err msg st =
     (let st = exitCommandMode st in
      case err of
        Some e \<Rightarrow>
          (showAlert now \<lparr>su_Message = e, su_Alert = True, su_Timeout = action_flash, su_Target = [], su_KeyHints = []\<rparr> st)
            \<lparr>bl_activeAlert := None\<rparr>
      | None \<Rightarrow>
          if msg \<noteq> [] then (showStatus msg (st\<lparr>bl_activeAlert := None\<rparr>))\<lparr>bl_dismissTimer := ArmedTimer action_flash\<rparr>
          else dismissAfterAction now st)"

definition bar_step :: "int \<Rightarrow> barEvent \<Rightarrow> bar_loop \<Rightarrow> bar_loop \<times> bar_reply" where
  "bar_step now ev st =
     (case ev of
        BarEventStatus su \<Rightarrow>
          (let st = st\<lparr>bl_lastStatus := su_Message su\<rparr> in
           (if bl_activeAlert st = None \<and> bl_cmdState st = CommandNone then showStatus (bl_lastStatus st) st else st, NoReply))
      | BarEventAlert su \<Rightarrow>
          (if bl_activeAlert st = None \<and> bl_cmdState st = CommandNone then showAlert now su st
           else
             let q = (if length (bl_alertQueue st) \<ge> maxAlertQueue then tl (bl_alertQueue st) else bl_alertQueue st)
             in st\<lparr>bl_alertQueue := q @ [su]\<rparr>, NoReply)
      | BarEventDismiss \<Rightarrow>
          (if bl_cmdState st \<noteq> CommandNone then st else show_next now (st\<lparr>bl_activeAlert := None\<rparr>), NoReply)
      | BarEventEnterCommand \<Rightarrow> enter_command now st
      | BarEventBeginAction gen \<Rightarrow>
          if bl_cmdState st \<noteq> CommandActive \<or> gen \<noteq> bl_commandGen st then (st, Ack False)
          else (st\<lparr>bl_cmdIdleTimer := None, bl_cmdState := CommandPending\<rparr>, Ack True)
      | BarEventAction gen err msg \<Rightarrow>
          (if bl_cmdState st \<noteq> CommandPending \<or> gen \<noteq> bl_commandGen st then st else finish_action now err msg st, NoReply)
      | BarEventCancelCommand gen \<Rightarrow>
          (if bl_cmdState st \<noteq> CommandActive \<or> gen \<noteq> bl_commandGen st then st
           else restoreAfterCommand now (exitCommandMode st), NoReply))"

section \<open>The channel and the timers\<close>

record ward_state =
  ws_loop :: bar_loop
  ws_events :: "barEvent list"

definition ward_init :: ward_state where
  "ward_init = \<lparr>ws_loop = bar_init, ws_events = []\<rparr>"

inductive ward_step :: "ward_state \<Rightarrow> ward_state \<Rightarrow> bool" where
  wd_send: "length (ws_events w) < 64 \<Longrightarrow> ward_step w (w\<lparr>ws_events := ws_events w @ [ev]\<rparr>)"
| wd_dismiss_fires:
    "bl_dismissTimer (ws_loop w) = ArmedTimer t \<Longrightarrow>
     ward_step w (w\<lparr>ws_loop := (ws_loop w)\<lparr>bl_dismissTimer := StoppedTimer\<rparr>, ws_events := ws_events w @ [BarEventDismiss]\<rparr>)"
| wd_idle_fires:
    "bl_cmdIdleTimer (ws_loop w) = Some gen \<Longrightarrow> BarEventCancelCommand gen \<notin> set (ws_events w) \<Longrightarrow>
     ward_step w (w\<lparr>ws_events := ws_events w @ [BarEventCancelCommand gen]\<rparr>)"
| wd_process:
    "ws_events w = ev # evs \<Longrightarrow>
     ward_step w (w\<lparr>ws_loop := fst (bar_step now ev (ws_loop w)), ws_events := evs\<rparr>)"

inductive_cases ward_stepE: "ward_step w w'"

section \<open>Invariant\<close>

definition alert_shown :: "bar_loop \<Rightarrow> bool" where
  "alert_shown st \<longleftrightarrow>
     (\<forall>su. bl_activeAlert st = Some su \<longrightarrow> bc_mode (bl_cache st) = BarAlert \<and> bc_message (bl_cache st) = su_Message su)"

definition dismissal_due :: "bar_loop \<Rightarrow> barEvent list \<Rightarrow> bool" where
  "dismissal_due st evs \<longleftrightarrow>
     (bl_activeAlert st \<noteq> None \<or> bl_alertQueue st \<noteq> [] \<longrightarrow> (\<exists>t. bl_dismissTimer st = ArmedTimer t) \<or> BarEventDismiss \<in> set evs)"

definition bar_ok :: "bar_loop \<Rightarrow> barEvent list \<Rightarrow> bool" where
  "bar_ok st evs \<longleftrightarrow>
     length (bl_alertQueue st) \<le> maxAlertQueue
     \<and> (bc_mode (bl_cache st) = BarCommand \<longleftrightarrow> bl_cmdState st \<noteq> CommandNone)
     \<and> (bl_cmdState st = CommandActive \<longrightarrow> bl_cmdIdleTimer st = Some (bl_commandGen st))
     \<and> (bl_cmdState st = CommandNone \<longrightarrow> alert_shown st \<and> dismissal_due st evs)"

lemmas bar_defs = bar_ok_def alert_shown_def dismissal_due_def showAlert_def showStatus_def showCleared_def exitCommandMode_def

text \<open>What ends a display re-establishes the invariant whatever the channel holds.\<close>

lemma show_next_ok:
  assumes "length (bl_alertQueue st) \<le> maxAlertQueue" and "bl_cmdState st = CommandNone" and "bl_activeAlert st = None"
  shows "bar_ok (show_next now st) evs"
  using assms by (cases "bl_alertQueue st") (auto simp: show_next_def bar_defs)

lemma restoreAfterCommand_ok:
  assumes "length (bl_alertQueue st) \<le> maxAlertQueue" and "bl_cmdState st = CommandNone"
  shows "bar_ok (restoreAfterCommand now st) evs"
proof (cases "bl_activeAlert st")
  case None
  then show ?thesis using show_next_ok [OF assms] by (simp add: restoreAfterCommand_def)
next
  case (Some su)
  then show ?thesis using assms by (simp add: restoreAfterCommand_def bar_defs Let_def)
qed

lemma finish_action_ok:
  assumes "length (bl_alertQueue st) \<le> maxAlertQueue"
  shows "bar_ok (finish_action now err msg st) evs"
proof (cases err)
  case None
  show ?thesis
  proof (cases "msg = []")
    case True
    have "bar_ok (show_next now ((exitCommandMode st)\<lparr>bl_activeAlert := None\<rparr>)) evs"
      by (rule show_next_ok) (use assms in \<open>simp_all add: exitCommandMode_def\<close>)
    then show ?thesis using None True by (simp add: finish_action_def dismissAfterAction_def Let_def)
  next
    case False
    then show ?thesis using None assms by (simp add: finish_action_def bar_defs Let_def)
  qed
next
  case (Some e)
  then show ?thesis using assms by (simp add: finish_action_def bar_defs Let_def)
qed

lemma enter_command_ok:
  assumes "length (bl_alertQueue st) \<le> maxAlertQueue"
  shows "bar_ok (fst (enter_command now st)) evs"
  using assms by (simp add: enter_command_def bar_defs Let_def)

lemma bar_step_ok:
  assumes "bar_ok st (ev # evs)"
  shows "bar_ok (fst (bar_step now ev st)) evs"
proof -
  have q: "length (bl_alertQueue st) \<le> maxAlertQueue" using assms by (simp add: bar_ok_def)
  show ?thesis
  proof (cases ev)
    case (BarEventStatus su)
    then show ?thesis using assms by (auto simp: bar_step_def bar_defs Let_def)
  next
    case (BarEventAlert su)
    then show ?thesis using assms by (auto simp: bar_step_def bar_defs Let_def maxAlertQueue_def)
  next
    case BarEventDismiss
    show ?thesis
    proof (cases "bl_cmdState st = CommandNone")
      case True
      then have "bar_ok (show_next now (st\<lparr>bl_activeAlert := None\<rparr>)) evs" using q by (intro show_next_ok) simp_all
      with True BarEventDismiss show ?thesis by (simp add: bar_step_def)
    next
      case False
      then show ?thesis using assms BarEventDismiss by (simp add: bar_step_def bar_ok_def)
    qed
  next
    case BarEventEnterCommand
    then show ?thesis using enter_command_ok [OF q] by (simp add: bar_step_def)
  next
    case (BarEventBeginAction gen)
    then show ?thesis using assms by (auto simp: bar_step_def bar_defs)
  next
    case (BarEventAction gen err msg)
    then show ?thesis
      using assms finish_action_ok [OF q, of now err msg evs] by (auto simp: bar_step_def bar_ok_def dismissal_due_def)
  next
    case (BarEventCancelCommand gen)
    have "bar_ok (restoreAfterCommand now (exitCommandMode st)) evs"
      by (rule restoreAfterCommand_ok) (use q in \<open>simp_all add: exitCommandMode_def\<close>)
    with BarEventCancelCommand assms show ?thesis by (auto simp: bar_step_def bar_ok_def dismissal_due_def)
  qed
qed

lemma ward_step_ok: "ward_step w w' \<Longrightarrow> bar_ok (ws_loop w) (ws_events w) \<Longrightarrow> bar_ok (ws_loop w') (ws_events w')"
  by (erule ward_stepE) (auto simp: bar_step_ok, auto simp: bar_ok_def alert_shown_def dismissal_due_def)

lemma ward_reach_ok: "ward_step\<^sup>*\<^sup>* ward_init w \<Longrightarrow> bar_ok (ws_loop w) (ws_events w)"
  by (induction rule: rtranclp_induct) (auto simp: ward_step_ok, simp add: ward_init_def bar_init_def bar_ok_def alert_shown_def dismissal_due_def)

section \<open>Command mode input\<close>

text \<open>
  \<^verbatim>\<open>processInput\<close> on one chunk. What the event loop and the clock decide is a parameter: the keys of
  the response to entering, whether the command context is done when \<open>n\<close> bytes are left, and whether an
  action is acknowledged. \<open>enabled\<close> tells whether there is a handler with \<^verbatim>\<open>OnKey\<close>.
\<close>

datatype input_effect =
    PtyWrite string
  | SendEnterCommand
  | SendCancelCommand
  | SendBeginAction
  | CallOnKey char
  | SendAction

record input_env =
  ie_enabled :: bool
  ie_hotkey :: char
  ie_entered_keys :: "char list"
  ie_done :: "nat \<Rightarrow> bool"
  ie_ack :: bool

definition forward_rest :: "string \<Rightarrow> input_effect list" where
  "forward_rest rest = (if rest \<noteq> [] then [PtyWrite rest] else [])"

fun command_input :: "input_env \<Rightarrow> char list \<Rightarrow> string \<Rightarrow> input_effect list \<times> bool" where
  "command_input env keys [] = ([], True)"
| "command_input env keys (b # rest) =
     (if ie_done env (length (b # rest)) then (forward_rest (b # rest), False)
      else if b = CHR 0x1B then (SendCancelCommand # forward_rest rest, False)
      else if b = ie_hotkey env then (PtyWrite [ie_hotkey env] # SendCancelCommand # forward_rest rest, False)
      else if b \<notin> set keys then command_input env keys rest
      else if \<not> ie_ack env then (SendBeginAction # forward_rest rest, False)
      else ([SendBeginAction, CallOnKey b, SendAction] @ forward_rest rest, False))"

definition processInput :: "input_env \<Rightarrow> char list \<Rightarrow> bool \<Rightarrow> string \<Rightarrow> input_effect list \<times> bool" where
  "processInput env keys inCommand data =
     (if data = [] then ([], inCommand)
      else if inCommand then command_input env keys data
      else if \<not> ie_enabled env then ([PtyWrite data], False)
      else
        let pre = takeWhile (\<lambda>b. b \<noteq> ie_hotkey env) data;
            rest = dropWhile (\<lambda>b. b \<noteq> ie_hotkey env) data
        in case rest of
             [] \<Rightarrow> (forward_rest pre, False)
           | _ # rest' \<Rightarrow>
               let (effs, c) = command_input env (ie_entered_keys env) rest'
               in (forward_rest pre @ [SendEnterCommand] @ effs, c))"

fun pty_bytes :: "input_effect list \<Rightarrow> string" where
  "pty_bytes [] = []"
| "pty_bytes (PtyWrite d # es) = d @ pty_bytes es"
| "pty_bytes (e # es) = pty_bytes es"

lemma pty_bytes_append [simp]: "pty_bytes (xs @ ys) = pty_bytes xs @ pty_bytes ys"
  by (induction xs rule: pty_bytes.induct) simp_all

lemma pty_bytes_rest [simp]: "pty_bytes (forward_rest rest) = rest"
  by (simp add: forward_rest_def)

lemma onkey_rest [simp]: "CallOnKey b \<notin> set (forward_rest rest)"
  by (simp add: forward_rest_def)

text \<open>Command mode keeps back one segment: the keys up to the one that ends it.\<close>

lemma command_input_split:
  "\<exists>cmd literal rest. data = cmd @ rest \<and> pty_bytes (fst (command_input env keys data)) = literal @ rest
     \<and> (literal = [] \<or> literal = [ie_hotkey env] \<and> cmd \<noteq> [] \<and> last cmd = ie_hotkey env)
     \<and> (snd (command_input env keys data) \<longrightarrow> rest = [] \<and> literal = [])
     \<and> (\<forall>b. CallOnKey b \<in> set (fst (command_input env keys data)) \<longrightarrow> cmd \<noteq> [] \<and> last cmd = b \<and> b \<in> set keys \<and> literal = [])"
proof (induction data)
  case (Cons b data)
  consider "ie_done env (length (b # data))" | "\<not> ie_done env (length (b # data))" "b = CHR 0x1B"
    | "\<not> ie_done env (length (b # data))" "b \<noteq> CHR 0x1B" "b = ie_hotkey env"
    | "\<not> ie_done env (length (b # data))" "b \<noteq> CHR 0x1B" "b \<noteq> ie_hotkey env" "b \<notin> set keys"
    | "\<not> ie_done env (length (b # data))" "b \<noteq> CHR 0x1B" "b \<noteq> ie_hotkey env" "b \<in> set keys"
    by blast
  then show ?case
  proof cases
    case 1
    then show ?thesis by (intro exI [of _ "[]"] exI [of _ "b # data"]) simp
  next
    case 2
    then show ?thesis by (intro exI [of _ "[b]"] exI [of _ "[]"] exI [of _ data]) simp
  next
    case 3
    then show ?thesis by (intro exI [of _ "[b]"] exI [of _ "[b]"] exI [of _ data]) simp
  next
    case 4
    then have step: "command_input env keys (b # data) = command_input env keys data" by simp
    from Cons.IH obtain cmd literal rest where IH: "data = cmd @ rest"
      "pty_bytes (fst (command_input env keys data)) = literal @ rest"
      "literal = [] \<or> literal = [ie_hotkey env] \<and> cmd \<noteq> [] \<and> last cmd = ie_hotkey env"
      "snd (command_input env keys data) \<longrightarrow> rest = [] \<and> literal = []"
      "\<forall>b. CallOnKey b \<in> set (fst (command_input env keys data)) \<longrightarrow> cmd \<noteq> [] \<and> last cmd = b \<and> b \<in> set keys \<and> literal = []"
      by blast
    show ?thesis unfolding step
      by (intro exI [of _ "b # cmd"] exI [of _ literal] exI [of _ rest]) (use IH in auto)
  next
    case 5
    then show ?thesis by (intro exI [of _ "[b]"] exI [of _ "[]"] exI [of _ data]) simp
  qed
qed simp

text \<open>The segment \<open>cmd\<close> of the chunk is kept back, less the literal hotkey; the rest is written.\<close>

definition kept_back :: "input_env \<Rightarrow> char list \<Rightarrow> bool \<Rightarrow> string \<Rightarrow> input_effect list \<Rightarrow> string \<Rightarrow> string \<Rightarrow> string \<Rightarrow> string \<Rightarrow> bool" where
  "kept_back env keys inCommand data effs pre cmd literal rest \<longleftrightarrow>
     data = pre @ cmd @ rest \<and> pty_bytes effs = pre @ literal @ rest
     \<and> (literal = [] \<or> literal = [ie_hotkey env] \<and> last cmd = ie_hotkey env)
     \<and> (if inCommand then pre = [] else cmd \<noteq> [] \<longrightarrow> ie_hotkey env \<notin> set pre \<and> hd cmd = ie_hotkey env)
     \<and> (\<forall>b. CallOnKey b \<in> set effs \<longrightarrow> last cmd = b \<and> b \<in> set (if inCommand then keys else ie_entered_keys env))"

lemma input_plain:
  assumes "\<not> inCommand" and "\<not> ie_enabled env \<or> ie_hotkey env \<notin> set data"
  shows "pty_bytes (fst (processInput env keys inCommand data)) = data
         \<and> (\<forall>e \<in> set (fst (processInput env keys inCommand data)). \<exists>d. e = PtyWrite d)
         \<and> \<not> snd (processInput env keys inCommand data)"
proof (cases "ie_enabled env \<and> data \<noteq> []")
  case True
  then have "ie_hotkey env \<notin> set data" using assms(2) by blast
  then have w: "dropWhile (\<lambda>b. b \<noteq> ie_hotkey env) data = []" "takeWhile (\<lambda>b. b \<noteq> ie_hotkey env) data = data" by auto
  show ?thesis unfolding processInput_def w Let_def using True assms(1) by (simp add: forward_rest_def)
next
  case False
  then show ?thesis using assms(1) by (auto simp: processInput_def)
qed

lemma input_in_command:
  "\<exists>cmd literal rest. kept_back env keys True data (fst (processInput env keys True data)) [] cmd literal rest"
proof -
  obtain cmd literal rest where c: "data = cmd @ rest" "pty_bytes (fst (command_input env keys data)) = literal @ rest"
    "literal = [] \<or> literal = [ie_hotkey env] \<and> cmd \<noteq> [] \<and> last cmd = ie_hotkey env"
    "\<forall>b. CallOnKey b \<in> set (fst (command_input env keys data)) \<longrightarrow> cmd \<noteq> [] \<and> last cmd = b \<and> b \<in> set keys \<and> literal = []"
    using command_input_split [of data env keys] by blast
  have "fst (processInput env keys True data) = fst (command_input env keys data)" by (cases data) (simp_all add: processInput_def)
  then have "kept_back env keys True data (fst (processInput env keys True data)) [] cmd literal rest"
    using c by (auto simp: kept_back_def)
  then show ?thesis by blast
qed

lemma input_hotkey:
  assumes "ie_enabled env" and "ie_hotkey env \<in> set data"
  shows "\<exists>pre cmd literal rest. kept_back env keys False data (fst (processInput env keys False data)) pre cmd literal rest"
proof -
  obtain pre rest0 where d: "data = pre @ ie_hotkey env # rest0" "ie_hotkey env \<notin> set pre"
    using assms(2) by (meson split_list_first)
  then have w: "takeWhile (\<lambda>b. b \<noteq> ie_hotkey env) data = pre" "dropWhile (\<lambda>b. b \<noteq> ie_hotkey env) data = ie_hotkey env # rest0"
    by (auto simp: takeWhile_append dropWhile_append)
  let ?keys = "ie_entered_keys env"
  obtain cmd literal rest where c: "rest0 = cmd @ rest" "pty_bytes (fst (command_input env ?keys rest0)) = literal @ rest"
    "literal = [] \<or> literal = [ie_hotkey env] \<and> cmd \<noteq> [] \<and> last cmd = ie_hotkey env"
    "\<forall>b. CallOnKey b \<in> set (fst (command_input env ?keys rest0)) \<longrightarrow> cmd \<noteq> [] \<and> last cmd = b \<and> b \<in> set ?keys \<and> literal = []"
    using command_input_split [of rest0 env ?keys] by blast
  have e: "fst (processInput env keys False data) = forward_rest pre @ [SendEnterCommand] @ fst (command_input env ?keys rest0)"
    unfolding processInput_def w using assms(1) d(1) by (simp add: case_prod_unfold Let_def)
  have "kept_back env keys False data (fst (processInput env keys False data)) pre (ie_hotkey env # cmd) literal rest"
    unfolding kept_back_def e using c d by auto
  then show ?thesis by blast
qed

section \<open>Properties\<close>


definition sample_alert :: StatusUpdate where
  "sample_alert = \<lparr>su_Message = ''blocked'', su_Alert = True, su_Timeout = 0, su_Target = ''x.org'', su_KeyHints = []\<rparr>"


text \<open>
  Typing reaches the child. Without a handler, or in a chunk without the hotkey outside
  command mode, every byte is written to the child and nothing else happens. In general one segment of a chunk is
  kept back at most: outside command mode it starts with the first hotkey; it ends with the
  key that ends command mode, of which a second hotkey is passed on; everything before and after it
  is written in order. An action is called at most for the last byte of that segment, and only
  for a key that the bar offers.
\<close>

lemma input_reaches_child:
  "(\<not> inCommand \<and> (\<not> ie_enabled env \<or> ie_hotkey env \<notin> set data) \<longrightarrow>
      pty_bytes (fst (processInput env keys inCommand data)) = data
      \<and> (\<forall>e \<in> set (fst (processInput env keys inCommand data)). \<exists>d. e = PtyWrite d)
      \<and> \<not> snd (processInput env keys inCommand data))
   \<and> (\<exists>pre cmd literal rest. kept_back env keys inCommand data (fst (processInput env keys inCommand data)) pre cmd literal rest)"
proof (intro conjI impI)
  assume "\<not> inCommand \<and> (\<not> ie_enabled env \<or> ie_hotkey env \<notin> set data)"
  then show "pty_bytes (fst (processInput env keys inCommand data)) = data"
    "\<forall>e \<in> set (fst (processInput env keys inCommand data)). \<exists>d. e = PtyWrite d"
    "\<not> snd (processInput env keys inCommand data)" using input_plain by blast+
next
  show "\<exists>pre cmd literal rest. kept_back env keys inCommand data (fst (processInput env keys inCommand data)) pre cmd literal rest"
  proof (cases "\<not> inCommand \<and> (\<not> ie_enabled env \<or> ie_hotkey env \<notin> set data)")
    case True
    then have "kept_back env keys inCommand data (fst (processInput env keys inCommand data)) data [] [] []"
      using input_plain [of inCommand env data keys] by (auto simp: kept_back_def)
    then show ?thesis by blast
  next
    case False
    then show ?thesis
      using input_in_command [of env keys data] input_hotkey [of env data keys] by (cases inCommand) auto
  qed
qed

definition sample_input :: input_env where
  "sample_input = \<lparr>ie_enabled = True, ie_hotkey = CHR 0x1D, ie_entered_keys = ''a'', ie_done = (\<lambda>n. False), ie_ack = True\<rparr>"

lemma input_reaches_child_witness:
  "pty_bytes (fst (processInput sample_input [] False ''plain'')) = ''plain''
   \<and> fst (processInput sample_input [] False (''ls'' @ [CHR 0x1D] @ ''xa;pwd''))
     = [PtyWrite ''ls'', SendEnterCommand, SendBeginAction, CallOnKey (CHR ''a''), SendAction, PtyWrite '';pwd'']"
proof
  show "pty_bytes (fst (processInput sample_input [] False ''plain'')) = ''plain''"
    using input_reaches_child [of False sample_input "''plain''" "[]"] by (simp add: sample_input_def)
  show "fst (processInput sample_input [] False (''ls'' @ [CHR 0x1D] @ ''xa;pwd''))
     = [PtyWrite ''ls'', SendEnterCommand, SendBeginAction, CallOnKey (CHR ''a''), SendAction, PtyWrite '';pwd'']"
    by (simp add: processInput_def sample_input_def forward_rest_def)
qed

end
