(* ===== verification/Ward_Scanner.thy ===== *)
theory Ward_Scanner
  imports Go_Prelude
begin

text \<open>
  The two streaming scanners of package \<^verbatim>\<open>ward\<close>: \<^verbatim>\<open>ward/scanner.go\<close>, which finds the escape sequences
  that damage the status bar, and \<^verbatim>\<open>ward/osc133.go\<close>, which finds semantic prompt markers; and the
  goroutine of \<^verbatim>\<open>ward/wrapper.go\<close> that passes the child's output on and repairs the bar after it.

  Both scanners implement one interface (\<open>stream_scanner\<close>): they consume a byte at a time, keep
  their state between reads, and find nothing in text outside escape sequences. The interface gives
  that the result does not depend on how the stream is cut into reads.
\<close>

section \<open>The escape scanner\<close>

datatype es_state = EsGround | EsEsc | EsCsi | EsString | EsStringEsc

record escScanner =
  es_state :: es_state
  es_csiHasParams :: bool
  es_csiParamByte :: char
  es_csiNumParam :: uint64

record scanResult =
  sn_ScrollReset :: bool
  sn_BarErased :: bool

definition no_result :: scanResult where
  "no_result = \<lparr>sn_ScrollReset = False, sn_BarErased = False\<rparr>"

definition new_escScanner :: escScanner where
  "new_escScanner = \<lparr>es_state = EsGround, es_csiHasParams = False, es_csiParamByte = CHR 0x00, es_csiNumParam = 0\<rparr>"

definition asciiBEL :: char where "asciiBEL = CHR 0x07"
definition asciiESC :: char where "asciiESC = CHR 0x1B"

definition byte_in :: "nat \<Rightarrow> nat \<Rightarrow> char \<Rightarrow> bool" where
  "byte_in lo hi b \<longleftrightarrow> lo \<le> of_char b \<and> of_char b \<le> hi"

definition csi_param :: "char \<Rightarrow> bool" where "csi_param = byte_in 0x30 0x3F"
definition csi_final :: "char \<Rightarrow> bool" where "csi_final = byte_in 0x40 0x7E"

definition isAltScreenMode :: "uint64 \<Rightarrow> bool" where
  "isAltScreenMode param \<longleftrightarrow> param = 1049 \<or> param = 1047 \<or> param = 47"

definition scan_param :: "char \<Rightarrow> escScanner \<Rightarrow> escScanner" where
  "scan_param b s =
     (let s = (if \<not> es_csiHasParams s then s\<lparr>es_csiParamByte := b\<rparr> else s);
          s = s\<lparr>es_csiHasParams := True\<rparr>
      in if es_csiParamByte s = CHR ''?'' \<and> is_digit b
         then s\<lparr>es_csiNumParam := es_csiNumParam s * 10 + of_int (digit_val b)\<rparr> else s)"

definition scan_final :: "char \<Rightarrow> escScanner \<Rightarrow> scanResult \<Rightarrow> scanResult" where
  "scan_final b s r =
     (if b = CHR ''r'' \<and> \<not> es_csiHasParams s then r\<lparr>sn_ScrollReset := True\<rparr>
      else if b = CHR ''J'' \<and> (\<not> es_csiHasParams s \<or> es_csiParamByte s = CHR ''0'' \<or> es_csiParamByte s = CHR ''2''
                               \<or> es_csiParamByte s = CHR ''3'') then r\<lparr>sn_BarErased := True\<rparr>
      else if (b = CHR ''h'' \<or> b = CHR ''l'') \<and> es_csiParamByte s = CHR ''?'' \<and> isAltScreenMode (es_csiNumParam s)
      then r\<lparr>sn_ScrollReset := True\<rparr>
      else r)"

definition scan_byte :: "char \<Rightarrow> escScanner \<times> scanResult \<Rightarrow> escScanner \<times> scanResult" where
  "scan_byte b sr =
     (let (s, r) = sr in
      case es_state s of
        EsGround \<Rightarrow> if b = asciiESC then (s\<lparr>es_state := EsEsc\<rparr>, r) else (s, r)
      | EsEsc \<Rightarrow>
          if b = CHR ''c'' then (s\<lparr>es_state := EsGround\<rparr>, r\<lparr>sn_ScrollReset := True\<rparr>)
          else if b = CHR ''['' then
            (s\<lparr>es_state := EsCsi, es_csiHasParams := False, es_csiParamByte := CHR 0x00, es_csiNumParam := 0\<rparr>, r)
          else if b = CHR '']'' \<or> b = CHR ''P'' \<or> b = CHR ''^'' \<or> b = CHR ''_'' then (s\<lparr>es_state := EsString\<rparr>, r)
          else (s\<lparr>es_state := EsGround\<rparr>, r)
      | EsCsi \<Rightarrow>
          if csi_param b then (scan_param b s, r)
          else if csi_final b then (s\<lparr>es_state := EsGround\<rparr>, scan_final b s r)
          else (s, r)
      | EsString \<Rightarrow>
          if b = asciiBEL then (s\<lparr>es_state := EsGround\<rparr>, r)
          else if b = asciiESC then (s\<lparr>es_state := EsStringEsc\<rparr>, r)
          else (s, r)
      | EsStringEsc \<Rightarrow>
          (s\<lparr>es_state := EsGround\<rparr>, if b = CHR ''c'' then r\<lparr>sn_ScrollReset := True\<rparr> else r))"

definition Scan :: "string \<Rightarrow> escScanner \<Rightarrow> escScanner \<times> scanResult" where
  "Scan data s = fold scan_byte data (s, no_result)"

definition InGround :: "escScanner \<Rightarrow> bool" where
  "InGround s \<longleftrightarrow> es_state s = EsGround"

section \<open>The prompt marker parser\<close>

datatype Event = EventPromptStart | EventCommandStart | EventCommandExecuted | EventCommandFinished "int option"
datatype Zone = ZoneUnknown | ZonePrompt | ZoneInput | ZoneOutput
datatype parserState = StateGround | StateEsc | StateOscParam | StateOscEsc

record OSC133Parser =
  op_state :: parserState
  op_zone :: Zone
  op_params :: string

definition paramBufCap :: nat where "paramBufCap = 32"

definition NewOSC133Parser :: OSC133Parser where
  "NewOSC133Parser = \<lparr>op_state = StateGround, op_zone = ZoneUnknown, op_params = []\<rparr>"

definition finished_code :: "string \<Rightarrow> int option" where
  "finished_code params = (if length params > 6 \<and> params ! 5 = CHR '';'' then parse_int 32 (drop 6 params) else None)"

definition osc_dispatch :: "OSC133Parser \<Rightarrow> OSC133Parser \<times> Event list" where
  "osc_dispatch p =
     (let params = op_params p in
      if length params < 5 \<or> take 4 params \<noteq> ''133;'' then (p, [])
      else if params ! 4 = CHR ''A'' then (p\<lparr>op_zone := ZonePrompt\<rparr>, [EventPromptStart])
      else if params ! 4 = CHR ''B'' then (p\<lparr>op_zone := ZoneInput\<rparr>, [EventCommandStart])
      else if params ! 4 = CHR ''C'' then (p\<lparr>op_zone := ZoneOutput\<rparr>, [EventCommandExecuted])
      else if params ! 4 = CHR ''D'' then (p\<lparr>op_zone := ZoneUnknown\<rparr>, [EventCommandFinished (finished_code params)])
      else (p, []))"

definition osc_byte :: "char \<Rightarrow> OSC133Parser \<Rightarrow> OSC133Parser \<times> Event list" where
  "osc_byte b p =
     (case op_state p of
        StateGround \<Rightarrow> if b = asciiESC then (p\<lparr>op_state := StateEsc\<rparr>, []) else (p, [])
      | StateEsc \<Rightarrow> if b = CHR '']'' then (p\<lparr>op_state := StateOscParam, op_params := []\<rparr>, []) else (p\<lparr>op_state := StateGround\<rparr>, [])
      | StateOscParam \<Rightarrow>
          if b = asciiBEL then (let (p, es) = osc_dispatch p in (p\<lparr>op_state := StateGround\<rparr>, es))
          else if b = asciiESC then (p\<lparr>op_state := StateOscEsc\<rparr>, [])
          else if length (op_params p) < paramBufCap then (p\<lparr>op_params := op_params p @ [b]\<rparr>, [])
          else (p, [])
      | StateOscEsc \<Rightarrow>
          (let (p, es) = (if b = CHR 0x5C then osc_dispatch p else (p, [])) in (p\<lparr>op_state := StateGround\<rparr>, es)))"

fun Push :: "string \<Rightarrow> OSC133Parser \<Rightarrow> OSC133Parser \<times> Event list" where
  "Push [] p = (p, [])"
| "Push (b # bs) p = (let (p', es) = osc_byte b p; (p'', es') = Push bs p' in (p'', es @ es'))"

section \<open>The scanner interface\<close>

locale stream_scanner =
  fixes feed :: "string \<Rightarrow> 's \<Rightarrow> 's \<times> 'o" and join :: "'o \<Rightarrow> 'o \<Rightarrow> 'o" and nothing :: 'o and ground :: "'s \<Rightarrow> bool"
  assumes feed_Nil: "feed [] s = (s, nothing)"
    and feed_append: "feed (xs @ ys) s = (fst (feed ys (fst (feed xs s))), join (snd (feed xs s)) (snd (feed ys (fst (feed xs s)))))"
    and feed_text: "ground s \<Longrightarrow> asciiESC \<notin> set xs \<Longrightarrow> feed xs s = (s, nothing)"
    and join_nothing: "join nothing x = x" "join x nothing = x"
    and join_assoc: "join (join x y) z = join x (join y z)"
begin

primrec feed_chunks :: "string list \<Rightarrow> 's \<Rightarrow> 's \<times> 'o" where
  "feed_chunks [] s = (s, nothing)"
| "feed_chunks (c # cs) s = (fst (feed_chunks cs (fst (feed c s))), join (snd (feed c s)) (snd (feed_chunks cs (fst (feed c s)))))"

lemma feed_chunks_concat: "feed_chunks cs s = feed (concat cs) s"
  by (induction cs arbitrary: s) (simp_all add: feed_Nil feed_append)

lemma feed_chunks_cong: "concat cs = concat cs' \<Longrightarrow> feed_chunks cs s = feed_chunks cs' s"
  by (simp add: feed_chunks_concat)

end

text \<open>The prompt parser.\<close>

lemma Push_append:
  "Push (xs @ ys) p = (fst (Push ys (fst (Push xs p))), snd (Push xs p) @ snd (Push ys (fst (Push xs p))))"
  by (induction xs arbitrary: p) (simp_all add: case_prod_unfold Let_def)

lemma Push_text: "op_state p = StateGround \<Longrightarrow> asciiESC \<notin> set xs \<Longrightarrow> Push xs p = (p, [])"
  by (induction xs) (auto simp: osc_byte_def)

interpretation prompt_scan: stream_scanner Push "(@)" "[]" "\<lambda>p. op_state p = StateGround"
  by unfold_locales (simp_all add: Push_append Push_text)

text \<open>The escape scanner: its result is the disjunction of what the bytes report.\<close>

definition or_result :: "scanResult \<Rightarrow> scanResult \<Rightarrow> scanResult" where
  "or_result r r' = \<lparr>sn_ScrollReset = sn_ScrollReset r \<or> sn_ScrollReset r', sn_BarErased = sn_BarErased r \<or> sn_BarErased r'\<rparr>"

lemma or_result_simps [simp]:
  "or_result no_result r = r" "or_result r no_result = r" "or_result (or_result r r') r'' = or_result r (or_result r' r'')"
  by (simp_all add: or_result_def no_result_def)

lemma scan_byte_or: "scan_byte b (s, r) = (fst (scan_byte b (s, no_result)), or_result r (snd (scan_byte b (s, no_result))))"
proof -
  have "scan_final b s r = or_result r (scan_final b s no_result)"
    by (cases r) (auto simp: scan_final_def or_result_def no_result_def)
  then show ?thesis
    by (cases "es_state s"; cases r) (simp_all add: scan_byte_def or_result_def no_result_def)
qed

lemma scan_fold_or: "fold scan_byte xs (s, r) = (fst (Scan xs s), or_result r (snd (Scan xs s)))"
proof (induction xs arbitrary: s r)
  case Nil
  then show ?case by (simp add: Scan_def)
next
  case (Cons b xs)
  let ?s = "fst (scan_byte b (s, no_result))" and ?r = "snd (scan_byte b (s, no_result))"
  have "fold scan_byte (b # xs) (s, r) = fold scan_byte xs (?s, or_result r ?r)" by (simp add: scan_byte_or [of b s r])
  also have "\<dots> = (fst (Scan xs ?s), or_result (or_result r ?r) (snd (Scan xs ?s)))" by (rule Cons.IH)
  moreover have "Scan (b # xs) s = (fst (Scan xs ?s), or_result ?r (snd (Scan xs ?s)))"
    using Cons.IH [of ?s ?r] by (simp add: Scan_def)
  ultimately show ?case by simp
qed

lemma Scan_Nil [simp]: "Scan [] s = (s, no_result)"
  by (simp add: Scan_def)

lemma Scan_append:
  "Scan (xs @ ys) s = (fst (Scan ys (fst (Scan xs s))), or_result (snd (Scan xs s)) (snd (Scan ys (fst (Scan xs s)))))"
  using scan_fold_or [of ys "fst (Scan xs s)" "snd (Scan xs s)"] by (simp add: Scan_def)

lemma Scan_Cons:
  "Scan (b # xs) s = (fst (Scan xs (fst (scan_byte b (s, no_result)))),
     or_result (snd (scan_byte b (s, no_result))) (snd (Scan xs (fst (scan_byte b (s, no_result))))))"
  using Scan_append [of "[b]" xs s] by (simp add: Scan_def)

lemma Scan_text: "InGround s \<Longrightarrow> asciiESC \<notin> set xs \<Longrightarrow> Scan xs s = (s, no_result)"
  by (induction xs) (auto simp: Scan_Cons scan_byte_def InGround_def)

interpretation esc_scan: stream_scanner Scan or_result no_result InGround
  by unfold_locales (simp_all add: Scan_append Scan_text)

section \<open>What terminal output consists of\<close>

text \<open>
  Terminal output as a sequence of items: text, two-byte escapes, control sequences with parameter
  and intermediate bytes, and control strings. A private mode sequence has one parameter, and an
  erase has at most one digit.
\<close>

datatype term_item =
    Text string
  | EscCommand char
  | Csi string string char
  | ControlString char string bool

fun item_ok :: "term_item \<Rightarrow> bool" where
  "item_ok (Text t) = (asciiESC \<notin> set t)"
| "item_ok (EscCommand c) = (c \<notin> set ''[]P^_'' \<and> c \<noteq> asciiESC)"
| "item_ok (Csi ps is c) =
     (list_all csi_param ps \<and> list_all (byte_in 0x20 0x2F) is \<and> csi_final c
      \<and> (c = CHR ''J'' \<longrightarrow> length ps \<le> 1)
      \<and> (c \<in> set ''hl'' \<and> ps \<noteq> [] \<and> hd ps = CHR ''?'' \<longrightarrow> list_all is_digit (tl ps) \<and> digits_val (tl ps) < 2 ^ 63))"
| "item_ok (ControlString c t b) = (c \<in> set '']P^_'' \<and> asciiESC \<notin> set t \<and> asciiBEL \<notin> set t)"

fun render_item :: "term_item \<Rightarrow> string" where
  "render_item (Text t) = t"
| "render_item (EscCommand c) = [asciiESC, c]"
| "render_item (Csi ps is c) = [asciiESC, CHR ''[''] @ ps @ is @ [c]"
| "render_item (ControlString c t b) = [asciiESC, c] @ t @ (if b then [asciiBEL] else [asciiESC, CHR 0x5C])"

text \<open>The sequences that reset the scroll region, and those that erase the last row.\<close>

fun item_resets :: "term_item \<Rightarrow> bool" where
  "item_resets (EscCommand c) = (c = CHR ''c'')"
| "item_resets (Csi ps is c) =
     (c = CHR ''r'' \<and> ps = []
      \<or> c \<in> set ''hl'' \<and> ps \<noteq> [] \<and> hd ps = CHR ''?'' \<and> digits_val (tl ps) \<in> {1049, 1047, 47})"
| "item_resets _ = False"

fun item_erases :: "term_item \<Rightarrow> bool" where
  "item_erases (Csi ps is c) = (c = CHR ''J'' \<and> (ps = [] \<or> ps = ''0'' \<or> ps = ''2'' \<or> ps = ''3''))"
| "item_erases _ = False"

lemma scan_csi_params:
  assumes "list_all csi_param ps" and "es_state s = EsCsi"
  shows "Scan ps s = (fold scan_param ps s, no_result) \<and> es_state (fold scan_param ps s) = EsCsi"
  using assms
proof (induction ps arbitrary: s)
  case (Cons b ps)
  have "es_state (scan_param b s) = EsCsi" using Cons.prems by (simp add: scan_param_def Let_def)
  with Cons show ?case by (simp add: Scan_Cons scan_byte_def)
qed simp

lemma scan_csi_intermediates:
  assumes "list_all (byte_in 0x20 0x2F) is" and "es_state s = EsCsi"
  shows "Scan is s = (s, no_result)"
  using assms by (induction "is") (auto simp: Scan_Cons scan_byte_def csi_param_def csi_final_def byte_in_def)

text \<open>After the parameters the scanner knows their first byte, and the number of a private sequence.\<close>

lemma scan_params_later:
  assumes "es_csiHasParams s"
  shows "es_csiHasParams (fold scan_param ps s) \<and> es_csiParamByte (fold scan_param ps s) = es_csiParamByte s
         \<and> (es_csiParamByte s = CHR ''?'' \<longrightarrow> list_all is_digit ps \<longrightarrow>
              es_csiNumParam (fold scan_param ps s) = es_csiNumParam s * 10 ^ length ps + of_int (digits_val ps))"
  using assms
proof (induction ps rule: rev_induct)
  case (snoc b ps)
  then show ?case by (auto simp: scan_param_def Let_def digits_val_snoc algebra_simps)
qed (simp add: digits_val_def)

lemma scan_params_known:
  assumes "\<not> es_csiHasParams s" and "es_csiNumParam s = 0"
  shows "es_csiHasParams (fold scan_param ps s) = (ps \<noteq> [])"
    and "ps \<noteq> [] \<Longrightarrow> es_csiParamByte (fold scan_param ps s) = hd ps"
    and "ps = [] \<Longrightarrow> es_csiParamByte (fold scan_param ps s) = es_csiParamByte s"
    and "ps \<noteq> [] \<Longrightarrow> hd ps = CHR ''?'' \<Longrightarrow> list_all is_digit (tl ps) \<Longrightarrow>
      es_csiNumParam (fold scan_param ps s) = of_int (digits_val (tl ps))"
proof -
  have first: "es_csiHasParams (scan_param b s)" "es_csiParamByte (scan_param b s) = b"
    "b = CHR ''?'' \<Longrightarrow> es_csiNumParam (scan_param b s) = 0" for b
    using assms by (simp_all add: scan_param_def Let_def is_digit_def)
  show "es_csiHasParams (fold scan_param ps s) = (ps \<noteq> [])"
    using assms scan_params_later [OF first(1)] by (cases ps) simp_all
  show "ps \<noteq> [] \<Longrightarrow> es_csiParamByte (fold scan_param ps s) = hd ps"
    using scan_params_later [OF first(1)] first(2) by (cases ps) simp_all
  show "ps = [] \<Longrightarrow> es_csiParamByte (fold scan_param ps s) = es_csiParamByte s" by simp
  show "ps \<noteq> [] \<Longrightarrow> hd ps = CHR ''?'' \<Longrightarrow> list_all is_digit (tl ps) \<Longrightarrow>
      es_csiNumParam (fold scan_param ps s) = of_int (digits_val (tl ps))"
    using scan_params_later [OF first(1)] first(2,3) by (cases ps) simp_all
qed

lemma alt_mode_value:
  assumes "0 \<le> n" and "n < 2 ^ 63"
  shows "isAltScreenMode (of_int n) \<longleftrightarrow> n \<in> {1049, 1047, 47}"
proof -
  have u: "uint (of_int k :: uint64) = k" if "0 \<le> k" "k < 2 ^ 63" for k
    using that by (simp add: uint_word_of_int_eq take_bit_int_eq_self)
  have "(of_int n :: uint64) = of_int k \<longleftrightarrow> n = k" if "0 \<le> k" "k < 2 ^ 63" for k
    using u [OF assms] u [OF that] by metis
  from this [of 1049] this [of 1047] this [of 47] show ?thesis by (simp add: isAltScreenMode_def)
qed

lemma digits_val_nonneg: "list_all is_digit s \<Longrightarrow> 0 \<le> digits_val s"
  by (induction s rule: rev_induct) (auto simp: digits_val_snoc digits_val_def digit_val_def is_digit_def)

definition item_result :: "term_item \<Rightarrow> scanResult" where
  "item_result it = \<lparr>sn_ScrollReset = item_resets it, sn_BarErased = item_erases it\<rparr>"

lemma scan_csi_final:
  assumes "csi_final c" and "es_state s = EsCsi"
  shows "Scan [c] s = (s\<lparr>es_state := EsGround\<rparr>, scan_final c s no_result)"
proof -
  have "\<not> csi_param c" using assms(1) by (auto simp: csi_param_def csi_final_def byte_in_def)
  then show ?thesis using assms by (simp add: Scan_def scan_byte_def)
qed

lemma scan_final_item:
  assumes "item_ok (Csi ps is c)" and "\<not> es_csiHasParams s" and "es_csiParamByte s = CHR 0x00" and "es_csiNumParam s = 0"
  shows "scan_final c (fold scan_param ps s) no_result = item_result (Csi ps is c)"
proof -
  note known = scan_params_known [OF assms(2,4), of ps]
  show ?thesis
  proof (cases ps)
    case Nil
    then show ?thesis using known assms(3) by (auto simp: scan_final_def item_result_def no_result_def)
  next
    case (Cons p qs)
    have k: "es_csiHasParams (fold scan_param ps s)" "es_csiParamByte (fold scan_param ps s) = p"
      using known(1,2) Cons by simp_all
    have alt: "isAltScreenMode (es_csiNumParam (fold scan_param ps s)) \<longleftrightarrow> digits_val qs \<in> {1049, 1047, 47}"
      if "c \<in> set ''hl''" "p = CHR ''?''"
    proof -
      have "list_all is_digit qs" "digits_val qs < 2 ^ 63" using assms(1) that Cons by auto
      then show ?thesis using known(4) alt_mode_value digits_val_nonneg that(2) Cons by simp
    qed
    have "c = CHR ''J'' \<Longrightarrow> qs = []" using assms(1) Cons by simp
    then show ?thesis
      using k alt Cons by (auto simp: scan_final_def item_result_def no_result_def)
  qed
qed

lemma Scan_item:
  assumes "InGround s" and "item_ok it"
  shows "InGround (fst (Scan (render_item it) s)) \<and> snd (Scan (render_item it) s) = item_result it"
proof (cases it)
  case (Text t)
  then show ?thesis using assms by (simp add: Scan_text item_result_def no_result_def)
next
  case (EscCommand c)
  then show ?thesis
    using assms by (auto simp: Scan_Cons scan_byte_def InGround_def item_result_def no_result_def or_result_def)
next
  case (Csi ps is' c)
  let ?s = "s\<lparr>es_state := EsCsi, es_csiHasParams := False, es_csiParamByte := CHR 0x00, es_csiNumParam := 0\<rparr>"
  have start: "Scan [asciiESC, CHR ''[''] s = (?s, no_result)"
    using assms(1) by (simp add: Scan_Cons scan_byte_def InGround_def asciiESC_def)
  have ps: "Scan ps ?s = (fold scan_param ps ?s, no_result)" "es_state (fold scan_param ps ?s) = EsCsi"
    using scan_csi_params [of ps ?s] assms(2) Csi by simp_all
  have im: "Scan is' (fold scan_param ps ?s) = (fold scan_param ps ?s, no_result)"
    using scan_csi_intermediates ps(2) assms(2) Csi by simp
  have "scan_final c (fold scan_param ps ?s) no_result = item_result it"
    using scan_final_item [of ps is' c ?s] assms(2) Csi by simp
  then have "Scan (render_item it) s = ((fold scan_param ps ?s)\<lparr>es_state := EsGround\<rparr>, item_result it)"
    using scan_csi_final [OF _ ps(2), of c] assms(2) Csi
    unfolding render_item.simps Csi Scan_append start fst_conv snd_conv ps im by simp
  then show ?thesis by (simp add: InGround_def)
next
  case (ControlString c t b)
  have start: "Scan [asciiESC, c] s = (s\<lparr>es_state := EsString\<rparr>, no_result)"
    using assms ControlString by (auto simp: Scan_Cons scan_byte_def InGround_def asciiESC_def)
  have body: "Scan t s' = (s', no_result)" if "es_state s' = EsString" "asciiESC \<notin> set t" "asciiBEL \<notin> set t" for s' t
    using that by (induction t) (auto simp: Scan_Cons scan_byte_def)
  have t: "Scan t (s\<lparr>es_state := EsString\<rparr>) = (s\<lparr>es_state := EsString\<rparr>, no_result)"
    using assms(2) ControlString by (intro body) simp_all
  have e: "Scan [asciiBEL] (s\<lparr>es_state := EsString\<rparr>) = (s\<lparr>es_state := EsGround\<rparr>, no_result)"
    "Scan [asciiESC, CHR 0x5C] (s\<lparr>es_state := EsString\<rparr>) = (s\<lparr>es_state := EsGround\<rparr>, no_result)"
    by (simp_all add: Scan_Cons scan_byte_def asciiBEL_def asciiESC_def)
  have "Scan (render_item it) s = (s\<lparr>es_state := EsGround\<rparr>, no_result)"
    unfolding ControlString render_item.simps Scan_append start fst_conv snd_conv t by (cases b) (simp_all add: e)
  then show ?thesis using ControlString by (simp add: InGround_def item_result_def no_result_def)
qed

lemma Scan_items:
  assumes "InGround s" and "list_all item_ok items"
  shows "InGround (fst (Scan (concat (map render_item items)) s))
         \<and> snd (Scan (concat (map render_item items)) s)
           = \<lparr>sn_ScrollReset = list_ex item_resets items, sn_BarErased = list_ex item_erases items\<rparr>"
  using assms
proof (induction items arbitrary: s)
  case Nil
  then show ?case by (simp add: no_result_def)
next
  case (Cons it items)
  have i: "InGround (fst (Scan (render_item it) s))" "snd (Scan (render_item it) s) = item_result it"
    using Scan_item [of s it] Cons.prems by simp_all
  with Cons.IH [OF i(1)] Cons.prems show ?case by (simp add: Scan_append or_result_def item_result_def)
qed

section \<open>The output goroutine\<close>

record output_state =
  ot_scanner :: escScanner
  ot_pendingScrollReset :: bool
  ot_pendingBarErased :: bool

datatype 't terminal_write = Child string | ScrollRegion 't | RepaintBar 't | ClearRow 't

text \<open>
  One read of the child's output: \<open>seq\<close> is \<^verbatim>\<open>barScrollSeq\<close> and \<open>cache\<close> the rendered bar, \<^term>\<open>None\<close> while it
  is hidden; both may differ from read to read. The kind of text that ward writes is left open; \<^term>\<open>ClearRow\<close> is for the resize handler.
\<close>

definition output_read :: "bool \<Rightarrow> string \<times> 't \<times> 't option \<Rightarrow> output_state \<Rightarrow> output_state \<times> 't terminal_write list" where
  "output_read stdoutIsTTY inp st =
     (let (data, seq, cache) = inp;
          (sc, result) = Scan data (ot_scanner st);
          scroll = ot_pendingScrollReset st \<or> sn_ScrollReset result;
          erased = ot_pendingBarErased st \<or> sn_BarErased result
      in if stdoutIsTTY \<and> InGround sc
         then (\<lparr>ot_scanner = sc, ot_pendingScrollReset = False, ot_pendingBarErased = False\<rparr>,
               [Child data]
               @ (if scroll then [ScrollRegion seq] else [])
               @ (case cache of Some bar \<Rightarrow> if scroll \<or> erased then [RepaintBar bar] else [] | None \<Rightarrow> []))
         else (\<lparr>ot_scanner = sc, ot_pendingScrollReset = scroll, ot_pendingBarErased = erased\<rparr>, [Child data]))"

definition output_init :: output_state where
  "output_init = \<lparr>ot_scanner = new_escScanner, ot_pendingScrollReset = False, ot_pendingBarErased = False\<rparr>"

fun output_loop :: "bool \<Rightarrow> (string \<times> 't \<times> 't option) list \<Rightarrow> output_state \<Rightarrow> output_state \<times> 't terminal_write list" where
  "output_loop tty [] st = (st, [])"
| "output_loop tty (inp # inps) st =
     (let (st', ws) = output_read tty inp st; (st'', ws') = output_loop tty inps st' in (st'', ws @ ws'))"

fun child_bytes :: "'t terminal_write list \<Rightarrow> string" where
  "child_bytes [] = []"
| "child_bytes (Child d # ws) = d @ child_bytes ws"
| "child_bytes (w # ws) = child_bytes ws"

lemma output_loop_append:
  "output_loop tty (xs @ ys) st
   = (fst (output_loop tty ys (fst (output_loop tty xs st))),
      snd (output_loop tty xs st) @ snd (output_loop tty ys (fst (output_loop tty xs st))))"
  by (induction xs arbitrary: st) (simp_all add: case_prod_unfold Let_def)

lemma child_bytes_append [simp]: "child_bytes (xs @ ys) = child_bytes xs @ child_bytes ys"
  by (induction xs rule: child_bytes.induct) simp_all

lemma output_read_scanner: "ot_scanner (fst (output_read tty inp st)) = fst (Scan (fst inp) (ot_scanner st))"
  by (simp add: output_read_def case_prod_unfold Let_def)

lemma output_read_writes:
  "\<exists>rest. snd (output_read tty inp st) = Child (fst inp) # rest \<and> (\<forall>d. Child d \<notin> set rest)
    \<and> (rest \<noteq> [] \<longrightarrow> tty \<and> InGround (fst (Scan (fst inp) (ot_scanner st))))
    \<and> (tty \<longrightarrow> InGround (fst (Scan (fst inp) (ot_scanner st))) \<longrightarrow>
       ot_pendingScrollReset st \<or> sn_ScrollReset (snd (Scan (fst inp) (ot_scanner st))) \<longrightarrow> ScrollRegion (fst (snd inp)) \<in> set rest)"
  by (auto simp: output_read_def case_prod_unfold Let_def split: option.split)

lemma child_bytes_none: "\<forall>d. Child d \<notin> set ws \<Longrightarrow> child_bytes ws = []"
  by (induction ws rule: child_bytes.induct) auto

lemma output_loop_child:
  "child_bytes (snd (output_loop tty inps st)) = concat (map fst inps)
   \<and> ot_scanner (fst (output_loop tty inps st)) = fst (Scan (concat (map fst inps)) (ot_scanner st))"
proof (induction inps arbitrary: st)
  case (Cons inp inps)
  obtain rest where r: "snd (output_read tty inp st) = Child (fst inp) # rest" "\<forall>d. Child d \<notin> set rest"
    using output_read_writes [of tty inp st] by blast
  show ?case
    using Cons.IH [of "fst (output_read tty inp st)"] child_bytes_none [OF r(2)] r(1)
    by (simp add: case_prod_unfold Let_def Scan_append output_read_scanner)
qed simp

text \<open>Nothing is injected inside a sequence.\<close>

lemma output_injects_in_ground:
  assumes "snd (output_loop tty inps st) = a @ w # b" and "\<forall>d. w \<noteq> Child d"
  shows "InGround (fst (Scan (child_bytes a) (ot_scanner st)))"
  using assms
proof (induction inps arbitrary: st a)
  case (Cons inp inps)
  let ?st = "fst (output_read tty inp st)"
  obtain rest where r: "snd (output_read tty inp st) = Child (fst inp) # rest" "\<forall>d. Child d \<notin> set rest"
    "rest \<noteq> [] \<Longrightarrow> tty \<and> InGround (fst (Scan (fst inp) (ot_scanner st)))"
    using output_read_writes [of tty inp st] by blast
  have e: "Child (fst inp) # rest @ snd (output_loop tty inps ?st) = a @ w # b"
    using Cons.prems(1) r(1) by (simp add: case_prod_unfold Let_def)
  then obtain a' where a: "a = Child (fst inp) # a'" "rest @ snd (output_loop tty inps ?st) = a' @ w # b"
    using Cons.prems(2) by (cases a) auto
  from a(2) consider us where "rest = a' @ w # us" | us where "a' = rest @ us" "snd (output_loop tty inps ?st) = us @ w # b"
    by (auto simp: append_eq_append_conv2 append_eq_Cons_conv)
  then show ?case
  proof cases
    case 1
    then have "child_bytes a' = []" using r(2) by (intro child_bytes_none) auto
    then show ?thesis using a(1) r(3) 1 by simp
  next
    case 2
    then have "InGround (fst (Scan (child_bytes us) (ot_scanner ?st)))" using Cons.IH Cons.prems(2) by blast
    then show ?thesis using a(1) 2 child_bytes_none [OF r(2)] by (simp add: Scan_append output_read_scanner)
  qed
qed simp

text \<open>A pending repair is made before the stream rests.\<close>

lemma output_repairs:
  assumes "InGround (fst (Scan (concat (map fst inps)) (ot_scanner st)))" and "inps \<noteq> []"
    and "ot_pendingScrollReset st \<or> sn_ScrollReset (snd (Scan (fst (hd inps)) (ot_scanner st)))"
  shows "\<exists>s. ScrollRegion s \<in> set (snd (output_loop True inps st))"
  using assms
proof (induction inps arbitrary: st)
  case (Cons inp inps)
  let ?st = "fst (output_read True inp st)"
  obtain rest where r: "snd (output_read True inp st) = Child (fst inp) # rest"
    "InGround (fst (Scan (fst inp) (ot_scanner st))) \<Longrightarrow>
       ot_pendingScrollReset st \<or> sn_ScrollReset (snd (Scan (fst inp) (ot_scanner st))) \<Longrightarrow> ScrollRegion (fst (snd inp)) \<in> set rest"
    using output_read_writes [of True inp st] by blast
  have run: "snd (output_loop True (inp # inps) st) = snd (output_read True inp st) @ snd (output_loop True inps ?st)"
    by (simp add: case_prod_unfold Let_def)
  show ?case
  proof (cases "InGround (fst (Scan (fst inp) (ot_scanner st)))")
    case True
    then show ?thesis using r Cons.prems(3) unfolding run by auto
  next
    case False
    have "ot_pendingScrollReset ?st" using False Cons.prems(3) by (simp add: output_read_def case_prod_unfold Let_def)
    moreover have "inps \<noteq> []" using False Cons.prems(1) by auto
    moreover have "InGround (fst (Scan (concat (map fst inps)) (ot_scanner ?st)))"
      using Cons.prems(1) by (simp add: Scan_append output_read_scanner)
    ultimately show ?thesis using Cons.IH unfolding run by fastforce
  qed
qed simp

lemma reset_reported_at_end:
  assumes "InGround s" and "item_ok it" and "item_resets it"
  shows "sn_ScrollReset (snd (Scan [last (render_item it)] (fst (Scan (butlast (render_item it)) s))))"
proof -
  have "snd (Scan (butlast (render_item it)) s) = no_result"
  proof (cases it)
    case (EscCommand c)
    then show ?thesis using assms(1) by (simp add: Scan_Cons scan_byte_def InGround_def)
  next
    case (Csi ps is' c)
    let ?s = "s\<lparr>es_state := EsCsi, es_csiHasParams := False, es_csiParamByte := CHR 0x00, es_csiNumParam := 0\<rparr>"
    have b: "butlast (render_item it) = [asciiESC, CHR ''[''] @ ps @ is'" using Csi by (simp add: butlast_append)
    have start: "Scan [asciiESC, CHR ''[''] s = (?s, no_result)"
      using assms(1) by (simp add: Scan_Cons scan_byte_def InGround_def asciiESC_def)
    have ps: "Scan ps ?s = (fold scan_param ps ?s, no_result)" "es_state (fold scan_param ps ?s) = EsCsi"
      using scan_csi_params [of ps ?s] assms(2) Csi by simp_all
    then show ?thesis
      using scan_csi_intermediates [OF _ ps(2), of is'] assms(2) Csi unfolding b Scan_append start fst_conv snd_conv by simp
  qed (use assms(3) in simp_all)
  moreover have "render_item it \<noteq> []" using assms(3) by (cases it) simp_all
  then have "Scan (render_item it) s = Scan (butlast (render_item it) @ [last (render_item it)]) s" by simp
  moreover have "sn_ScrollReset (snd (Scan (render_item it) s))"
    using Scan_item [OF assms(1,2)] assms(3) by (simp add: item_result_def)
  ultimately show ?thesis by (simp add: Scan_append)
qed

lemma chunk_of_position:
  assumes "0 < n" and "n \<le> length (concat (map f xs))"
  shows "\<exists>pre x post. xs = pre @ x # post \<and> length (concat (map f pre)) < n \<and> n \<le> length (concat (map f pre) @ f x)"
  using assms
proof (induction xs rule: rev_induct)
  case (snoc x xs)
  show ?case
  proof (cases "n \<le> length (concat (map f xs))")
    case True
    then obtain pre y post where "xs = pre @ y # post" "length (concat (map f pre)) < n" "n \<le> length (concat (map f pre) @ f y)"
      using snoc by blast
    then show ?thesis by (intro exI [of _ pre] exI [of _ y] exI [of _ "post @ [x]"]) simp
  next
    case False
    then show ?thesis using snoc.prems by (intro exI [of _ xs] exI [of _ x] exI [of _ "[]"]) simp
  qed
qed simp

text \<open>The read in which a reset ends reports it, however the stream is cut.\<close>

lemma reset_in_chunk:
  assumes "InGround s" and "list_all item_ok its" and "item_ok it" and "item_resets it"
    and "pre @ x = concat (map render_item its) @ render_item it @ y" and "length pre < length (concat (map render_item its) @ render_item it)"
  shows "sn_ScrollReset (snd (Scan x (fst (Scan pre s))))"
proof -
  let ?d = "concat (map render_item its)" and ?w = "render_item it"
  have w: "?w \<noteq> []" using assms(4) by (cases it) simp_all
  then have wl: "?w = butlast ?w @ [last ?w]" by simp
  have len: "length pre \<le> length (?d @ butlast ?w)" using assms(6) w by simp
  have eq: "pre @ x = (?d @ butlast ?w) @ last ?w # y" using assms(5) wl by (metis append.assoc append_Cons append_Nil)
  obtain u where u: "?d @ butlast ?w = pre @ u" "x = u @ last ?w # y"
    using eq len by (metis append_eq_append_conv_if append_eq_conv_conj append_take_drop_id)
  have "fst (Scan u (fst (Scan pre s))) = fst (Scan (?d @ butlast ?w) s)" unfolding u by (simp add: Scan_append)
  also have "\<dots> = fst (Scan (butlast ?w) (fst (Scan ?d s)))" by (simp add: Scan_append)
  finally have "sn_ScrollReset (snd (Scan [last ?w] (fst (Scan u (fst (Scan pre s))))))"
    using reset_reported_at_end [OF _ assms(3,4)] Scan_items [OF assms(1,2)] by simp
  then show ?thesis
    unfolding u(2) using Scan_append [of "[last ?w]" y "fst (Scan u (fst (Scan pre s)))"]
    by (simp add: Scan_append or_result_def)
qed

section \<open>Properties\<close>

fun Scan_reads :: "string list \<Rightarrow> escScanner \<Rightarrow> escScanner \<times> scanResult list" where
  "Scan_reads [] s = (s, [])"
| "Scan_reads (c # cs) s = (let (s', r) = Scan c s; (s'', rs) = Scan_reads cs s' in (s'', r # rs))"

lemma Scan_reads_chunks:
  "fst (Scan_reads cs s) = fst (esc_scan.feed_chunks cs s)
   \<and> list_ex sn_ScrollReset (snd (Scan_reads cs s)) = sn_ScrollReset (snd (esc_scan.feed_chunks cs s))
   \<and> list_ex sn_BarErased (snd (Scan_reads cs s)) = sn_BarErased (snd (esc_scan.feed_chunks cs s))"
proof (induction cs arbitrary: s)
  case Nil
  show ?case by simp (simp add: no_result_def)
next
  case (Cons c cs)
  then show ?case by (simp add: case_prod_unfold Let_def) (simp add: or_result_def)
qed

lemma new_escScanner_ground [simp]: "InGround new_escScanner"
  by (simp add: InGround_def new_escScanner_def)





end
