(* ===== verification/Ward_Screen.thy ===== *)
theory Ward_Screen
  imports Ward_Bar Ward_Scanner
begin

text \<open>
  The screen of ward: the text of the bar, \<^verbatim>\<open>ward/bar.go\<close>, and the frame of \<^verbatim>\<open>ward/wrapper.go\<close> around the event loop of
  \<open>Ward_Bar\<close> and the output goroutine of \<open>Ward_Scanner\<close>: the sizes of terminal and child, the resize handler, the
  restoration at the end and the result of \<^verbatim>\<open>Run\<close>. The goroutines share the cache and the terminal under \<^verbatim>\<open>outputMu\<close>, so that each of their critical
  sections is one step of \<open>wrapper_step\<close>. Colours and widths of texts (lipgloss and ansi) are the parameter \<open>text_lib\<close>.
\<close>

section \<open>Runes\<close>

type_synonym runes = "nat list"

text \<open>A loop over a string: the runes of its UTF-8 encoding, with \<^verbatim>\<open>U+FFFD\<close> for each byte that is not part of one.\<close>

definition cont_byte :: "nat \<Rightarrow> bool" where
  "cont_byte c \<longleftrightarrow> 0x80 \<le> c \<and> c \<le> 0xBF"

fun utf8_runes :: "nat list \<Rightarrow> runes" where
  "utf8_runes [] = []"
| "utf8_runes (b # bs) =
     (if b < 0x80 then b # utf8_runes bs
      else case bs of
        [] \<Rightarrow> [0xFFFD]
      | c1 # cs \<Rightarrow>
          if 0xC2 \<le> b \<and> b \<le> 0xDF \<and> cont_byte c1 then ((b - 0xC0) * 64 + (c1 - 0x80)) # utf8_runes cs
          else case cs of
            [] \<Rightarrow> 0xFFFD # utf8_runes bs
          | c2 # ds \<Rightarrow>
              if 0xE0 \<le> b \<and> b \<le> 0xEF \<and> (if b = 0xE0 then 0xA0 else 0x80) \<le> c1 \<and> c1 \<le> (if b = 0xED then 0x9F else 0xBF) \<and> cont_byte c2
              then ((b - 0xE0) * 4096 + (c1 - 0x80) * 64 + (c2 - 0x80)) # utf8_runes ds
              else case ds of
                [] \<Rightarrow> 0xFFFD # utf8_runes bs
              | c3 # es \<Rightarrow>
                  if 0xF0 \<le> b \<and> b \<le> 0xF4 \<and> (if b = 0xF0 then 0x90 else 0x80) \<le> c1 \<and> c1 \<le> (if b = 0xF4 then 0x8F else 0xBF)
                     \<and> cont_byte c2 \<and> cont_byte c3
                  then ((b - 0xF0) * 262144 + (c1 - 0x80) * 4096 + (c2 - 0x80) * 64 + (c3 - 0x80)) # utf8_runes es
                  else 0xFFFD # utf8_runes bs)"

definition runes_of :: "string \<Rightarrow> runes" where
  "runes_of s = utf8_runes (map of_char s)"

text \<open>The runes of a literal or a number, which is ASCII.\<close>

definition ascii :: "string \<Rightarrow> runes" where
  "ascii s = map of_char s"

section \<open>The text of the bar\<close>

definition sanitizeMessage :: "runes \<Rightarrow> runes" where
  "sanitizeMessage s = filter (\<lambda>r. r = 9 \<or> (r \<ge> 32 \<and> r \<noteq> 0x7F \<and> (r < 0x80 \<or> r > 0x9F))) s"

datatype bar_style = DefaultBarStyle | AlertBarStyle

record text_lib =
  tl_width :: "runes \<Rightarrow> int"
  tl_truncate :: "runes \<Rightarrow> int \<Rightarrow> runes"
  tl_style :: "bar_style \<Rightarrow> runes \<Rightarrow> runes"
  tl_gradientName :: runes

definition padChar :: nat where "padChar = 0x2571"

definition bar_prefix :: "text_lib \<Rightarrow> runes" where
  "bar_prefix lib = tl_style lib DefaultBarStyle (replicate 3 padChar) @ ascii '' '' @ tl_gradientName lib"

definition renderMessage :: "text_lib \<Rightarrow> bar_style \<Rightarrow> int \<Rightarrow> runes \<Rightarrow> runes" where
  "renderMessage lib style cols msg =
     (let prefixLen = tl_width lib (bar_prefix lib); msgWidth = tl_width lib msg in
      if cols - prefixLen < msgWidth then bar_prefix lib @ tl_style lib style (tl_truncate lib msg (max (cols - prefixLen) 0))
      else bar_prefix lib @ tl_style lib style msg @ tl_style lib style (replicate (nat (max (cols - prefixLen - msgWidth) 0 + 1)) padChar))"

definition RenderStatusBar :: "text_lib \<Rightarrow> string \<Rightarrow> int \<Rightarrow> bool \<Rightarrow> runes" where
  "RenderStatusBar lib message cols alert =
     (let msg = ascii '' '' @ sanitizeMessage (runes_of message) @ ascii '' '' in
      if alert
      then renderMessage lib AlertBarStyle cols
             (ascii '' '' @ [padChar, padChar] @ ascii '' ALERT:'' @ msg @ [padChar, padChar] @ ascii '' press ctrl-] '')
      else renderMessage lib DefaultBarStyle cols msg)"

fun join_runes :: "runes \<Rightarrow> runes list \<Rightarrow> runes" where
  "join_runes sep [] = []"
| "join_runes sep [s] = s"
| "join_runes sep (s # ss) = s @ sep @ join_runes sep ss"

definition hint_text :: "KeyHint \<Rightarrow> runes" where
  "hint_text h = ascii ''['' @ [of_char (kh_Key h)] @ ascii ''] '' @ sanitizeMessage (runes_of (kh_Desc h))"

definition RenderCommandBar :: "text_lib \<Rightarrow> string \<Rightarrow> KeyHint list \<Rightarrow> int \<Rightarrow> bool \<Rightarrow> runes" where
  "RenderCommandBar lib target hints cols hasAlert =
     (let parts = (if target \<noteq> [] then [sanitizeMessage (runes_of target)] else [])
            @ map hint_text (filter (\<lambda>h. \<not> (kh_RequireAlert h \<and> \<not> hasAlert)) hints) @ [ascii ''[esc] cancel'']
      in renderMessage lib AlertBarStyle cols (ascii '' '' @ join_runes (ascii ''  '') parts @ ascii '' ''))"

section \<open>Escape sequences\<close>

definition esc_rune :: nat where "esc_rune = 0x1B"

definition scrollRegionSeq :: "int \<Rightarrow> runes" where
  "scrollRegionSeq maxRow = [esc_rune] @ ascii ''7'' @ [esc_rune] @ ascii ''[1;'' @ ascii (show_int maxRow) @ ascii ''r'' @ [esc_rune] @ ascii ''8''"

definition resizeScrollRegionSeq :: "int \<Rightarrow> runes" where
  "resizeScrollRegionSeq maxRow =
     [esc_rune] @ ascii ''7'' @ [esc_rune] @ ascii ''[1;'' @ ascii (show_int maxRow) @ ascii ''r'' @ [esc_rune] @ ascii ''8'' @ [esc_rune] @ ascii ''[A''"

definition activeOutputResizeWindow :: int where "activeOutputResizeWindow = 500000000"

definition resizeRepairSeq :: "int \<Rightarrow> int option \<Rightarrow> int \<Rightarrow> runes" where
  "resizeRepairSeq maxRow lastOutputAt now =
     (case lastOutputAt of
        Some t \<Rightarrow> if now - t < activeOutputResizeWindow then resizeScrollRegionSeq maxRow else scrollRegionSeq maxRow
      | None \<Rightarrow> scrollRegionSeq maxRow)"

definition start_seq :: "int \<Rightarrow> runes" where
  "start_seq rows =
     [esc_rune] @ ascii ''7'' @ [esc_rune] @ ascii ''[1S'' @ [esc_rune] @ ascii ''[1;'' @ ascii (show_int (rows - 1)) @ ascii ''r'' @ [esc_rune] @ ascii ''8'' @ [esc_rune] @ ascii ''[A''"

definition on_row :: "int \<Rightarrow> runes \<Rightarrow> runes" where
  "on_row row bar = [esc_rune] @ ascii ''7'' @ [esc_rune] @ ascii ''['' @ ascii (show_int row) @ ascii '';1H'' @ [esc_rune] @ ascii ''[K'' @ bar @ [esc_rune] @ ascii ''8''"

definition renderBarEsc :: "text_lib \<Rightarrow> int \<Rightarrow> int \<Rightarrow> string \<Rightarrow> bool \<Rightarrow> runes" where
  "renderBarEsc lib termCols termRows message alert =
     (let barWidth = max (termCols - 1) 1 in on_row termRows (RenderStatusBar lib message barWidth alert))"

definition renderCommandBarEsc :: "text_lib \<Rightarrow> int \<Rightarrow> int \<Rightarrow> string \<Rightarrow> KeyHint list \<Rightarrow> runes" where
  "renderCommandBarEsc lib termCols termRows target hints =
     (let barWidth = max (termCols - 1) 1; hasAlert = target \<noteq> [] in
      on_row termRows (RenderCommandBar lib target hints barWidth hasAlert))"

definition clearBarRowEsc :: "int \<Rightarrow> runes" where
  "clearBarRowEsc row = on_row row []"

text \<open>What the cache renders to; nothing is rendered for a hidden bar.\<close>

definition render_cache :: "text_lib \<Rightarrow> int \<Rightarrow> int \<Rightarrow> barCache \<Rightarrow> runes \<Rightarrow> runes" where
  "render_cache lib termCols termRows c old =
     (case bc_mode c of
        BarStatus \<Rightarrow> renderBarEsc lib termCols termRows (bc_message c) False
      | BarAlert \<Rightarrow> renderBarEsc lib termCols termRows (bc_message c) True
      | BarCommand \<Rightarrow> renderCommandBarEsc lib termCols termRows (bc_target c) (bc_keyHints c)
      | BarCleared \<Rightarrow> clearBarRowEsc termRows
      | BarHidden \<Rightarrow> old)"

fun rows_to_clear :: "int \<Rightarrow> int list \<Rightarrow> int list \<Rightarrow> int list" where
  "rows_to_clear newRows cleared [] = []"
| "rows_to_clear newRows cleared (row # rows) =
     (if row < 1 \<or> row > newRows \<or> row \<in> set cleared then rows_to_clear newRows cleared rows
      else row # rows_to_clear newRows (row # cleared) rows)"

definition clearResizeBarRows :: "barMode \<Rightarrow> int \<Rightarrow> int \<Rightarrow> runes terminal_write list" where
  "clearResizeBarRows mode oldRows newRows =
     (if mode = BarHidden then []
      else map (\<lambda>row. ClearRow (clearBarRowEsc row)) (rows_to_clear newRows [] [oldRows - 1, oldRows, newRows - 1, newRows]))"

section \<open>The wrapper\<close>

record Options =
  op_Command :: "string list"
  op_Hotkey :: char
  op_Env :: "string list"
  op_OnKey :: bool

definition NewWrapper :: "Options \<Rightarrow> Options" where
  "NewWrapper opts = (if op_Hotkey opts = CHR 0x00 then opts\<lparr>op_Hotkey := CHR 0x1D\<rparr> else opts)"

text \<open>The size of the terminal: \<open>out\<close> and \<open>inp\<close> are the results of \<^verbatim>\<open>GetSize\<close> on standard output and input.\<close>

definition terminal_size :: "bool \<Rightarrow> bool \<Rightarrow> (int \<times> int) option \<Rightarrow> (int \<times> int) option \<Rightarrow> int \<times> int" where
  "terminal_size stdoutIsTTY stdinIsTTY out inp =
     (if stdoutIsTTY then (case out of Some wh \<Rightarrow> wh | None \<Rightarrow> (80, 24))
      else if stdinIsTTY then (case inp of Some wh \<Rightarrow> wh | None \<Rightarrow> (80, 24))
      else (80, 24))"

datatype run_phase = Running | Drained | Stopped | Restored

text \<open>\<open>wr_pty\<close> are rows and columns of the child's terminal; \<open>wr_writes\<close> records what reached standard output, \<open>wr_late\<close> whether a resize was handled after the restoration.\<close>

record wrapper =
  wr_bar :: ward_state
  wr_out :: output_state
  wr_cols :: int
  wr_rows :: int
  wr_rendered :: runes
  wr_barScrollSeq :: runes
  wr_lastOutputAt :: "int option"
  wr_pty :: "16 word \<times> 16 word"
  wr_phase :: run_phase
  wr_writes :: "runes terminal_write list"
  wr_late :: bool

definition Setsize :: "int \<Rightarrow> int \<Rightarrow> 16 word \<times> 16 word" where
  "Setsize rows cols = (word_of_int (rows - 1), word_of_int cols)"

definition wrapper_init :: "bool \<Rightarrow> int \<times> int \<Rightarrow> wrapper" where
  "wrapper_init stdoutIsTTY sz =
     (let (cols, rows) = sz in
      \<lparr>wr_bar = ward_init, wr_out = output_init, wr_cols = cols, wr_rows = rows, wr_rendered = [], wr_barScrollSeq = scrollRegionSeq (rows - 1),
       wr_lastOutputAt = None, wr_pty = Setsize rows cols, wr_phase = Running,
       wr_writes = (if stdoutIsTTY then [ScrollRegion (start_seq rows)] else []), wr_late = False\<rparr>)"

abbreviation wr_cache :: "wrapper \<Rightarrow> barCache" where
  "wr_cache w \<equiv> bl_cache (ws_loop (wr_bar w))"

definition draw_bar :: "text_lib \<Rightarrow> bool \<Rightarrow> wrapper \<Rightarrow> wrapper" where
  "draw_bar lib stdoutIsTTY w =
     (let r = render_cache lib (wr_cols w) (wr_rows w) (wr_cache w) (wr_rendered w) in
      w\<lparr>wr_rendered := r, wr_writes := wr_writes w @ (if stdoutIsTTY then [RepaintBar r] else [])\<rparr>)"

text \<open>The events on which the loop writes the cache.\<close>

definition bar_draws :: "barEvent \<Rightarrow> bar_loop \<Rightarrow> bool" where
  "bar_draws ev st =
     (case ev of
        BarEventStatus su \<Rightarrow> bl_activeAlert st = None \<and> bl_cmdState st = CommandNone
      | BarEventAlert su \<Rightarrow> bl_activeAlert st = None \<and> bl_cmdState st = CommandNone
      | BarEventDismiss \<Rightarrow> bl_cmdState st = CommandNone
      | BarEventEnterCommand \<Rightarrow> True
      | BarEventBeginAction gen \<Rightarrow> False
      | BarEventAction gen err msg \<Rightarrow> bl_cmdState st = CommandPending \<and> gen = bl_commandGen st
      | BarEventCancelCommand gen \<Rightarrow> bl_cmdState st = CommandActive \<and> gen = bl_commandGen st)"

definition loop_event :: "text_lib \<Rightarrow> bool \<Rightarrow> int \<Rightarrow> barEvent \<Rightarrow> barEvent list \<Rightarrow> wrapper \<Rightarrow> wrapper" where
  "loop_event lib stdoutIsTTY now ev evs w =
     (let st = ws_loop (wr_bar w); w' = w\<lparr>wr_bar := \<lparr>ws_loop = fst (bar_step now ev st), ws_events = evs\<rparr>\<rparr> in
      if bar_draws ev st then draw_bar lib stdoutIsTTY w' else w')"

definition read_output :: "bool \<Rightarrow> int \<Rightarrow> string \<Rightarrow> wrapper \<Rightarrow> wrapper" where
  "read_output stdoutIsTTY now data w =
     (let cache = (if bc_mode (wr_cache w) = BarHidden then None else Some (wr_rendered w));
          (out, ws) = output_read stdoutIsTTY (data, wr_barScrollSeq w, cache) (wr_out w)
      in w\<lparr>wr_out := out, wr_lastOutputAt := Some now, wr_writes := wr_writes w @ ws\<rparr>)"

definition handle_resize :: "text_lib \<Rightarrow> int \<Rightarrow> int \<times> int \<Rightarrow> wrapper \<Rightarrow> wrapper" where
  "handle_resize lib now sz w =
     (let (cols, rows) = sz;
          w' = w\<lparr>wr_cols := cols, wr_rows := rows, wr_pty := Setsize rows cols, wr_barScrollSeq := scrollRegionSeq (rows - 1),
                wr_writes := wr_writes w @ clearResizeBarRows (bc_mode (wr_cache w)) (wr_rows w) rows
                  @ [ScrollRegion (resizeRepairSeq (rows - 1) (wr_lastOutputAt w) now)],
                wr_late := (wr_late w \<or> wr_phase w = Restored)\<rparr>
      in if bc_mode (wr_cache w) = BarHidden then w' else draw_bar lib True w')"

definition restore_screen :: "bool \<Rightarrow> wrapper \<Rightarrow> wrapper" where
  "restore_screen stdoutIsTTY w =
     w\<lparr>wr_phase := Restored,
       wr_writes := wr_writes w @ (if stdoutIsTTY then [ScrollRegion (scrollRegionSeq (wr_rows w)), ClearRow (clearBarRowEsc (wr_rows w))] else [])\<rparr>"

text \<open>
  \<^verbatim>\<open>wp_post\<close> is a sender or a timer that puts an event into the channel. The loop runs until it has seen \<^verbatim>\<open>done\<close>, which is closed after the output
  goroutine has ended, and the screen is restored after the loop has ended. Nobody waits for the resize handler.
\<close>

inductive wrapper_step :: "text_lib \<Rightarrow> bool \<Rightarrow> bool \<Rightarrow> wrapper \<Rightarrow> wrapper \<Rightarrow> bool" for lib stdoutIsTTY stdinIsTTY where
  wp_post: "ward_step (wr_bar w) b \<Longrightarrow> length (ws_events b) = Suc (length (ws_events (wr_bar w))) \<Longrightarrow>
    wrapper_step lib stdoutIsTTY stdinIsTTY w (w\<lparr>wr_bar := b\<rparr>)"
| wp_event: "wr_phase w \<in> {Running, Drained} \<Longrightarrow> ws_events (wr_bar w) = ev # evs \<Longrightarrow>
    wrapper_step lib stdoutIsTTY stdinIsTTY w (loop_event lib stdoutIsTTY now ev evs w)"
| wp_output: "wr_phase w = Running \<Longrightarrow> wrapper_step lib stdoutIsTTY stdinIsTTY w (read_output stdoutIsTTY now data w)"
| wp_resize: "stdoutIsTTY \<Longrightarrow> stdinIsTTY \<Longrightarrow> wrapper_step lib stdoutIsTTY stdinIsTTY w (handle_resize lib now sz w)"
| wp_drained: "wr_phase w = Running \<Longrightarrow> wrapper_step lib stdoutIsTTY stdinIsTTY w (w\<lparr>wr_phase := Drained\<rparr>)"
| wp_stopped: "wr_phase w = Drained \<Longrightarrow> wrapper_step lib stdoutIsTTY stdinIsTTY w (w\<lparr>wr_phase := Stopped\<rparr>)"
| wp_restore: "wr_phase w = Stopped \<Longrightarrow> wrapper_step lib stdoutIsTTY stdinIsTTY w (restore_screen stdoutIsTTY w)"

inductive_cases wrapper_stepE: "wrapper_step lib stdoutIsTTY stdinIsTTY w w'"

text \<open>The result of \<^verbatim>\<open>Run\<close>: \<open>start\<close> is the error of \<^verbatim>\<open>pty.Start\<close>, then the child ends with a status or in another way.\<close>

datatype wait_result = WaitOK | WaitExit int | WaitFailed string

definition run_result :: "string option \<Rightarrow> wait_result \<Rightarrow> int \<times> string option" where
  "run_result start res =
     (case start of
        Some e \<Rightarrow> (0, Some e)
      | None \<Rightarrow> (case res of WaitOK \<Rightarrow> (0, None) | WaitExit code \<Rightarrow> (code, None) | WaitFailed e \<Rightarrow> (0, Some e)))"

text \<open>
  The stdin goroutine: each read with the environment of its command mode, whether the command context was cancelled while it waited, and whether the write
  to the child fails. \<open>keys\<close> are those of the last command mode.
\<close>

record stdin_read =
  sr_env :: input_env
  sr_cancelled :: bool
  sr_data :: string
  sr_werr :: bool

fun stdin_loop :: "bool \<Rightarrow> stdin_read list \<Rightarrow> bool \<Rightarrow> char list \<Rightarrow> input_effect list" where
  "stdin_loop handler [] inCommand keys = []"
| "stdin_loop handler (r # rs) inCommand keys =
     (if sr_data r = [] then stdin_loop handler rs inCommand keys
      else if \<not> handler then PtyWrite (sr_data r) # (if sr_werr r then [] else stdin_loop handler rs inCommand keys)
      else
        let (effs, c) = processInput (sr_env r) keys (inCommand \<and> \<not> sr_cancelled r) (sr_data r)
        in effs @ stdin_loop handler rs c (if SendEnterCommand \<in> set effs then ie_entered_keys (sr_env r) else keys))"

section \<open>What a terminal sees\<close>

text \<open>The control functions in a text, as ECMA-48 cuts it.\<close>

datatype control = Print nat | Control nat | EscSeq nat | CsiSeq runes nat

datatype term_mode = TGround | TEscape | TCsi runes

fun term_rune :: "term_mode \<Rightarrow> nat \<Rightarrow> term_mode \<times> control list" where
  "term_rune TGround r =
     (if r = 0x1B then (TEscape, []) else if r = 0x9B then (TCsi [], [])
      else if r < 32 \<or> 0x7F \<le> r \<and> r \<le> 0x9F then (TGround, [Control r]) else (TGround, [Print r]))"
| "term_rune TEscape r = (if r = 0x5B then (TCsi [], []) else (TGround, [EscSeq r]))"
| "term_rune (TCsi ps) r = (if 0x40 \<le> r \<and> r \<le> 0x7E then (TGround, [CsiSeq ps r]) else (TCsi (ps @ [r]), []))"

fun term_runes :: "term_mode \<Rightarrow> runes \<Rightarrow> term_mode \<times> control list" where
  "term_runes m [] = (m, [])"
| "term_runes m (r # rs) = (let (m', cs) = term_rune m r; (m'', cs') = term_runes m' rs in (m'', cs @ cs'))"

text \<open>Text in colours: printed characters, tabs and the selection of graphic rendition.\<close>

fun coloured :: "control \<Rightarrow> bool" where
  "coloured (Print r) = True"
| "coloured (Control r) = (r = 9)"
| "coloured (EscSeq r) = False"
| "coloured (CsiSeq ps r) = (r = 0x6D)"

definition inert :: "runes \<Rightarrow> bool" where
  "inert s \<longleftrightarrow> fst (term_runes TGround s) = TGround \<and> list_all coloured (snd (term_runes TGround s))"

definition printable :: "runes \<Rightarrow> bool" where
  "printable s \<longleftrightarrow> (\<forall>r \<in> set s. r = 9 \<or> (r \<ge> 32 \<and> r \<noteq> 0x7F \<and> (r < 0x80 \<or> r > 0x9F)))"

text \<open>What is needed of lipgloss and ansi: a style puts colours around a printable text, and truncation keeps it printable.\<close>

definition text_lib_ok :: "text_lib \<Rightarrow> bool" where
  "text_lib_ok lib \<longleftrightarrow> (\<forall>st s. printable s \<longrightarrow> inert (tl_style lib st s)) \<and> (\<forall>s n. printable s \<longrightarrow> printable (tl_truncate lib s n)) \<and> inert (tl_gradientName lib)"

lemma term_runes_append:
  "term_runes m (xs @ ys) = (fst (term_runes (fst (term_runes m xs)) ys), snd (term_runes m xs) @ snd (term_runes (fst (term_runes m xs)) ys))"
  by (induction xs arbitrary: m) (simp_all add: case_prod_unfold Let_def)

lemma inert_append: "inert a \<Longrightarrow> inert b \<Longrightarrow> inert (a @ b)"
  by (simp add: inert_def term_runes_append)

lemma inert_printable: "printable s \<Longrightarrow> inert s"
proof (induction s)
  case (Cons r s)
  then have "r = 9 \<or> (r \<ge> 32 \<and> r \<noteq> 0x7F \<and> (r < 0x80 \<or> r > 0x9F))" "inert s" by (simp_all add: printable_def)
  then show ?case by (auto simp: inert_def case_prod_unfold Let_def)
qed (simp add: inert_def)

lemma printable_Nil [simp]: "printable []"
  by (simp add: printable_def)

lemma printable_append [simp]: "printable (a @ b) \<longleftrightarrow> printable a \<and> printable b"
  by (auto simp: printable_def)

lemma printable_sanitize [simp]: "printable (sanitizeMessage s)"
  by (simp add: printable_def sanitizeMessage_def)

lemma printable_replicate [simp]: "printable (replicate n padChar)"
  by (simp add: printable_def padChar_def)

lemma printable_pad [simp]: "printable (padChar # s) \<longleftrightarrow> printable s"
  by (simp add: printable_def padChar_def)

lemma printable_join: "printable sep \<Longrightarrow> list_all printable parts \<Longrightarrow> printable (join_runes sep parts)"
  by (induction sep parts rule: join_runes.induct) simp_all

lemma inert_renderMessage:
  assumes "text_lib_ok lib" "printable msg"
  shows "inert (renderMessage lib style cols msg)"
proof -
  have "inert (bar_prefix lib)"
    using assms(1) unfolding bar_prefix_def text_lib_ok_def by (intro inert_append) (auto simp: inert_printable printable_def padChar_def ascii_def)
  then show ?thesis using assms by (auto simp: renderMessage_def Let_def text_lib_ok_def intro!: inert_append)
qed

lemma term_runes_params: "\<forall>r \<in> set ps. r < 0x40 \<Longrightarrow> term_runes (TCsi qs) ps = (TCsi (qs @ ps), [])"
  by (induction ps arbitrary: qs) simp_all

lemma digit_below: "c \<in> set (show_nat n) \<Longrightarrow> of_char c < (0x40 :: nat)"
  using show_nat_digits [of n] by (auto simp: list_all_iff is_digit_def)

lemma ascii_int: "\<forall>r \<in> set (ascii (show_int i)). r < 0x40"
  by (auto simp: ascii_def show_int_def dest: digit_below)

definition controls :: "runes \<Rightarrow> control list" where
  "controls s = snd (term_runes TGround s)"

definition margins :: "runes \<Rightarrow> runes list" where
  "margins s = concat (map (\<lambda>c. case c of CsiSeq ps r \<Rightarrow> if r = 0x72 then [ps] else [] | _ \<Rightarrow> []) (controls s))"

lemma region_controls:
  "term_runes TGround (scrollRegionSeq n) = (TGround, [EscSeq 0x37, CsiSeq (ascii (''1;'' @ show_int n)) 0x72, EscSeq 0x38])"
  "term_runes TGround (resizeScrollRegionSeq n) = (TGround, [EscSeq 0x37, CsiSeq (ascii (''1;'' @ show_int n)) 0x72, EscSeq 0x38, CsiSeq [] 0x41])"
  "term_runes TGround (start_seq rows) = (TGround, [EscSeq 0x37, CsiSeq (ascii ''1'') 0x53, CsiSeq (ascii (''1;'' @ show_int (rows - 1))) 0x72, EscSeq 0x38, CsiSeq [] 0x41])"
  using term_runes_params [OF ascii_int]
  by (simp_all add: scrollRegionSeq_def resizeScrollRegionSeq_def start_seq_def esc_rune_def term_runes_append Let_def case_prod_unfold) (simp_all add: ascii_def)

lemma margins_region [simp]:
  "margins (scrollRegionSeq n) = [ascii (''1;'' @ show_int n)]"
  "margins (resizeRepairSeq n t now) = [ascii (''1;'' @ show_int n)]"
  "margins (start_seq rows) = [ascii (''1;'' @ show_int (rows - 1))]"
  by (simp_all add: margins_def controls_def resizeRepairSeq_def region_controls split: option.splits)

lemma row_controls:
  assumes "inert bar"
  shows "term_runes TGround (on_row row bar)
    = (TGround, [EscSeq 0x37, CsiSeq (ascii (show_int row @ '';1'')) 0x48, CsiSeq [] 0x4B] @ controls bar @ [EscSeq 0x38])"
  using assms term_runes_params [OF ascii_int [of row], of "[]"]
  by (simp add: on_row_def esc_rune_def term_runes_append Let_def case_prod_unfold inert_def controls_def) (simp add: ascii_def)

lemma bars_inert:
  assumes "text_lib_ok lib"
  shows "inert (RenderStatusBar lib message cols alert)"
    "list_all (\<lambda>h. printable [of_char (kh_Key h)]) hints \<Longrightarrow> inert (RenderCommandBar lib target hints cols hasAlert)"
proof -
  have a: "printable (ascii '' '')" "printable (ascii ''  '')" "printable (ascii '' ALERT:'')" "printable (ascii '' press ctrl-] '')" "printable (ascii ''[esc] cancel'')"
    "printable (ascii ''['')" "printable (ascii ''] '')" "printable [padChar, padChar]"
    by (simp_all add: printable_def ascii_def padChar_def)
  show "inert (RenderStatusBar lib message cols alert)"
    using a by (simp add: RenderStatusBar_def Let_def inert_renderMessage [OF assms])
  assume k: "list_all (\<lambda>h. printable [of_char (kh_Key h)]) hints"
  have "printable (hint_text h)" if "h \<in> set hints" for h
    using k that a printable_append [of "[of_char (kh_Key h)]"] by (simp add: hint_text_def list_all_iff del: append.simps printable_pad)
  then show "inert (RenderCommandBar lib target hints cols hasAlert)"
    unfolding RenderCommandBar_def Let_def
    by (intro inert_renderMessage [OF assms]) (auto simp: a list_all_iff intro!: printable_join)
qed

section \<open>What stays on the screen\<close>

text \<open>The margins that ward has set last, and the bar that it has drawn last and not cleared.\<close>

fun screen_write :: "runes list \<times> runes option \<Rightarrow> runes terminal_write \<Rightarrow> runes list \<times> runes option" where
  "screen_write (m, bar) (Child d) = (m, bar)"
| "screen_write (m, bar) (ScrollRegion s) = (margins s, bar)"
| "screen_write (m, bar) (RepaintBar s) = (m, Some s)"
| "screen_write (m, bar) (ClearRow s) = (m, None)"

definition screen_of :: "runes terminal_write list \<Rightarrow> runes list \<times> runes option" where
  "screen_of ws = foldl screen_write ([], None) ws"

definition region_to :: "int \<Rightarrow> runes list" where
  "region_to n = [ascii (''1;'' @ show_int n)]"

definition protected_region :: "wrapper \<Rightarrow> bool" where
  "protected_region w \<longleftrightarrow> fst (screen_of (wr_writes w)) = region_to (wr_rows w - 1)"

definition bar_current :: "text_lib \<Rightarrow> wrapper \<Rightarrow> bool" where
  "bar_current lib w \<longleftrightarrow>
     (bc_mode (wr_cache w) \<noteq> BarHidden \<longrightarrow>
        wr_rendered w = render_cache lib (wr_cols w) (wr_rows w) (wr_cache w) [] \<and> snd (screen_of (wr_writes w)) = Some (wr_rendered w))"

definition wrapper_ok :: "text_lib \<Rightarrow> wrapper \<Rightarrow> bool" where
  "wrapper_ok lib w \<longleftrightarrow>
     wr_barScrollSeq w = scrollRegionSeq (wr_rows w - 1) \<and> wr_pty w = Setsize (wr_rows w) (wr_cols w)
     \<and> (wr_late w \<longrightarrow> wr_phase w = Restored)
     \<and> (if wr_phase w = Restored \<and> \<not> wr_late w then screen_of (wr_writes w) = (region_to (wr_rows w), None)
        else protected_region w \<and> bar_current lib w)"

lemma screen_of_append: "screen_of (ws @ us) = foldl screen_write (screen_of ws) us"
  by (simp add: screen_of_def)

lemma render_cache_shown: "bc_mode c \<noteq> BarHidden \<Longrightarrow> render_cache lib cols rows c old = render_cache lib cols rows c []"
  by (cases "bc_mode c") (simp_all add: render_cache_def)

lemma bar_step_cache: "\<not> bar_draws ev st \<Longrightarrow> bl_cache (fst (bar_step now ev st)) = bl_cache st"
  by (cases ev) (auto simp: bar_draws_def bar_step_def Let_def)

lemma show_next_mode: "bc_mode (bl_cache (show_next now st)) \<noteq> BarHidden"
  by (cases "bl_alertQueue st") (simp_all add: show_next_def showAlert_def showStatus_def showCleared_def)

lemma bar_draws_mode:
  assumes "bar_draws ev st"
  shows "bc_mode (bl_cache (fst (bar_step now ev st))) \<noteq> BarHidden"
proof (cases ev)
  case (BarEventCancelCommand gen)
  then show ?thesis using assms show_next_mode
    by (cases "bl_activeAlert st") (simp_all add: bar_draws_def bar_step_def restoreAfterCommand_def exitCommandMode_def showAlert_def Let_def)
next
  case (BarEventAction gen err msg)
  then show ?thesis using assms show_next_mode
    by (cases err) (simp_all add: bar_draws_def bar_step_def finish_action_def dismissAfterAction_def showAlert_def showStatus_def Let_def)
next
  case BarEventDismiss
  then show ?thesis using assms show_next_mode by (simp add: bar_draws_def bar_step_def)
qed (use assms in \<open>auto simp: bar_draws_def bar_step_def showAlert_def showStatus_def enter_command_def Let_def\<close>)

lemma draw_bar_current:
  "bc_mode (wr_cache w) \<noteq> BarHidden \<Longrightarrow> bar_current lib (draw_bar lib True w)"
  "protected_region (draw_bar lib True w) \<longleftrightarrow> protected_region w"
  using render_cache_shown [of "wr_cache w" lib "wr_cols w" "wr_rows w" "wr_rendered w"]
  by (cases "screen_of (wr_writes w)"; simp add: bar_current_def protected_region_def draw_bar_def Let_def screen_of_append)+

lemma output_read_screen:
  assumes "output_read tty (data, seq, cache) st = (st', ws)" and "fst s = margins seq" and "cache \<noteq> None \<longrightarrow> snd s = cache"
  shows "foldl screen_write s ws = s"
  using assms by (cases s) (auto simp: output_read_def case_prod_unfold Let_def split: if_splits option.splits)

lemma wrapper_step_ok:
  assumes "wrapper_step lib True stdinIsTTY w w'" "wrapper_ok lib w"
  shows "wrapper_ok lib w'"
  using assms(1)
proof cases
  case (wp_post b)
  have "bl_cache (ws_loop b) = wr_cache w"
    using wp_post(2,3) by (cases rule: ward_stepE) auto
  then show ?thesis using assms(2) wp_post(1) by (auto simp: wrapper_ok_def protected_region_def bar_current_def split: if_splits)
next
  case (wp_event ev evs now)
  let ?w = "w\<lparr>wr_bar := \<lparr>ws_loop = fst (bar_step now ev (ws_loop (wr_bar w))), ws_events = evs\<rparr>\<rparr>"
  have ph: "wr_phase w \<noteq> Restored" using wp_event(2) by auto
  show ?thesis
  proof (cases "bar_draws ev (ws_loop (wr_bar w))")
    case True
    then have "bar_current lib (draw_bar lib True ?w)" by (intro draw_bar_current(1)) (simp add: bar_draws_mode)
    moreover have "protected_region (draw_bar lib True ?w)"
      unfolding draw_bar_current(2) using assms(2) ph by (simp add: wrapper_ok_def protected_region_def)
    ultimately show ?thesis using assms(2) ph wp_event(1) True
      by (simp add: wrapper_ok_def loop_event_def) (simp add: draw_bar_def Let_def)
  next
    case False
    then show ?thesis using assms(2) ph wp_event(1) bar_step_cache [OF False, of now]
      by (auto simp: wrapper_ok_def loop_event_def protected_region_def bar_current_def)
  qed
next
  case (wp_output now data)
  let ?cache = "if bc_mode (wr_cache w) = BarHidden then None else Some (wr_rendered w)"
  obtain st' ws where o: "output_read True (data, wr_barScrollSeq w, ?cache) (wr_out w) = (st', ws)" by fastforce
  have ok: "wr_barScrollSeq w = scrollRegionSeq (wr_rows w - 1)" "protected_region w" "bar_current lib w" "\<not> wr_late w"
    using assms(2) wp_output(2) by (auto simp: wrapper_ok_def)
  have "foldl screen_write (screen_of (wr_writes w)) ws = screen_of (wr_writes w)"
    by (rule output_read_screen [OF o]) (use ok in \<open>auto simp: protected_region_def region_to_def bar_current_def\<close>)
  then show ?thesis using assms(2) ok wp_output o
    by (simp add: wrapper_ok_def read_output_def protected_region_def bar_current_def screen_of_append del: append_assoc)
next
  case (wp_resize now sz)
  obtain cols rows where sz: "sz = (cols, rows)" by (cases sz)
  let ?w = "w\<lparr>wr_cols := cols, wr_rows := rows, wr_pty := Setsize rows cols, wr_barScrollSeq := scrollRegionSeq (rows - 1),
       wr_writes := wr_writes w @ clearResizeBarRows (bc_mode (wr_cache w)) (wr_rows w) rows
         @ [ScrollRegion (resizeRepairSeq (rows - 1) (wr_lastOutputAt w) now)], wr_late := (wr_late w \<or> wr_phase w = Restored)\<rparr>"
  have p: "protected_region ?w" 
    by (cases "foldl screen_write (screen_of (wr_writes w)) (clearResizeBarRows (bc_mode (wr_cache w)) (wr_rows w) rows)")
      (simp add: protected_region_def screen_of_append region_to_def)
  show ?thesis
  proof (cases "bc_mode (wr_cache w) = BarHidden")
    case True
    then show ?thesis using p assms(2) wp_resize(1) by (auto simp: wrapper_ok_def handle_resize_def sz bar_current_def)
  next
    case False
    then have "bar_current lib (draw_bar lib True ?w)" by (intro draw_bar_current(1)) simp
    moreover have "protected_region (draw_bar lib True ?w)" using p draw_bar_current(2) by blast
    ultimately show ?thesis using assms(2) False wp_resize(1)
      by (auto simp: wrapper_ok_def handle_resize_def sz) (auto simp: draw_bar_def Let_def)
  qed
next
  case wp_restore
  then show ?thesis using assms(2)
    by (cases "screen_of (wr_writes w)") (simp add: wrapper_ok_def restore_screen_def screen_of_append region_to_def)
qed (use assms(2) in \<open>auto simp: wrapper_ok_def protected_region_def bar_current_def split: if_splits\<close>)

lemma wrapper_init_ok: "wrapper_ok lib (wrapper_init True sz)"
  by (cases sz) (simp add: wrapper_ok_def wrapper_init_def protected_region_def bar_current_def screen_of_def region_to_def ward_init_def bar_init_def)

lemma wrapper_reach_ok: "(wrapper_step lib True stdinIsTTY)\<^sup>*\<^sup>* (wrapper_init True sz) w \<Longrightarrow> wrapper_ok lib w"
  by (induction rule: rtranclp_induct) (auto intro: wrapper_step_ok wrapper_init_ok)

text \<open>
  When widths add up and colours have none, a message that fits gives a bar one column wider than asked for. The callers ask for
  one column less than the terminal has, to keep out of its last column, and so fill it.
\<close>

lemma renderMessage_width:
  assumes "\<And>a b. tl_width lib (a @ b) = tl_width lib a + tl_width lib b" and "tl_width lib [] = 0" and "\<And>st s. tl_width lib (tl_style lib st s) = tl_width lib s"
    and "tl_width lib [padChar] = 1" and "tl_width lib msg \<le> cols - tl_width lib (bar_prefix lib)"
  shows "tl_width lib (renderMessage lib style cols msg) = cols + 1"
proof -
  have "tl_width lib (replicate n padChar) = int n" for n
  proof (induction n)
    case (Suc n)
    then show ?case using assms(1) [of "[padChar]" "replicate n padChar"] assms(4) by simp
  qed (simp add: assms(2))
  then show ?thesis using assms(1,3,5) by (simp add: renderMessage_def Let_def)
qed

text \<open>Without a handler the reads pass to the child up to the first failed write.\<close>

lemma stdin_loop_plain:
  "\<not> list_ex sr_werr rs \<Longrightarrow> pty_bytes (stdin_loop False rs inCommand keys) = concat (map sr_data rs)"
  by (induction rs) auto

text \<open>Nobody waits for the resize handler: a resize that it handles after the restoration limits the scroll region of the terminal again.\<close>

lemma late_resize_limits_region:
  "\<exists>w. (wrapper_step lib True True)\<^sup>*\<^sup>* (wrapper_init True (80, 24)) w \<and> wr_phase w = Restored
     \<and> wr_rows w = 30 \<and> fst (screen_of (wr_writes w)) = region_to 29"
proof -
  let ?w0 = "wrapper_init True (80, 24)"
  let ?w1 = "?w0\<lparr>wr_phase := Drained\<rparr>"
  let ?w2 = "?w1\<lparr>wr_phase := Stopped\<rparr>"
  let ?w3 = "restore_screen True ?w2"
  let ?w4 = "handle_resize lib 0 (100, 30) ?w3"
  have "wrapper_step lib True True ?w0 ?w1" by (rule wp_drained) (simp add: wrapper_init_def)
  moreover have "wrapper_step lib True True ?w1 ?w2" by (rule wp_stopped) simp
  moreover have "wrapper_step lib True True ?w2 ?w3" by (rule wp_restore) simp
  moreover have "wrapper_step lib True True ?w3 ?w4" by (rule wp_resize) simp_all
  ultimately have r: "(wrapper_step lib True True)\<^sup>*\<^sup>* ?w0 ?w4" by (meson r_into_rtranclp rtranclp.rtrancl_into_rtrancl)
  have m: "bc_mode (wr_cache ?w3) = BarHidden" by (simp add: restore_screen_def wrapper_init_def ward_init_def bar_init_def)
  have d: "wr_phase ?w4 = Restored" "wr_rows ?w4 = 30" "wr_late ?w4" using m by (simp_all add: handle_resize_def restore_screen_def)
  have "protected_region ?w4" using wrapper_reach_ok [OF r] d by (simp add: wrapper_ok_def)
  then show ?thesis using r d by (intro exI [of _ ?w4]) (simp add: protected_region_def)
qed

section \<open>Properties\<close>


definition ex_text :: text_lib where
  "ex_text = \<lparr>tl_width = (\<lambda>s. int (length s)), tl_truncate = (\<lambda>s n. take (nat n) s),
     tl_style = (\<lambda>st s. [esc_rune] @ ascii ''[1m'' @ s @ [esc_rune] @ ascii ''[0m''), tl_gradientName = ascii ''vibepit''\<rparr>"


text \<open>
  C33. A message cannot take over the terminal. Whatever bytes a status, an alert, a target or the description of a key
  has, and whatever the width: the terminal sees the bar as one save of the cursor, the move to the row of the bar, its erasure,
  text in colours and the restoration of the cursor, and ends outside any sequence. The style library must put only colours around printable text.
\<close>

theorem bar_text_cannot_inject:
  assumes "text_lib_ok lib" "list_all (\<lambda>h. printable [of_char (kh_Key h)]) hints"
    and "bar \<in> {renderBarEsc lib cols rows message alert, renderCommandBarEsc lib cols rows target hints}"
  shows "\<exists>body. list_all coloured body
    \<and> term_runes TGround bar = (TGround, [EscSeq 0x37, CsiSeq (ascii (show_int rows @ '';1'')) 0x48, CsiSeq [] 0x4B] @ body @ [EscSeq 0x38])"
proof -
  obtain t where t: "bar = on_row rows t" "inert t"
    using assms bars_inert [OF assms(1)] by (auto simp: renderBarEsc_def renderCommandBarEsc_def Let_def)
  then show ?thesis using row_controls [OF t(2), of rows] by (auto simp: inert_def controls_def)
qed

theorem bar_text_cannot_inject_witness:
  "\<exists>body. list_all coloured body \<and> term_runes TGround (renderBarEsc ex_text 80 24 (''x'' @ [CHR 0x1B] @ ''[2J'') True)
     = (TGround, [EscSeq 0x37, CsiSeq (ascii ''24;1'') 0x48, CsiSeq [] 0x4B] @ body @ [EscSeq 0x38])"
proof -
  have sgr: "inert ([esc_rune] @ ascii ''[1m'')" "inert ([esc_rune] @ ascii ''[0m'')" by (simp_all add: inert_def esc_rune_def ascii_def)
  have "inert (tl_style ex_text st s)" if "printable s" for st s
    using inert_append [OF sgr(1) inert_append [OF inert_printable [OF that] sgr(2)]] by (simp add: ex_text_def)
  moreover have "printable (take n s)" if "printable s" for n s using that by (auto simp: printable_def dest: in_set_takeD)
  moreover have "inert (ascii ''vibepit'')" by (simp add: inert_def ascii_def)
  ultimately have "text_lib_ok ex_text" by (simp add: text_lib_ok_def) (simp add: ex_text_def)
  moreover have "show_int 24 = ''24''" by code_simp
  ultimately show ?thesis
    using bar_text_cannot_inject [of ex_text "[]" "renderBarEsc ex_text 80 24 (''x'' @ [CHR 0x1B] @ ''[2J'') True" 80 24 "''x'' @ [CHR 0x1B] @ ''[2J''" True "[]"]
    by simp
qed

end
