(* ===== verification/Connect.thy ===== *)
theory Connect
  imports SSH_Access Ward_Screen
begin

text \<open>
  The command \<^verbatim>\<open>connect\<close>, \<^verbatim>\<open>cmd/connect.go\<close>, and the way of typed input on both sides of the connection. A goroutine owns the reads and puts
  chunks into a channel of 16 slots; on the host they go to the shell until the session ends and then to the prompt, in the sandbox
  to the session selector until a session is chosen and then to that session. Goroutines and their \<^verbatim>\<open>select\<close>s are step relations in which any ready case may come.
  The keepalive loops of \<^verbatim>\<open>sshd/server.go\<close> are functions of what their \<^verbatim>\<open>select\<close> receives.
\<close>

section \<open>The reader\<close>

text \<open>
  \<open>pu_typed\<close> is everything read so far, \<open>pu_held\<close> the chunk that waits for a free slot and \<open>pu_route\<close> where each piece that left the channel
  went. \<open>stop\<close> is the channel that releases a blocked reader, which only the side of the sandbox has.
\<close>

record 'd pump =
  pu_typed :: string
  pu_held :: "string option"
  pu_ch :: "string list"
  pu_closed :: bool
  pu_dropped :: string
  pu_route :: "('d \<times> string) list"

definition new_pump :: "'d pump" where
  "new_pump = \<lparr>pu_typed = [], pu_held = None, pu_ch = [], pu_closed = False, pu_dropped = [], pu_route = []\<rparr>"

inductive reader_step :: "bool \<Rightarrow> 'd pump \<Rightarrow> 'd pump \<Rightarrow> bool" for stop where
  rd_read: "pu_held p = None \<Longrightarrow> \<not> pu_closed p \<Longrightarrow> data \<noteq> [] \<Longrightarrow>
    reader_step stop p (p\<lparr>pu_typed := pu_typed p @ data, pu_held := Some data\<rparr>)"
| rd_send: "pu_held p = Some d \<Longrightarrow> length (pu_ch p) < 16 \<Longrightarrow> reader_step stop p (p\<lparr>pu_held := None, pu_ch := pu_ch p @ [d]\<rparr>)"
| rd_release: "stop \<Longrightarrow> pu_held p = Some d \<Longrightarrow> reader_step stop p (p\<lparr>pu_held := None, pu_dropped := d, pu_closed := True\<rparr>)"
| rd_end: "pu_held p = None \<Longrightarrow> \<not> pu_closed p \<Longrightarrow> reader_step stop p (p\<lparr>pu_closed := True\<rparr>)"

definition route_chunk :: "('d \<times> string) list \<Rightarrow> string list \<Rightarrow> 'd pump \<Rightarrow> 'd pump" where
  "route_chunk pieces rest p = p\<lparr>pu_ch := rest, pu_route := pu_route p @ pieces\<rparr>"

definition waiting :: "'d pump \<Rightarrow> string" where
  "waiting p = concat (pu_ch p) @ (case pu_held p of Some d \<Rightarrow> d | None \<Rightarrow> [])"

definition got :: "'d \<Rightarrow> 'd pump \<Rightarrow> string" where
  "got d p = concat (map snd (filter (\<lambda>x. fst x = d) (pu_route p)))"

definition pipe_ok :: "'d pump \<Rightarrow> bool" where
  "pipe_ok p \<longleftrightarrow> pu_typed p = concat (map snd (pu_route p)) @ waiting p @ pu_dropped p \<and> length (pu_ch p) \<le> 16
     \<and> (pu_dropped p \<noteq> [] \<longrightarrow> pu_closed p \<and> pu_held p = None) \<and> (pu_closed p \<longrightarrow> pu_held p = None)"

definition takes :: "'d pump \<Rightarrow> 'd pump \<Rightarrow> bool" where
  "takes p p' \<longleftrightarrow> (\<exists>d rest pieces. pu_ch p = d # rest \<and> concat (map snd pieces) = d \<and> p' = route_chunk pieces rest p)"

lemma takesI: "pu_ch p = d # rest \<Longrightarrow> concat (map snd pieces) = d \<Longrightarrow> takes p (route_chunk pieces rest p)"
  by (auto simp: takes_def)

text \<open>A pipeline is any system in which the reader fills the channel and others take chunks off its front.\<close>

locale input_pipeline =
  fixes step :: "'s \<Rightarrow> 's \<Rightarrow> bool" and pump_of :: "'s \<Rightarrow> 'd pump"
  assumes step_pump: "step s s' \<Longrightarrow> pump_of s' = pump_of s \<or> (\<exists>stop. reader_step stop (pump_of s) (pump_of s')) \<or> takes (pump_of s) (pump_of s')"
begin

lemma step_ok: "step s s' \<Longrightarrow> pipe_ok (pump_of s) \<Longrightarrow> pipe_ok (pump_of s')"
  by (drule step_pump) (auto simp: pipe_ok_def waiting_def route_chunk_def takes_def elim!: reader_step.cases)

lemma step_route: "step s s' \<Longrightarrow> \<exists>pieces. pu_route (pump_of s') = pu_route (pump_of s) @ pieces"
  by (drule step_pump) (auto simp: route_chunk_def takes_def elim!: reader_step.cases)

lemma reach_ok: "step\<^sup>*\<^sup>* s s' \<Longrightarrow> pipe_ok (pump_of s) \<Longrightarrow> pipe_ok (pump_of s')"
  by (induction rule: rtranclp_induct) (auto intro: step_ok)

lemma reach_route: "step\<^sup>*\<^sup>* s s' \<Longrightarrow> \<exists>pieces. pu_route (pump_of s') = pu_route (pump_of s) @ pieces"
  by (induction rule: rtranclp_induct) (auto dest!: step_route)

end

lemma new_pipe_ok: "pipe_ok new_pump"
  by (simp add: pipe_ok_def new_pump_def waiting_def)

section \<open>On the host\<close>

datatype host_dest = ToShell | ToNowhere | ToPrompt

datatype copy_phase = Copying | CopyEnded | Prompting

text \<open>\<open>cr_stop\<close> tells whether \<^verbatim>\<open>stopCopy\<close> is closed and \<open>cr_raw\<close> whether the terminal is in raw mode.\<close>

record connect_run =
  cr_pump :: "host_dest pump"
  cr_phase :: copy_phase
  cr_stop :: bool
  cr_raw :: bool

definition connect_init :: connect_run where
  "connect_init = \<lparr>cr_pump = new_pump, cr_phase = Copying, cr_stop = False, cr_raw = True\<rparr>"

text \<open>
  A write to the pipe that fails may have taken a part of the chunk. The main goroutine closes \<^verbatim>\<open>stopCopy\<close> when the session has
  ended, waits for the copy goroutine and restores the terminal; only then the prompt reads.
\<close>

inductive connect_step :: "connect_run \<Rightarrow> connect_run \<Rightarrow> bool" where
  cn_reader: "reader_step False (cr_pump w) p \<Longrightarrow> connect_step w (w\<lparr>cr_pump := p\<rparr>)"
| cn_copy: "cr_phase w = Copying \<Longrightarrow> pu_ch (cr_pump w) = d # rest \<Longrightarrow>
    connect_step w (w\<lparr>cr_pump := route_chunk [(ToShell, d)] rest (cr_pump w)\<rparr>)"
| cn_copy_fails: "cr_phase w = Copying \<Longrightarrow> pu_ch (cr_pump w) = (d @ d') # rest \<Longrightarrow>
    connect_step w (w\<lparr>cr_pump := route_chunk [(ToShell, d), (ToNowhere, d')] rest (cr_pump w), cr_phase := CopyEnded\<rparr>)"
| cn_copy_eof: "cr_phase w = Copying \<Longrightarrow> pu_ch (cr_pump w) = [] \<Longrightarrow> pu_closed (cr_pump w) \<Longrightarrow> connect_step w (w\<lparr>cr_phase := CopyEnded\<rparr>)"
| cn_copy_stopped: "cr_phase w = Copying \<Longrightarrow> cr_stop w \<Longrightarrow> connect_step w (w\<lparr>cr_phase := CopyEnded\<rparr>)"
| cn_session_ends: "connect_step w (w\<lparr>cr_stop := True\<rparr>)"
| cn_prompt: "cr_phase w = CopyEnded \<Longrightarrow> cr_stop w \<Longrightarrow> connect_step w (w\<lparr>cr_phase := Prompting, cr_raw := False\<rparr>)"
| cn_prompt_read: "cr_phase w = Prompting \<Longrightarrow> pu_ch (cr_pump w) = d # rest \<Longrightarrow>
    connect_step w (w\<lparr>cr_pump := route_chunk [(ToPrompt, d)] rest (cr_pump w)\<rparr>)"

inductive_cases connect_stepE: "connect_step w w'"

interpretation host_input: input_pipeline connect_step cr_pump
proof unfold_locales
  fix s s' assume "connect_step s s'"
  then show "cr_pump s' = cr_pump s \<or> (\<exists>stop. reader_step stop (cr_pump s) (cr_pump s')) \<or> takes (cr_pump s) (cr_pump s')"
    by (elim connect_stepE) (auto intro: takesI)
qed

section \<open>In the sandbox\<close>

datatype sandbox_dest = ToSelector | ToSession | ToDropped

text \<open>
  \<open>sb_chosen\<close>: the selector has returned and \<^verbatim>\<open>cr.done\<close> is closed. \<open>sb_reading\<close>: the read loop of the selector has not ended yet; while it runs, its \<^verbatim>\<open>select\<close>
  may take a chunk even though \<^verbatim>\<open>cr.done\<close> is closed. \<open>sb_failed\<close>: a write to the session has failed, which ends the copy. \<open>sb_returned\<close>: the handler has returned and \<^verbatim>\<open>inputDone\<close> is closed.
\<close>

record sandbox_input =
  sb_pump :: "sandbox_dest pump"
  sb_chosen :: bool
  sb_reading :: bool
  sb_failed :: bool
  sb_returned :: bool

definition sandbox_init :: sandbox_input where
  "sandbox_init = \<lparr>sb_pump = new_pump, sb_chosen = False, sb_reading = True, sb_failed = False, sb_returned = False\<rparr>"

inductive sandbox_step :: "sandbox_input \<Rightarrow> sandbox_input \<Rightarrow> bool" where
  sx_reader: "reader_step (sb_returned w) (sb_pump w) p \<Longrightarrow> sandbox_step w (w\<lparr>sb_pump := p\<rparr>)"
| sx_select: "sb_reading w \<Longrightarrow> pu_ch (sb_pump w) = d # rest \<Longrightarrow>
    sandbox_step w (w\<lparr>sb_pump := route_chunk [(ToSelector, d)] rest (sb_pump w)\<rparr>)"
| sx_chosen: "sandbox_step w (w\<lparr>sb_chosen := True\<rparr>)"
| sx_read_ends: "sb_chosen w \<or> (pu_ch (sb_pump w) = [] \<and> pu_closed (sb_pump w)) \<Longrightarrow> sandbox_step w (w\<lparr>sb_reading := False\<rparr>)"
| sx_copy: "sb_chosen w \<Longrightarrow> \<not> sb_failed w \<Longrightarrow> pu_ch (sb_pump w) = d # rest \<Longrightarrow>
    sandbox_step w (w\<lparr>sb_pump := route_chunk [(ToSession, d)] rest (sb_pump w)\<rparr>)"
| sx_copy_fails: "sb_chosen w \<Longrightarrow> \<not> sb_failed w \<Longrightarrow> pu_ch (sb_pump w) = (d @ d') # rest \<Longrightarrow>
    sandbox_step w (w\<lparr>sb_pump := route_chunk [(ToSession, d), (ToDropped, d')] rest (sb_pump w), sb_failed := True\<rparr>)"
| sx_return: "sandbox_step w (w\<lparr>sb_returned := True\<rparr>)"

inductive_cases sandbox_stepE: "sandbox_step w w'"

interpretation box_input: input_pipeline sandbox_step sb_pump
proof unfold_locales
  fix s s' assume "sandbox_step s s'"
  then show "sb_pump s' = sb_pump s \<or> (\<exists>stop. reader_step stop (sb_pump s) (sb_pump s')) \<or> takes (sb_pump s) (sb_pump s')"
    by (elim sandbox_stepE) (auto intro: takesI)
qed

section \<open>Where the input goes\<close>

definition connect_ok :: "connect_run \<Rightarrow> bool" where
  "connect_ok w \<longleftrightarrow>
     (\<exists>xs ys zs. pu_route (cr_pump w) = map (Pair ToShell) xs @ map (Pair ToNowhere) ys @ map (Pair ToPrompt) zs
        \<and> (cr_phase w = Copying \<longrightarrow> ys = []) \<and> (cr_phase w \<noteq> Prompting \<longrightarrow> zs = []))
     \<and> cr_raw w = (cr_phase w \<noteq> Prompting) \<and> pu_dropped (cr_pump w) = []"

lemma reader_keeps: "reader_step stop p p' \<Longrightarrow> pu_route p' = pu_route p \<and> (\<not> stop \<longrightarrow> pu_dropped p' = pu_dropped p)"
  by (auto elim: reader_step.cases)

lemma connect_step_ok:
  assumes "connect_step w w'" "connect_ok w"
  shows "connect_ok w'"
proof -
  obtain xs ys zs where r: "pu_route (cr_pump w) = map (Pair ToShell) xs @ map (Pair ToNowhere) ys @ map (Pair ToPrompt) zs"
    "cr_phase w = Copying \<longrightarrow> ys = []" "cr_phase w \<noteq> Prompting \<longrightarrow> zs = []"
    and o: "cr_raw w = (cr_phase w \<noteq> Prompting)" "pu_dropped (cr_pump w) = []"
    using assms(2) unfolding connect_ok_def by (elim exE conjE) (rule that)
  from assms(1) show ?thesis
  proof cases
    case (cn_reader p)
    then show ?thesis using r o reader_keeps [OF cn_reader(2)] by (auto simp: connect_ok_def)
  next
    case (cn_copy d rest)
    then show ?thesis using r o unfolding connect_ok_def
      by (intro conjI exI [of _ "xs @ [d]"] exI [of _ "[]"]) (simp_all add: route_chunk_def)
  next
    case (cn_copy_fails d d' rest)
    then show ?thesis using r o unfolding connect_ok_def
      by (intro conjI exI [of _ "xs @ [d]"] exI [of _ "[d']"] exI [of _ "[]"]) (simp_all add: route_chunk_def)
  next
    case cn_prompt
    then show ?thesis using r o unfolding connect_ok_def by (intro conjI exI [of _ xs] exI [of _ ys] exI [of _ zs]) simp_all
  next
    case (cn_prompt_read d rest)
    then show ?thesis using r o unfolding connect_ok_def
      by (intro conjI exI [of _ xs] exI [of _ ys] exI [of _ "zs @ [d]"]) (simp_all add: route_chunk_def)
  qed (use r o in \<open>auto simp: connect_ok_def\<close>)
qed

lemma connect_reach_ok: "connect_step\<^sup>*\<^sup>* connect_init w \<Longrightarrow> connect_ok w"
  by (induction rule: rtranclp_induct) (auto intro: connect_step_ok, simp add: connect_ok_def connect_init_def new_pump_def)

lemma got_route:
  "pu_route p = map (Pair ToShell) xs @ map (Pair ToNowhere) ys @ map (Pair ToPrompt) zs \<Longrightarrow>
   got ToShell p = concat xs \<and> got ToNowhere p = concat ys \<and> got ToPrompt p = concat zs
   \<and> concat (map snd (pu_route p)) = concat xs @ concat ys @ concat zs"
  by (auto simp: got_def filter_map o_def)

text \<open>Once the copy has ended, the shell gets nothing more.\<close>

lemma shell_closed:
  assumes "connect_step\<^sup>*\<^sup>* w w'" "cr_phase w \<noteq> Copying"
  shows "cr_phase w' \<noteq> Copying \<and> got ToShell (cr_pump w') = got ToShell (cr_pump w) \<and> got ToNowhere (cr_pump w') = got ToNowhere (cr_pump w)"
  using assms(1)
proof (induction rule: rtranclp_induct)
  case (step y z)
  from step(2) step.IH show ?case
    by cases (auto simp: got_def route_chunk_def dest: reader_keeps)
qed (use assms(2) in simp)

text \<open>The prompt's reader over what is still on its way.\<close>

definition prompt_reader :: "'d pump \<Rightarrow> byte_reader" where
  "prompt_reader p = \<lparr>br_buf = [], br_ch = pu_ch p @ (case pu_held p of Some d \<Rightarrow> [d] | None \<Rightarrow> []), br_closed = pu_closed p, br_done = False\<rparr>"

lemma prompt_reader_unread: "unread (prompt_reader p) = waiting p"
  by (simp add: prompt_reader_def unread_def waiting_def split: option.splits)

text \<open>
  The comment in \<^verbatim>\<open>handlePTYSession\<close> says that the read loop of the selector never steals from the session. It can: after a session was
  chosen, the next chunk may still go to the selector.
\<close>

lemma selector_steals:
  "\<exists>w. sandbox_step\<^sup>*\<^sup>* sandbox_init w \<and> sb_chosen w \<and> got ToSelector (sb_pump w) = ''ls'' \<and> pu_typed (sb_pump w) = ''ls''
     \<and> (\<exists>w0. sandbox_step\<^sup>*\<^sup>* sandbox_init w0 \<and> sb_chosen w0 \<and> pu_typed (sb_pump w0) = [] \<and> sandbox_step\<^sup>*\<^sup>* w0 w)"
proof -
  let ?w0 = "sandbox_init\<lparr>sb_chosen := True\<rparr>"
  let ?p1 = "(new_pump :: sandbox_dest pump)\<lparr>pu_typed := [] @ ''ls'', pu_held := Some ''ls''\<rparr>"
  let ?p2 = "?p1\<lparr>pu_held := None, pu_ch := [] @ [''ls'']\<rparr>"
  let ?p3 = "route_chunk [(ToSelector, ''ls'')] [] ?p2"
  have 0: "sandbox_step sandbox_init ?w0" by (rule sx_chosen)
  have r1: "reader_step (sb_returned ?w0) (sb_pump ?w0) ?p1"
    using rd_read [of "sb_pump ?w0" "''ls''"] by (simp add: sandbox_init_def new_pump_def)
  have 1: "sandbox_step ?w0 (?w0\<lparr>sb_pump := ?p1\<rparr>)" by (rule sx_reader [OF r1])
  have r2: "reader_step (sb_returned (?w0\<lparr>sb_pump := ?p1\<rparr>)) (sb_pump (?w0\<lparr>sb_pump := ?p1\<rparr>)) ?p2"
    using rd_send [of ?p1 "''ls''"] by (simp add: new_pump_def sandbox_init_def)
  have 2: "sandbox_step (?w0\<lparr>sb_pump := ?p1\<rparr>) (?w0\<lparr>sb_pump := ?p2\<rparr>)" using sx_reader [OF r2] by simp
  have 3: "sandbox_step (?w0\<lparr>sb_pump := ?p2\<rparr>) (?w0\<lparr>sb_pump := ?p3\<rparr>)"
    using sx_select [of "?w0\<lparr>sb_pump := ?p2\<rparr>" "''ls''" "[]"] by (simp add: sandbox_init_def)
  have r: "sandbox_step\<^sup>*\<^sup>* ?w0 (?w0\<lparr>sb_pump := ?p3\<rparr>)" using 1 2 3 by (meson r_into_rtranclp rtranclp.rtrancl_into_rtrancl)
  then have "sandbox_step\<^sup>*\<^sup>* sandbox_init (?w0\<lparr>sb_pump := ?p3\<rparr>)" using 0 by (meson converse_rtranclp_into_rtranclp)
  then show ?thesis using r 0
    by (intro exI [of _ "?w0\<lparr>sb_pump := ?p3\<rparr>"] conjI exI [of _ ?w0]) (auto simp: got_def route_chunk_def new_pump_def sandbox_init_def)
qed

text \<open>In the sandbox every byte goes to one place and keeps its order, and after the read loop of the selector has ended, none goes to the selector.\<close>

lemma sandbox_input_routed:
  assumes "sandbox_step\<^sup>*\<^sup>* sandbox_init w"
  shows "pipe_ok (sb_pump w)"
  by (rule box_input.reach_ok [OF assms]) (simp add: sandbox_init_def new_pipe_ok)

lemma selector_ended:
  assumes "sandbox_step\<^sup>*\<^sup>* w w'" "\<not> sb_reading w"
  shows "\<not> sb_reading w' \<and> got ToSelector (sb_pump w') = got ToSelector (sb_pump w)"
  using assms(1)
proof (induction rule: rtranclp_induct)
  case (step y z)
  from step(2) step.IH show ?case
    by cases (auto simp: got_def route_chunk_def dest: reader_keeps)
qed (use assms(2) in simp)

section \<open>The command\<close>

text \<open>\<^verbatim>\<open>strings.ReplaceAll\<close>; the empty text matches before each character and at the end.\<close>

fun replace_empty :: "string \<Rightarrow> string \<Rightarrow> string" where
  "replace_empty new [] = new"
| "replace_empty new (c # s) = (if cont_byte (of_char c) then c # replace_empty new s else new @ c # replace_empty new s)"

function replace_text :: "string \<Rightarrow> string \<Rightarrow> string \<Rightarrow> string" where
  "replace_text old new s =
     (if s = [] \<or> old = [] then s
      else if has_prefix old s then new @ replace_text old new (drop (length old) s)
      else hd s # replace_text old new (tl s))"
  by pat_completeness auto
termination
  by (relation "measure (\<lambda>(old, new, s). length s)") (auto simp: neq_Nil_conv)

declare replace_text.simps [simp del]

definition ReplaceAll :: "string \<Rightarrow> string \<Rightarrow> string \<Rightarrow> string" where
  "ReplaceAll s old new = (if old = [] then replace_empty new s else replace_text old new s)"

definition slashes :: string where "slashes = [CHR 0xE2, CHR 0x95, CHR 0xB1, CHR 0xE2, CHR 0x95, CHR 0xB1]"

text \<open>What the command learns from outside, in the order in which it asks.\<close>

record connect_env =
  ce_conn :: "(ssh_client_config \<times> RunningSession) act"
  ce_session :: "string option"
  ce_bar :: bool
  ce_getenv :: "string \<Rightarrow> string"
  ce_exe :: "string + string"
  ce_args :: "string list"
  ce_pid :: nat
  ce_ward :: "Options \<Rightarrow> StatusUpdate \<Rightarrow> int \<times> string option"
  ce_raw :: "string option"
  ce_size :: "(int \<times> int) option"
  ce_pty :: "string option"
  ce_pipe :: "string option"
  ce_shell :: "string option"
  ce_wait :: "string + uint32"
  ce_isTerminal :: bool
  ce_count :: "(bool \<times> SessionCountReply option) option"
  ce_stdin :: byte_reader
  ce_down :: "unit act"

datatype connect_effect =
    RunWard Options StatusUpdate
  | MakeRaw
  | RequestPty string int int
  | StartShell
  | StopCopy
  | RestoreTerminal
  | TellDisconnected
  | LastExit last_exit_effect

definition ward_options :: "connect_env \<Rightarrow> string \<Rightarrow> Options" where
  "ward_options ce exe =
     NewWrapper \<lparr>op_Command = exe # ce_args ce, op_Hotkey = CHR 0x00,
       op_Env = [''VIBEPIT_WARD_PARENT='' @ show_nat (ce_pid ce)], op_OnKey = True\<rparr>"

definition ward_status :: "connect_env \<Rightarrow> RunningSession \<Rightarrow> StatusUpdate" where
  "ward_status ce sandbox =
     \<lparr>su_Message = slashes @ '' '' @ ReplaceAll (rn_ProjectDir sandbox) (ce_getenv ce ''HOME'') ''~'' @ '' '' @ slashes @ '' '' @ rn_SessionID sandbox,
      su_Alert = False, su_Timeout = 0, su_Target = [], su_KeyHints = []\<rparr>"

definition connect_ward :: "connect_env \<Rightarrow> RunningSession \<Rightarrow> exec_result \<times> connect_effect list" where
  "connect_ward ce sandbox =
     (case ce_exe ce of
        Inl e \<Rightarrow> (ExecError (StepFailed ''resolve executable'' e), [])
      | Inr exe \<Rightarrow>
          let opts = ward_options ce exe; su = ward_status ce sandbox; (exitCode, err) = ce_ward ce opts su in
          (case err of Some e \<Rightarrow> ExecError (StepFailed ''ward'' e) | None \<Rightarrow> if exitCode \<noteq> 0 then CommandExit exitCode else ExecOK, [RunWard opts su]))"

definition connect_ended :: "connect_env \<Rightarrow> exec_result \<times> connect_effect list" where
  "connect_ended ce =
     (case ce_wait ce of
        Inl e \<Rightarrow> (ExecError (StepFailed ''wait'' e), [])
      | Inr status \<Rightarrow>
          (case connect_finish status of
             Disconnected \<Rightarrow> (ExecOK, [TellDisconnected])
           | ExitedWith code \<Rightarrow> (ExecError (StepFailed ''status'' (show_int code)), [])
           | AskLastExit \<Rightarrow>
               let effs = handleLastExit (ce_isTerminal ce) (ce_count ce) (ce_stdin ce) in
               (if ShutDown \<in> set effs then (case fst (ce_down ce) of Inl e \<Rightarrow> ExecError e | Inr _ \<Rightarrow> ExecOK) else ExecOK, map LastExit effs)))"

definition connect_shell :: "connect_env \<Rightarrow> exec_result \<times> connect_effect list" where
  "connect_shell ce =
     (case ce_raw ce of Some e \<Rightarrow> (ExecError (StepFailed ''raw terminal'' e), []) | None \<Rightarrow>
      let (w, h) = (case ce_size ce of Some wh \<Rightarrow> wh | None \<Rightarrow> (80, 24));
          pre = [MakeRaw, RequestPty (containerTerm (ce_getenv ce ''TERM'')) h w]
      in case ce_pty ce of Some e \<Rightarrow> (ExecError (StepFailed ''request pty'' e), pre @ [RestoreTerminal]) | None \<Rightarrow>
         (case ce_pipe ce of Some e \<Rightarrow> (ExecError (StepFailed ''stdin pipe'' e), pre @ [RestoreTerminal]) | None \<Rightarrow>
         (case ce_shell ce of Some e \<Rightarrow> (ExecError (StepFailed ''start shell'' e), pre @ [StartShell, RestoreTerminal]) | None \<Rightarrow>
            let (res, effs) = connect_ended ce in (res, pre @ [StartShell, StopCopy, RestoreTerminal] @ effs))))"

definition ConnectAction :: "connect_env \<Rightarrow> exec_result \<times> connect_effect list" where
  "ConnectAction ce =
     (case fst (ce_conn ce) of Inl e \<Rightarrow> (ExecError e, []) | Inr (cfg, sandbox) \<Rightarrow>
     (case ce_session ce of Some e \<Rightarrow> (ExecError (StepFailed ''connect session'' e), []) | None \<Rightarrow>
      if ce_bar ce \<and> ce_getenv ce ''VIBEPIT_WARD_PARENT'' = [] then connect_ward ce sandbox else connect_shell ce))"

text \<open>A terminal that was made raw is restored exactly once, after the copy has ended and before anything is asked.\<close>

lemma connect_shell_effects:
  "\<exists>t h w. snd (connect_shell ce) \<in> {[], [MakeRaw, RequestPty t h w, RestoreTerminal], [MakeRaw, RequestPty t h w, StartShell, RestoreTerminal],
     [MakeRaw, RequestPty t h w, StartShell, StopCopy, RestoreTerminal] @ snd (connect_ended ce)}"
proof -
  let ?wh = "case ce_size ce of Some wh \<Rightarrow> wh | None \<Rightarrow> (80, 24)"
  show ?thesis
    by (rule exI [of _ "containerTerm (ce_getenv ce ''TERM'')"], rule exI [of _ "snd ?wh"], rule exI [of _ "fst ?wh"],
        cases "ce_raw ce"; cases "ce_pty ce"; cases "ce_pipe ce"; cases "ce_shell ce")
      (simp_all add: connect_shell_def Let_def case_prod_unfold)
qed

lemma connect_ended_effects: "x \<in> set (snd (connect_ended ce)) \<Longrightarrow> x = TellDisconnected \<or> (\<exists>y. x = LastExit y)"
  by (auto simp: connect_ended_def Let_def split: sum.splits connect_end.splits)

lemma ConnectAction_effects:
  "snd (ConnectAction ce) = [] \<or> (\<exists>opts su. snd (ConnectAction ce) = [RunWard opts su]) \<or> snd (ConnectAction ce) = snd (connect_shell ce)"
  by (cases "fst (ce_conn ce)"; cases "ce_session ce"; cases "ce_exe ce") (auto simp: ConnectAction_def connect_ward_def Let_def case_prod_unfold)

definition restored_before_asking :: "connect_effect list \<Rightarrow> bool" where
  "restored_before_asking es \<longleftrightarrow> count_list es RestoreTerminal = count_list es MakeRaw \<and> count_list es MakeRaw \<le> 1
     \<and> (\<forall>a e b. es = a @ LastExit e # b \<longrightarrow> {MakeRaw, StopCopy, RestoreTerminal} \<subseteq> set a)"

lemma connect_restores: "restored_before_asking (snd (ConnectAction ce))"
proof -
  obtain effs where e: "snd (connect_ended ce) = effs" by blast
  have plain: "\<And>x. x \<in> set effs \<Longrightarrow> x = TellDisconnected \<or> (\<exists>y. x = LastExit y)" using connect_ended_effects e by blast
  then have c: "count_list effs RestoreTerminal = 0" "count_list effs MakeRaw = 0" by (auto simp: count_list_0_iff)
  have "restored_before_asking []" "\<And>opts su. restored_before_asking [RunWard opts su]"
    "\<And>t h w. restored_before_asking [MakeRaw, RequestPty t h w, RestoreTerminal]"
    "\<And>t h w. restored_before_asking [MakeRaw, RequestPty t h w, StartShell, RestoreTerminal]"
    by (simp_all add: restored_before_asking_def Cons_eq_append_conv)
  moreover have "restored_before_asking ([MakeRaw, RequestPty t h w, StartShell, StopCopy, RestoreTerminal] @ effs)" for t h w
    using c by (auto simp: restored_before_asking_def Cons_eq_append_conv)
  ultimately show ?thesis using ConnectAction_effects [of ce] connect_shell_effects [of ce] e by auto
qed

section \<open>Keepalives\<close>

definition keepaliveRequestType :: string where "keepaliveRequestType = ''keepalive@openssh.com''"
definition idleConnectionTimeout :: int where "idleConnectionTimeout = 120000000000"
definition execKeepaliveInterval :: int where "execKeepaliveInterval = 30000000000"

text \<open>
  One turn of the loop of a PTY session: a tick with the answer of the peer, with none after three seconds or with the end of the connection while it waited, or the end of the connection before a tick. The
  result is the reason with which the loop closes the client, \<^term>\<open>None\<close> while it runs.
\<close>

datatype keepalive_turn = Answered "string option" | Unanswered | EndedWaiting | Ended

fun pty_keepalive :: "keepalive_turn list \<Rightarrow> DetachReason option" where
  "pty_keepalive [] = None"
| "pty_keepalive (Answered None # ts) = pty_keepalive ts"
| "pty_keepalive (Answered (Some e) # ts) = Some DetachKeepalive"
| "pty_keepalive (Unanswered # ts) = Some DetachKeepalive"
| "pty_keepalive (EndedWaiting # ts) = Some DetachDisconnect"
| "pty_keepalive (Ended # ts) = Some DetachDisconnect"

datatype exec_turn = ExecTick | ExecDone | ExecCancelled

fun execKeepalive :: "exec_turn list \<Rightarrow> string list" where
  "execKeepalive [] = []"
| "execKeepalive (ExecTick # ts) = keepaliveRequestType # execKeepalive ts"
| "execKeepalive (ExecDone # ts) = []"
| "execKeepalive (ExecCancelled # ts) = []"

text \<open>A client that answers is never closed; one that fails is closed as lost, so that its exit status tells a disconnect and nobody is asked about a shutdown.\<close>

lemma keepalive_lost:
  assumes "pty_keepalive ts = Some r"
  shows "detachExitCode r = DisconnectExitCode \<and> connect_finish (exit_status_payload (detachExitCode r)) = Disconnected"
proof -
  have "r = DetachKeepalive \<or> r = DetachDisconnect" using assms by (induction ts rule: pty_keepalive.induct) auto
  then show ?thesis by (auto simp: detachExitCode_def connect_finish_def isSandboxDisconnect_def exit_status_payload_def DisconnectExitCode_def)
qed

lemma keepalive_answered: "list_all (\<lambda>t. t = Answered None) ts \<Longrightarrow> pty_keepalive ts = None"
  by (induction ts) auto

lemma execKeepalive_counts: "list_all (\<lambda>t. t = ExecTick) ts \<Longrightarrow> length (execKeepalive ts) = length ts"
  by (induction ts) auto

text \<open>Requests come four times as often as the server needs them to keep an idle connection.\<close>

lemma keepalive_before_timeout: "4 * execKeepaliveInterval = idleConnectionTimeout"
  by (simp add: execKeepaliveInterval_def idleConnectionTimeout_def)

section \<open>Properties\<close>

text \<open>
  C27. Typing goes where it belongs. In every interleaving of the reader of standard input, the copy to the shell, the end of
  the session and the prompt: everything typed is, in this order, with the shell, lost in one write that failed, with the prompt, or still waiting, at most sixteen chunks in the channel.
  The prompt gets input only after the copy has ended and the terminal is restored, and from the end of the copy on the shell gets nothing more. The first line that the prompt
  reads is the first line that is waiting when it starts.
\<close>

theorem input_routed_in_order:
  assumes "connect_step\<^sup>*\<^sup>* connect_init w"
  shows "pu_typed (cr_pump w) = got ToShell (cr_pump w) @ got ToNowhere (cr_pump w) @ got ToPrompt (cr_pump w) @ waiting (cr_pump w)
    \<and> length (pu_ch (cr_pump w)) \<le> 16
    \<and> (cr_phase w = Copying \<longrightarrow> got ToNowhere (cr_pump w) = [])
    \<and> (cr_raw w \<longleftrightarrow> cr_phase w \<noteq> Prompting) \<and> (cr_raw w \<longrightarrow> got ToPrompt (cr_pump w) = [])
    \<and> (\<forall>w'. cr_phase w \<noteq> Copying \<longrightarrow> connect_step\<^sup>*\<^sup>* w w' \<longrightarrow>
          got ToShell (cr_pump w') = got ToShell (cr_pump w) \<and> got ToNowhere (cr_pump w') = got ToNowhere (cr_pump w))
    \<and> (newline \<in> set (waiting (cr_pump w)) \<longrightarrow>
          ReadString [] (prompt_reader (cr_pump w)) = Inr (takeWhile (\<lambda>c. c \<noteq> newline) (waiting (cr_pump w)) @ [newline]))"
proof -
  have p: "pipe_ok (cr_pump w)" by (rule host_input.reach_ok [OF assms]) (simp add: connect_init_def new_pipe_ok)
  obtain xs ys zs where r: "pu_route (cr_pump w) = map (Pair ToShell) xs @ map (Pair ToNowhere) ys @ map (Pair ToPrompt) zs"
    "cr_phase w = Copying \<longrightarrow> ys = []" "cr_phase w \<noteq> Prompting \<longrightarrow> zs = []"
    and o: "cr_raw w = (cr_phase w \<noteq> Prompting)" "pu_dropped (cr_pump w) = []"
    using connect_reach_ok [OF assms] unfolding connect_ok_def by (elim exE conjE) (rule that)
  note g = got_route [OF r(1)]
  have "newline \<in> set (waiting (cr_pump w)) \<longrightarrow>
      ReadString [] (prompt_reader (cr_pump w)) = Inr (takeWhile (\<lambda>c. c \<noteq> newline) (waiting (cr_pump w)) @ [newline])"
    using ReadString_line [of "[]" "prompt_reader (cr_pump w)"] by (simp add: prompt_reader_unread)
  then show ?thesis using p o g r(2,3) shell_closed by (auto simp: pipe_ok_def)
qed

theorem input_routed_in_order_witness:
  "\<exists>w. connect_step\<^sup>*\<^sup>* connect_init w \<and> cr_phase w = Prompting
     \<and> pu_typed (cr_pump w) = ''exit'' @ [newline] @ ''y'' @ [newline] \<and> got ToShell (cr_pump w) = ''exit'' @ [newline]
     \<and> ReadString [] (prompt_reader (cr_pump w)) = Inr (''y'' @ [newline])"
proof -
  let ?a = "''exit'' @ [newline]" and ?b = "''y'' @ [newline]"
  let ?p1 = "(new_pump :: host_dest pump)\<lparr>pu_typed := [] @ ?a, pu_held := Some ?a\<rparr>"
  let ?p2 = "?p1\<lparr>pu_held := None, pu_ch := [] @ [?a]\<rparr>"
  let ?p3 = "?p2\<lparr>pu_typed := ([] @ ?a) @ ?b, pu_held := Some ?b\<rparr>"
  let ?p4 = "route_chunk [(ToShell, ?a)] [] ?p3"
  let ?w1 = "connect_init\<lparr>cr_pump := ?p1\<rparr>" and ?w2 = "connect_init\<lparr>cr_pump := ?p2\<rparr>" and ?w3 = "connect_init\<lparr>cr_pump := ?p3\<rparr>"
  let ?w4 = "connect_init\<lparr>cr_pump := ?p4\<rparr>"
  let ?w5 = "?w4\<lparr>cr_stop := True\<rparr>"
  let ?w6 = "?w5\<lparr>cr_phase := CopyEnded\<rparr>"
  let ?w7 = "?w6\<lparr>cr_phase := Prompting, cr_raw := False\<rparr>"
  have s1: "reader_step False (cr_pump connect_init) ?p1" using rd_read [of "cr_pump connect_init" ?a] by (simp add: connect_init_def new_pump_def)
  have s2: "reader_step False (cr_pump ?w1) ?p2" using rd_send [of ?p1 ?a] by (simp add: new_pump_def)
  have s3: "reader_step False (cr_pump ?w2) ?p3" using rd_read [of ?p2 ?b] by (simp add: new_pump_def)
  have 1: "connect_step connect_init ?w1" by (rule cn_reader [OF s1])
  have 2: "connect_step ?w1 ?w2" using cn_reader [OF s2] by simp
  have 3: "connect_step ?w2 ?w3" using cn_reader [OF s3] by simp
  have 4: "connect_step ?w3 ?w4" using cn_copy [of ?w3 ?a "[]"] by (simp add: connect_init_def)
  have 5: "connect_step ?w4 ?w5" by (rule cn_session_ends)
  have 6: "connect_step ?w5 ?w6" by (rule cn_copy_stopped) (simp_all add: connect_init_def)
  have 7: "connect_step ?w6 ?w7" by (rule cn_prompt) simp_all
  have r: "connect_step\<^sup>*\<^sup>* connect_init ?w7" using 1 2 3 4 5 6 7 by (meson r_into_rtranclp rtranclp.rtrancl_into_rtrancl)
  have p: "cr_pump ?w7 = ?p4" by simp
  have w: "waiting ?p4 = ?b" "got ToShell ?p4 = ?a" "pu_typed ?p4 = ?a @ ?b" by (simp_all add: waiting_def got_def route_chunk_def new_pump_def)
  have "newline \<in> set ?b" "takeWhile (\<lambda>c. c \<noteq> newline) ?b @ [newline] = ?b" by (simp_all add: newline_def)
  then have "ReadString [] (prompt_reader (cr_pump ?w7)) = Inr ?b"
    using input_routed_in_order [OF r] unfolding p w(1) by presburger
  then show ?thesis using r w unfolding p by (intro exI [of _ ?w7]) simp
qed

end
