(* ===== verification/Host_Commands.thy ===== *)
theory Host_Commands
  imports Connect "HOL-Library.Multiset"
begin

text \<open>
  The rest of the commands on the host: the attached terminal of \<^verbatim>\<open>container/terminal.go\<close> with the calls of \<^verbatim>\<open>container/client.go\<close> that use it, the display of a pull, the log
  readers, \<^verbatim>\<open>cmd/status.go\<close>, the cache of the embedded binary, \<^verbatim>\<open>embed/proxy/proxy.go\<close>, and the exit status of the program, \<^verbatim>\<open>main.go\<close>. Answers of the daemon, of the terminal and of the
  file system are parameters.
\<close>

section \<open>The attached terminal\<close>

datatype watch_event = ResizeSignal | WatchDone

text \<open>The number of calls of \<^verbatim>\<open>onResize\<close>.\<close>

fun watchResizeSignals :: "watch_event list \<Rightarrow> nat" where
  "watchResizeSignals [] = 0"
| "watchResizeSignals (WatchDone # es) = 0"
| "watchResizeSignals (ResizeSignal # es) = Suc (watchResizeSignals es)"

text \<open>The first size: up to five attempts, with growing pauses in milliseconds.\<close>

fun initial_size :: "nat \<Rightarrow> (nat \<times> nat) option list \<Rightarrow> (nat \<times> nat) option \<times> nat list" where
  "initial_size attempt [] = (None, [])"
| "initial_size attempt (sz # sizes) =
     (if attempt \<ge> 5 then (None, [])
      else (case sz of
              Some (w, h) \<Rightarrow> (Some (h, w), [])
            | None \<Rightarrow> (let (r, pauses) = initial_size (Suc attempt) sizes in (r, ((attempt + 1) * 20) # pauses))))"

datatype tty_event = OutputEnds "string option" | InputEnds "string option" | TtyCancelled string

text \<open>The result, \<^term>\<open>None\<close> while the session waits; after the end of the input only the output and the context count.\<close>

fun tty_wait :: "tty_event list \<Rightarrow> string option option" where
  "tty_wait [] = None"
| "tty_wait (OutputEnds err # es) = Some err"
| "tty_wait (TtyCancelled err # es) = Some (Some err)"
| "tty_wait (InputEnds err # es) = (case es of
       [] \<Rightarrow> None
     | OutputEnds err' # _ \<Rightarrow> Some err'
     | TtyCancelled err' # _ \<Rightarrow> Some (Some err')
     | InputEnds _ # _ \<Rightarrow> None)"

datatype tty_effect = RawMode | RestoreMode | ContainerWrite | WatchStopped

definition runTTYSession :: "string option \<Rightarrow> tty_event list \<Rightarrow> string option option \<times> tty_effect list" where
  "runTTYSession raw events =
     (case raw of
        Some e \<Rightarrow> (Some (Some e), [])
      | None \<Rightarrow> (tty_wait events, RawMode # (if tty_wait events = None then [] else [WatchStopped, RestoreMode])))"

text \<open>The terminal is raw exactly while the session waits.\<close>

lemma tty_restored:
  "runTTYSession raw events = (res, effs) \<Longrightarrow> (RawMode \<in> set effs \<longrightarrow> (RestoreMode \<in> set effs \<longleftrightarrow> res \<noteq> None)) \<and> (raw = None \<longleftrightarrow> RawMode \<in> set effs)"
  by (cases raw) (auto simp: runTTYSession_def split: if_splits)

definition terminalSize :: "(nat \<times> nat) option \<Rightarrow> (nat \<times> nat) option" where
  "terminalSize wh = (case wh of Some (w, h) \<Rightarrow> Some (h, w) | None \<Rightarrow> None)"

section \<open>Attached containers\<close>

datatype wait_event = ExitStatus int | WaitError string | WaitCancelled string

datatype attach_call = AttachStdio | RegisterWait | StartAttached | RunTTY | ExecCreate "string list" "(nat \<times> nat) option" | ExecAttach "(nat \<times> nat) option" | ExecInspect | CloseStream

text \<open>\<open>tty\<close> is the result of \<^verbatim>\<open>runTTYSession\<close> and \<open>ended\<close> what the last \<^verbatim>\<open>select\<close> receives.\<close>

definition AttachAndStartSession :: "string option \<Rightarrow> string option \<Rightarrow> string option \<Rightarrow> wait_event \<Rightarrow> exec_result \<times> attach_call list" where
  "AttachAndStartSession attach start tty ended =
     (case attach of Some e \<Rightarrow> (ExecError (StepFailed ''attach'' e), [AttachStdio]) | None \<Rightarrow>
     (case start of Some e \<Rightarrow> (ExecError (StepFailed ''start attached container'' e), [AttachStdio, RegisterWait, StartAttached, CloseStream]) | None \<Rightarrow>
      let calls = [AttachStdio, RegisterWait, StartAttached, RunTTY, CloseStream] in
      (case tty of Some e \<Rightarrow> (ExecError (StepFailed [] e), calls) | None \<Rightarrow>
       (case ended of
          ExitStatus code \<Rightarrow> (if code \<noteq> 0 then CommandExit code else ExecOK, calls)
        | WaitError e \<Rightarrow> (ExecError (StepFailed [] e), calls)
        | WaitCancelled e \<Rightarrow> (ExecError (StepFailed [] e), calls)))))"

definition ExecSession ::
  "(nat \<times> nat) option \<Rightarrow> string option \<Rightarrow> string option \<Rightarrow> string option \<Rightarrow> string + int \<Rightarrow> exec_result \<times> attach_call list" where
  "ExecSession wh create attach tty inspect =
     (let sz = terminalSize wh; made = ExecCreate [''/bin/bash'', ''--login''] sz in
      case create of Some e \<Rightarrow> (ExecError (StepFailed ''exec create'' e), [made]) | None \<Rightarrow>
      (case attach of Some e \<Rightarrow> (ExecError (StepFailed ''exec attach'' e), [made, ExecAttach sz]) | None \<Rightarrow>
      (case tty of Some e \<Rightarrow> (ExecError (StepFailed [] e), [made, ExecAttach sz, RunTTY, CloseStream]) | None \<Rightarrow>
       (case inspect of
          Inl e \<Rightarrow> (ExecError (StepFailed [] e), [made, ExecAttach sz, RunTTY, ExecInspect, CloseStream])
        | Inr code \<Rightarrow> (if code \<noteq> 0 then CommandExit code else ExecOK, [made, ExecAttach sz, RunTTY, ExecInspect, CloseStream])))))"

text \<open>The wait is registered before the start, so that a container that exits at once is not missed, and an opened stream is closed.\<close>

lemma attach_order:
  "snd (AttachAndStartSession attach start tty ended) = a @ StartAttached # b \<Longrightarrow> RegisterWait \<in> set a \<and> AttachStdio \<in> set a \<and> CloseStream \<in> set b"
  by (auto simp: AttachAndStartSession_def Let_def Cons_eq_append_conv split: option.splits wait_event.splits)

section \<open>The program\<close>

definition main_args :: "string \<Rightarrow> string \<Rightarrow> string list \<Rightarrow> string list" where
  "main_args self base args = (if base = ''vibed'' then [self, ''vibed''] else args)"

definition main_exit :: "exec_result \<Rightarrow> int" where
  "main_exit r = (case r of ExecOK \<Rightarrow> 0 | CommandExit code \<Rightarrow> code | ExecError e \<Rightarrow> 1)"

text \<open>The status of what runs in the sandbox is the status of the program.\<close>

lemma exit_status_passes:
  "fst conn = Inr c \<Longrightarrow> run (buildRemoteCommand args) = Inr status \<Longrightarrow> main_exit (ExecAction conn None None run args) = uint status"
  "main_exit (fst (AttachAndStartSession None None None (ExitStatus code))) = code"
  "main_exit (fst (ExecSession wh None None None (Inr code))) = code"
  by (simp_all add: ExecAction_def main_exit_def AttachAndStartSession_def ExecSession_def Let_def)

section \<open>Progress of a pull\<close>

text \<open>A message of the stream: an error, or the identifier of a layer with its progress, if any.\<close>

record pull_message =
  pm_Error :: "string option"
  pm_ID :: string
  pm_Progress :: "(int \<times> int) option"

text \<open>
  \<^verbatim>\<open>%.1f\<close> of a quotient by a power of two, which is exact as a floating point number below \<open>2 ^ 53\<close>: tenths, rounded to even.
\<close>

definition round_even :: "nat \<Rightarrow> nat \<Rightarrow> nat" where
  "round_even n d = (let q = n div d; r = n mod d in if 2 * r < d then q else if 2 * r > d then q + 1 else if even q then q else q + 1)"

definition one_decimal :: "nat \<Rightarrow> nat \<Rightarrow> string" where
  "one_decimal n d = (let t = round_even (10 * n) d in show_nat (t div 10) @ ''.'' @ show_nat (t mod 10))"

definition humanBytes :: "int \<Rightarrow> string" where
  "humanBytes b =
     (if b \<ge> 1073741824 then one_decimal (nat b) 1073741824 @ '' GB''
      else if b \<ge> 1048576 then one_decimal (nat b) 1048576 @ '' MB''
      else if b \<ge> 1024 then one_decimal (nat b) 1024 @ '' KB''
      else show_int b @ '' B'')"

text \<open>The layers of the map, and what the display writes; \<open>pct\<close> is the quotient in floating point. The result is the error of the stream, if it has one.\<close>

definition clear_line :: string where "clear_line = [CHR 0x0D, CHR 0x1B] @ ''[K''"

definition progress_line :: "(int \<Rightarrow> int \<Rightarrow> int) \<Rightarrow> (string \<times> int \<times> int) list \<Rightarrow> string option" where
  "progress_line pct layers =
     (let currentBytes = sum_list (map (\<lambda>(i, c, t). c) layers); totalBytes = sum_list (map (\<lambda>(i, c, t). t) layers) in
      if currentBytes = 0 \<and> totalBytes = 0 then None
      else Some (clear_line @ (if totalBytes > 0
             then ''             '' @ humanBytes currentBytes @ '' / '' @ humanBytes totalBytes @ '', '' @ show_int (min (pct currentBytes totalBytes) 100) @ ''%''
             else ''             '' @ humanBytes currentBytes)))"

fun pull_display :: "(int \<Rightarrow> int \<Rightarrow> int) \<Rightarrow> bool \<Rightarrow> (string \<times> int \<times> int) list \<Rightarrow> bool \<Rightarrow> (string + pull_message) list \<Rightarrow> string option \<times> string list" where
  "pull_display pct tty layers wrote [] = (None, if tty \<and> wrote then [clear_line @ ''             done'' @ [newline]] else [])"
| "pull_display pct tty layers wrote (Inl e # ms) = (Some e, [])"
| "pull_display pct tty layers wrote (Inr m # ms) =
     (case pm_Error m of
        Some e \<Rightarrow> (Some e, [])
      | None \<Rightarrow>
          if pm_ID m = [] then pull_display pct tty layers wrote ms
          else (case pm_Progress m of
            None \<Rightarrow> pull_display pct tty layers wrote ms
          | Some p \<Rightarrow>
              let layers = (pm_ID m, p) # filter (\<lambda>l. fst l \<noteq> pm_ID m) layers in
              if \<not> tty then pull_display pct tty layers wrote ms
              else (case progress_line pct layers of
                None \<Rightarrow> pull_display pct tty layers wrote ms
              | Some line \<Rightarrow> (let (e, out) = pull_display pct tty layers True ms in (e, line # out)))))"

text \<open>The display decides nothing: its result is that of \<open>displayPullProgress\<close> in \<open>Container\<close>, and without a terminal it writes nothing.\<close>

fun pull_event_of :: "string + pull_message \<Rightarrow> pull_event" where
  "pull_event_of (Inl e) = PullGarbled e"
| "pull_event_of (Inr m) = (case pm_Error m of Some e \<Rightarrow> PullError e | None \<Rightarrow> PullProgress)"

lemma pull_display_result: "fst (pull_display pct tty layers wrote ms) = displayPullProgress (map pull_event_of ms)"
proof (induction ms arbitrary: layers wrote)
  case (Cons m ms)
  then show ?case by (cases m) (auto simp: Let_def case_prod_unfold split: option.splits)
qed simp

lemma pull_display_quiet: "snd (pull_display pct False layers wrote ms) = []"
proof (induction ms arbitrary: layers wrote)
  case (Cons m ms)
  then show ?case by (cases m) (auto simp: Let_def case_prod_unfold split: option.splits)
qed simp

section \<open>Logs and start times\<close>

definition ContainerLogs :: "string + (string + string) \<Rightarrow> string + string" where
  "ContainerLogs opened = (case opened of Inl e \<Rightarrow> Inl e | Inr (Inl e) \<Rightarrow> Inl e | Inr (Inr text) \<Rightarrow> Inr text)"

text \<open>What a follower copies before the stream ends or fails.\<close>

definition StreamLogs :: "string + string \<times> string option \<Rightarrow> string option \<times> string" where
  "StreamLogs opened = (case opened of Inl e \<Rightarrow> (Some e, []) | Inr (bytes, err) \<Rightarrow> (err, bytes))"

text \<open>\<open>started\<close> is the text of \<^verbatim>\<open>State.StartedAt\<close>, if the container can be inspected and has a state, and \<open>parse\<close> is \<^verbatim>\<open>time.Parse\<close>; \<^term>\<open>None\<close> is the zero time.\<close>

definition ContainerStartedAt :: "string option \<Rightarrow> (string \<Rightarrow> int option) \<Rightarrow> int option" where
  "ContainerStartedAt started parse = (case started of None \<Rightarrow> None | Some s \<Rightarrow> parse s)"

section \<open>The command status\<close>

text \<open>\<^verbatim>\<open>Duration.String\<close> on whole seconds.\<close>

definition duration_text :: "nat \<Rightarrow> string" where
  "duration_text s =
     (let h = s div 3600; m = s div 60 mod 60; r = s mod 60 in
      (if h > 0 then show_nat h @ ''h'' @ show_nat m @ ''m'' else if m > 0 then show_nat m @ ''m'' else []) @ show_nat r @ ''s'')"

datatype status_line = Field string string | Heading string | Warning string | BlankLine

record status_env =
  sx_host :: host_env
  sx_started :: "string \<Rightarrow> int option"
  sx_now :: int
  sx_HOME :: string
  sx_verbose :: bool

definition container_line :: "status_env \<Rightarrow> SessionContainer \<Rightarrow> status_line" where
  "container_line sx c =
     (let status = ContainerStatus (he_api (sx_host sx)) (sn_ID c);
          status = (case sx_started sx (sn_ID c) of
                      Some t \<Rightarrow> status @ '': '' @ sn_Name c @ '' (up '' @ duration_text (nat ((sx_now sx - t) div 1000000000)) @ '')''
                    | None \<Rightarrow> status)
      in Field (if sn_Role c = RoleProxy then ''Proxy'' else ''Sandbox'') status)"

definition port_addr :: "int act \<Rightarrow> string" where
  "port_addr port = (case fst port of Inr p \<Rightarrow> ''127.0.0.1:'' @ show_int p | Inl _ \<Rightarrow> ''N/A'')"

definition printSessionStatus :: "status_env \<Rightarrow> string \<Rightarrow> string \<Rightarrow> host_error option \<times> status_line list" where
  "printSessionStatus sx sessionID projectDir =
     (let api = he_api (sx_host sx); pre = [Field ''Session'' sessionID, Field ''Project'' projectDir] in
      case fst (SessionContainers api sessionID) of
        Inl e \<Rightarrow> (Some e, pre)
      | Inr containers \<Rightarrow>
          let proxyID = fst (FindProxyContainerID api sessionID);
              apiAddr = (case proxyID of Inr p \<Rightarrow> port_addr (FindControlPort api p) | Inl _ \<Rightarrow> ''N/A'');
              sshAddr = (case proxyID of Inr p \<Rightarrow> port_addr (FindPublishedPort api p SSHContainerPort) | Inl _ \<Rightarrow> ''N/A'')
          in (None, pre @ map (container_line sx) containers @ (if sx_verbose sx then [Field ''API'' apiAddr, Field ''SSH'' sshAddr] else [])))"

fun print_projects :: "status_env \<Rightarrow> string \<Rightarrow> ProxySession list \<Rightarrow> host_error option \<times> status_line list" where
  "print_projects sx projectRoot [] = (None, [])"
| "print_projects sx projectRoot (s # ss) =
     (if ps_ProjectDir s = projectRoot
      then (case printSessionStatus sx (ps_SessionID s) projectRoot of
              (Some e, out) \<Rightarrow> (Some e, Heading ''This project:'' # out)
            | (None, out) \<Rightarrow> (let (e, out') = print_projects sx projectRoot ss in (e, Heading ''This project:'' # out @ out')))
      else print_projects sx projectRoot ss)"

fun print_others :: "status_env \<Rightarrow> nat \<Rightarrow> ProxySession list \<Rightarrow> host_error option \<times> status_line list" where
  "print_others sx i [] = (None, [])"
| "print_others sx i (s # ss) =
     (let gap = (if i > 0 then [BlankLine] else []) in
      case printSessionStatus sx (ps_SessionID s) (ps_ProjectDir s) of
        (Some e, out) \<Rightarrow> (Some e, gap @ out)
      | (None, out) \<Rightarrow> (let (e, out') = print_others sx (Suc i) ss in (e, gap @ out @ out')))"

definition StatusAction :: "status_env \<Rightarrow> host_error option \<times> status_line list" where
  "StatusAction sx =
     (case fst (NewClient (he_daemon (sx_host sx))) of Inl e \<Rightarrow> (Some e, []) | Inr _ \<Rightarrow>
     (case fst (ListProxySessions (he_api (sx_host sx))) of Inl e \<Rightarrow> (Some e, []) | Inr sessions \<Rightarrow>
      let projectRoot = (case fst (resolveProjectRoot (sx_host sx)) of Inr r \<Rightarrow> r | Inl _ \<Rightarrow> []) in
      if sessions = [] then (None, [Warning ''No active sessions''])
      else (case print_projects sx projectRoot sessions of
              (Some e, out) \<Rightarrow> (Some e, out)
            | (None, out) \<Rightarrow>
                let others = filter (\<lambda>s. ps_ProjectDir s \<noteq> projectRoot) sessions;
                    hasProjectSession = (\<exists>s \<in> set sessions. ps_ProjectDir s = projectRoot);
                    isHome = (sx_HOME sx = projectRoot);
                    mid = (if others = [] then []
                           else (if \<not> hasProjectSession \<and> \<not> isHome then [Warning (''No active session for '' @ projectRoot)] else [])
                             @ (if \<not> isHome then [BlankLine, Heading ''Other projects:''] else []));
                    (e, out') = print_others sx 0 others
                in (e, out @ mid @ out'))))"

definition sessions_of :: "status_line list \<Rightarrow> string list" where
  "sessions_of out = concat (map (\<lambda>l. case l of Field k v \<Rightarrow> if k = ''Session'' then [v] else [] | _ \<Rightarrow> []) out)"

lemma sessions_of_append [simp]: "sessions_of (a @ b) = sessions_of a @ sessions_of b"
  by (simp add: sessions_of_def)

lemma sessions_of_simps [simp]:
  "sessions_of [] = []" "sessions_of (Heading h # out) = sessions_of out" "sessions_of (BlankLine # out) = sessions_of out"
  "sessions_of (Warning h # out) = sessions_of out" "sessions_of (Field k v # out) = (if k = ''Session'' then [v] else []) @ sessions_of out"
  by (simp_all add: sessions_of_def)

lemma printed_session: "fst (printSessionStatus sx sid dir) = None \<Longrightarrow> sessions_of (snd (printSessionStatus sx sid dir)) = [sid]"
proof -
  have "sessions_of (map (container_line sx) cs) = []" for cs
    by (induction cs) (simp_all add: container_line_def Let_def)
  then show "fst (printSessionStatus sx sid dir) = None \<Longrightarrow> sessions_of (snd (printSessionStatus sx sid dir)) = [sid]"
    by (auto simp: printSessionStatus_def Let_def split: sum.splits if_splits)
qed

lemma print_projects_sessions:
  "fst (print_projects sx root ss) = None \<Longrightarrow> sessions_of (snd (print_projects sx root ss)) = map ps_SessionID (filter (\<lambda>s. ps_ProjectDir s = root) ss)"
  by (induction ss) (auto simp: case_prod_unfold Let_def printed_session split: option.splits if_splits)

lemma print_others_sessions:
  "fst (print_others sx i ss) = None \<Longrightarrow> sessions_of (snd (print_others sx i ss)) = map ps_SessionID ss"
  by (induction ss arbitrary: i) (auto simp: case_prod_unfold Let_def printed_session split: option.splits if_splits)

text \<open>\<^verbatim>\<open>status\<close> without an error shows every running session exactly once, those of the project first.\<close>

lemma status_lists_sessions:
  assumes "StatusAction sx = (None, out)" "fst (ListProxySessions (he_api (sx_host sx))) = Inr sessions"
  shows "\<exists>root. sessions_of out = map ps_SessionID (filter (\<lambda>s. ps_ProjectDir s = root) sessions @ filter (\<lambda>s. ps_ProjectDir s \<noteq> root) sessions)"
    and "mset (sessions_of out) = mset (map ps_SessionID sessions)"
proof -
  let ?root = "case fst (resolveProjectRoot (sx_host sx)) of Inr r \<Rightarrow> r | Inl _ \<Rightarrow> []"
  have s: "sessions_of out = map ps_SessionID (filter (\<lambda>s. ps_ProjectDir s = ?root) sessions @ filter (\<lambda>s. ps_ProjectDir s \<noteq> ?root) sessions)"
  proof (cases "sessions = []")
    case True
    then show ?thesis using assms by (auto simp: StatusAction_def Let_def split: sum.splits)
  next
    case False
    let ?p = "print_projects sx ?root sessions" and ?o = "print_others sx 0 (filter (\<lambda>s. ps_ProjectDir s \<noteq> ?root) sessions)"
    have "fst ?p = None" "fst ?o = None" "sessions_of out = sessions_of (snd ?p) @ sessions_of (snd ?o)"
      using assms False by (auto simp: StatusAction_def Let_def case_prod_unfold split: sum.splits option.splits if_splits)
    then show ?thesis using print_projects_sessions [of sx ?root sessions] print_others_sessions [of sx 0 "filter (\<lambda>s. ps_ProjectDir s \<noteq> ?root) sessions"] by simp
  qed
  then show "\<exists>root. sessions_of out = map ps_SessionID (filter (\<lambda>s. ps_ProjectDir s = root) sessions @ filter (\<lambda>s. ps_ProjectDir s \<noteq> root) sessions)" by blast
  show "mset (sessions_of out) = mset (map ps_SessionID sessions)"
    unfolding s by (simp only: map_append mset_append mset_map mset_filter image_mset_union [symmetric]) (simp add: multiset_partition [symmetric])
qed

section \<open>Default paths\<close>

definition ConfigDirName :: string where "ConfigDirName = ''vibepit''"

definition DefaultGlobalPath :: "string \<Rightarrow> string \<Rightarrow> string" where
  "DefaultGlobalPath configHome home =
     path_join (path_join (if configHome = [] then path_join home ''.cache'' else configHome) ConfigDirName) ''config.yaml''"

definition DefaultProjectPath :: "string \<Rightarrow> string" where
  "DefaultProjectPath projectRoot = path_join (path_join projectRoot ProjectConfigDirName) ''network.yaml''"

text \<open>The file of the user and that of a project are never the same.\<close>

lemma config_paths_differ: "DefaultGlobalPath configHome home \<noteq> DefaultProjectPath projectRoot"
proof -
  have "take 6 (rev (path_join x ''config.yaml'')) = ''lmay.g''" "take 6 (rev (path_join x ''network.yaml'')) = ''lmay.k''" for x
    by (simp_all add: path_join_def)
  moreover have "''lmay.g'' \<noteq> ''lmay.k''" by simp
  ultimately show ?thesis unfolding DefaultGlobalPath_def DefaultProjectPath_def by metis
qed

section \<open>The embedded binary\<close>

text \<open>\<open>hash\<close> is SHA-256 in hexadecimal; \<open>stat\<close>, \<open>mkdir\<close> and \<open>write\<close> are the file operations. The second part of the result is what is written.\<close>

definition cachedBinary ::
  "(string \<Rightarrow> string) \<Rightarrow> (string \<Rightarrow> bool) \<Rightarrow> string option \<Rightarrow> string option \<Rightarrow> string \<Rightarrow> string \<Rightarrow> (string + string) \<times> (string \<times> string) option" where
  "cachedBinary hash stat mkdir write data dir =
     (let path = path_join dir (''vibepit-'' @ take 12 (hash data)) in
      if stat path then (Inr path, None)
      else (case mkdir of Some e \<Rightarrow> (Inl (''create cache dir: '' @ e), None) | None \<Rightarrow>
           (case write of Some e \<Rightarrow> (Inl (''write cached binary: '' @ e), Some (path, data)) | None \<Rightarrow> (Inr path, Some (path, data)))))"

definition CachedProxyBinary ::
  "string option \<Rightarrow> string \<Rightarrow> string + string \<Rightarrow> (string \<Rightarrow> string \<Rightarrow> (string + string) \<times> (string \<times> string) option) \<Rightarrow> (string + string) \<times> (string \<times> string) option" where
  "CachedProxyBinary embedded cacheHome userCache cached =
     (case embedded of None \<Rightarrow> (Inl ''no embedded Linux binary found'', None) | Some data \<Rightarrow>
      if cacheHome \<noteq> [] then cached data (path_join (path_join cacheHome ''vibepit'') ''bin'')
      else (case userCache of Inl e \<Rightarrow> (Inl (''cache dir: '' @ e), None) | Inr dir \<Rightarrow> cached data (path_join (path_join dir ''vibepit'') ''bin'')))"

text \<open>
  The name of the file has the hash of the content that it should have. A file of that name is taken without a look at its content, whatever
  it holds, for instance after a write that was cut.
\<close>

lemma cached_binary_unchecked:
  assumes "cachedBinary hash stat None (Some e) data dir = (Inl err, Some (path, data))" and "stat' path"
  shows "cachedBinary hash stat' mkdir write data dir = (Inr path, None)"
  using assms by (auto simp: cachedBinary_def Let_def split: if_splits)

end
